(* ===== verification/Prelude.thy ===== *)
theory Prelude
  imports Main "HOL-Library.Word"
begin

text \<open>
  Shared ground of the AlmaOS development: the machine integers of the C sources, byte strings,
  little-endian field access, the port-mapped devices as an explicit parameter, and the word and
  list lemmas that several components use.
\<close>

unbundle bit_operations_syntax

section \<open>Types of the C sources\<close>

type_synonym u8 = "8 word"
type_synonym u16 = "16 word"
type_synonym u32 = "32 word"
type_synonym u64 = "64 word"

text \<open>A C string literal as the bytes it compiles to (without the terminator).\<close>

definition bytes :: "string \<Rightarrow> u8 list" where
  "bytes s = map of_char s"

text \<open>Collections: facts that evaluate a component's state, and facts that keep an invariant.\<close>

named_theorems state_simps
named_theorems inv_intros
named_theorems word_nat_simps

section \<open>Port-mapped devices\<close>

text \<open>
  The instructions behind \<open>inb\<close> and \<open>outb\<close> (include/io.h) reach hardware that is not part of the
  repository. A device is therefore a parameter: how it answers a read, how it absorbs a write,
  over a device state of any type.
\<close>

record 'd hw =
  hw_in :: "'d \<Rightarrow> u16 \<Rightarrow> u8 \<times> 'd"
  hw_out :: "'d \<Rightarrow> u16 \<Rightarrow> u8 \<Rightarrow> 'd"

definition inb :: "'d hw \<Rightarrow> u16 \<Rightarrow> 'd \<Rightarrow> u8 \<times> 'd" where
  "inb hw port d = hw_in hw d port"

definition outb :: "'d hw \<Rightarrow> u16 \<Rightarrow> u8 \<Rightarrow> 'd \<Rightarrow> 'd" where
  "outb hw port val d = hw_out hw d port val"

text \<open>
  A recording device, used to state what a driver writes: reads are answered by a fixed function
  of the port, and every write is appended to the log.
\<close>

type_synonym port_log = "(u16 \<times> u8) list"

definition rec_hw :: "(u16 \<Rightarrow> u8) \<Rightarrow> port_log hw" where
  "rec_hw ans = \<lparr>hw_in = (\<lambda>l p. (ans p, l)), hw_out = (\<lambda>l p v. l @ [(p, v)])\<rparr>"

lemma inb_rec_hw [simp]: "inb (rec_hw ans) p l = (ans p, l)"
  by (simp add: inb_def rec_hw_def)

lemma outb_rec_hw [simp]: "outb (rec_hw ans) p v l = l @ [(p, v)]"
  by (simp add: outb_def rec_hw_def)

section \<open>Little-endian fields of packed structs\<close>

definition get16 :: "u8 list \<Rightarrow> nat \<Rightarrow> u16" where
  "get16 bs i = ucast (bs ! i) OR push_bit 8 (ucast (bs ! (i + 1)))"

definition get32 :: "u8 list \<Rightarrow> nat \<Rightarrow> u32" where
  "get32 bs i = ucast (get16 bs i) OR push_bit 16 (ucast (get16 bs (i + 2)))"

definition put16 :: "u16 \<Rightarrow> u8 list" where
  "put16 w = [ucast w, ucast (drop_bit 8 w)]"

definition put32 :: "u32 \<Rightarrow> u8 list" where
  "put32 w = put16 (ucast w) @ put16 (ucast (drop_bit 16 w))"

lemma length_put16 [simp]: "length (put16 w) = 2"
  by (simp add: put16_def)

lemma length_put32 [simp]: "length (put32 w) = 4"
  by (simp add: put32_def)

lemma join16: "(ucast (ucast w :: u8) :: u16) OR push_bit 8 (ucast (ucast (drop_bit 8 w) :: u8)) = w"
  by (rule bit_word_eqI) (auto simp: bit_simps)

lemma join32: "(ucast (ucast w :: u16) :: u32) OR push_bit 16 (ucast (ucast (drop_bit 16 w) :: u16)) = w"
  by (rule bit_word_eqI) (auto simp: bit_simps)

lemma get16_put16: "get16 (xs @ put16 w @ ys) (length xs) = w"
  by (simp add: get16_def put16_def nth_append join16)

lemma get32_put32: "get32 (xs @ put32 w @ ys) (length xs) = w"
proof -
  have hi: "get16 (xs @ put16 (ucast w) @ put16 (ucast (drop_bit 16 w)) @ ys) (length xs + 2)
      = ucast (drop_bit 16 w)"
    using get16_put16 [of "xs @ put16 (ucast w)" "ucast (drop_bit 16 w)" ys] by simp
  have lo: "get16 (xs @ put16 (ucast w) @ put16 (ucast (drop_bit 16 w)) @ ys) (length xs)
      = ucast w"
    using get16_put16 [of xs "ucast w" "put16 (ucast (drop_bit 16 w)) @ ys"] by simp
  show ?thesis
    using hi lo by (simp add: get32_def put32_def join32)
qed

section \<open>Words read as naturals\<close>

lemma unat_ucast_up8_16 [word_nat_simps]: "unat (ucast (x :: u8) :: u16) = unat x"
  by (simp add: unsigned_ucast_eq take_bit_nat_eq_self order_less_le_trans [OF unsigned_less])

lemma unat_ucast_up8_32 [word_nat_simps]: "unat (ucast (x :: u8) :: u32) = unat x"
  by (simp add: unsigned_ucast_eq take_bit_nat_eq_self order_less_le_trans [OF unsigned_less])

lemma unat_ucast_up16_32 [word_nat_simps]: "unat (ucast (x :: u16) :: u32) = unat x"
  by (simp add: unsigned_ucast_eq take_bit_nat_eq_self order_less_le_trans [OF unsigned_less])

lemma unat_ucast_up32_64 [word_nat_simps]: "unat (ucast (x :: u32) :: u64) = unat x"
  by (simp add: unsigned_ucast_eq take_bit_nat_eq_self order_less_le_trans [OF unsigned_less])

lemma unat_u8_less: "unat (x :: u8) < 256"
  using unsigned_less [of x, where ?'a = nat] by simp

lemma unat_u16_less: "unat (x :: u16) < 65536"
  using unsigned_less [of x, where ?'a = nat] by simp

lemma unat_u32_less: "unat (x :: u32) < 4294967296"
  using unsigned_less [of x, where ?'a = nat] by simp

lemma uint_u32_less: "uint (x :: u32) < 4294967296"
  using unsigned_less [of x, where ?'a = int] by simp

lemma uint_u64_less: "uint (x :: u64) < 18446744073709551616"
  using unsigned_less [of x, where ?'a = int] by simp

lemma unat_of_nat_word: "n < 2 ^ LENGTH('a) \<Longrightarrow> unat (of_nat n :: 'a::len word) = n"
  by (simp add: unsigned_of_nat take_bit_nat_eq_self)

lemma of_nat_word_inj:
  "i < 2 ^ LENGTH('a) \<Longrightarrow> j < 2 ^ LENGTH('a) \<Longrightarrow>
     (of_nat i :: 'a::len word) = of_nat j \<longleftrightarrow> i = j"
  by (metis unat_of_nat_word)

lemma unat_word_sub: "y \<le> x \<Longrightarrow> unat (x - y) = unat x - unat y" for x y :: "'a::len word"
  by (simp add: unat_sub)

lemma word_of_unat: "unat w = n \<Longrightarrow> w = of_nat n" for w :: "'a::len word"
  by auto

text \<open>A statement about every byte, decided by looking at all 256 of them.\<close>

definition all_bytes :: "u8 list" where
  "all_bytes = map of_nat [0..<256]"

lemma in_all_bytes: "(w :: u8) \<in> set all_bytes"
proof -
  have "w = of_nat (unat w)" "unat w \<in> set [0..<256]"
    using unat_u8_less by simp_all
  then show ?thesis unfolding all_bytes_def by (metis image_eqI list.set_map)
qed

lemma all_u8: "list_all P all_bytes \<Longrightarrow> P w"
  using in_all_bytes by (auto simp: list_all_iff)

lemma u8_sign_bit: "(w :: u8) AND 0x80 = 0 \<longleftrightarrow> unat w < 128"
proof -
  have "w AND 0x80 = 0 \<longleftrightarrow> \<not> bit (unat w) 7"
    using and_exp_eq_0_iff_not_bit [of w 7] by (simp add: bit_unsigned_iff)
  also have "\<dots> \<longleftrightarrow> unat w < 128"
  proof -
    have "unat w div 128 = 0 \<or> unat w div 128 = 1"
      using unat_u8_less [of w] by linarith
    then show ?thesis by (auto simp: bit_iff_odd)
  qed
  finally show ?thesis .
qed

lemma u8_low7: "unat ((w :: u8) AND 0x7F) = unat w mod 128"
proof -
  have "(0x7F :: u8) = mask 7" by (simp add: mask_eq_exp_minus_1)
  then have "w AND 0x7F = take_bit 7 w" by (simp add: take_bit_eq_mask)
  then show ?thesis by (simp only: unsigned_take_bit_eq) (simp add: take_bit_eq_mod)
qed

lemma unat_and_not_mask:
  fixes x :: "'a::len word"
  shows "unat (x AND NOT (mask n)) = unat x div 2 ^ n * 2 ^ n"
proof -
  have "x AND NOT (mask n) = push_bit n (drop_bit n x)"
    by (rule bit_word_eqI) (auto simp: bit_simps)
  then have "unat (x AND NOT (mask n)) = take_bit LENGTH('a) (push_bit n (drop_bit n (unat x)))"
    by (simp only: unsigned_push_bit_eq unsigned_drop_bit_eq take_bit_push_bit take_bit_take_bit min.idem)
       (simp add: take_bit_push_bit take_bit_nat_eq_self)
  moreover have "unat x div 2 ^ n * 2 ^ n < 2 ^ LENGTH('a)"
    by (rule le_less_trans [OF _ unsigned_less [of x]]) simp
  ultimately show ?thesis
    by (simp add: push_bit_eq_mult drop_bit_eq_div take_bit_nat_eq_self)
qed

lemma uint_cmp [word_nat_simps]:
  fixes x y :: "'a::len word"
  shows "uint x = uint y \<longleftrightarrow> x = y" "uint x = 0 \<longleftrightarrow> x = 0" "0 < uint x \<longleftrightarrow> x \<noteq> 0"
    "uint x < uint y \<longleftrightarrow> x < y"
  by (simp_all add: word_less_def uint_0_iff order_less_le) (auto simp: word_uint_eq_iff)

section \<open>Lists\<close>

text \<open>Indices that wrap once around a ring of \<open>K\<close> slots.\<close>

lemma ring_wrap: "x < 2 * K \<Longrightarrow> x mod K = (if x < K then x else x - K)" for x K :: nat
  by (auto simp: le_mod_geq)

lemma ring_slot:
  fixes h t i K :: nat
  assumes "h < K" "t < K" "i \<le> (if t \<le> h then h - t else h + K - t)"
  shows "(t + i) mod K = h \<longleftrightarrow> i = (if t \<le> h then h - t else h + K - t)"
proof -
  have "t + i < 2 * K" using assms by (auto split: if_splits)
  then show ?thesis using assms by (auto simp: ring_wrap split: if_splits)
qed

text \<open>Writing a block of bytes over the front of a buffer, as a disk transfer does.\<close>

definition blit :: "'a list \<Rightarrow> 'a list \<Rightarrow> 'a list" where
  "blit src dst = src @ drop (length src) dst"

lemma length_blit: "length src \<le> length dst \<Longrightarrow> length (blit src dst) = length dst"
  by (simp add: blit_def)

lemma blit_full: "length src = length dst \<Longrightarrow> blit src dst = src"
  by (simp add: blit_def)

end
