(* ===== verification/Cpu.thy ===== *)
theory Cpu
  imports Prelude
begin

text \<open>
  The registers of the processor as the assembly files of the repository use them: 32-bit general
  registers with their 16-bit and 8-bit parts, segment registers, the flags, control register 0 and
  the two descriptor table registers. Each instruction the assembly needs is a function on a register.
\<close>

unbundle bit_operations_syntax

section \<open>Registers\<close>

record cpu =
  c_eax :: u32
  c_ebx :: u32
  c_ecx :: u32
  c_edx :: u32
  c_esi :: u32
  c_edi :: u32
  c_ebp :: u32
  c_esp :: u32
  c_eip :: u32
  c_cs :: u16
  c_ds :: u16
  c_es :: u16
  c_fs :: u16
  c_gs :: u16
  c_ss :: u16
  c_eflags :: u32
  c_cr0 :: u32
  c_gdtr :: "u16 \<times> u32"
  c_idtr :: "u16 \<times> u32"

text \<open>The parts of a general register: AX, AL and AH of EAX.\<close>

definition low16 :: "u32 \<Rightarrow> u16" where "low16 r = ucast r"
definition low8 :: "u32 \<Rightarrow> u8" where "low8 r = ucast r"
definition high8 :: "u32 \<Rightarrow> u8" where "high8 r = ucast (drop_bit 8 r)"

definition set_low16 :: "u16 \<Rightarrow> u32 \<Rightarrow> u32" where
  "set_low16 v r = (r AND 0xFFFF0000) OR ucast v"

definition set_low8 :: "u8 \<Rightarrow> u32 \<Rightarrow> u32" where
  "set_low8 v r = (r AND 0xFFFFFF00) OR ucast v"

definition set_high8 :: "u8 \<Rightarrow> u32 \<Rightarrow> u32" where
  "set_high8 v r = (r AND 0xFFFF00FF) OR push_bit 8 (ucast v)"

text \<open>The carry flag, and the idiom that turns it into a result: \<open>mov ax, 1\<close> and \<open>sbb ax, 0\<close>.\<close>

definition carry :: "cpu \<Rightarrow> bool" where "carry c \<longleftrightarrow> bit (c_eflags c) 0"

definition stc :: "cpu \<Rightarrow> cpu" where "stc c = c\<lparr>c_eflags := c_eflags c OR 1\<rparr>"
definition clc :: "cpu \<Rightarrow> cpu" where "clc c = c\<lparr>c_eflags := c_eflags c AND NOT 1\<rparr>"

definition sbb_ax_0 :: "cpu \<Rightarrow> cpu" where
  "sbb_ax_0 c = c\<lparr>c_eax := set_low16 (low16 (c_eax c) - (if carry c then 1 else 0)) (c_eax c)\<rparr>"

text \<open>\<open>div r32\<close>: EDX:EAX by the operand; \<open>None\<close> is the divide error.\<close>

definition div32 :: "u32 \<Rightarrow> u32 \<Rightarrow> u32 \<Rightarrow> (u32 \<times> u32) option" where
  "div32 edx eax d =
     (let n = push_bit 32 (ucast edx) OR (ucast eax :: u64) in
      if d = 0 \<or> n div ucast d > 0xFFFFFFFF then None
      else Some (ucast (n div ucast d), ucast (n mod ucast d)))"

section \<open>Parts of registers\<close>

lemma low16_mask: "(0xFFFF0000 :: u32) = NOT (mask 16)" "(0xFFFFFF00 :: u32) = NOT (mask 8)"
  "(0xFFFF00FF :: u32) = NOT (push_bit 8 (mask 8))"
  by (simp_all add: mask_eq_exp_minus_1)

lemma register_parts [simp]:
  "low16 (set_low16 v r) = v" "low8 (set_low8 b r) = b" "high8 (set_high8 b r) = b"
  "low8 (set_high8 b r) = low8 r" "high8 (set_low8 b r) = high8 r"
  "low8 (set_low16 v r) = ucast v" "high8 (set_low16 v r) = ucast (drop_bit 8 v)"
  unfolding low16_def low8_def high8_def set_low16_def set_low8_def set_high8_def low16_mask
  by (rule bit_word_eqI; force simp: bit_simps dest: bit_imp_le_length)+

lemma low16_parts: "low16 r = ucast (low8 r) OR push_bit 8 (ucast (high8 r))"
  unfolding low16_def low8_def high8_def
  by (rule bit_word_eqI) (auto simp: bit_simps)

lemma carry_stc [simp]: "carry (stc c)" "\<not> carry (clc c)"
  by (simp_all add: carry_def stc_def clc_def bit_simps)

lemma sbb_ax_0_result:
  "low16 (c_eax (sbb_ax_0 (c\<lparr>c_eax := set_low16 1 r\<rparr>))) = (if carry c then 0 else 1)"
  by (simp add: sbb_ax_0_def carry_def)

lemma div32_nat:
  assumes "edx < d"
  shows "div32 edx eax d = Some (ucast ((push_bit 32 (ucast edx) OR (ucast eax :: u64)) div ucast d),
     ucast ((push_bit 32 (ucast edx) OR (ucast eax :: u64)) mod ucast d))"
    "unat ((push_bit 32 (ucast edx) OR (ucast eax :: u64)) div ucast d) < 4294967296"
proof -
  let ?n = "push_bit 32 (ucast edx) OR (ucast eax :: u64)"
  have "push_bit 32 (ucast edx) OR (ucast eax :: u64) = push_bit 32 (ucast edx) + ucast eax"
    by (rule disjunctive_add [symmetric]) (auto simp: bit_simps dest: bit_imp_le_length)
  moreover have "unat (push_bit 32 (ucast edx) :: u64) = unat edx * 4294967296"
    using unat_u32_less [of edx] by (simp add: push_bit_eq_mult unat_word_ariths unat_ucast_up32_64)
  moreover have "unat edx * 4294967296 + unat eax < 18446744073709551616"
    using unat_u32_less [of edx] unat_u32_less [of eax] by linarith
  ultimately have n: "unat ?n = unat edx * 4294967296 + unat eax"
    by (simp add: unat_word_ariths unat_ucast_up32_64)
  have lt: "unat edx + 1 \<le> unat d" using assms by (simp add: word_less_nat_alt)
  have "(unat edx + 1) * 4294967296 \<le> unat d * 4294967296" using lt by (rule mult_right_mono) simp
  then have "unat ?n < 4294967296 * unat d" using unat_u32_less [of eax] n by (simp add: algebra_simps)
  then have "unat ?n div unat d < 4294967296" using lt by (simp add: less_mult_imp_div_less)
  then show q: "unat (?n div ucast d) < 4294967296"
    by (simp add: unat_div_distrib unat_ucast_up32_64)
  have "d \<noteq> 0" using assms by auto
  with q show "div32 edx eax d = Some (ucast (?n div ucast d), ucast (?n mod ucast d))"
    by (simp add: div32_def Let_def word_less_nat_alt)
qed

end
