(* ===== verification/CharFifo.thy ===== *)
theory CharFifo
  imports Prelude "HOL-Library.Sublist"
begin

text \<open>
  The interface between a character producer (an interrupt handler) and its reader (the shell): a
  bounded first-in first-out buffer. The keyboard driver provides it; the lemmas about whole runs
  of pushes and reads are proved here once, from the laws.
\<close>

datatype fifo_op = Push u8 | Get

text \<open>A run of operations: the characters read, in order, and the final state.\<close>

fun fifo_run ::
  "(u8 \<Rightarrow> 's \<Rightarrow> 's) \<Rightarrow> ('s \<Rightarrow> (u8 \<times> 's) option) \<Rightarrow> fifo_op list \<Rightarrow> 's \<Rightarrow> u8 list \<times> 's" where
  "fifo_run push get [] s = ([], s)"
| "fifo_run push get (Push c # ops) s = fifo_run push get ops (push c s)"
| "fifo_run push get (Get # ops) s =
     (case get s of
        None \<Rightarrow> fifo_run push get ops s
      | Some (c, s') \<Rightarrow> (let (cs, t) = fifo_run push get ops s' in (c # cs, t)))"

fun pushes :: "fifo_op list \<Rightarrow> u8 list" where
  "pushes [] = []"
| "pushes (Push c # ops) = c # pushes ops"
| "pushes (Get # ops) = pushes ops"

locale char_fifo =
  fixes push :: "u8 \<Rightarrow> 's \<Rightarrow> 's"
    and has_data :: "'s \<Rightarrow> bool"
    and get :: "'s \<Rightarrow> (u8 \<times> 's) option"
    and contents :: "'s \<Rightarrow> u8 list"
    and inv :: "'s \<Rightarrow> bool"
    and cap :: nat
  assumes push_inv: "inv s \<Longrightarrow> inv (push c s)"
    and get_inv: "inv s \<Longrightarrow> get s = Some (c, s') \<Longrightarrow> inv s'"
    and push_contents: "inv s \<Longrightarrow>
      contents (push c s) = (if length (contents s) < cap then contents s @ [c] else contents s)"
    and has_data_iff: "inv s \<Longrightarrow> has_data s \<longleftrightarrow> contents s \<noteq> []"
    and get_Some: "inv s \<Longrightarrow> get s = Some (c, s') \<Longrightarrow> contents s = c # contents s'"
    and get_None: "inv s \<Longrightarrow> get s = None \<longleftrightarrow> contents s = []"
begin

lemma bounded: "inv s \<Longrightarrow> length (contents s) \<le> cap \<Longrightarrow> length (contents (push c s)) \<le> cap"
  by (simp add: push_contents)

lemma run_inv: "inv s \<Longrightarrow> inv (snd (fifo_run push get ops s))"
proof (induction ops arbitrary: s)
  case Nil
  then show ?case by simp
next
  case (Cons x ops)
  then show ?case
    by (cases x; cases "get s") (auto split: prod.splits simp: push_inv dest: get_inv, metis get_inv snd_conv)
qed

text \<open>
  What is read, followed by what is still stored, is what was stored at first, followed by the
  characters accepted since: a subsequence of those offered.
\<close>

lemma run_order:
  "inv s \<Longrightarrow> \<exists>acc. subseq acc (pushes ops) \<and>
     fst (fifo_run push get ops s) @ contents (snd (fifo_run push get ops s)) = contents s @ acc"
proof (induction ops arbitrary: s)
  case Nil
  then show ?case by simp
next
  case (Cons x ops)
  show ?case
  proof (cases x)
    case (Push c)
    from Cons.IH [OF push_inv [OF Cons.prems]] obtain acc where
      "subseq acc (pushes ops)"
      "fst (fifo_run push get ops (push c s)) @ contents (snd (fifo_run push get ops (push c s)))
         = contents (push c s) @ acc"
      by blast
    then show ?thesis
      using Push Cons.prems
      by (cases "length (contents s) < cap") (auto simp: push_contents intro: exI [of _ "c # acc"])
  next
    case Get
    show ?thesis
    proof (cases "get s")
      case None
      with Get Cons show ?thesis by simp
    next
      case (Some r)
      obtain c s' where r: "r = (c, s')" by (cases r)
      with Some Cons.prems have s': "inv s'" "contents s = c # contents s'"
        by (auto intro: get_inv dest: get_Some)
      from Cons.IH [OF s'(1)] show ?thesis
        using Get Some r s'(2) by (auto split: prod.splits)
    qed
  qed
qed

text \<open>Without overflow nothing is dropped: every offered character is accepted.\<close>

lemma run_lossless:
  "inv s \<Longrightarrow> length (contents s) + length (pushes ops) \<le> cap \<Longrightarrow>
     fst (fifo_run push get ops s) @ contents (snd (fifo_run push get ops s))
       = contents s @ pushes ops"
proof (induction ops arbitrary: s)
  case Nil
  then show ?case by simp
next
  case (Cons x ops)
  show ?case
  proof (cases x)
    case (Push c)
    with Cons show ?thesis by (simp add: push_inv push_contents)
  next
    case Get
    show ?thesis
    proof (cases "get s")
      case None
      with Get Cons show ?thesis by simp
    next
      case (Some r)
      obtain c s' where r: "r = (c, s')" by (cases r)
      with Some Cons.prems have "inv s'" "contents s = c # contents s'"
        by (auto intro: get_inv dest: get_Some)
      with Get Some r Cons.IH [of s'] Cons.prems show ?thesis by (auto split: prod.splits)
    qed
  qed
qed

end

end
