(* ===== verification/Keyboard.thy ===== *)
theory Keyboard
  imports CharFifo
begin

text \<open>
  The PS/2 keyboard driver (src/kernel/keyboard.c, include/keyboard.h): the six scancode tables, the
  modifier state machine of the interrupt handler and the circular buffer it shares with the
  readers. The tables are transcribed row by row; \<open>bytes\<close> gives the printable runs.
\<close>

unbundle bit_operations_syntax

section \<open>Scancode tables\<close>

definition scancode_to_ascii_us :: "u8 list" where
  "scancode_to_ascii_us =
    [0, 27] @
    bytes ''1234567890'' @
    bytes ''-='' @ [8] @
    [9] @ bytes ''qwertyuiop[]'' @ [10] @
    [0] @ bytes ''asdfghjkl;'' @ [39, 96] @
    [0, 92] @ bytes ''zxcvbnm,./'' @ [0] @
    bytes ''*'' @ [0, 32, 0] @
    replicate 10 0 @
    [0, 0] @
    [0, 0, 0] @ bytes ''-'' @ [0, 0, 0] @ bytes ''+'' @ replicate 5 0 @
    [0, 0, 0] @
    [0, 0] @
    replicate 10 0 @
    replicate 10 0 @
    replicate 10 0 @
    replicate 9 0"

definition scancode_to_ascii_shift_us :: "u8 list" where
  "scancode_to_ascii_shift_us =
    [0, 27] @
    bytes ''!@#$%^&*()'' @
    bytes ''_+'' @ [8] @
    [9] @ bytes ''QWERTYUIOP{}'' @ [10] @
    [0] @ bytes ''ASDFGHJKL:'' @ [34] @ bytes ''~'' @
    [0] @ bytes ''|ZXCVBNM<>?'' @ [0] @
    bytes ''*'' @ [0, 32, 0] @
    replicate 10 0 @
    [0, 0] @
    [0, 0, 0] @ bytes ''-'' @ [0, 0, 0] @ bytes ''+'' @ replicate 5 0 @
    [0, 0, 0] @
    [0, 0] @
    replicate 10 0 @
    replicate 10 0 @
    replicate 10 0 @
    replicate 9 0"

definition scancode_to_ascii_altgr_us :: "u8 list" where
  "scancode_to_ascii_altgr_us =
    [0, 0] @
    replicate 10 0 @
    [0, 0, 8] @
    [9] @ bytes ''@'' @ replicate 9 0 @ bytes ''{}'' @ [10] @
    replicate 13 0 @
    [0] @ bytes ''|'' @ replicate 5 0 @ bytes ''~'' @ [0, 0, 0, 0] @
    [0] @ bytes ''*'' @ [0, 32, 0] @
    replicate 10 0 @
    [0, 0] @
    [0, 0, 0] @ bytes ''-'' @ [0, 0, 0] @ bytes ''+'' @ replicate 5 0 @
    [0, 0, 0] @
    [0, 0] @
    replicate 10 0 @
    replicate 10 0 @
    replicate 10 0 @
    replicate 9 0"

definition scancode_to_ascii_abnt2 :: "u8 list" where
  "scancode_to_ascii_abnt2 =
    [0, 27] @
    bytes ''1234567890'' @
    bytes ''-='' @ [8] @
    [9] @ bytes ''qwertyuiop'' @ [39] @ bytes ''['' @ [10] @
    [0] @ bytes ''asdfghjkl'' @ [231] @ bytes ''~'' @ [39] @
    [0] @ bytes '']zxcvbnm,.;'' @ [0] @
    bytes ''*'' @ [0, 32, 0] @
    replicate 10 0 @
    [0, 0] @
    [0, 0, 0] @ bytes ''-'' @ [0, 0, 0] @ bytes ''+'' @ replicate 5 0 @
    [0, 0, 0] @
    [0, 0] @
    replicate 10 0 @
    replicate 10 0 @
    replicate 6 0 @
    bytes ''/'' @
    replicate 12 0"

definition scancode_to_ascii_shift_abnt2 :: "u8 list" where
  "scancode_to_ascii_shift_abnt2 =
    [0, 27] @
    bytes ''!@#$%'' @ [0] @ bytes ''&*()'' @
    bytes ''_+'' @ [8] @
    [9] @ bytes ''QWERTYUIOP'' @ [96] @ bytes ''{'' @ [10] @
    [0] @ bytes ''ASDFGHJKL'' @ [199] @ bytes ''^'' @ [34] @
    [0] @ bytes ''}ZXCVBNM<>:'' @ [0] @
    bytes ''*'' @ [0, 32, 0] @
    replicate 10 0 @
    [0, 0] @
    [0, 0, 0] @ bytes ''-'' @ [0, 0, 0] @ bytes ''+'' @ replicate 5 0 @
    [0, 0, 0] @
    [0, 0] @
    replicate 10 0 @
    replicate 10 0 @
    replicate 6 0 @
    bytes ''?'' @
    replicate 12 0"

definition scancode_to_ascii_altgr_abnt2 :: "u8 list" where
  "scancode_to_ascii_altgr_abnt2 =
    [0, 0] @
    replicate 10 0 @
    [0, 0, 8] @
    [9] @ replicate 10 0 @ bytes ''~~'' @ [10] @
    replicate 13 0 @
    [0] @ bytes ''|'' @ replicate 10 0 @
    [0] @ bytes ''*'' @ [0, 32, 0] @
    replicate 10 0 @
    [0, 0] @
    [0, 0, 0] @ bytes ''-'' @ [0, 0, 0] @ bytes ''+'' @ replicate 5 0 @
    [0, 0, 0] @
    [0, 0] @
    replicate 10 0 @
    replicate 10 0 @
    replicate 6 0 @
    [0] @
    replicate 12 0"

section \<open>Driver state\<close>

definition KB_BUFFER_SIZE :: nat where
  "KB_BUFFER_SIZE = 128"

definition KB_DATA_PORT :: u16 where
  "KB_DATA_PORT = 0x60"

datatype kb_layout = KB_LAYOUT_US | KB_LAYOUT_ABNT2

text \<open>
  The three active-map pointers point at one of the six tables; \<open>keyboard_get_layout\<close> compares
  the pointer, so the model keeps which table it is, and \<open>kb_table_bytes\<close> dereferences it.
\<close>

datatype kb_table =
  Tab_us | Tab_shift_us | Tab_altgr_us | Tab_abnt2 | Tab_shift_abnt2 | Tab_altgr_abnt2

fun kb_table_bytes :: "kb_table \<Rightarrow> u8 list" where
  "kb_table_bytes Tab_us = scancode_to_ascii_us"
| "kb_table_bytes Tab_shift_us = scancode_to_ascii_shift_us"
| "kb_table_bytes Tab_altgr_us = scancode_to_ascii_altgr_us"
| "kb_table_bytes Tab_abnt2 = scancode_to_ascii_abnt2"
| "kb_table_bytes Tab_shift_abnt2 = scancode_to_ascii_shift_abnt2"
| "kb_table_bytes Tab_altgr_abnt2 = scancode_to_ascii_altgr_abnt2"

record kb_state =
  kb_buffer :: "u8 list"
  kb_head :: u8
  kb_tail :: u8
  kb_shift :: bool
  kb_altgr :: bool
  kb_caps :: bool
  kb_ext :: bool
  kb_map :: kb_table
  kb_map_shift :: kb_table
  kb_map_altgr :: kb_table

section \<open>Operations\<close>

definition kb_push :: "u8 \<Rightarrow> kb_state \<Rightarrow> kb_state" where
  "kb_push c s =
     (let next = of_nat ((unat (kb_head s) + 1) mod KB_BUFFER_SIZE) in
      if next \<noteq> kb_tail s
      then s\<lparr>kb_buffer := (kb_buffer s)[unat (kb_head s) := c], kb_head := next\<rparr>
      else s)"

definition keyboard_set_layout :: "kb_layout \<Rightarrow> kb_state \<Rightarrow> kb_state" where
  "keyboard_set_layout layout s =
     (if layout = KB_LAYOUT_ABNT2
      then s\<lparr>kb_map := Tab_abnt2, kb_map_shift := Tab_shift_abnt2, kb_map_altgr := Tab_altgr_abnt2\<rparr>
      else s\<lparr>kb_map := Tab_us, kb_map_shift := Tab_shift_us, kb_map_altgr := Tab_altgr_us\<rparr>)"

definition keyboard_get_layout :: "kb_state \<Rightarrow> kb_layout" where
  "keyboard_get_layout s = (if kb_map s = Tab_abnt2 then KB_LAYOUT_ABNT2 else KB_LAYOUT_US)"

definition keyboard_init :: "kb_state \<Rightarrow> kb_state" where
  "keyboard_init s =
     keyboard_set_layout KB_LAYOUT_ABNT2
       (s\<lparr>kb_head := 0, kb_tail := 0, kb_shift := False, kb_altgr := False, kb_caps := False,
          kb_ext := False\<rparr>)"

text \<open>The body of \<open>keyboard_handler\<close> after \<open>inb\<close>, branch by branch; \<open>char\<close> is signed.\<close>

definition keyboard_scancode :: "u8 \<Rightarrow> kb_state \<Rightarrow> kb_state" where
  "keyboard_scancode scancode s =
     (if scancode = 0xE0 then s\<lparr>kb_ext := True\<rparr>
      else if scancode AND 0x80 \<noteq> 0 then
        (let released = scancode AND 0x7F;
             s1 = (if released = 0x2A \<or> released = 0x36 then s\<lparr>kb_shift := False\<rparr> else s);
             s2 = (if kb_ext s1 \<and> released = 0x38 then s1\<lparr>kb_altgr := False\<rparr> else s1)
         in s2\<lparr>kb_ext := False\<rparr>)
      else if scancode = 0x2A \<or> scancode = 0x36 then s\<lparr>kb_shift := True, kb_ext := False\<rparr>
      else if scancode = 0x3A then s\<lparr>kb_caps := \<not> kb_caps s, kb_ext := False\<rparr>
      else if kb_ext s \<and> scancode = 0x38 then s\<lparr>kb_altgr := True, kb_ext := False\<rparr>
      else
        (let s = s\<lparr>kb_ext := False\<rparr>;
             c = (if kb_altgr s then kb_table_bytes (kb_map_altgr s) ! unat scancode
                  else if kb_shift s then kb_table_bytes (kb_map_shift s) ! unat scancode
                  else kb_table_bytes (kb_map s) ! unat scancode);
             c = (if kb_caps s \<and> ((97 <=s c \<and> c <=s 122) \<or> (65 <=s c \<and> c <=s 90))
                  then c XOR 0x20 else c)
         in if c \<noteq> 0 then kb_push c s else s))"

definition keyboard_handler :: "'d hw \<Rightarrow> kb_state \<times> 'd \<Rightarrow> kb_state \<times> 'd" where
  "keyboard_handler hw sd =
     (let (scancode, d) = inb hw KB_DATA_PORT (snd sd) in (keyboard_scancode scancode (fst sd), d))"

definition keyboard_has_data :: "kb_state \<Rightarrow> bool" where
  "keyboard_has_data s \<longleftrightarrow> kb_head s \<noteq> kb_tail s"

definition keyboard_read :: "kb_state \<Rightarrow> u8 \<times> kb_state" where
  "keyboard_read s =
     (if kb_head s = kb_tail s then (0, s)
      else (kb_buffer s ! unat (kb_tail s),
            s\<lparr>kb_tail := of_nat ((unat (kb_tail s) + 1) mod KB_BUFFER_SIZE)\<rparr>))"

text \<open>\<open>keyboard_getchar\<close> waits with \<open>hlt\<close> while the buffer is empty: \<open>None\<close> is "still waiting".\<close>

definition keyboard_getchar :: "kb_state \<Rightarrow> (u8 \<times> kb_state) option" where
  "keyboard_getchar s =
     (if kb_head s = kb_tail s then None
      else Some (kb_buffer s ! unat (kb_tail s),
            s\<lparr>kb_tail := of_nat ((unat (kb_tail s) + 1) mod KB_BUFFER_SIZE)\<rparr>))"

section \<open>The circular buffer as a list\<close>

definition kb_inv :: "kb_state \<Rightarrow> bool" where
  "kb_inv s \<longleftrightarrow> length (kb_buffer s) = KB_BUFFER_SIZE \<and>
     unat (kb_head s) < KB_BUFFER_SIZE \<and> unat (kb_tail s) < KB_BUFFER_SIZE"

definition kb_count :: "kb_state \<Rightarrow> nat" where
  "kb_count s = (unat (kb_head s) + KB_BUFFER_SIZE - unat (kb_tail s)) mod KB_BUFFER_SIZE"

definition kb_contents :: "kb_state \<Rightarrow> u8 list" where
  "kb_contents s =
     map (\<lambda>i. kb_buffer s ! ((unat (kb_tail s) + i) mod KB_BUFFER_SIZE)) [0..<kb_count s]"

lemma kb_index: "unat (of_nat (n mod KB_BUFFER_SIZE) :: u8) = n mod KB_BUFFER_SIZE"
  by (rule unat_of_nat_word) (simp add: KB_BUFFER_SIZE_def order_less_trans [of _ 128])

lemma kb_push_inv [inv_intros]: "kb_inv s \<Longrightarrow> kb_inv (kb_push c s)"
  by (auto simp: kb_inv_def kb_push_def Let_def kb_index)

lemma kb_distance:
  fixes h t :: nat
  assumes "h < KB_BUFFER_SIZE" "t < KB_BUFFER_SIZE"
  shows "(h + KB_BUFFER_SIZE - t) mod KB_BUFFER_SIZE =
      (if t \<le> h then h - t else h + KB_BUFFER_SIZE - t)"
    "Suc h mod KB_BUFFER_SIZE = (if Suc h < KB_BUFFER_SIZE then Suc h else 0)"
proof -
  show "(h + KB_BUFFER_SIZE - t) mod KB_BUFFER_SIZE =
      (if t \<le> h then h - t else h + KB_BUFFER_SIZE - t)"
    using assms by (auto simp: ring_wrap)
  have "Suc h < KB_BUFFER_SIZE \<or> Suc h = KB_BUFFER_SIZE"
    using assms by auto
  then show "Suc h mod KB_BUFFER_SIZE = (if Suc h < KB_BUFFER_SIZE then Suc h else 0)"
    by auto
qed

lemma kb_count_eq:
  "kb_inv s \<Longrightarrow> kb_count s = (if unat (kb_tail s) \<le> unat (kb_head s)
     then unat (kb_head s) - unat (kb_tail s)
     else unat (kb_head s) + KB_BUFFER_SIZE - unat (kb_tail s))"
  by (simp add: kb_count_def kb_distance kb_inv_def)

lemma kb_full_iff:
  assumes "kb_inv s"
  shows "of_nat ((unat (kb_head s) + 1) mod KB_BUFFER_SIZE) \<noteq> kb_tail s \<longleftrightarrow>
     kb_count s < KB_BUFFER_SIZE - 1"
proof -
  have "of_nat ((unat (kb_head s) + 1) mod KB_BUFFER_SIZE) \<noteq> kb_tail s \<longleftrightarrow>
      (unat (kb_head s) + 1) mod KB_BUFFER_SIZE \<noteq> unat (kb_tail s)"
    by (metis kb_index unsigned_word_eqI)
  also have "\<dots> \<longleftrightarrow> kb_count s < KB_BUFFER_SIZE - 1"
  proof -
    have b: "unat (kb_head s) < KB_BUFFER_SIZE" "unat (kb_tail s) < KB_BUFFER_SIZE"
      using assms by (simp_all add: kb_inv_def)
    show ?thesis
      using b by (auto simp: kb_count_eq [OF assms] kb_distance(2) [OF b])
  qed
  finally show ?thesis .
qed

lemma kb_slot:
  assumes "kb_inv s" "i \<le> kb_count s"
  shows "(unat (kb_tail s) + i) mod KB_BUFFER_SIZE = unat (kb_head s) \<longleftrightarrow> i = kb_count s"
proof -
  have b: "unat (kb_head s) < KB_BUFFER_SIZE" "unat (kb_tail s) < KB_BUFFER_SIZE"
    using assms(1) by (simp_all add: kb_inv_def)
  from ring_slot [OF b, of i] assms(2) show ?thesis
    by (simp add: kb_count_eq [OF assms(1)])
qed

lemma kb_count_less: "kb_count s < KB_BUFFER_SIZE"
  by (simp add: kb_count_def KB_BUFFER_SIZE_def)

lemma length_kb_contents [simp]: "length (kb_contents s) = kb_count s"
  by (simp add: kb_contents_def)

lemma kb_contents_push:
  assumes "kb_inv s"
  shows "kb_contents (kb_push c s) =
    (if length (kb_contents s) < KB_BUFFER_SIZE - 1 then kb_contents s @ [c] else kb_contents s)"
proof (cases "kb_count s < KB_BUFFER_SIZE - 1")
  case False
  then show ?thesis
    using kb_full_iff [OF assms] by (simp add: kb_push_def)
next
  case True
  let ?h = "unat (kb_head s)" and ?t = "unat (kb_tail s)"
  have b: "?h < KB_BUFFER_SIZE" "?t < KB_BUFFER_SIZE" "length (kb_buffer s) = KB_BUFFER_SIZE"
    using assms by (simp_all add: kb_inv_def)
  define s1 where
    "s1 = s\<lparr>kb_buffer := (kb_buffer s)[?h := c], kb_head := of_nat (Suc ?h mod KB_BUFFER_SIZE)\<rparr>"
  have push: "kb_push c s = s1"
    using kb_full_iff [OF assms] True by (simp add: kb_push_def Let_def s1_def)
  have inv1: "kb_inv s1"
    using kb_push_inv [OF assms, of c] push by simp
  have s1: "unat (kb_head s1) = (if Suc ?h < KB_BUFFER_SIZE then Suc ?h else 0)"
      "kb_tail s1 = kb_tail s" "kb_buffer s1 = (kb_buffer s)[?h := c]"
    using kb_index [of "Suc ?h"] kb_distance(2) [OF b(1,2)] by (simp_all add: s1_def)
  have count: "kb_count s1 = Suc (kb_count s)"
    using True b by (auto simp: kb_count_eq [OF inv1] kb_count_eq [OF assms] s1 split: if_splits)
  have "(unat (kb_tail s) + kb_count s) mod KB_BUFFER_SIZE = ?h"
    using kb_slot [OF assms] by simp
  moreover have "?h \<noteq> (?t + i) mod KB_BUFFER_SIZE" if "i < kb_count s" for i
    using kb_slot [OF assms, of i] that by auto
  ultimately show ?thesis
    using True b unfolding push kb_contents_def count s1 by simp
qed

lemma keyboard_has_data_iff: "kb_inv s \<Longrightarrow> keyboard_has_data s \<longleftrightarrow> kb_contents s \<noteq> []"
proof -
  assume inv: "kb_inv s"
  then have "unat (kb_tail s) mod KB_BUFFER_SIZE = unat (kb_tail s)"
    by (simp add: kb_inv_def)
  with kb_slot [OF inv, of 0] have "unat (kb_tail s) = unat (kb_head s) \<longleftrightarrow> kb_count s = 0"
    by auto
  moreover have "kb_contents s \<noteq> [] \<longleftrightarrow> kb_count s \<noteq> 0"
    by (metis length_0_conv length_kb_contents)
  ultimately show ?thesis
    by (metis keyboard_has_data_def unsigned_word_eqI)
qed

lemma keyboard_getchar_contents:
  assumes "kb_inv s" "keyboard_getchar s = Some (c, s')"
  shows "kb_inv s'" "kb_contents s = c # kb_contents s'"
proof -
  let ?h = "unat (kb_head s)" and ?t = "unat (kb_tail s)"
  have b: "?h < KB_BUFFER_SIZE" "?t < KB_BUFFER_SIZE" "length (kb_buffer s) = KB_BUFFER_SIZE"
    using assms(1) by (simp_all add: kb_inv_def)
  have ne: "kb_head s \<noteq> kb_tail s" and c: "c = kb_buffer s ! ?t"
      and s': "s' = s\<lparr>kb_tail := of_nat (Suc ?t mod KB_BUFFER_SIZE)\<rparr>"
    using assms(2) by (auto simp: keyboard_getchar_def split: if_splits)
  have t': "unat (kb_tail s') = Suc ?t mod KB_BUFFER_SIZE" and h': "kb_head s' = kb_head s"
      and b': "kb_buffer s' = kb_buffer s"
    using kb_index [of "Suc ?t"] by (simp_all add: s')
  show inv': "kb_inv s'"
    using b by (simp add: kb_inv_def t' h' b' KB_BUFFER_SIZE_def)
  have "?h \<noteq> ?t" using ne by (metis unsigned_word_eqI)
  then have count: "kb_count s = Suc (kb_count s')"
    using b by (auto simp: kb_count_eq [OF inv'] kb_count_eq [OF assms(1)] t' h'
      kb_distance(2) [OF b(2,1)] split: if_splits)
  have "(unat (kb_tail s') + i) mod KB_BUFFER_SIZE = (?t + Suc i) mod KB_BUFFER_SIZE" for i
    unfolding t' by (simp add: mod_add_left_eq)
  then show "kb_contents s = c # kb_contents s'"
    using b c unfolding kb_contents_def count b' by (simp add: upt_conv_Cons map_Suc_upt [symmetric] del: upt_Suc)
qed

lemma keyboard_getchar_None: "kb_inv s \<Longrightarrow> keyboard_getchar s = None \<longleftrightarrow> kb_contents s = []"
  using keyboard_has_data_iff [of s] by (simp add: keyboard_getchar_def keyboard_has_data_def)

text \<open>The driver provides the buffer contract, with room for one character less than the array.\<close>

interpretation kb_fifo: char_fifo kb_push keyboard_has_data keyboard_getchar kb_contents kb_inv
  "KB_BUFFER_SIZE - 1"
  by unfold_locales
     (simp_all add: kb_push_inv kb_contents_push keyboard_has_data_iff keyboard_getchar_None
        keyboard_getchar_contents)

end
