(* ===== verification/CString.thy ===== *)
theory CString
  imports Prelude "HOL-Library.List_Lexorder"
begin

text \<open>
  The kernel's freestanding string library (src/kernel/string.c). A \<open>const char *\<close> is the list of
  bytes from the pointer to the end of its object; running past that end is the value \<open>None\<close>. The
  block operations work on flat memory, so that overlap is visible.
\<close>

section \<open>String operations\<close>

fun strlen_from :: "u8 list \<Rightarrow> nat \<Rightarrow> nat option" where
  "strlen_from [] len = None"
| "strlen_from (c # s) len = (if c \<noteq> 0 then strlen_from s (len + 1) else Some len)"

definition strlen :: "u8 list \<Rightarrow> nat option" where
  "strlen s = strlen_from s 0"

fun strcmp :: "u8 list \<Rightarrow> u8 list \<Rightarrow> int option" where
  "strcmp (x # a) (y # b) =
     (if x \<noteq> 0 \<and> x = y then strcmp a b else Some (uint x - uint y))"
| "strcmp _ _ = None"

fun strncmp :: "u8 list \<Rightarrow> u8 list \<Rightarrow> nat \<Rightarrow> int option" where
  "strncmp a b 0 = Some 0"
| "strncmp (x # a) (y # b) (Suc n) =
     (if x \<noteq> 0 \<and> x = y then strncmp a b n else Some (uint x - uint y))"
| "strncmp _ _ (Suc n) = None"

fun strcpy :: "u8 list \<Rightarrow> u8 list \<Rightarrow> u8 list option" where
  "strcpy (d # ds) (s # ss) =
     (if s \<noteq> 0 then map_option ((#) s) (strcpy ds ss) else Some (s # ds))"
| "strcpy _ _ = None"

text \<open>\<open>strncpy\<close>: the copying loop, then the loop that fills the rest with zeros.\<close>

fun strncpy_fill :: "u8 list \<Rightarrow> nat \<Rightarrow> u8 list option" where
  "strncpy_fill ds 0 = Some ds"
| "strncpy_fill (d # ds) (Suc n) = map_option ((#) 0) (strncpy_fill ds n)"
| "strncpy_fill [] (Suc n) = None"

fun strncpy :: "u8 list \<Rightarrow> u8 list \<Rightarrow> nat \<Rightarrow> u8 list option" where
  "strncpy ds ss 0 = Some ds"
| "strncpy ds [] (Suc n) = None"
| "strncpy ds (s # ss) (Suc n) =
     (if s \<noteq> 0
      then (case ds of [] \<Rightarrow> None | d # ds' \<Rightarrow> map_option ((#) s) (strncpy ds' ss n))
      else strncpy_fill ds (Suc n))"

section \<open>Block operations on flat memory\<close>

type_synonym memory = "u32 \<Rightarrow> u8"

fun memcpy :: "memory \<Rightarrow> u32 \<Rightarrow> u32 \<Rightarrow> nat \<Rightarrow> memory" where
  "memcpy m dst src 0 = m"
| "memcpy m dst src (Suc n) = memcpy (m(dst := m src)) (dst + 1) (src + 1) n"

fun memset :: "memory \<Rightarrow> u32 \<Rightarrow> u8 \<Rightarrow> nat \<Rightarrow> memory" where
  "memset m dst val 0 = m"
| "memset m dst val (Suc n) = memset (m(dst := val)) (dst + 1) val n"

fun memcmp :: "memory \<Rightarrow> u32 \<Rightarrow> u32 \<Rightarrow> nat \<Rightarrow> int" where
  "memcmp m a b 0 = 0"
| "memcmp m a b (Suc n) =
     (if m a \<noteq> m b then uint (m a) - uint (m b) else memcmp m (a + 1) (b + 1) n)"

section \<open>What a C string denotes\<close>

definition cstr :: "u8 list \<Rightarrow> u8 list" where
  "cstr s = takeWhile (\<lambda>c. c \<noteq> 0) s"

definition terminated :: "u8 list \<Rightarrow> bool" where
  "terminated s \<longleftrightarrow> 0 \<in> set s"

lemma cstr_simps [simp]:
  "cstr [] = []" "cstr (c # s) = (if c = 0 then [] else c # cstr s)"
  by (simp_all add: cstr_def)

lemma terminated_simps [simp]:
  "\<not> terminated []" "terminated (c # s) \<longleftrightarrow> c = 0 \<or> terminated s"
  by (auto simp: terminated_def)

lemma cstr_no_nul: "0 \<notin> set (cstr s)"
  by (induction s) auto

lemma cstr_append_nul [simp]: "0 \<notin> set s \<Longrightarrow> cstr (s @ 0 # t) = s"
  by (induction s) auto

lemma terminated_append_nul [simp]: "terminated (s @ 0 # t)"
  by (simp add: terminated_def)

lemma strlen_from_eq: "terminated s \<Longrightarrow> strlen_from s n = Some (n + length (cstr s))"
  by (induction s n rule: strlen_from.induct) auto

lemma strlen_eq: "terminated s \<Longrightarrow> strlen s = Some (length (cstr s))"
  by (simp add: strlen_def strlen_from_eq)

lemma strcmp_eq:
  "terminated a \<Longrightarrow> terminated b \<Longrightarrow>
     \<exists>r. strcmp a b = Some r \<and> (r = 0 \<longleftrightarrow> cstr a = cstr b) \<and> (r < 0 \<longleftrightarrow> cstr a < cstr b)"
  by (induction a b rule: strcmp.induct)
     (auto simp: uint_cmp word_gt_0)

text \<open>\<open>strncmp\<close> with a bound that both strings reach is equality of the first \<open>n\<close> bytes.\<close>

lemma strncmp_eq:
  "terminated a \<Longrightarrow> terminated b \<Longrightarrow>
     \<exists>r. strncmp a b n = Some r \<and> (r = 0 \<longleftrightarrow> take n (cstr a) = take n (cstr b))"
  by (induction a b n rule: strncmp.induct) (auto simp: uint_cmp)

lemma strncpy_fill_eq: "n \<le> length ds \<Longrightarrow> strncpy_fill ds n = Some (replicate n 0 @ drop n ds)"
  by (induction ds n rule: strncpy_fill.induct) auto

lemma strncpy_eq:
  assumes "terminated ss" "n \<le> length ds"
  shows "strncpy ds ss n =
    Some (take n (cstr ss) @ replicate (n - length (cstr ss)) 0 @ drop n ds)"
  using assms
proof (induction ds ss n rule: strncpy.induct)
  case (3 ds s ss n)
  show ?case
  proof (cases "s = 0")
    case True
    with 3 show ?thesis by (simp add: strncpy_fill_eq del: strncpy_fill.simps)
  next
    case False
    with 3 show ?thesis by (cases ds) auto
  qed
qed auto

lemma strcpy_eq:
  "terminated ss \<Longrightarrow> length (cstr ss) < length ds \<Longrightarrow>
     strcpy ds ss = Some (cstr ss @ 0 # drop (length (cstr ss) + 1) ds)"
  by (induction ds ss rule: strcpy.induct) auto

lemma strcpy_overflow:
  "terminated ss \<Longrightarrow> length ds \<le> length (cstr ss) \<Longrightarrow> strcpy ds ss = None"
  by (induction ds ss rule: strcpy.induct) (auto split: if_splits)

section \<open>Block operations: what they change and what they leave\<close>

lemma memcpy_outside: "(\<forall>i<n. x \<noteq> dst + of_nat i) \<Longrightarrow> memcpy m dst src n x = m x"
proof (induction n arbitrary: m dst src)
  case 0
  then show ?case by simp
next
  case (Suc n)
  have "x \<noteq> dst" using Suc.prems [rule_format, of 0] by simp
  moreover have "\<forall>i<n. x \<noteq> (dst + 1) + of_nat i"
    using Suc.prems by (metis Suc_less_eq add.assoc of_nat_Suc)
  ultimately show ?case by (simp add: Suc.IH)
qed

text \<open>
  The copy runs upwards, so it is right as long as no source byte is overwritten before it is read.
\<close>

lemma memcpy_inside:
  assumes "\<forall>j<n. \<forall>i<j. src + of_nat j \<noteq> dst + of_nat i" "n \<le> 2 ^ 32" "k < n"
  shows "memcpy m dst src n (dst + of_nat k) = m (src + of_nat k)"
  using assms
proof (induction n arbitrary: m dst src k)
  case 0
  then show ?case by simp
next
  case (Suc n)
  have step: "\<forall>j<n. \<forall>i<j. (src + 1) + of_nat j \<noteq> (dst + 1) + of_nat i"
  proof (intro allI impI)
    fix j i assume "j < n" "i < j"
    then show "(src + 1) + of_nat j \<noteq> (dst + 1) + of_nat i"
      using Suc.prems(1) [rule_format, of "Suc j" "Suc i"] by (simp add: add.assoc)
  qed
  show ?case
  proof (cases k)
    case 0
    have "\<forall>i<n. dst \<noteq> (dst + 1) + of_nat i"
    proof (intro allI impI notI)
      fix i assume "i < n" "dst = (dst + 1) + of_nat i"
      then have "(of_nat (Suc i) :: u32) = 0" by (simp add: algebra_simps)
      moreover have "Suc i < 2 ^ 32" using \<open>i < n\<close> Suc.prems(2) by simp
      ultimately show False
        using of_nat_word_inj [of "Suc i" 0, where 'a = 32] by simp
    qed
    with 0 show ?thesis by (simp add: memcpy_outside)
  next
    case (Suc k')
    with Suc.prems have "k' < n" "n \<le> 2 ^ 32" by simp_all
    moreover have "src + of_nat k \<noteq> dst + of_nat 0"
      using Suc.prems(1,3) Suc by blast
    ultimately show ?thesis
      using Suc.IH [OF step, of k' "m(dst := m src)"] Suc
      by (simp add: algebra_simps del: fun_upd_apply) simp
  qed
qed

lemma memset_outside: "(\<forall>i<n. x \<noteq> dst + of_nat i) \<Longrightarrow> memset m dst v n x = m x"
proof (induction n arbitrary: m dst)
  case 0
  then show ?case by simp
next
  case (Suc n)
  have "x \<noteq> dst" using Suc.prems [rule_format, of 0] by simp
  moreover have "\<forall>i<n. x \<noteq> (dst + 1) + of_nat i"
    using Suc.prems by (metis Suc_less_eq add.assoc of_nat_Suc)
  ultimately show ?case by (simp add: Suc.IH)
qed

lemma memset_keeps: "m x = v \<Longrightarrow> memset m dst v n x = v"
  by (induction n arbitrary: m dst) auto

lemma memset_inside: "k < n \<Longrightarrow> memset m dst v n (dst + of_nat k) = v"
proof (induction n arbitrary: m dst k)
  case 0
  then show ?case by simp
next
  case (Suc n)
  show ?case
  proof (cases k)
    case 0
    then show ?thesis by (simp add: memset_keeps)
  next
    case (Suc k')
    with Suc.prems Suc.IH [of k' "m(dst := v)" "dst + 1"] show ?thesis
      by (simp add: algebra_simps del: fun_upd_apply)
  qed
qed

lemma memcmp_zero_iff: "memcmp m a b n = 0 \<longleftrightarrow> (\<forall>i<n. m (a + of_nat i) = m (b + of_nat i))"
proof (induction n arbitrary: a b)
  case 0
  then show ?case by simp
next
  case (Suc n)
  have "(\<forall>i<Suc n. m (a + of_nat i) = m (b + of_nat i)) \<longleftrightarrow>
      m a = m b \<and> (\<forall>i<n. m ((a + 1) + of_nat i) = m ((b + 1) + of_nat i))"
    by (simp add: All_less_Suc2 add.assoc)
  then show ?case
    by (simp add: Suc.IH uint_cmp)
qed

end
