(* ===== verification/Serial.thy ===== *)
theory Serial
  imports CString
begin

text \<open>
  The COM1 driver (kernel/serial.c): programming of the 16550, its loopback probe, polled output
  with a bounded wait, and polled input. The UART is the device parameter of the prelude; the
  driver's own state is the flag \<open>serial_enabled\<close>.
\<close>

unbundle bit_operations_syntax

section \<open>Registers\<close>

definition SERIAL_COM1_PORT :: u16 where "SERIAL_COM1_PORT = 0x3F8"
definition UART_DATA :: u16 where "UART_DATA = 0"
definition UART_INT_ENABLE :: u16 where "UART_INT_ENABLE = 1"
definition UART_FIFO_CTRL :: u16 where "UART_FIFO_CTRL = 2"
definition UART_LINE_CTRL :: u16 where "UART_LINE_CTRL = 3"
definition UART_MODEM_CTRL :: u16 where "UART_MODEM_CTRL = 4"
definition UART_LINE_STATUS :: u16 where "UART_LINE_STATUS = 5"

definition LCR_DLAB :: u8 where "LCR_DLAB = 0x80"
definition LCR_8N1 :: u8 where "LCR_8N1 = 0x03"
definition LSR_DATA_READY :: u8 where "LSR_DATA_READY = 0x01"
definition LSR_THR_EMPTY :: u8 where "LSR_THR_EMPTY = 0x20"
definition BAUD_DIVISOR :: nat where "BAUD_DIVISOR = 3"

lemmas uart_regs = SERIAL_COM1_PORT_def UART_DATA_def UART_INT_ENABLE_def UART_FIFO_CTRL_def
  UART_LINE_CTRL_def UART_MODEM_CTRL_def UART_LINE_STATUS_def LCR_DLAB_def LCR_8N1_def
  LSR_DATA_READY_def LSR_THR_EMPTY_def BAUD_DIVISOR_def

section \<open>Operations\<close>

type_synonym 'd uart = "bool \<times> 'd"

definition serial_init :: "'d hw \<Rightarrow> 'd \<Rightarrow> bool \<times> 'd uart" where
  "serial_init hw d0 =
     (let d1 = outb hw (SERIAL_COM1_PORT + UART_INT_ENABLE) 0x00 d0;
          d2 = outb hw (SERIAL_COM1_PORT + UART_LINE_CTRL) LCR_DLAB d1;
          d3 = outb hw (SERIAL_COM1_PORT + UART_DATA) (of_nat (BAUD_DIVISOR mod 256)) d2;
          d4 = outb hw (SERIAL_COM1_PORT + UART_INT_ENABLE) (of_nat (BAUD_DIVISOR div 256 mod 256)) d3;
          d5 = outb hw (SERIAL_COM1_PORT + UART_LINE_CTRL) LCR_8N1 d4;
          d6 = outb hw (SERIAL_COM1_PORT + UART_FIFO_CTRL) 0xC7 d5;
          d7 = outb hw (SERIAL_COM1_PORT + UART_MODEM_CTRL) 0x0B d6;
          d8 = outb hw (SERIAL_COM1_PORT + UART_MODEM_CTRL) 0x1E d7;
          d9 = outb hw (SERIAL_COM1_PORT + UART_DATA) 0xAE d8;
          (probe, d10) = inb hw (SERIAL_COM1_PORT + UART_DATA) d9
      in if probe \<noteq> 0xAE then (False, False, d10)
         else (True, True, outb hw (SERIAL_COM1_PORT + UART_MODEM_CTRL) 0x0B d10))"

definition serial_is_enabled :: "'d uart \<Rightarrow> bool" where
  "serial_is_enabled s = fst s"

text \<open>The loop of \<open>serial_wait_ready\<close>, with the number of polls still allowed.\<close>

primrec serial_spin :: "'d hw \<Rightarrow> nat \<Rightarrow> 'd \<Rightarrow> 'd" where
  "serial_spin hw 0 d = d"
| "serial_spin hw (Suc n) d =
     (let (status, d') = inb hw (SERIAL_COM1_PORT + UART_LINE_STATUS) d in
      if status AND LSR_THR_EMPTY \<noteq> 0 then d' else serial_spin hw n d')"

definition serial_wait_ready :: "'d hw \<Rightarrow> 'd \<Rightarrow> 'd" where
  "serial_wait_ready hw d = serial_spin hw 100000 d"

definition serial_putchar :: "'d hw \<Rightarrow> u8 \<Rightarrow> 'd uart \<Rightarrow> 'd uart" where
  "serial_putchar hw c s =
     (if \<not> fst s then s
      else
        (let d = snd s;
             d = (if c = 10 then
                    outb hw (SERIAL_COM1_PORT + UART_DATA) 13 (serial_wait_ready hw d)
                  else d);
             d = serial_wait_ready hw d
         in (fst s, outb hw (SERIAL_COM1_PORT + UART_DATA) c d)))"

text \<open>A null pointer is \<open>None\<close>; the string is given without its terminator.\<close>

definition serial_puts :: "'d hw \<Rightarrow> u8 list option \<Rightarrow> 'd uart \<Rightarrow> 'd uart" where
  "serial_puts hw str s =
     (case str of None \<Rightarrow> s | Some cs \<Rightarrow> fold (serial_putchar hw) cs s)"

definition serial_has_data :: "'d hw \<Rightarrow> 'd uart \<Rightarrow> bool \<times> 'd uart" where
  "serial_has_data hw s =
     (if \<not> fst s then (False, s)
      else (let (status, d) = inb hw (SERIAL_COM1_PORT + UART_LINE_STATUS) (snd s)
            in (status AND LSR_DATA_READY \<noteq> 0, fst s, d)))"

definition serial_getchar :: "'d hw \<Rightarrow> 'd uart \<Rightarrow> u8 \<times> 'd uart" where
  "serial_getchar hw s =
     (let (ready, s1) = serial_has_data hw s in
      if \<not> ready then (0, s1)
      else (let (c, d) = inb hw (SERIAL_COM1_PORT + UART_DATA) (snd s1) in (c, fst s1, d)))"

section \<open>Output on a UART that is ready\<close>

text \<open>What the line carries for one character: a newline is preceded by a carriage return.\<close>

definition crlf :: "u8 \<Rightarrow> u8 list" where
  "crlf c = (if c = 10 then [13, 10] else [c])"

definition uart_ready :: "(u16 \<Rightarrow> u8) \<Rightarrow> bool" where
  "uart_ready ans \<longleftrightarrow> ans (SERIAL_COM1_PORT + UART_LINE_STATUS) AND LSR_THR_EMPTY \<noteq> 0"

lemma serial_spin_ready: "uart_ready ans \<Longrightarrow> serial_spin (rec_hw ans) n d = d"
  by (cases n) (simp_all add: uart_ready_def)

lemma serial_spin_log: "serial_spin (rec_hw ans) n d = d"
  by (induction n) simp_all

lemma serial_putchar_log [simp]:
  "serial_putchar (rec_hw ans) c (e, log) =
     (e, log @ (if e then map (Pair SERIAL_COM1_PORT) (crlf c) else []))"
  by (simp add: serial_putchar_def serial_wait_ready_def serial_spin_log crlf_def UART_DATA_def
      Let_def)

lemma serial_puts_run:
  "fold (serial_putchar (rec_hw ans)) cs (e, log) =
     (e, log @ (if e then map (Pair SERIAL_COM1_PORT) (concat (map crlf cs)) else []))"
  by (induction cs arbitrary: log) simp_all

text \<open>
  An enabled driver writes every character of the string to the data port in order, each
  newline as carriage return and newline, and nothing else; disabled, or with a null pointer,
  it does no output at all.
\<close>

theorem serial_puts_output:
  "serial_puts (rec_hw ans) str (e, log) =
     (e, log @ (if e then
        (case str of None \<Rightarrow> [] | Some cs \<Rightarrow> map (Pair SERIAL_COM1_PORT) (concat (map crlf cs)))
      else []))"
  by (simp add: serial_puts_def serial_puts_run split: option.splits)

section \<open>The bounded wait\<close>

text \<open>A device that only counts the polls of its line status.\<close>

definition poll_hw :: "nat \<Rightarrow> nat hw" where
  "poll_hw k = \<lparr>hw_in = (\<lambda>n p. (if k \<le> n then LSR_THR_EMPTY else 0, n + 1)),
     hw_out = (\<lambda>n p v. n)\<rparr>"

lemma serial_spin_polls:
  "serial_spin (poll_hw k) n m = (if n = 0 then m else if k \<le> m then m + 1 else min (k + 1) (m + n))"
  by (induction n arbitrary: m) (auto simp: inb_def poll_hw_def LSR_THR_EMPTY_def)

text \<open>
  The wait before a character ends: against a UART that becomes ready at its \<open>k\<close>-th poll it
  polls until then, and never more than 100000 times, after which the character is sent anyway.
\<close>

theorem serial_wait_bounded:
  "serial_wait_ready (poll_hw k) 0 = min (k + 1) 100000"
  by (simp add: serial_wait_ready_def serial_spin_polls)

section \<open>Initialisation\<close>

definition serial_setup_log :: port_log where
  "serial_setup_log = [(0x3F9, 0x00), (0x3FB, 0x80), (0x3F8, 0x03), (0x3F9, 0x00), (0x3FB, 0x03),
     (0x3FA, 0xC7), (0x3FC, 0x0B), (0x3FC, 0x1E), (0x3F8, 0xAE)]"

text \<open>
  Initialisation programs 38400 baud 8N1 with FIFOs, then probes in loopback: it succeeds,
  and enables the driver, exactly when the probe byte comes back, and only then does it leave
  loopback; otherwise the driver stays disabled.
\<close>

theorem serial_init_probe:
  "serial_init (rec_hw ans) log =
     (if ans SERIAL_COM1_PORT = 0xAE
      then (True, True, log @ serial_setup_log @ [(0x3FC, 0x0B)])
      else (False, False, log @ serial_setup_log))"
  by (simp add: serial_init_def uart_regs serial_setup_log_def)

text \<open>Input: a byte is taken only when the line status announces one.\<close>

lemma serial_getchar_poll:
  "serial_getchar (rec_hw ans) (e, log) =
     (if e \<and> ans (SERIAL_COM1_PORT + UART_LINE_STATUS) AND LSR_DATA_READY \<noteq> 0
      then ans (SERIAL_COM1_PORT + UART_DATA) else 0, e, log)"
  by (simp add: serial_getchar_def serial_has_data_def)

end
