(* ===== verification/Console.thy ===== *)
theory Console
  imports Serial
begin

text \<open>
  The text console (kernel/vga.c up to the printf): cells of the VGA text memory, cursor,
  scrolling, control characters, mirroring on the serial line. The memory at 0xB8000 is a function
  of the signed index that the C code uses, so a write outside the screen would be visible.
\<close>

unbundle bit_operations_syntax

section \<open>State and operations\<close>

definition VGA_WIDTH :: int where "VGA_WIDTH = 80"
definition VGA_HEIGHT :: int where "VGA_HEIGHT = 25"
definition VGA_CTRL_REG :: u16 where "VGA_CTRL_REG = 0x3D4"
definition VGA_DATA_REG :: u16 where "VGA_DATA_REG = 0x3D5"

datatype vga_color =
  VGA_COLOR_BLACK | VGA_COLOR_BLUE | VGA_COLOR_GREEN | VGA_COLOR_CYAN | VGA_COLOR_RED
  | VGA_COLOR_MAGENTA | VGA_COLOR_BROWN | VGA_COLOR_LIGHT_GREY | VGA_COLOR_DARK_GREY
  | VGA_COLOR_LIGHT_BLUE | VGA_COLOR_LIGHT_GREEN | VGA_COLOR_LIGHT_CYAN | VGA_COLOR_LIGHT_RED
  | VGA_COLOR_LIGHT_MAGENTA | VGA_COLOR_YELLOW | VGA_COLOR_WHITE

fun color_code :: "vga_color \<Rightarrow> u8" where
  "color_code VGA_COLOR_BLACK = 0" | "color_code VGA_COLOR_BLUE = 1"
| "color_code VGA_COLOR_GREEN = 2" | "color_code VGA_COLOR_CYAN = 3"
| "color_code VGA_COLOR_RED = 4" | "color_code VGA_COLOR_MAGENTA = 5"
| "color_code VGA_COLOR_BROWN = 6" | "color_code VGA_COLOR_LIGHT_GREY = 7"
| "color_code VGA_COLOR_DARK_GREY = 8" | "color_code VGA_COLOR_LIGHT_BLUE = 9"
| "color_code VGA_COLOR_LIGHT_GREEN = 10" | "color_code VGA_COLOR_LIGHT_CYAN = 11"
| "color_code VGA_COLOR_LIGHT_RED = 12" | "color_code VGA_COLOR_LIGHT_MAGENTA = 13"
| "color_code VGA_COLOR_YELLOW = 14" | "color_code VGA_COLOR_WHITE = 15"

record 'd console =
  con_uart :: "'d uart"
  vga_mem :: "int \<Rightarrow> u16"
  vga_col :: int
  vga_row :: int
  vga_attr :: u8

text \<open>The cell of a character: \<open>char\<close> is signed, so the conversion to 16 bits extends the sign.\<close>

definition vga_entry :: "u8 \<Rightarrow> u8 \<Rightarrow> u16" where
  "vga_entry c attr = scast c OR push_bit 8 (ucast attr)"

definition vga_update_cursor :: "'d hw \<Rightarrow> 'd console \<Rightarrow> 'd console" where
  "vga_update_cursor hw s =
     (let pos = (word_of_int (vga_row s * VGA_WIDTH + vga_col s) :: u16);
          d = snd (con_uart s);
          d = outb hw VGA_CTRL_REG 0x0F d;
          d = outb hw VGA_DATA_REG (ucast (pos AND 0xFF)) d;
          d = outb hw VGA_CTRL_REG 0x0E d;
          d = outb hw VGA_DATA_REG (ucast (drop_bit 8 pos AND 0xFF)) d
      in s\<lparr>con_uart := (fst (con_uart s), d)\<rparr>)"

definition scroll_up :: "(int \<Rightarrow> u16) \<Rightarrow> int \<Rightarrow> (int \<Rightarrow> u16)" where
  "scroll_up m n = fold (\<lambda>i m. m(i := m (i + VGA_WIDTH))) [0..n - 1] m"

definition fill_cells :: "u16 \<Rightarrow> int \<Rightarrow> int \<Rightarrow> (int \<Rightarrow> u16) \<Rightarrow> (int \<Rightarrow> u16)" where
  "fill_cells v first stop m = fold (\<lambda>i m. m(i := v)) [first..stop - 1] m"

definition vga_scroll :: "'d console \<Rightarrow> 'd console" where
  "vga_scroll s =
     s\<lparr>vga_mem := fill_cells (vga_entry 32 (vga_attr s)) ((VGA_HEIGHT - 1) * VGA_WIDTH)
          (VGA_HEIGHT * VGA_WIDTH) (scroll_up (vga_mem s) ((VGA_HEIGHT - 1) * VGA_WIDTH)),
       vga_row := VGA_HEIGHT - 1\<rparr>"

definition vga_clear :: "'d hw \<Rightarrow> 'd console \<Rightarrow> 'd console" where
  "vga_clear hw s =
     vga_update_cursor hw
       (s\<lparr>vga_mem := fill_cells (vga_entry 32 (vga_attr s)) 0 (VGA_WIDTH * VGA_HEIGHT) (vga_mem s),
          vga_col := 0, vga_row := 0\<rparr>)"

definition vga_init :: "'d hw \<Rightarrow> 'd console \<Rightarrow> 'd console" where
  "vga_init hw s =
     vga_clear hw (s\<lparr>vga_attr := push_bit 4 (color_code VGA_COLOR_BLACK) OR
         color_code VGA_COLOR_LIGHT_GREY, vga_col := 0, vga_row := 0\<rparr>)"

definition vga_set_color :: "u8 \<Rightarrow> u8 \<Rightarrow> 'd console \<Rightarrow> 'd console" where
  "vga_set_color fg bg s = s\<lparr>vga_attr := push_bit 4 bg OR (fg AND 0x0F)\<rparr>"

definition vga_putchar :: "'d hw \<Rightarrow> u8 \<Rightarrow> 'd console \<Rightarrow> 'd console" where
  "vga_putchar hw c s0 =
     (let s = s0\<lparr>con_uart := serial_putchar hw c (con_uart s0)\<rparr>;
          s = (if c = 10 then s\<lparr>vga_col := 0, vga_row := vga_row s + 1\<rparr>
               else if c = 13 then s\<lparr>vga_col := 0\<rparr>
               else if c = 9 then s\<lparr>vga_col := (vga_col s + 8) AND NOT 7\<rparr>
               else if c = 8 then
                 (if vga_col s > 0 then
                    (let s = s\<lparr>vga_col := vga_col s - 1\<rparr> in
                     s\<lparr>vga_mem := (vga_mem s)(vga_row s * VGA_WIDTH + vga_col s :=
                         vga_entry 32 (vga_attr s))\<rparr>)
                  else s)
               else s\<lparr>vga_mem := (vga_mem s)(vga_row s * VGA_WIDTH + vga_col s :=
                         vga_entry c (vga_attr s)),
                      vga_col := vga_col s + 1\<rparr>);
          s = (if vga_col s \<ge> VGA_WIDTH then s\<lparr>vga_col := 0, vga_row := vga_row s + 1\<rparr> else s);
          s = (if vga_row s \<ge> VGA_HEIGHT then vga_scroll s else s)
      in vga_update_cursor hw s)"

definition vga_puts :: "'d hw \<Rightarrow> u8 list \<Rightarrow> 'd console \<Rightarrow> 'd console" where
  "vga_puts hw cs s = fold (vga_putchar hw) cs s"

definition vga_set_cursor :: "'d hw \<Rightarrow> int \<Rightarrow> int \<Rightarrow> 'd console \<Rightarrow> 'd console" where
  "vga_set_cursor hw col row s = vga_update_cursor hw (s\<lparr>vga_col := col, vga_row := row\<rparr>)"

definition vga_get_col :: "'d console \<Rightarrow> int" where "vga_get_col s = vga_col s"
definition vga_get_row :: "'d console \<Rightarrow> int" where "vga_get_row s = vga_row s"

section \<open>The loops over cells\<close>

lemma scroll_up_eq:
  "0 \<le> n \<Longrightarrow> scroll_up m n = (\<lambda>i. if 0 \<le> i \<and> i < n then m (i + VGA_WIDTH) else m i)"
proof (induction n rule: int_ge_induct)
  case base
  show ?case by (auto simp: scroll_up_def fun_eq_iff)
next
  case (step n)
  have "scroll_up m (n + 1) = (scroll_up m n)(n := scroll_up m n (n + VGA_WIDTH))"
    using step.hyps by (simp add: scroll_up_def upto_rec2)
  with step.IH step.hyps show ?case by (auto simp: fun_eq_iff VGA_WIDTH_def)
qed

lemma fill_cells_eq:
  "a \<le> b \<Longrightarrow> fill_cells v a b m = (\<lambda>i. if a \<le> i \<and> i < b then v else m i)"
proof (induction b rule: int_ge_induct)
  case base
  show ?case by (auto simp: fill_cells_def fun_eq_iff)
next
  case (step b)
  have "fill_cells v a (b + 1) m = (fill_cells v a b m)(b := v)"
    using step.hyps by (simp add: fill_cells_def upto_rec2)
  with step show ?case by (auto simp: fun_eq_iff)
qed

lemma vga_scroll_eq:
  "vga_scroll s = s\<lparr>vga_mem := (\<lambda>i. if 0 \<le> i \<and> i < 1920 then vga_mem s (i + 80)
       else if 1920 \<le> i \<and> i < 2000 then vga_entry 32 (vga_attr s) else vga_mem s i),
     vga_row := 24\<rparr>"
  by (simp add: vga_scroll_def scroll_up_eq fill_cells_eq VGA_WIDTH_def VGA_HEIGHT_def)
     (simp add: fun_eq_iff VGA_WIDTH_def)

section \<open>Invariant\<close>

definition con_inv :: "'d console \<Rightarrow> bool" where
  "con_inv s \<longleftrightarrow> 0 \<le> vga_col s \<and> vga_col s < VGA_WIDTH \<and> 0 \<le> vga_row s \<and> vga_row s < VGA_HEIGHT"

definition on_screen :: "int \<Rightarrow> bool" where
  "on_screen i \<longleftrightarrow> 0 \<le> i \<and> i < VGA_WIDTH * VGA_HEIGHT"

lemmas con_defs = con_inv_def VGA_WIDTH_def VGA_HEIGHT_def

lemma update_cursor_frame [simp]:
  "vga_mem (vga_update_cursor hw s) = vga_mem s" "vga_col (vga_update_cursor hw s) = vga_col s"
  "vga_row (vga_update_cursor hw s) = vga_row s" "vga_attr (vga_update_cursor hw s) = vga_attr s"
  by (simp_all add: vga_update_cursor_def Let_def)

lemma tab_stop: "(c + 8) AND NOT 7 = (c div 8 + 1) * 8" for c :: int
proof -
  have "(c + 8) AND NOT (mask 3) = push_bit 3 (drop_bit 3 (c + 8))"
    by (rule bit_eqI) (auto simp: bit_simps)
  then have "(c + 8) AND NOT (mask 3) = (c + 8) div 8 * 8"
    by (simp add: push_bit_eq_mult drop_bit_eq_div)
  moreover have "(c + 8) div 8 = c div 8 + 1" by simp
  ultimately show ?thesis by (simp add: mask_eq_exp_minus_1)
qed

text \<open>
  The invariant, and the frame: no operation reached by output writes a cell outside the screen.
\<close>

definition screen_writes :: "'d console \<Rightarrow> 'd console \<Rightarrow> bool" where
  "screen_writes s s' \<longleftrightarrow> con_inv s' \<and> (\<forall>i. \<not> on_screen i \<longrightarrow> vga_mem s' i = vga_mem s i)"

lemma putchar_safe:
  assumes "con_inv s"
  shows "screen_writes s (vga_putchar hw c s)"
  using assms
  by (auto simp: vga_putchar_def Let_def screen_writes_def vga_scroll_eq con_defs on_screen_def tab_stop)

lemma puts_safe: "con_inv s \<Longrightarrow> screen_writes s (vga_puts hw cs s)"
  unfolding vga_puts_def
proof (induction cs arbitrary: s)
  case (Cons c cs)
  with putchar_safe [OF Cons.prems, of hw c] Cons.IH [of "vga_putchar hw c s"] show ?case
    by (auto simp: screen_writes_def)
qed (simp add: screen_writes_def)

lemma clear_safe: "screen_writes s (vga_clear hw s)"
  by (auto simp: vga_clear_def screen_writes_def con_defs on_screen_def fill_cells_eq)

text \<open>A console before its initialisation, with the serial line in use.\<close>

definition cold_console :: "port_log console" where
  "cold_console = \<lparr>con_uart = (True, []), vga_mem = (\<lambda>i. 0), vga_col = 0, vga_row = 0, vga_attr = 0\<rparr>"

end
