(* ===== verification/Terminal.thy ===== *)
theory Terminal
  imports Console
begin

text \<open>
  What the console promises, without indices into the text memory: a terminal of 25 rows of 80
  cells. The console of kernel/vga.c refines it, character by character and string by string.
\<close>

unbundle bit_operations_syntax

section \<open>The abstract terminal\<close>

record terminal =
  t_rows :: "u16 list list"
  t_col :: nat
  t_row :: nat
  t_attr :: u8

definition blank_row :: "u8 \<Rightarrow> u16 list" where
  "blank_row attr = replicate 80 (vga_entry 32 attr)"

definition set_cell :: "nat \<Rightarrow> nat \<Rightarrow> u16 \<Rightarrow> u16 list list \<Rightarrow> u16 list list" where
  "set_cell r c v rows = rows[r := (rows ! r)[c := v]]"

text \<open>The cursor has moved past the last row: the top row is lost and a blank one appears.\<close>

definition term_wrap :: "terminal \<Rightarrow> terminal" where
  "term_wrap t =
     (if t_row t < 25 then t
      else t\<lparr>t_rows := tl (t_rows t) @ [blank_row (t_attr t)], t_row := 24\<rparr>)"

definition term_at :: "nat \<Rightarrow> nat \<Rightarrow> terminal \<Rightarrow> terminal" where
  "term_at r c t =
     term_wrap (if c < 80 then t\<lparr>t_row := r, t_col := c\<rparr> else t\<lparr>t_row := r + 1, t_col := 0\<rparr>)"

definition term_put :: "u8 \<Rightarrow> terminal \<Rightarrow> terminal" where
  "term_put ch t =
     (if ch = 10 then term_at (t_row t + 1) 0 t
      else if ch = 13 then term_at (t_row t) 0 t
      else if ch = 9 then term_at (t_row t) ((t_col t div 8 + 1) * 8) t
      else if ch = 8 then
        (if t_col t = 0 then t
         else t\<lparr>t_rows := set_cell (t_row t) (t_col t - 1) (vga_entry 32 (t_attr t)) (t_rows t),
                t_col := t_col t - 1\<rparr>)
      else term_at (t_row t) (t_col t + 1)
             (t\<lparr>t_rows := set_cell (t_row t) (t_col t) (vga_entry ch (t_attr t)) (t_rows t)\<rparr>))"

definition term_blank :: "u8 \<Rightarrow> terminal" where
  "term_blank attr = \<lparr>t_rows = replicate 25 (blank_row attr), t_col = 0, t_row = 0, t_attr = attr\<rparr>"

section \<open>The refinement\<close>

definition rows_of :: "(int \<Rightarrow> u16) \<Rightarrow> u16 list list" where
  "rows_of m = map (\<lambda>r. map (\<lambda>c. m (int (80 * r + c))) [0..<80]) [0..<25]"

definition con_abs :: "'d console \<Rightarrow> terminal" where
  "con_abs s = \<lparr>t_rows = rows_of (vga_mem s), t_col = nat (vga_col s), t_row = nat (vga_row s),
     t_attr = vga_attr s\<rparr>"

lemma cell_index:
  "c < 80 \<Longrightarrow> c' < 80 \<Longrightarrow> 80 * r + c = 80 * r' + c' \<longleftrightarrow> r = r' \<and> c = c'" for c c' r r' :: nat
proof -
  assume "c < 80" "c' < 80"
  then have "(80 * r + c) div 80 = r" "(80 * r' + c') div 80 = r'" by simp_all
  then show ?thesis by (metis add_left_cancel)
qed

lemma rows_of_store:
  assumes "r < 25" "c < 80"
  shows "rows_of (m(int (80 * r + c) := v)) = set_cell r c v (rows_of m)"
proof (rule nth_equalityI)
  fix i assume "i < length (rows_of (m(int (80 * r + c) := v)))"
  then have i: "i < 25" by (simp add: rows_of_def)
  show "rows_of (m(int (80 * r + c) := v)) ! i = set_cell r c v (rows_of m) ! i"
  proof (rule nth_equalityI)
    fix j assume "j < length (rows_of (m(int (80 * r + c) := v)) ! i)"
    then have j: "j < 80" using i by (simp add: rows_of_def)
    then have "int (80 * i + j) = int (80 * r + c) \<longleftrightarrow> i = r \<and> j = c"
      using assms(2) cell_index [of j c i r] by (simp only: of_nat_eq_iff)
    with i j assms show "rows_of (m(int (80 * r + c) := v)) ! i ! j = set_cell r c v (rows_of m) ! i ! j"
      by (auto simp: rows_of_def set_cell_def nth_list_update simp del: of_nat_add of_nat_mult)
  qed (use i assms in \<open>auto simp: rows_of_def set_cell_def nth_list_update\<close>)
qed (simp add: rows_of_def set_cell_def)

lemma rows_of_scroll:
  "rows_of (\<lambda>i. if 0 \<le> i \<and> i < 1920 then m (i + 80)
       else if 1920 \<le> i \<and> i < 2000 then b else m i) = tl (rows_of m) @ [replicate 80 b]"
  (is "rows_of ?m = _")
proof (rule nth_equalityI)
  fix i assume "i < length (rows_of ?m)"
  then have i: "i < 25" by (simp add: rows_of_def)
  show "rows_of ?m ! i = (tl (rows_of m) @ [replicate 80 b]) ! i"
  proof (cases "i = 24")
    case True
    then show ?thesis
      by (intro nth_equalityI) (auto simp: rows_of_def nth_append)
  next
    case False
    with i show ?thesis by (auto simp: rows_of_def nth_append nth_tl algebra_simps)
  qed
qed (simp add: rows_of_def)

lemma rows_of_fill: "rows_of (\<lambda>i. if 0 \<le> i \<and> i < 2000 then b else m i) = replicate 25 (replicate 80 b)"
  by (rule nth_equalityI) (auto simp: rows_of_def intro: nth_equalityI)

lemma con_abs_simps [simp]:
  "t_rows (con_abs s) = rows_of (vga_mem s)" "t_col (con_abs s) = nat (vga_col s)"
  "t_row (con_abs s) = nat (vga_row s)" "t_attr (con_abs s) = vga_attr s"
  by (simp_all add: con_abs_def)

lemma update_cursor_abs [simp]: "con_abs (vga_update_cursor hw s) = con_abs s"
  by (simp add: con_abs_def)

text \<open>The common tail of \<open>vga_putchar\<close>: wrap the column, then scroll.\<close>

definition con_wrap :: "'d console \<Rightarrow> 'd console" where
  "con_wrap s =
     (let s = (if vga_col s \<ge> VGA_WIDTH then s\<lparr>vga_col := 0, vga_row := vga_row s + 1\<rparr> else s)
      in if vga_row s \<ge> VGA_HEIGHT then vga_scroll s else s)"

lemma scroll_abs:
  "con_abs (vga_scroll s) =
     (con_abs s)\<lparr>t_rows := tl (rows_of (vga_mem s)) @ [blank_row (vga_attr s)], t_row := 24\<rparr>"
  using rows_of_scroll [of "vga_mem s" "vga_entry 32 (vga_attr s)"]
  by (simp add: vga_scroll_eq con_abs_def blank_row_def)

lemma con_wrap_abs:
  assumes "0 \<le> vga_col s" "0 \<le> vga_row s" "vga_row s \<le> 25" "vga_row s = 25 \<longrightarrow> vga_col s < 80"
  shows "con_abs (con_wrap s) = term_at (nat (vga_row s)) (nat (vga_col s)) (con_abs s)"
  using assms
  by (auto simp: con_wrap_def Let_def VGA_WIDTH_def VGA_HEIGHT_def scroll_abs
      term_at_def term_wrap_def nat_add_distrib)

lemma store_abs:
  assumes "0 \<le> r" "r < 25" "0 \<le> c" "c < 80"
  shows "rows_of (m(r * 80 + c := v)) = set_cell (nat r) (nat c) v (rows_of m)"
  using rows_of_store [of "nat r" "nat c" m v] assms by (simp add: mult.commute)

text \<open>The part of \<open>vga_putchar\<close> between the serial mirror and the wrapping.\<close>

definition con_step :: "u8 \<Rightarrow> 'd console \<Rightarrow> 'd console" where
  "con_step c s =
     (if c = 10 then s\<lparr>vga_col := 0, vga_row := vga_row s + 1\<rparr>
      else if c = 13 then s\<lparr>vga_col := 0\<rparr>
      else if c = 9 then s\<lparr>vga_col := (vga_col s div 8 + 1) * 8\<rparr>
      else if c = 8 then
        (if vga_col s > 0 then
           s\<lparr>vga_col := vga_col s - 1,
             vga_mem := (vga_mem s)(vga_row s * 80 + (vga_col s - 1) := vga_entry 32 (vga_attr s))\<rparr>
         else s)
      else s\<lparr>vga_mem := (vga_mem s)(vga_row s * 80 + vga_col s := vga_entry c (vga_attr s)),
             vga_col := vga_col s + 1\<rparr>)"

lemma putchar_split:
  "vga_putchar hw c s =
     vga_update_cursor hw (con_wrap (con_step c (s\<lparr>con_uart := serial_putchar hw c (con_uart s)\<rparr>)))"
proof -
  have tab: "vga_col s + 8 AND - 8 = (vga_col s div 8 + 1) * 8"
    using tab_stop [of "vga_col s"] by simp
  consider "c = 10" | "c = 13" | "c = 9" | "c = 8" | "c \<notin> {8, 9, 10, 13}" by blast
  then show ?thesis
    by cases
       (simp_all add: vga_putchar_def con_wrap_def con_step_def Let_def tab VGA_WIDTH_def VGA_HEIGHT_def)
qed

lemma step_abs:
  assumes "con_inv s"
  shows "con_abs (con_wrap (con_step c s)) = term_put c (con_abs s)"
proof -
  have b: "0 \<le> vga_col s" "vga_col s < 80" "0 \<le> vga_row s" "vga_row s < 25"
    using assms by (simp_all add: con_defs)
  consider "c = 10" | "c = 13" | "c = 9" | "c = 8" "vga_col s = 0" | "c = 8" "vga_col s > 0"
    | "c \<notin> {8, 9, 10, 13}" using b by fastforce
  then show ?thesis
  proof cases
    case 1
    with b show ?thesis
      by (simp add: con_step_def con_wrap_abs term_put_def nat_add_distrib)
         (simp add: con_abs_def term_at_def)
  next
    case 2
    with b show ?thesis
      by (simp add: con_step_def con_wrap_abs term_put_def) (simp add: con_abs_def term_at_def)
  next
    case 3
    have "nat ((vga_col s div 8 + 1) * 8) = (nat (vga_col s) div 8 + 1) * 8"
      using b by (simp add: nat_mult_distrib nat_add_distrib nat_div_distrib)
    with 3 b show ?thesis
      by (simp add: con_step_def con_wrap_abs term_put_def) (simp add: con_abs_def term_at_def)
  next
    case 4
    with b show ?thesis
      by (simp add: con_step_def con_wrap_abs term_put_def term_at_def term_wrap_def)
  next
    case 5
    with b show ?thesis
      by (simp add: con_step_def con_wrap_abs term_put_def term_at_def term_wrap_def)
         (simp add: con_abs_def store_abs nat_diff_distrib)
  next
    case 6
    with b show ?thesis
      by (simp add: con_step_def con_wrap_abs term_put_def nat_add_distrib)
         (simp add: con_abs_def store_abs term_at_def)
  qed
qed

lemma putchar_abs: "con_inv s \<Longrightarrow> con_abs (vga_putchar hw c s) = term_put c (con_abs s)"
proof -
  assume "con_inv s"
  then have "con_inv (s\<lparr>con_uart := u\<rparr>)" for u by (simp add: con_defs)
  moreover have "con_abs (s\<lparr>con_uart := u\<rparr>) = con_abs s" for u by (simp add: con_abs_def)
  ultimately show ?thesis using step_abs unfolding putchar_split by (metis update_cursor_abs)
qed

lemma puts_abs: "con_inv s \<Longrightarrow> con_abs (vga_puts hw cs s) = fold term_put cs (con_abs s)"
  unfolding vga_puts_def
proof (induction cs arbitrary: s)
  case (Cons c cs)
  then show ?case
    using putchar_safe [OF Cons.prems, of hw c] putchar_abs [OF Cons.prems, of hw c]
    by (simp add: screen_writes_def)
qed simp

lemma clear_abs: "con_abs (vga_clear hw s) = term_blank (vga_attr s)"
  using rows_of_fill [of "vga_entry 32 (vga_attr s)" "vga_mem s"]
  by (simp add: vga_clear_def fill_cells_eq VGA_WIDTH_def VGA_HEIGHT_def con_abs_def term_blank_def
      blank_row_def)

section \<open>What the console promises\<close>

lemma init_inv: "con_inv (vga_init hw s)"
  using clear_safe by (auto simp: vga_init_def screen_writes_def)

text \<open>
  C11: Refinement: writing a string on the console of the C code does to the screen, the cursor
  and the colour exactly what the abstract terminal does: printable characters advance and wrap,
  newline, carriage return, tab and backspace move, and leaving the last row drops the first.
\<close>

theorem console_refines_terminal:
  assumes "con_inv s"
  shows "con_abs (vga_puts hw cs s) = fold term_put cs (con_abs s)"
  using assms by (rule puts_abs)

lemma console_refines_terminal_witness:
  "con_abs (vga_puts (rec_hw (\<lambda>p. 0)) (bytes ''a'') (vga_init (rec_hw (\<lambda>p. 0)) cold_console)) =
     term_put 0x61 (term_blank 7)"
  using console_refines_terminal [OF init_inv [of "rec_hw (\<lambda>p. 0)" cold_console], of "rec_hw (\<lambda>p. 0)" "bytes ''a''"]
  by (simp add: bytes_def vga_init_def clear_abs)

text \<open>
  C12: Memory safety of output: from a cursor on the screen, a string of any length and content
  leaves the cursor on the screen and never writes outside the 2000 cells of the text memory.
\<close>

theorem console_stays_on_screen:
  assumes "con_inv s"
  shows "con_inv (vga_puts hw cs s) \<and>
    (\<forall>i. i < 0 \<or> 2000 \<le> i \<longrightarrow> vga_mem (vga_puts hw cs s) i = vga_mem s i)"
  using puts_safe [OF assms, of hw cs]
  by (auto simp: screen_writes_def on_screen_def VGA_WIDTH_def VGA_HEIGHT_def)

lemma console_stays_on_screen_witness:
  "con_inv (vga_puts (rec_hw (\<lambda>p. 0x20)) (replicate 5000 0x41) (vga_init (rec_hw (\<lambda>p. 0x20)) cold_console))"
  using console_stays_on_screen [OF init_inv [of "rec_hw (\<lambda>p. 0x20)" cold_console],
      of "rec_hw (\<lambda>p. 0x20)" "replicate 5000 0x41"] by simp

text \<open>The position that the last writes to the CRT controller selected.\<close>

definition crt_position :: "port_log \<Rightarrow> nat option" where
  "crt_position log =
     (case rev log of
        (p3, hi) # (p2, i2) # (p1, lo) # (p0, i0) # _ \<Rightarrow>
          if (p0, i0) = (0x3D4, 0x0F) \<and> p1 = 0x3D5 \<and> (p2, i2) = (0x3D4, 0x0E) \<and> p3 = 0x3D5
          then Some (256 * unat hi + unat lo) else None
      | _ \<Rightarrow> None)"

lemma low_byte: "unat (ucast ((w :: u16) AND 0xFF) :: u8) = unat w mod 256"
proof -
  have "(ucast (w AND mask 8) :: u8) = ucast w"
    by (rule bit_word_eqI) (auto simp: bit_simps)
  then have "(ucast (w AND 0xFF) :: u8) = ucast w" by (simp add: mask_eq_exp_minus_1)
  then show ?thesis by (simp add: unsigned_ucast_eq take_bit_eq_mod)
qed

lemma high_byte: "unat (ucast (drop_bit 8 (w :: u16) AND 0xFF) :: u8) = unat w div 256"
proof -
  have "unat (drop_bit 8 w) = unat w div 256"
    by (simp only: unsigned_drop_bit_eq) (simp add: drop_bit_eq_div take_bit_nat_eq_self unat_u16_less)
  moreover have "unat w div 256 < 256" using unat_u16_less [of w] by simp
  ultimately show ?thesis by (simp only: low_byte) simp
qed

lemma unat_word_of_int16: "0 \<le> k \<Longrightarrow> k < 65536 \<Longrightarrow> unat (word_of_int k :: u16) = nat k"
  by (simp add: unsigned_of_int take_bit_int_eq_self)

lemma update_cursor_position:
  assumes "0 \<le> vga_row s * 80 + vga_col s" "vga_row s * 80 + vga_col s < 65536"
  shows "crt_position (snd (con_uart (vga_update_cursor (rec_hw ans) s))) =
    Some (nat (vga_row s * 80 + vga_col s))"
proof -
  define w where "w = (word_of_int (vga_row s * VGA_WIDTH + vga_col s) :: u16)"
  have "unat w = nat (vga_row s * 80 + vga_col s)"
    unfolding w_def VGA_WIDTH_def using assms by (rule unat_word_of_int16)
  then show ?thesis
    using low_byte [of w] high_byte [of w]
    by (simp add: vga_update_cursor_def Let_def crt_position_def VGA_CTRL_REG_def VGA_DATA_REG_def
        flip: w_def del: of_int_add of_int_mult)
qed

text \<open>
  After every character the hardware cursor is where the software cursor is.
\<close>

theorem console_cursor_follows:
  assumes "con_inv s"
  shows "crt_position (snd (con_uart (vga_putchar (rec_hw ans) c s))) =
     Some (nat (vga_get_row (vga_putchar (rec_hw ans) c s) * 80 +
        vga_get_col (vga_putchar (rec_hw ans) c s)))"
proof -
  let ?t = "con_wrap (con_step c (s\<lparr>con_uart := serial_putchar (rec_hw ans) c (con_uart s)\<rparr>))"
  have "con_inv ?t"
    using putchar_safe [OF assms, of "rec_hw ans" c] by (simp add: putchar_split screen_writes_def con_inv_def)
  then show ?thesis
    using update_cursor_position [of ?t ans]
    by (simp add: putchar_split vga_get_row_def vga_get_col_def con_defs)
qed

lemma console_cursor_follows_witness:
  "crt_position (snd (con_uart (vga_putchar (rec_hw (\<lambda>p. 0)) 0x41 (vga_init (rec_hw (\<lambda>p. 0)) cold_console)))) \<noteq> None"
  using console_cursor_follows [OF init_inv [of "rec_hw (\<lambda>p. 0)" cold_console], of "\<lambda>p. 0" "0x41"] by simp

text \<open>
  A character with the top bit set, such as a UTF-8 byte, loses the current colour: the sign
  extension of \<open>char\<close> sets the whole attribute byte of its cell, whatever the attribute was;
  a seven-bit character keeps it.
\<close>

theorem vga_entry_attribute:
  "ucast (drop_bit 8 (vga_entry c attr)) = (if c AND 0x80 = 0 then attr else (0xFF :: u8)) \<and>
   ucast (vga_entry c attr) = c"
proof -
  have msb: "c AND 0x80 = 0 \<longleftrightarrow> \<not> bit c 7"
    using and_exp_eq_0_iff_not_bit [of c 7] by simp
  have "bit (0xFF :: u8) n \<longleftrightarrow> n < 8" for n
  proof -
    have "bit (mask 8 :: u8) n \<longleftrightarrow> n < 8" by (auto simp: bit_simps)
    then show ?thesis by (simp add: mask_eq_exp_minus_1)
  qed
  then have "ucast (drop_bit 8 (vga_entry c attr)) = (if c AND 0x80 = 0 then attr else (0xFF :: u8))"
    unfolding msb vga_entry_def
    by (intro bit_word_eqI) (auto simp: bit_simps bit_signed_take_bit_iff min_def)
  moreover have "ucast (vga_entry c attr) = c"
  proof (rule bit_word_eqI)
    fix n :: nat
    assume "n < LENGTH(8)"
    then have "n < 7 \<or> n = 7" by auto
    then show "bit (ucast (vga_entry c attr) :: u8) n \<longleftrightarrow> bit c n"
      unfolding vga_entry_def by (auto simp: bit_simps min_def)
  qed
  ultimately show ?thesis by simp
qed

end
