(* ===== verification/Printf.thy ===== *)
theory Printf
  imports Terminal
begin

text \<open>
  The kernel's printf (second half of kernel/vga.c). The formatting functions compute the
  characters that are sent to \<open>vga_putchar\<close> in order; what C leaves undefined (running past the
  end of the format, the argument list or the 12-byte digit buffer, a width that does not fit an
  \<open>int\<close>, the negation of the least \<open>int\<close>) is an error value.
\<close>

unbundle bit_operations_syntax

section \<open>Operations\<close>

datatype fmt_error = FmtOverrun | ArgMissing | ArgKind | BufOverflow | IntOverflow

text \<open>A variadic argument: a 32-bit word, or a string pointer (\<open>None\<close> is the null pointer).\<close>

datatype va = VWord u32 | VStr "u8 list option"

definition digit_char :: "u32 \<Rightarrow> u8" where
  "digit_char digit = (if digit < 10 then 48 + ucast digit else 97 + ucast digit - 10)"

text \<open>The digit loop, least significant first, with the free slots of \<open>buf[12]\<close> as its bound.\<close>

primrec digit_loop :: "nat \<Rightarrow> u32 \<Rightarrow> u32 \<Rightarrow> u8 list option" where
  "digit_loop 0 val base = (if val = 0 then Some [] else None)"
| "digit_loop (Suc n) val base =
     (if val = 0 then Some []
      else map_option (\<lambda>ds. digit_char (val mod base) # ds) (digit_loop n (val div base) base))"

definition print_uint :: "u32 \<Rightarrow> u32 \<Rightarrow> nat \<Rightarrow> u8 \<Rightarrow> fmt_error + u8 list" where
  "print_uint val base width pad =
     (case (if val = 0 then Some [48] else digit_loop 12 val base) of
        None \<Rightarrow> Inl BufOverflow
      | Some ds \<Rightarrow>
          if length ds < width \<and> 12 < width then Inl BufOverflow
          else Inr (rev (ds @ replicate (width - length ds) pad)))"

definition print_int :: "u32 \<Rightarrow> nat \<Rightarrow> u8 \<Rightarrow> fmt_error + u8 list" where
  "print_int val width pad =
     (if val = 0x80000000 then Inl IntOverflow
      else if val <s 0
      then map_sum id (\<lambda>ds. 45 # ds) (print_uint (- val) 10 (if width \<noteq> 0 then width - 1 else 0) pad)
      else print_uint val 10 width pad)"

definition is_digit :: "u8 \<Rightarrow> bool" where
  "is_digit c \<longleftrightarrow> 48 <=s c \<and> c <=s 57"

definition bind_sum :: "'e + 'a \<Rightarrow> ('a \<Rightarrow> 'e + 'b) \<Rightarrow> 'e + 'b" where
  "bind_sum r f = (case r of Inl e \<Rightarrow> Inl e | Inr a \<Rightarrow> f a)"

lemma bind_sum_simps [simp]: "bind_sum (Inl e) f = Inl e" "bind_sum (Inr a) f = f a"
  by (simp_all add: bind_sum_def)

text \<open>The width is an \<open>int\<close>: a step past its largest value is undefined.\<close>

fun parse_width :: "u8 list \<Rightarrow> nat \<Rightarrow> fmt_error + nat \<times> u8 list" where
  "parse_width [] width = Inr (width, [])"
| "parse_width (c # cs) width =
     (if is_digit c then
        (let width = width * 10 + (unat c - 48) in
         if width < 0x80000000 then parse_width cs width else Inl IntOverflow)
      else Inr (width, c # cs))"

definition va_word :: "va list \<Rightarrow> fmt_error + u32 \<times> va list" where
  "va_word args = (case args of [] \<Rightarrow> Inl ArgMissing | VWord w # as \<Rightarrow> Inr (w, as) | _ # _ \<Rightarrow> Inl ArgKind)"

definition va_str :: "va list \<Rightarrow> fmt_error + u8 list option \<times> va list" where
  "va_str args = (case args of [] \<Rightarrow> Inl ArgMissing | VStr s # as \<Rightarrow> Inr (s, as) | _ # _ \<Rightarrow> Inl ArgKind)"

text \<open>
  The \<open>switch\<close>: the conversion character \<open>c\<close> with its width and padding. A \<open>long\<close> has 32 bits
  here, so the \<open>l\<close> modifier selects the same conversion.
\<close>

definition fmt_switch :: "u8 \<Rightarrow> nat \<Rightarrow> u8 \<Rightarrow> va list \<Rightarrow> fmt_error + u8 list \<times> va list" where
  "fmt_switch c width pad args =
     (if c = 99 then bind_sum (va_word args) (\<lambda>(w, as). Inr ([ucast w], as))
      else if c = 115 then
        bind_sum (va_str args) (\<lambda>(s, as).
          Inr (case s of None \<Rightarrow> bytes ''(null)'' | Some cs \<Rightarrow> cs, as))
      else if c = 100 \<or> c = 105 then
        bind_sum (va_word args) (\<lambda>(w, as). map_sum id (\<lambda>out. (out, as)) (print_int w width pad))
      else if c = 117 then
        bind_sum (va_word args) (\<lambda>(w, as). map_sum id (\<lambda>out. (out, as)) (print_uint w 10 width pad))
      else if c = 120 then
        bind_sum (va_word args) (\<lambda>(w, as). map_sum id (\<lambda>out. (out, as)) (print_uint w 16 width pad))
      else if c = 112 then
        bind_sum (va_word args) (\<lambda>(w, as).
          map_sum id (\<lambda>out. (bytes ''0x'' @ out, as)) (print_uint w 16 8 48))
      else if c = 37 then Inr ([37], args)
      else Inr ([37, c], args))"

text \<open>The directive after a percent sign: flags, width, length modifier.\<close>

definition fmt_head :: "u8 list \<Rightarrow> fmt_error + u8 \<times> nat \<times> u8 list" where
  "fmt_head fmt =
     (let (pad, fmt) = (case fmt of c # cs \<Rightarrow> if c = 48 then (48, cs) else (32, fmt) | [] \<Rightarrow> (32, fmt))
      in bind_sum (parse_width fmt 0) (\<lambda>(width, fmt).
        Inr (pad, width, case fmt of c # cs \<Rightarrow> if c = 108 then cs else fmt | [] \<Rightarrow> fmt)))"

lemma parse_width_length: "parse_width fmt w = Inr (width, rest) \<Longrightarrow> length rest \<le> length fmt"
  by (induction fmt w rule: parse_width.induct) (auto simp: Let_def split: if_splits)

lemma fmt_head_length: "fmt_head fmt = Inr (pad, width, rest) \<Longrightarrow> length rest \<le> length fmt"
  by (cases "parse_width fmt 0"; cases "parse_width (tl fmt) 0")
    (auto simp: fmt_head_def Let_def dest!: parse_width_length split: list.splits prod.splits if_splits)

text \<open>
  At the end of the format the conversion character is the terminator: it takes the default
  branch, and the increment after the switch steps over it.
\<close>

function vga_vprintf :: "u8 list \<Rightarrow> va list \<Rightarrow> fmt_error + u8 list" where
  "vga_vprintf [] args = Inr []"
| "vga_vprintf (f # fmt) args =
     (if f \<noteq> 37 then map_sum id (\<lambda>out. f # out) (vga_vprintf fmt args)
      else (case fmt_head fmt of
          Inl e \<Rightarrow> Inl e
        | Inr (pad, width, []) \<Rightarrow> Inl FmtOverrun
        | Inr (pad, width, c # rest) \<Rightarrow>
            bind_sum (fmt_switch c width pad args) (\<lambda>(out, as).
              map_sum id (\<lambda>out'. out @ out') (vga_vprintf rest as))))"
  by pat_completeness auto
termination
  by (relation "measure (\<lambda>(fmt, args). length fmt)") (auto dest!: fmt_head_length)

definition vga_printf :: "'d hw \<Rightarrow> u8 list \<Rightarrow> va list \<Rightarrow> 'd console \<Rightarrow> fmt_error + 'd console" where
  "vga_printf hw fmt args s = map_sum id (\<lambda>out. vga_puts hw out s) (vga_vprintf fmt args)"

section \<open>Digits\<close>

definition digit_value :: "u8 \<Rightarrow> nat" where
  "digit_value c = (if c < 58 then unat c - 48 else unat c - 87)"

definition digits_value :: "nat \<Rightarrow> u8 list \<Rightarrow> nat" where
  "digits_value b ds = fold (\<lambda>d n. n * b + digit_value d) ds 0"

fun lsb_value :: "nat \<Rightarrow> u8 list \<Rightarrow> nat" where
  "lsb_value b [] = 0"
| "lsb_value b (d # ds) = digit_value d + b * lsb_value b ds"

lemma digits_value_rev: "digits_value b (rev ds) = lsb_value b ds"
  by (induction ds) (simp_all add: digits_value_def)

lemma digit_char_value: "d < 16 \<Longrightarrow> digit_value (digit_char d) = unat d"
proof -
  assume d: "d < 16"
  then have u: "unat d < 16" by (simp add: word_less_nat_alt)
  then have c: "unat (ucast d :: u8) = unat d"
    by (simp add: unsigned_ucast_eq take_bit_nat_eq_self)
  show ?thesis
  proof (cases "d < 10")
    case True
    then have "unat d < 10" by (simp add: word_less_nat_alt)
    then have "unat (48 + ucast d :: u8) = 48 + unat d" using c by (simp add: unat_word_ariths)
    with True \<open>unat d < 10\<close> show ?thesis by (simp add: digit_value_def digit_char_def word_less_nat_alt)
  next
    case False
    then have "10 \<le> unat d" by (simp add: word_less_nat_alt)
    have "97 + ucast d - 10 = (87 + ucast d :: u8)" by simp
    moreover have "unat (87 + ucast d :: u8) = 87 + unat d" using c u by (simp add: unat_word_ariths)
    ultimately show ?thesis using False \<open>10 \<le> unat d\<close>
      by (simp add: digit_value_def digit_char_def word_less_nat_alt)
  qed
qed

lemma digit_char_zero: "d < 16 \<Longrightarrow> digit_char d = 48 \<longleftrightarrow> d = 0"
proof
  assume d: "d < 16" and z: "digit_char d = 48"
  have "unat d = 0" using digit_char_value [OF d] unfolding z by (simp add: digit_value_def)
  then show "d = 0" by (simp add: unat_eq_zero)
qed (simp add: digit_char_def)

lemma unat_div_word: "unat (x div y) = unat x div unat y" for x y :: "'a::len word"
  by (simp add: unat_div_distrib)

lemma digit_loop_ok:
  assumes "2 \<le> unat base" "unat base \<le> 16" "unat val < unat base ^ n"
  shows "\<exists>ds. digit_loop n val base = Some ds \<and> length ds \<le> n \<and>
    lsb_value (unat base) ds = unat val \<and> (val \<noteq> 0 \<longrightarrow> ds \<noteq> [] \<and> last ds \<noteq> 48)"
  using assms(3)
proof (induction n arbitrary: val)
  case 0
  then show ?case by (simp add: unat_eq_zero)
next
  case (Suc n)
  show ?case
  proof (cases "val = 0")
    case False
    have q: "unat (val div base) = unat val div unat base" by (rule unat_div_word)
    moreover have "unat val div unat base < unat base ^ n"
      using Suc.prems by (simp add: less_mult_imp_div_less mult.commute)
    ultimately obtain ds where ds: "digit_loop n (val div base) base = Some ds" "length ds \<le> n"
      "lsb_value (unat base) ds = unat val div unat base"
      "val div base \<noteq> 0 \<longrightarrow> ds \<noteq> [] \<and> last ds \<noteq> 48"
      using Suc.IH [of "val div base"] by auto
    have m: "unat (val mod base) = unat val mod unat base" by (simp add: unat_mod_distrib)
    have "unat val mod unat base < unat base" using assms(1) by simp
    with m assms(2) have lt: "val mod base < 16" by (simp add: word_less_nat_alt)
    have "ds = [] \<Longrightarrow> val mod base \<noteq> 0"
    proof
      assume "ds = []" "val mod base = 0"
      with ds(3) m have "unat val = 0" by (metis div_mult_mod_eq lsb_value.simps(1) mult_0 add_0 unsigned_0)
      with False show False by (simp add: unat_eq_zero)
    qed
    moreover have "val div base = 0 \<or> ds \<noteq> []" using ds(4) by blast
    moreover have "ds \<noteq> [] \<Longrightarrow> val div base \<noteq> 0"
    proof
      assume "ds \<noteq> []" "val div base = 0"
      with ds(1) show False by (cases n) auto
    qed
    ultimately show ?thesis
      using False ds lt m assms(1) by (auto simp: digit_char_value digit_char_zero)
  qed simp
qed

text \<open>The bases that the format uses.\<close>

lemma print_digits:
  assumes "base = 10 \<or> base = 16"
  shows "\<exists>ds. (if val = 0 then Some [48] else digit_loop 12 val base) = Some ds \<and> length ds \<le> 12 \<and>
    lsb_value (unat base) ds = unat val \<and> ds \<noteq> [] \<and> (last ds = 48 \<longrightarrow> ds = [48])"
proof (cases "val = 0")
  case True
  then show ?thesis by (simp add: digit_value_def)
next
  case False
  have "unat base = 10 \<or> unat base = 16" using assms by auto
  moreover have "unat val < 10 ^ 12" "unat val < 16 ^ 12"
    using unat_u32_less [of val] by simp_all
  ultimately have "2 \<le> unat base" "unat base \<le> 16" "unat val < unat base ^ 12" by auto
  from digit_loop_ok [OF this] False show ?thesis by auto
qed

text \<open>
  The reference: the numeral of a number in a base, most significant digit first, and padding on the
  left to a width.
\<close>

fun numeral_text :: "nat \<Rightarrow> nat \<Rightarrow> u8 list" where
  "numeral_text b n =
     (if n < b \<or> b < 2 then [bytes ''0123456789abcdef'' ! n]
      else numeral_text b (n div b) @ [bytes ''0123456789abcdef'' ! (n mod b)])"

declare numeral_text.simps [simp del]

definition lpad :: "nat \<Rightarrow> u8 \<Rightarrow> u8 list \<Rightarrow> u8 list" where
  "lpad width pad ds = replicate (width - length ds) pad @ ds"

lemma digit_char_table: "d < 16 \<Longrightarrow> digit_char d = bytes ''0123456789abcdef'' ! unat d"
proof -
  assume "d < 16"
  then have "unat d < 16" by (simp add: word_less_nat_alt)
  moreover have "\<forall>n<16. digit_char (of_nat n) = bytes ''0123456789abcdef'' ! n" by code_simp
  ultimately show ?thesis by (metis word_of_unat)
qed

lemma digit_loop_text:
  assumes "2 \<le> unat base" "unat base \<le> 16"
  shows "digit_loop n val base = Some ds \<Longrightarrow> val \<noteq> 0 \<Longrightarrow> rev ds = numeral_text (unat base) (unat val)"
proof (induction n arbitrary: val ds)
  case (Suc n)
  then obtain es where es: "digit_loop n (val div base) base = Some es" "ds = digit_char (val mod base) # es"
    by auto
  have m: "unat (val mod base) = unat val mod unat base" by (simp add: unat_mod_distrib)
  have "unat val mod unat base < unat base" using assms(1) by simp
  with m assms(2) have "val mod base < 16" by (simp add: word_less_nat_alt)
  then have d: "digit_char (val mod base) = bytes ''0123456789abcdef'' ! (unat val mod unat base)"
    using digit_char_table m by simp
  have q: "unat (val div base) = unat val div unat base" by (rule unat_div_word)
  show ?case
  proof (cases "val div base = 0")
    case True
    with q have "unat val < unat base" using assms(1) by (auto simp: div_eq_0_iff)
    moreover have "es = []" using es(1) True by (cases n) auto
    ultimately show ?thesis using es(2) d by (simp add: numeral_text.simps [of "unat base" "unat val"])
  next
    case False
    with q have "\<not> unat val < unat base" by (auto simp: unat_eq_zero)
    with Suc.IH [OF es(1) False] es(2) d q assms(1) show ?thesis
      by (simp add: numeral_text.simps [of "unat base" "unat val"])
  qed
qed simp

text \<open>
  Printing an unsigned number in base 10 or 16 never overruns the digit buffer up to width
  12: it produces the numeral padded to the width. A larger width overruns the buffer.
\<close>

theorem print_uint_correct:
  assumes "base = 10 \<or> base = 16"
  shows "print_uint val base width pad =
    (if width \<le> 12 then Inr (lpad width pad (numeral_text (unat base) (unat val))) else Inl BufOverflow)"
proof -
  obtain ds where ds: "(if val = 0 then Some [48] else digit_loop 12 val base) = Some ds" "length ds \<le> 12"
    using print_digits [OF assms] by blast
  have "rev ds = numeral_text (unat base) (unat val)"
  proof (cases "val = 0")
    case True
    with ds(1) assms show ?thesis by (auto simp: numeral_text.simps bytes_def)
  next
    case False
    moreover have "2 \<le> unat base" "unat base \<le> 16" using assms by auto
    ultimately show ?thesis using ds(1) digit_loop_text [of base 12 val ds] by simp
  qed
  then have "replicate (width - length ds) pad @ rev ds = lpad width pad (numeral_text (unat base) (unat val))"
    by (metis length_rev lpad_def)
  with ds show ?thesis by (simp add: print_uint_def)
qed

lemma print_uint_correct_witness:
  "print_uint 0xBEEF 16 8 48 = Inr (bytes ''0000beef'') \<and>
   print_uint 0xBEEF 16 8 48 = Inr (lpad 8 48 (numeral_text 16 48879))"
proof
  show "print_uint 0xBEEF 16 8 48 = Inr (bytes ''0000beef'')" by code_simp
  show "print_uint 0xBEEF 16 8 48 = Inr (lpad 8 48 (numeral_text 16 48879))"
    using print_uint_correct [of 16 "0xBEEF" 8 48] by simp
qed

text \<open>The numeral denotes the number and has no superfluous zero.\<close>

lemma numeral_text_value:
  assumes "b = 10 \<or> b = 16" "n < 2 ^ 32"
  shows "digits_value b (numeral_text b n) = n" "hd (numeral_text b n) = 48 \<longrightarrow> numeral_text b n = [48]"
proof -
  let ?base = "of_nat b :: u32" and ?val = "of_nat n :: u32"
  have u: "?base = 10 \<or> ?base = 16" "unat ?base = b" "unat ?val = n"
    using assms by (auto simp: unat_of_nat_word)
  obtain ds where ds: "(if ?val = 0 then Some [48] else digit_loop 12 ?val ?base) = Some ds"
    "lsb_value b ds = n" "ds \<noteq> []" "last ds = 48 \<longrightarrow> ds = [48]"
    using print_digits [OF u(1), of ?val] unfolding u(2,3) by blast
  have "rev ds = numeral_text b n"
  proof (cases "?val = 0")
    case True
    with ds(1) u(3) assms(1) show ?thesis by (auto simp: numeral_text.simps bytes_def)
  next
    case False
    with ds(1) digit_loop_text [of ?base 12 ?val ds] assms(1) show ?thesis unfolding u(2,3) by auto
  qed
  with ds digits_value_rev [of b ds] show "digits_value b (numeral_text b n) = n"
    "hd (numeral_text b n) = 48 \<longrightarrow> numeral_text b n = [48]"
    by (metis, metis hd_rev rev_singleton_conv)
qed

lemma sint_u32: "sint (w :: u32) = uint w - 4294967296 * of_bool (bit (uint w) 31)"
proof -
  have "take_bit 32 (uint w) = uint w" by (simp add: take_bit_int_eq_self uint_u32_less)
  then show ?thesis by (simp add: sint_uint signed_take_bit_eq_take_bit_minus)
qed

text \<open>
  Printing a signed number: a minus sign exactly when it is negative, then the magnitude padded to
  what is left of the width. The least number has no negation.
\<close>

definition signed_text :: "nat \<Rightarrow> u8 \<Rightarrow> int \<Rightarrow> u8 list" where
  "signed_text width pad z =
     (if z < 0 then 45 # lpad (width - 1) pad (numeral_text 10 (nat (- z))) else lpad width pad (numeral_text 10 (nat z)))"

lemma negated_magnitude:
  assumes "sint val < 0"
  shows "unat (- val :: u32) = nat (- sint val)"
proof -
  have "sint val = uint val - 2 ^ 32"
    using assms by (cases "bit (uint val) 31") (simp_all add: sint_u32)
  moreover have "uint (- val) = 2 ^ 32 - uint val"
  proof -
    have "val \<noteq> 0" using assms by auto
    then have "uint val mod 4294967296 \<noteq> 0"
      using uint_u32_less [of val] by (simp add: uint_0_iff mod_pos_pos_trivial)
    then show ?thesis
      using uint_u32_less [of val]
      by (simp add: uint_word_ariths zmod_zminus1_eq_if mod_pos_pos_trivial)
  qed
  ultimately show ?thesis by (simp add: unat_eq_nat_uint)
qed

theorem print_int_correct:
  "print_int val width pad =
    (if sint val = - (2 ^ 31) then Inl IntOverflow
     else if width \<le> (if sint val < 0 then 13 else 12) then Inr (signed_text width pad (sint val)) else Inl BufOverflow)"
proof -
  have least: "val = 0x80000000 \<longleftrightarrow> sint val = - (2 ^ 31)"
  proof
    assume "sint val = - (2 ^ 31)"
    then have "sint val = sint (0x80000000 :: u32)" by simp
    then show "val = 0x80000000" by (simp only: signed_word_eqI)
  qed simp
  show ?thesis
  proof (cases "val <s 0")
    case True
    then have neg: "sint val < 0" by (simp add: word_sless_alt)
    have w: "(if width \<noteq> 0 then width - 1 else 0) = width - 1" "width - 1 \<le> 12 \<longleftrightarrow> width \<le> 13" by auto
    show ?thesis
      using True neg least w print_uint_correct [of 10 "- val" "width - 1" pad] negated_magnitude [OF neg]
      by (simp add: print_int_def signed_text_def)
  next
    case False
    then have pos: "0 \<le> sint val" by (simp add: word_sless_alt)
    then have "unat val = nat (sint val)"
      using uint_u32_less [of val] by (cases "bit (uint val) 31") (simp_all add: sint_u32)
    with False pos least show ?thesis
      using print_uint_correct [of 10 val width pad] by (simp add: print_int_def signed_text_def)
  qed
qed

lemma print_int_example: "print_int (- 42) 6 32 = Inr (bytes ''-   42'')"
  by code_simp

section \<open>Formats\<close>

text \<open>
  The meaning of a format, as a list of pieces: literal text, and directives with a padding
  flag, the decimal digits of the width, an optional \<open>l\<close> and a conversion character.
\<close>

datatype piece = Lit u8 | Dir bool "nat list" bool u8

fun piece_fmt :: "piece \<Rightarrow> u8 list" where
  "piece_fmt (Lit c) = [c]"
| "piece_fmt (Dir zero ds lng c) =
     37 # (if zero then [48] else []) @ map (\<lambda>d. 48 + of_nat d) ds @ (if lng then [108] else []) @ [c]"

fun piece_ok :: "piece \<Rightarrow> bool" where
  "piece_ok (Lit c) = (c \<noteq> 37 \<and> c \<noteq> 0)"
| "piece_ok (Dir zero ds lng c) =
     ((\<forall>d \<in> set ds. d < 10) \<and> (zero \<or> ds = [] \<or> hd ds \<noteq> 0) \<and> \<not> is_digit c \<and> (lng \<or> c \<noteq> 108) \<and> c \<noteq> 0)"

definition width_of :: "nat list \<Rightarrow> nat" where
  "width_of ds = fold (\<lambda>d w. w * 10 + d) ds 0"

text \<open>
  What a directive means, independently of the program: \<open>%c\<close> is one character, \<open>%s\<close> a string or
  (null), \<open>%d\<close> and \<open>%i\<close> a signed and \<open>%u\<close> an unsigned decimal numeral, \<open>%x\<close> a hexadecimal one, each
  padded to the width, \<open>%p\<close> eight hexadecimal digits after 0x, a second percent sign a percent sign, and
  everything else stands for itself. A directive has no meaning when its argument is missing or of the
  wrong kind, when the width is no \<open>int\<close>, when what is padded does not fit 12 bytes, and for the least
  \<open>int\<close>.
\<close>

definition word_text :: "u8 \<Rightarrow> nat \<Rightarrow> u8 \<Rightarrow> u32 \<Rightarrow> u8 list option" where
  "word_text c w pad v =
     (if c = of_char (CHR ''c'') then Some [ucast v]
      else if c = of_char (CHR ''p'') then Some (bytes ''0x'' @ lpad 8 48 (numeral_text 16 (unat v)))
      else if c = of_char (CHR ''u'') then if w \<le> 12 then Some (lpad w pad (numeral_text 10 (unat v))) else None
      else if c = of_char (CHR ''x'') then if w \<le> 12 then Some (lpad w pad (numeral_text 16 (unat v))) else None
      else if sint v = - (2 ^ 31) \<or> (if sint v < 0 then 13 else 12) < w then None
      else Some (signed_text w pad (sint v)))"

definition directive_text :: "u8 \<Rightarrow> nat \<Rightarrow> u8 \<Rightarrow> va list \<Rightarrow> (u8 list \<times> va list) option" where
  "directive_text c w pad args =
     (if c \<in> set (bytes ''cdiuxp'') then
        (case args of VWord v # as \<Rightarrow> map_option (\<lambda>out. (out, as)) (word_text c w pad v) | _ \<Rightarrow> None)
      else if c = of_char (CHR ''s'') then
        (case args of VStr None # as \<Rightarrow> Some (bytes ''(null)'', as) | VStr (Some cs) # as \<Rightarrow> Some (cs, as) | _ \<Rightarrow> None)
      else if c = of_char (CHR ''%'') then Some (bytes ''%'', args)
      else Some (bytes ''%'' @ [c], args))"

fun format_text :: "piece list \<Rightarrow> va list \<Rightarrow> u8 list option" where
  "format_text [] args = Some []"
| "format_text (Lit c # ps) args = map_option (\<lambda>out. c # out) (format_text ps args)"
| "format_text (Dir zero ds lng c # ps) args =
     (if 2 ^ 31 \<le> width_of ds then None
      else (case directive_text c (width_of ds) (if zero then of_char (CHR ''0'') else of_char (CHR '' '')) args of
          None \<Rightarrow> None
        | Some (out, as) \<Rightarrow> map_option (\<lambda>out'. out @ out') (format_text ps as)))"

lemma digit_byte: "d < 10 \<Longrightarrow> is_digit (48 + of_nat d) \<and> unat (48 + of_nat d :: u8) - 48 = d"
proof -
  assume "d < 10"
  then have "d \<in> {0, 1, 2, 3, 4, 5, 6, 7, 8, 9}" by auto
  then show ?thesis by (auto simp: is_digit_def)
qed

lemma width_grows: "w \<le> fold (\<lambda>d w. w * 10 + d) ds (w :: nat)"
proof (induction ds arbitrary: w)
  case (Cons d ds)
  from Cons [of "w * 10 + d"] show ?case by simp
qed simp

lemma parse_width_digits:
  assumes "\<forall>d \<in> set ds. d < 10" "\<not> is_digit c" "w < 0x80000000"
  shows "parse_width (map (\<lambda>d. 48 + of_nat d) ds @ c # rest) w =
    (if fold (\<lambda>d w. w * 10 + d) ds w < 0x80000000 then Inr (fold (\<lambda>d w. w * 10 + d) ds w, c # rest)
     else Inl IntOverflow)"
  using assms(1,3)
proof (induction ds arbitrary: w)
  case Nil
  with assms(2) show ?case by simp
next
  case (Cons d ds)
  show ?case
  proof (cases "w * 10 + d < 0x80000000")
    case True
    with Cons digit_byte [of d] show ?thesis by simp
  next
    case False
    with width_grows [of "w * 10 + d" ds] have "\<not> fold (\<lambda>d w. w * 10 + d) (d # ds) w < 0x80000000" by simp
    with False Cons.prems digit_byte [of d] show ?thesis by simp
  qed
qed

lemma nonzero_digit: "0 < d \<Longrightarrow> d < 10 \<Longrightarrow> (48 + of_nat d :: u8) \<noteq> 48"
proof
  assume "0 < d" "d < 10" and eq: "(48 + of_nat d :: u8) = 48"
  with digit_byte [of d] have "unat (48 :: u8) - 48 = d" by metis
  with \<open>0 < d\<close> show False by simp
qed

lemma fmt_head_dir:
  assumes "piece_ok (Dir zero ds lng c)"
  shows "fmt_head (tl (piece_fmt (Dir zero ds lng c)) @ rest) =
    (if width_of ds < 2 ^ 31 then Inr (if zero then 48 else 32, width_of ds, c # rest) else Inl IntOverflow)"
proof -
  let ?l = "if lng then 108 # c # rest else c # rest"
  have l: "\<exists>x xs. ?l = x # xs \<and> \<not> is_digit x"
    using assms by (auto simp: is_digit_def)
  then have pw: "parse_width (map (\<lambda>d. 48 + of_nat d) ds @ ?l) 0 =
      (if width_of ds < 2 ^ 31 then Inr (width_of ds, ?l) else Inl IntOverflow)"
    using parse_width_digits [of ds _ 0] assms by (auto simp: width_of_def)
  show ?thesis
  proof (cases zero)
    case True
    with pw assms show ?thesis by (cases lng) (simp_all add: fmt_head_def)
  next
    case False
    have "hd (map (\<lambda>d. 48 + of_nat d) ds @ ?l) \<noteq> 48"
      using False assms l nonzero_digit [of "hd ds"] by (cases ds) (auto simp: is_digit_def)
    moreover obtain x xs where "map (\<lambda>d. 48 + of_nat d) ds @ ?l = x # xs"
      by (cases "map (\<lambda>d. 48 + of_nat d) ds @ ?l") (auto split: if_splits)
    ultimately show ?thesis
      using False pw assms by (cases lng) (simp_all add: fmt_head_def Let_def)
  qed
qed

text \<open>The \<open>switch\<close> does what the directive means, and fails where it has no meaning.\<close>

lemma fmt_switch_means:
  "(directive_text c w pad args = Some r \<longrightarrow> fmt_switch c w pad args = Inr r) \<and>
   (directive_text c w pad args = None \<longrightarrow> (\<exists>e. fmt_switch c w pad args = Inl e))"
proof -
  consider "args = []" | (word) v as where "args = VWord v # as" | (str) s as where "args = VStr s # as"
    by (metis list.exhaust va.exhaust)
  then show ?thesis
  proof cases
    case word
    consider "c = 99" | "c = 112" | "c = 117" | "c = 120" | "c = 100 \<or> c = 105" | "c \<notin> {99, 112, 117, 120, 100, 105}"
      by blast
    then show ?thesis
      by cases
        (auto simp: word directive_text_def word_text_def fmt_switch_def va_word_def va_str_def bytes_def
          print_uint_correct print_int_correct split: if_splits)
  next
    case str
    then show ?thesis
      by (cases s) (auto simp: directive_text_def fmt_switch_def va_word_def va_str_def bytes_def)
  qed (auto simp: directive_text_def fmt_switch_def va_word_def va_str_def bytes_def)
qed

text \<open>
  C13: Formats mean what they say: a format written as literal text and directives prints the text
  that the directives mean, in order, each with its arguments; and it fails exactly when one of them
  has no meaning.
\<close>

theorem vprintf_renders:
  assumes "\<forall>p \<in> set ps. piece_ok p"
  shows "case format_text ps args of
      Some out \<Rightarrow> vga_vprintf (concat (map piece_fmt ps)) args = Inr out
    | None \<Rightarrow> \<exists>e. vga_vprintf (concat (map piece_fmt ps)) args = Inl e"
  using assms
proof (induction ps arbitrary: args)
  case (Cons p ps)
  show ?case
  proof (cases p)
    case (Lit c)
    with Cons.IH [of args] Cons.prems show ?thesis by (cases "format_text ps args") auto
  next
    case (Dir zero ds lng c)
    let ?rest = "concat (map piece_fmt ps)" and ?pad = "if zero then 48 else 32 :: u8"
    have f: "concat (map piece_fmt (p # ps)) = 37 # tl (piece_fmt p) @ ?rest"
      using Dir by simp
    have h: "fmt_head (tl (piece_fmt p) @ ?rest) =
        (if width_of ds < 2 ^ 31 then Inr (?pad, width_of ds, c # ?rest) else Inl IntOverflow)"
      using Dir Cons.prems fmt_head_dir [of zero ds lng c ?rest] by simp
    show ?thesis
    proof (cases "width_of ds < 2 ^ 31 \<and> directive_text c (width_of ds) ?pad args \<noteq> None")
      case True
      then obtain out as where "directive_text c (width_of ds) ?pad args = Some (out, as)" by auto
      with True fmt_switch_means [of c "width_of ds" ?pad args] Cons.IH [of as] Cons.prems Dir f h show ?thesis
        by (auto split: option.splits)
    next
      case False
      then have none: "format_text (p # ps) args = None"
        using Dir by (cases "directive_text c (width_of ds) ?pad args") (auto split: if_splits)
      obtain e where "\<not> width_of ds < 2 ^ 31 \<or> fmt_switch c (width_of ds) ?pad args = Inl e"
        using False fmt_switch_means [of c "width_of ds" ?pad args] by blast
      with h have "\<exists>e. vga_vprintf (37 # tl (piece_fmt p) @ ?rest) args = Inl e"
        by (cases "width_of ds < 2 ^ 31") simp_all
      with none show ?thesis unfolding f by simp
    qed
  qed
qed simp

lemma numeral_examples: "numeral_text 10 7 = [55]" "numeral_text 16 42 = bytes ''2a''"
  by (simp_all add: numeral_text.simps [of 10 7] numeral_text.simps [of 16 42] numeral_text.simps [of 16 2] bytes_def)

lemma replicate_two: "replicate 2 c = [c, c]"
  by (simp add: numeral_2_eq_2)

lemma directive_examples:
  "directive_text 100 4 32 [VWord (- 7), VWord 42] = Some (bytes ''-  7'', [VWord 42])"
  "directive_text 120 0 32 [VWord 42] = Some (bytes ''2a'', [])"
  by (simp_all add: directive_text_def word_text_def signed_text_def lpad_def numeral_examples replicate_two bytes_def)

lemma vprintf_renders_witness:
  "vga_vprintf (bytes ''n=%4d,%x!'') [VWord (- 7), VWord 42] = Inr (bytes ''n=-  7,2a!'')"
proof -
  let ?ps = "[Lit 110, Lit 61, Dir False [4] False 100, Lit 44, Dir False [] False 120, Lit 33]"
  have t: "format_text ?ps [VWord (- 7), VWord 42] = Some (bytes ''n=-  7,2a!'')"
    by (simp add: directive_examples width_of_def) (simp add: bytes_def)
  have "\<forall>p \<in> set ?ps. piece_ok p" by (simp add: is_digit_def)
  from vprintf_renders [OF this, of "[VWord (- 7), VWord 42]"]
  have "vga_vprintf (concat (map piece_fmt ?ps)) [VWord (- 7), VWord 42] = Inr (bytes ''n=-  7,2a!'')"
    unfolding t by simp
  moreover have "concat (map piece_fmt ?ps) = bytes ''n=%4d,%x!''"
    by (simp add: bytes_def)
  ultimately show ?thesis by (simp only:)
qed

text \<open>
  A format whose last character is a percent sign makes the formatter run past its
  terminator, after any literal text.
\<close>

theorem vprintf_trailing_percent:
  "vga_vprintf (filter (\<lambda>c. c \<noteq> 37) lit @ [37]) args = Inl FmtOverrun"
  by (induction lit) (simp_all add: fmt_head_def)

end
