(* ===== verification/Interrupts.thy ===== *)
theory Interrupts
  imports Keyboard Printf
begin

text \<open>
  Interrupts of the kernel: the two 8259A controllers (kernel/pic.c), the timer (kernel/pit.c), the
  descriptor table and the central dispatcher (kernel/idt.c) and the two IRQ wrappers that
  kernel_main.c registers.
\<close>

unbundle bit_operations_syntax

section \<open>Programmable interrupt controllers\<close>

definition PIC1_CMD :: u16 where "PIC1_CMD = 0x20"
definition PIC1_DATA :: u16 where "PIC1_DATA = 0x21"
definition PIC2_CMD :: u16 where "PIC2_CMD = 0xA0"
definition PIC2_DATA :: u16 where "PIC2_DATA = 0xA1"
definition PIC_EOI :: u8 where "PIC_EOI = 0x20"
definition PIC_MASTER_OFFSET :: u8 where "PIC_MASTER_OFFSET = 0x20"
definition PIC_SLAVE_OFFSET :: u8 where "PIC_SLAVE_OFFSET = 0x28"

lemmas pic_ports = PIC1_CMD_def PIC1_DATA_def PIC2_CMD_def PIC2_DATA_def PIC_EOI_def
  PIC_MASTER_OFFSET_def PIC_SLAVE_OFFSET_def

definition io_wait :: "'d hw \<Rightarrow> 'd \<Rightarrow> 'd" where
  "io_wait hw d = outb hw 0x80 0 d"

definition pic_remap :: "'d hw \<Rightarrow> u8 \<Rightarrow> u8 \<Rightarrow> 'd \<Rightarrow> 'd" where
  "pic_remap hw master_offset slave_offset d =
     (let (mask1, d) = inb hw PIC1_DATA d;
          (mask2, d) = inb hw PIC2_DATA d;
          d = io_wait hw (outb hw PIC1_CMD 0x11 d);
          d = io_wait hw (outb hw PIC2_CMD 0x11 d);
          d = io_wait hw (outb hw PIC1_DATA master_offset d);
          d = io_wait hw (outb hw PIC2_DATA slave_offset d);
          d = io_wait hw (outb hw PIC1_DATA 0x04 d);
          d = io_wait hw (outb hw PIC2_DATA 0x02 d);
          d = io_wait hw (outb hw PIC1_DATA 0x01 d);
          d = io_wait hw (outb hw PIC2_DATA 0x01 d);
          d = outb hw PIC1_DATA mask1 d
      in outb hw PIC2_DATA mask2 d)"

definition pic_send_eoi :: "'d hw \<Rightarrow> u8 \<Rightarrow> 'd \<Rightarrow> 'd" where
  "pic_send_eoi hw irq d =
     outb hw PIC1_CMD PIC_EOI (if irq \<ge> 8 then outb hw PIC2_CMD PIC_EOI d else d)"

text \<open>\<open>1 << irq\<close> is computed as an \<open>int\<close> and cut to 8 bits when it is stored.\<close>

definition pic_set_mask :: "'d hw \<Rightarrow> u8 \<Rightarrow> 'd \<Rightarrow> 'd" where
  "pic_set_mask hw irq d =
     (let (port, irq) = (if irq < 8 then (PIC1_DATA, irq) else (PIC2_DATA, irq - 8));
          (val, d) = inb hw port d
      in outb hw port (val OR push_bit (unat irq) 1) d)"

definition pic_clear_mask :: "'d hw \<Rightarrow> u8 \<Rightarrow> 'd \<Rightarrow> 'd" where
  "pic_clear_mask hw irq d =
     (let (port, irq) = (if irq < 8 then (PIC1_DATA, irq) else (PIC2_DATA, irq - 8));
          (val, d) = inb hw port d
      in outb hw port (val AND NOT (push_bit (unat irq) 1)) d)"

section \<open>Timer\<close>

definition PIT_BASE_FREQ :: u32 where "PIT_BASE_FREQ = 1193182"
definition PIT_DEFAULT_FREQ :: u32 where "PIT_DEFAULT_FREQ = 100"
definition PIT_CHANNEL0_DATA :: u16 where "PIT_CHANNEL0_DATA = 0x40"
definition PIT_CMD :: u16 where "PIT_CMD = 0x43"

text \<open>The divisor, and the initialisation: the tick counter and the device.\<close>

definition pit_divisor :: "u32 \<Rightarrow> u32" where
  "pit_divisor frequency =
     (let frequency = (if frequency = 0 then PIT_DEFAULT_FREQ else frequency);
          divisor = PIT_BASE_FREQ div frequency;
          divisor = (if divisor > 0xFFFF then 0xFFFF else divisor)
      in if divisor < 1 then 1 else divisor)"

definition pit_init :: "'d hw \<Rightarrow> u32 \<Rightarrow> 'd \<Rightarrow> u32 \<times> 'd" where
  "pit_init hw frequency d =
     (let divisor = pit_divisor frequency;
          d = outb hw PIT_CMD 0x36 d;
          d = outb hw PIT_CHANNEL0_DATA (ucast (divisor AND 0xFF)) d
      in (0, outb hw PIT_CHANNEL0_DATA (ucast (drop_bit 8 divisor AND 0xFF)) d))"

definition pit_handler :: "u32 \<Rightarrow> u32" where
  "pit_handler tick_count = tick_count + 1"

section \<open>Descriptor table\<close>

record idt_entry =
  offset_low :: u16
  selector :: u16
  zero :: u8
  type_attr :: u8
  offset_high :: u16

definition IDT_ENTRIES :: nat where "IDT_ENTRIES = 256"

definition idt_set_gate :: "u8 \<Rightarrow> u32 \<Rightarrow> u16 \<Rightarrow> u8 \<Rightarrow> idt_entry list \<Rightarrow> idt_entry list" where
  "idt_set_gate n handler sel flags idt =
     idt[unat n := \<lparr>offset_low = ucast (handler AND 0xFFFF), selector = sel, zero = 0,
       type_attr = flags, offset_high = ucast (drop_bit 16 handler AND 0xFFFF)\<rparr>]"

definition idt_null :: idt_entry where
  "idt_null = \<lparr>offset_low = 0, selector = 0, zero = 0, type_attr = 0, offset_high = 0\<rparr>"

text \<open>The functions that the kernel registers as handlers.\<close>

datatype isr_handler = Irq0_handler | Irq1_handler

record 'd kernel =
  k_con :: "'d console"
  k_kb :: kb_state
  k_ticks :: u32
  k_idt :: "idt_entry list"
  k_handlers :: "isr_handler option list"

text \<open>The addresses of the 48 stubs come from assembly; the loading of the table is left out.\<close>

definition idt_init :: "(nat \<Rightarrow> u32) \<Rightarrow> 'd kernel \<Rightarrow> 'd kernel" where
  "idt_init isr_stub_table k =
     k\<lparr>k_idt := fold (\<lambda>i. idt_set_gate (of_nat i) (isr_stub_table i) 0x08 0x8E) [0..<48]
          (replicate IDT_ENTRIES idt_null),
       k_handlers := replicate IDT_ENTRIES None\<rparr>"

definition idt_register_handler :: "u8 \<Rightarrow> isr_handler \<Rightarrow> 'd kernel \<Rightarrow> 'd kernel" where
  "idt_register_handler vector handler k =
     k\<lparr>k_handlers := (k_handlers k)[unat vector := Some handler]\<rparr>"

section \<open>Dispatch\<close>

record interrupt_frame =
  fr_gs :: u32
  fr_fs :: u32
  fr_es :: u32
  fr_ds :: u32
  fr_edi :: u32
  fr_esi :: u32
  fr_ebp :: u32
  fr_esp_dummy :: u32
  fr_ebx :: u32
  fr_edx :: u32
  fr_ecx :: u32
  fr_eax :: u32
  fr_isr_num :: u32
  fr_error_code :: u32
  fr_eip :: u32
  fr_cs :: u32
  fr_eflags :: u32

definition exception_names :: "string list" where
  "exception_names =
    [''Division By Zero'', ''Debug'', ''Non Maskable Interrupt'', ''Breakpoint'', ''Overflow'',
     ''Bound Range Exceeded'', ''Invalid Opcode'', ''Device Not Available'', ''Double Fault'',
     ''Coprocessor Segment Overrun'', ''Invalid TSS'', ''Segment Not Present'',
     ''Stack-Segment Fault'', ''General Protection Fault'', ''Page Fault'', ''Reserved'',
     ''x87 FPU Exception'', ''Alignment Check'', ''Machine Check'', ''SIMD FPU Exception'',
     ''Virtualization Exception'', ''Control Protection'',
     ''Reserved'', ''Reserved'', ''Reserved'', ''Reserved'',
     ''Reserved'', ''Reserved'', ''Reserved'', ''Reserved'',
     ''Reserved'', ''Reserved'']"

datatype isr_error = IsrRange | IsrFormat fmt_error

text \<open>The dispatcher returns to the interrupted code, or leaves the CPU halted.\<close>

datatype 'd isr_result = Returned "'d kernel" | Halted "'d kernel"

definition kernel_dev :: "('d \<Rightarrow> 'd) \<Rightarrow> 'd kernel \<Rightarrow> 'd kernel" where
  "kernel_dev f k = k\<lparr>k_con := (k_con k)\<lparr>con_uart := (fst (con_uart (k_con k)), f (snd (con_uart (k_con k))))\<rparr>\<rparr>"

definition irq0_handler :: "'d hw \<Rightarrow> 'd kernel \<Rightarrow> 'd kernel" where
  "irq0_handler hw k = kernel_dev (pic_send_eoi hw 0) (k\<lparr>k_ticks := pit_handler (k_ticks k)\<rparr>)"

definition irq1_handler :: "'d hw \<Rightarrow> 'd kernel \<Rightarrow> 'd kernel" where
  "irq1_handler hw k =
     (let (kb, d) = keyboard_handler hw (k_kb k, snd (con_uart (k_con k)))
      in kernel_dev (pic_send_eoi hw 1) (kernel_dev (\<lambda>_. d) (k\<lparr>k_kb := kb\<rparr>)))"

fun run_handler :: "'d hw \<Rightarrow> isr_handler \<Rightarrow> 'd kernel \<Rightarrow> 'd kernel" where
  "run_handler hw Irq0_handler k = irq0_handler hw k"
| "run_handler hw Irq1_handler k = irq1_handler hw k"

text \<open>The report of an exception, one \<open>vga_printf\<close> after the other.\<close>

definition isr_report :: "interrupt_frame \<Rightarrow> (u8 list \<times> va list) list" where
  "isr_report f =
    [([10] @ bytes ''*** EXCEPTION: %s (#%u) ***'' @ [10],
        [VStr (Some (bytes (exception_names ! unat (fr_isr_num f)))), VWord (fr_isr_num f)]),
     (bytes ''Error code: 0x%08x'' @ [10], [VWord (fr_error_code f)]),
     (bytes ''EIP: 0x%08x  CS: 0x%04x  EFLAGS: 0x%08x'' @ [10],
        [VWord (fr_eip f), VWord (fr_cs f), VWord (fr_eflags f)]),
     (bytes ''EAX: 0x%08x  EBX: 0x%08x  ECX: 0x%08x  EDX: 0x%08x'' @ [10],
        [VWord (fr_eax f), VWord (fr_ebx f), VWord (fr_ecx f), VWord (fr_edx f)]),
     (bytes ''ESI: 0x%08x  EDI: 0x%08x  EBP: 0x%08x'' @ [10],
        [VWord (fr_esi f), VWord (fr_edi f), VWord (fr_ebp f)])]"

definition isr_dispatch :: "'d hw \<Rightarrow> interrupt_frame \<Rightarrow> 'd kernel \<Rightarrow> isr_error + 'd isr_result" where
  "isr_dispatch hw f k =
     (if length (k_handlers k) \<le> unat (fr_isr_num f) then Inl IsrRange
      else
        (case k_handlers k ! unat (fr_isr_num f) of
           Some h \<Rightarrow> Inr (Returned (run_handler hw h k))
         | None \<Rightarrow>
             if fr_isr_num f < 32 then
               (let con = vga_set_color (color_code VGA_COLOR_WHITE) (color_code VGA_COLOR_RED) (k_con k)
                in map_sum IsrFormat (\<lambda>con. Halted (k\<lparr>k_con := con\<rparr>))
                  (fold (\<lambda>(fmt, args) r. bind_sum r (vga_printf hw fmt args)) (isr_report f) (Inr con)))
             else Inr (Returned k)))"

end
