(* ===== verification/IrqFlow.thy ===== *)
theory IrqFlow
  imports Interrupts
begin

text \<open>
  What the interrupt code achieves on the hardware it is written for: a board with the two cascaded
  8259A controllers of a PC (initialisation words, mask register, in-service register, end of
  interrupt) and the output register of the keyboard controller. The board is an instance of the
  device parameter; every other port ignores what is written to it.
\<close>

unbundle bit_operations_syntax

section \<open>The board\<close>

text \<open>\<open>icw\<close> is the initialisation word that the chip expects next, 0 when it is initialised.\<close>

record pic_chip =
  imr :: u8
  in_service :: u8
  vbase :: u8
  cascade :: u8
  icw :: nat

record board =
  b_master :: pic_chip
  b_slave :: pic_chip
  b_scan :: u8

definition chip_cmd :: "u8 \<Rightarrow> pic_chip \<Rightarrow> pic_chip" where
  "chip_cmd v c =
     (if v AND 0x10 \<noteq> 0 then c\<lparr>imr := 0, in_service := 0, icw := 2\<rparr>
      else if v = 0x20 then c\<lparr>in_service := in_service c AND (in_service c - 1)\<rparr>
      else c)"

definition chip_data :: "u8 \<Rightarrow> pic_chip \<Rightarrow> pic_chip" where
  "chip_data v c =
     (if icw c = 2 then c\<lparr>vbase := v AND 0xF8, icw := 3\<rparr>
      else if icw c = 3 then c\<lparr>cascade := v, icw := 4\<rparr>
      else if icw c = 4 then c\<lparr>icw := 0\<rparr>
      else c\<lparr>imr := v\<rparr>)"

definition board_hw :: "board hw" where
  "board_hw =
     \<lparr>hw_in = (\<lambda>b p. (if p = 0x21 then imr (b_master b) else if p = 0xA1 then imr (b_slave b)
         else if p = 0x60 then b_scan b else 0xFF, b)),
      hw_out = (\<lambda>b p v.
         if p = 0x20 then b\<lparr>b_master := chip_cmd v (b_master b)\<rparr>
         else if p = 0x21 then b\<lparr>b_master := chip_data v (b_master b)\<rparr>
         else if p = 0xA0 then b\<lparr>b_slave := chip_cmd v (b_slave b)\<rparr>
         else if p = 0xA1 then b\<lparr>b_slave := chip_data v (b_slave b)\<rparr>
         else b)\<rparr>"

lemma board_in: "inb board_hw p b = (if p = 0x21 then imr (b_master b) else if p = 0xA1 then imr (b_slave b)
         else if p = 0x60 then b_scan b else 0xFF, b)"
  by (simp add: inb_def board_hw_def)

lemma board_out [simp]:
  "outb board_hw 0x20 v b = b\<lparr>b_master := chip_cmd v (b_master b)\<rparr>"
  "outb board_hw 0x21 v b = b\<lparr>b_master := chip_data v (b_master b)\<rparr>"
  "outb board_hw 0xA0 v b = b\<lparr>b_slave := chip_cmd v (b_slave b)\<rparr>"
  "outb board_hw 0xA1 v b = b\<lparr>b_slave := chip_data v (b_slave b)\<rparr>"
  "p \<notin> {0x20, 0x21, 0xA0, 0xA1} \<Longrightarrow> outb board_hw p v b = b"
  by (simp_all add: outb_def board_hw_def)

definition initialised :: "board \<Rightarrow> bool" where
  "initialised b \<longleftrightarrow> icw (b_master b) = 0 \<and> icw (b_slave b) = 0"

text \<open>The interrupt lines that are masked, as one 16-bit set.\<close>

definition irq_mask :: "board \<Rightarrow> u16" where
  "irq_mask b = ucast (imr (b_master b)) OR push_bit 8 (ucast (imr (b_slave b)))"

section \<open>Controllers\<close>

lemma chip_reinit:
  "icw c = 0 \<Longrightarrow> chip_data (imr c) (chip_data 1 (chip_data w (chip_data v (chip_cmd 0x11 c)))) =
     c\<lparr>in_service := 0, vbase := v AND 0xF8, cascade := w\<rparr>"
  by (cases c) (simp add: chip_cmd_def chip_data_def)

lemma remap_board:
  assumes "initialised b"
  shows "pic_remap board_hw m s b =
    b\<lparr>b_master := (b_master b)\<lparr>in_service := 0, vbase := m AND 0xF8, cascade := 4\<rparr>,
      b_slave := (b_slave b)\<lparr>in_service := 0, vbase := s AND 0xF8, cascade := 2\<rparr>\<rparr>"
proof -
  have "pic_remap board_hw m s b =
    b\<lparr>b_master := chip_data (imr (b_master b)) (chip_data 1 (chip_data 4 (chip_data m (chip_cmd 0x11 (b_master b))))),
      b_slave := chip_data (imr (b_slave b)) (chip_data 1 (chip_data 2 (chip_data s (chip_cmd 0x11 (b_slave b)))))\<rparr>"
    by (simp add: pic_remap_def pic_ports io_wait_def board_in)
  then show ?thesis using assms by (simp add: chip_reinit initialised_def)
qed

lemma set_mask_board:
  assumes "initialised b"
  shows "pic_set_mask board_hw irq b =
    (if irq < 8 then b\<lparr>b_master := (b_master b)\<lparr>imr := imr (b_master b) OR push_bit (unat irq) 1\<rparr>\<rparr>
     else b\<lparr>b_slave := (b_slave b)\<lparr>imr := imr (b_slave b) OR push_bit (unat (irq - 8)) 1\<rparr>\<rparr>)"
  using assms by (simp add: pic_set_mask_def pic_ports board_in initialised_def chip_data_def)

lemma clear_mask_board:
  assumes "initialised b"
  shows "pic_clear_mask board_hw irq b =
    (if irq < 8 then b\<lparr>b_master := (b_master b)\<lparr>imr := imr (b_master b) AND NOT (push_bit (unat irq) 1)\<rparr>\<rparr>
     else b\<lparr>b_slave := (b_slave b)\<lparr>imr := imr (b_slave b) AND NOT (push_bit (unat (irq - 8)) 1)\<rparr>\<rparr>)"
  using assms by (simp add: pic_clear_mask_def pic_ports board_in initialised_def chip_data_def)

lemma controls_initialised:
  assumes "initialised b"
  shows "initialised (pic_remap board_hw m s b)" "initialised (pic_set_mask board_hw irq b)"
    "initialised (pic_clear_mask board_hw irq b)"
  using assms
  by (simp_all add: remap_board [OF assms] set_mask_board [OF assms] clear_mask_board [OF assms] initialised_def)

lemma slave_line: "8 \<le> irq \<Longrightarrow> unat (irq - 8) = unat irq - 8" for irq :: u8
  using unat_word_sub [of 8 irq] by simp

lemma bit_one_push: "bit ((2 :: 'a::len word) ^ k) n \<longleftrightarrow> n = k \<and> k < LENGTH('a)"
  by (auto simp: bit_simps)

lemma irq_mask_bit:
  "bit (irq_mask b) n \<longleftrightarrow> (if n < 8 then bit (imr (b_master b)) n else n < 16 \<and> bit (imr (b_slave b)) (n - 8))"
  by (auto simp: irq_mask_def bit_simps dest: bit_imp_le_length)

lemma irq_mask_update:
  assumes "unat irq < 16" "initialised b"
  shows "irq_mask (pic_set_mask board_hw irq b) = irq_mask b OR push_bit (unat irq) 1"
    "irq_mask (pic_clear_mask board_hw irq b) = irq_mask b AND NOT (push_bit (unat irq) 1)"
proof -
  have lt: "irq < 8 \<longleftrightarrow> unat irq < 8" by (simp add: word_less_nat_alt)
  have ge: "\<not> irq < 8 \<Longrightarrow> unat (irq - 8) = unat irq - 8" by (simp add: slave_line)
  show "irq_mask (pic_set_mask board_hw irq b) = irq_mask b OR push_bit (unat irq) 1"
    using assms(1) lt ge
    by (intro bit_word_eqI)
      (auto simp: set_mask_board [OF assms(2)] irq_mask_bit bit_or_iff bit_one_push dest: bit_imp_le_length)
  show "irq_mask (pic_clear_mask board_hw irq b) = irq_mask b AND NOT (push_bit (unat irq) 1)"
    using assms(1) lt ge
    by (intro bit_word_eqI)
      (auto simp: clear_mask_board [OF assms(2)] irq_mask_bit bit_and_iff bit_not_iff bit_one_push
        dest: bit_imp_le_length)
qed

text \<open>An interrupt request is accepted: it becomes in service, through the cascade for 8 to 15.\<close>

definition pic_accept :: "nat \<Rightarrow> board \<Rightarrow> board" where
  "pic_accept irq b =
     (if irq < 8 then b\<lparr>b_master := (b_master b)\<lparr>in_service := in_service (b_master b) OR push_bit irq 1\<rparr>\<rparr>
      else b\<lparr>b_master := (b_master b)\<lparr>in_service := in_service (b_master b) OR push_bit 2 1\<rparr>,
             b_slave := (b_slave b)\<lparr>in_service := in_service (b_slave b) OR push_bit (irq - 8) 1\<rparr>\<rparr>)"

definition pic_idle :: "board \<Rightarrow> bool" where
  "pic_idle b \<longleftrightarrow> in_service (b_master b) = 0 \<and> in_service (b_slave b) = 0"

lemma clear_lowest_single: "(2 :: u8) ^ k AND (2 ^ k - 1) = 0"
  by (rule bit_word_eqI) (auto simp: bit_and_iff bit_one_push bit_mask_iff simp flip: mask_eq_exp_minus_1)

lemma eoi_board:
  assumes "pic_idle b" "irq < 16"
  shows "pic_send_eoi board_hw (of_nat irq) (pic_accept irq b) = b"
proof -
  have u: "unat (of_nat irq :: u8) = irq" using assms(2) by (intro unat_of_nat_word) simp
  have ge: "(8 :: u8) \<le> of_nat irq \<longleftrightarrow> 8 \<le> irq" by (simp add: word_le_nat_alt u)
  show ?thesis
  proof (cases "irq < 8")
    case True
    with assms ge show ?thesis
      by (simp add: pic_send_eoi_def pic_accept_def pic_ports chip_cmd_def pic_idle_def clear_lowest_single)
  next
    case False
    with assms ge clear_lowest_single [of 2] show ?thesis
      by (simp add: pic_send_eoi_def pic_accept_def pic_ports chip_cmd_def pic_idle_def clear_lowest_single)
  qed
qed

section \<open>Timer\<close>

lemma pit_divisor_nat:
  "unat (pit_divisor f) = max 1 (min 65535 (1193182 div (if f = 0 then 100 else unat f)))"
proof -
  let ?f = "if f = 0 then 100 else f"
  have q: "unat ((1193182 :: u32) div ?f) = 1193182 div unat ?f" by (simp add: unat_div)
  have "unat ?f = (if f = 0 then 100 else unat f)" by simp
  with q show ?thesis
    by (auto simp: pit_divisor_def Let_def PIT_BASE_FREQ_def PIT_DEFAULT_FREQ_def word_less_nat_alt
        simp del: unat_div)
qed

lemma split_bytes:
  assumes "unat (w :: u32) < 65536"
  shows "unat (ucast (w AND 0xFF) :: u8) + 256 * unat (ucast (drop_bit 8 w AND 0xFF) :: u8) = unat w"
proof -
  have low: "unat (ucast (v AND 0xFF) :: u8) = unat v mod 256" for v :: u32
  proof -
    have "(ucast (v AND mask 8) :: u8) = ucast v"
      by (rule bit_word_eqI) (auto simp: bit_simps)
    then have "(ucast (v AND 0xFF) :: u8) = ucast v" by (simp add: mask_eq_exp_minus_1)
    then show ?thesis by (simp add: unsigned_ucast_eq take_bit_eq_mod)
  qed
  have "unat (drop_bit 8 w) = unat w div 256"
    by (simp only: unsigned_drop_bit_eq) (simp add: drop_bit_eq_div take_bit_nat_eq_self unat_u32_less)
  with assms show ?thesis by (simp only: low) simp
qed

text \<open>
  The timer is programmed with the divisor nearest below the base frequency over the request,
  cut to what the 16-bit counter holds and never 0 (a request of 0 means 100 Hz), low byte first;
  the tick counter restarts at 0.
\<close>

theorem pit_init_programs:
  "\<exists>lo hi. pit_init (rec_hw ans) f log = (0, log @ [(0x43, 0x36), (0x40, lo), (0x40, hi)]) \<and>
     unat lo + 256 * unat hi = max 1 (min 65535 (1193182 div (if f = 0 then 100 else unat f)))"
proof -
  have "unat (pit_divisor f) < 65536" by (simp add: pit_divisor_nat)
  note reload = split_bytes [OF this]
  show ?thesis
  proof (rule exI, rule exI, rule conjI)
    show "pit_init (rec_hw ans) f log = (0, log @ [(0x43, 0x36),
        (0x40, ucast (pit_divisor f AND 0xFF)), (0x40, ucast (drop_bit 8 (pit_divisor f) AND 0xFF))])"
      by (simp add: pit_init_def PIT_CMD_def PIT_CHANNEL0_DATA_def Let_def)
    show "unat (ucast (pit_divisor f AND 0xFF) :: u8) +
        256 * unat (ucast (drop_bit 8 (pit_divisor f) AND 0xFF) :: u8) =
        max 1 (min 65535 (1193182 div (if f = 0 then 100 else unat f)))"
      using reload by (simp only: pit_divisor_nat)
  qed
qed

section \<open>Descriptors\<close>

definition gate_offset :: "idt_entry \<Rightarrow> u32" where
  "gate_offset e = ucast (offset_low e) OR push_bit 16 (ucast (offset_high e))"

definition gate :: "u32 \<Rightarrow> idt_entry" where
  "gate a = \<lparr>offset_low = ucast (a AND 0xFFFF), selector = 0x08, zero = 0, type_attr = 0x8E,
     offset_high = ucast (drop_bit 16 a AND 0xFFFF)\<rparr>"

lemma gate_offset_gate: "gate_offset (gate a) = a"
proof -
  have m: "(0xFFFF :: u32) = mask 16" by (simp add: mask_eq_exp_minus_1)
  have "ucast (a AND mask 16 :: u32) = (ucast a :: u16)"
    by (rule bit_word_eqI) (auto simp: bit_simps)
  moreover have "ucast (drop_bit 16 a AND mask 16 :: u32) = (ucast (drop_bit 16 a) :: u16)"
    by (rule bit_word_eqI) (auto simp: bit_simps)
  ultimately show ?thesis unfolding gate_offset_def gate_def m by (simp add: join32)
qed

lemma set_gates:
  assumes "n \<le> 256" "length idt = 256"
  shows "fold (\<lambda>i. idt_set_gate (of_nat i) (t i) 0x08 0x8E) [0..<n] idt =
    map (\<lambda>i. gate (t i)) [0..<n] @ drop n idt"
  using assms(1)
proof (induction n)
  case (Suc n)
  have u: "unat (of_nat n :: u8) = n" using Suc.prems by (intro unat_of_nat_word) simp
  have "drop n idt = idt ! n # drop (Suc n) idt"
    using Suc.prems assms(2) by (simp add: Cons_nth_drop_Suc)
  with Suc u show ?case
    by (simp add: idt_set_gate_def gate_def list_update_append)
qed simp

text \<open>
  The descriptor table: 256 entries, of which the first 48 are 32-bit interrupt gates in the
  kernel's code segment that point at the 48 assembly stubs, and the others are absent; no handler
  is registered.
\<close>

theorem idt_init_gates:
  "k_idt (idt_init stubs k) = map (\<lambda>i. gate (stubs i)) [0..<48] @ replicate 208 idt_null \<and>
   map gate_offset (take 48 (k_idt (idt_init stubs k))) = map stubs [0..<48] \<and>
   k_handlers (idt_init stubs k) = replicate 256 None"
proof -
  have t: "k_idt (idt_init stubs k) = map (\<lambda>i. gate (stubs i)) [0..<48] @ replicate 208 idt_null"
    by (simp add: idt_init_def IDT_ENTRIES_def set_gates)
  have "map gate_offset (take 48 (k_idt (idt_init stubs k))) = map stubs [0..<48]"
    unfolding t by (simp only: take_append length_map length_upt) (simp add: gate_offset_gate comp_def)
  with t show ?thesis by (simp add: idt_init_def IDT_ENTRIES_def)
qed

end
