(* ===== verification/BootInfo.thy ===== *)
theory BootInfo
  imports CString
begin

text \<open>
  The block that stage 2 leaves at 0x60000 for the kernel: its layout as stage 2 declares it
  (bootloader/stage2/memory.h), its layout as the kernel declares it (kernel/include/boot_info.h),
  and the segmented pointers that cross the two.
\<close>

unbundle bit_operations_syntax

section \<open>Segmented pointers\<close>

definition MEMORY_PhysicalToFar :: "u32 \<Rightarrow> u32" where
  "MEMORY_PhysicalToFar physicalAddress =
     (let segment = (ucast (drop_bit 4 physicalAddress) :: u16);
          offset = (ucast (physicalAddress AND 0x0F) :: u16)
      in push_bit 16 (ucast segment) OR ucast offset)"

definition far_to_flat :: "u32 \<Rightarrow> u32" where
  "far_to_flat far_ptr =
     (let segment = (ucast (drop_bit 16 far_ptr) :: u16);
          offset = (ucast (far_ptr AND 0xFFFF) :: u16)
      in ucast segment * 16 + ucast offset)"

section \<open>The stage 2 structures\<close>

record e820_entry =
  e_base :: u64
  e_length :: u64
  e_type :: u32
  e_attrs :: u32

record memory_map =
  mm_Entries :: u32
  mm_EntryCount :: u16
  mm_Capacity :: u16

record memory_allocator =
  al_BasePhysical :: u32
  al_Capacity :: u32
  al_Offset :: u32

record memory_boot_info =
  bi_BootDrive :: u8
  bi_VideoMode :: u8
  bi_Flags :: u16
  bi_MemoryMap :: memory_map
  bi_KernelAllocator :: memory_allocator
  bi_IoBuffer :: u32
  bi_IoBufferSize :: u32
  bi_Framebuffer :: u32
  bi_FramebufferWidth :: u16
  bi_FramebufferHeight :: u16
  bi_FramebufferPitch :: u16
  bi_FramebufferBpp :: u8
  bi_FramebufferFlags :: u8

definition MEMORY_BOOT_INFO_HAS_MEMORY_MAP :: u16 where "MEMORY_BOOT_INFO_HAS_MEMORY_MAP = 0x01"
definition MEMORY_BOOT_INFO_HAS_IO_BUFFER :: u16 where "MEMORY_BOOT_INFO_HAS_IO_BUFFER = 0x02"
definition MEMORY_BOOT_INFO_HAS_FRAMEBUFFER :: u16 where "MEMORY_BOOT_INFO_HAS_FRAMEBUFFER = 0x04"

text \<open>The packed image: the fields in order, little endian, without padding.\<close>

definition boot_info_image :: "memory_boot_info \<Rightarrow> u8 list" where
  "boot_info_image b =
     [bi_BootDrive b, bi_VideoMode b] @ put16 (bi_Flags b) @
     put32 (mm_Entries (bi_MemoryMap b)) @ put16 (mm_EntryCount (bi_MemoryMap b)) @
     put16 (mm_Capacity (bi_MemoryMap b)) @
     put32 (al_BasePhysical (bi_KernelAllocator b)) @ put32 (al_Capacity (bi_KernelAllocator b)) @
     put32 (al_Offset (bi_KernelAllocator b)) @
     put32 (bi_IoBuffer b) @ put32 (bi_IoBufferSize b) @ put32 (bi_Framebuffer b) @
     put16 (bi_FramebufferWidth b) @ put16 (bi_FramebufferHeight b) @ put16 (bi_FramebufferPitch b) @
     [bi_FramebufferBpp b, bi_FramebufferFlags b]"

text \<open>
  \<open>MEMORY_BootInfo_Init\<close>; a null map or allocator pointer is \<open>None\<close>, a far pointer is its 32 bits.
  The result is the structure written, or \<open>None\<close> when the destination is null.
\<close>

definition MEMORY_BootInfo_Init ::
  "u32 \<Rightarrow> u8 \<Rightarrow> u8 \<Rightarrow> memory_map option \<Rightarrow> memory_allocator option \<Rightarrow> u32 \<Rightarrow> u32 \<Rightarrow> u32 \<Rightarrow>
     u16 \<Rightarrow> u16 \<Rightarrow> u16 \<Rightarrow> u8 \<Rightarrow> u8 \<Rightarrow> memory_boot_info option" where
  "MEMORY_BootInfo_Init bootInfo bootDrive videoMode mmap allocator ioBuffer ioBufferSize framebuffer
      fbWidth fbHeight fbPitch fbBpp fbFlags =
     (if bootInfo = 0 then None
      else
        (let flags = (0 :: u16);
             flags = (case mmap of None \<Rightarrow> flags
               | Some m \<Rightarrow> if mm_Entries m \<noteq> 0 \<and> mm_EntryCount m \<noteq> 0
                   then flags OR MEMORY_BOOT_INFO_HAS_MEMORY_MAP else flags);
             flags = (if ioBuffer \<noteq> 0 \<and> ioBufferSize \<noteq> 0
                   then flags OR MEMORY_BOOT_INFO_HAS_IO_BUFFER else flags);
             flags = (if framebuffer \<noteq> 0 then flags OR MEMORY_BOOT_INFO_HAS_FRAMEBUFFER else flags)
         in Some \<lparr>bi_BootDrive = bootDrive, bi_VideoMode = videoMode, bi_Flags = flags,
              bi_MemoryMap = (case mmap of Some m \<Rightarrow> m
                | None \<Rightarrow> \<lparr>mm_Entries = 0, mm_EntryCount = 0, mm_Capacity = 0\<rparr>),
              bi_KernelAllocator = (case allocator of Some a \<Rightarrow> a
                | None \<Rightarrow> \<lparr>al_BasePhysical = 0, al_Capacity = 0, al_Offset = 0\<rparr>),
              bi_IoBuffer = ioBuffer, bi_IoBufferSize = ioBufferSize, bi_Framebuffer = framebuffer,
              bi_FramebufferWidth = fbWidth, bi_FramebufferHeight = fbHeight,
              bi_FramebufferPitch = fbPitch, bi_FramebufferBpp = fbBpp,
              bi_FramebufferFlags = fbFlags\<rparr>))"

section \<open>The kernel's view\<close>

record boot_info_raw =
  raw_boot_drive :: u8
  raw_video_mode :: u8
  raw_flags :: u16
  raw_mmap_entries_far :: u32
  raw_mmap_count :: u16
  raw_mmap_capacity :: u16
  raw_heap_base :: u32
  raw_heap_capacity :: u32
  raw_heap_offset :: u32
  raw_io_buffer_far :: u32
  raw_io_buffer_size :: u32
  raw_framebuffer_far :: u32
  raw_fb_width :: u16
  raw_fb_height :: u16
  raw_fb_pitch :: u16
  raw_fb_bpp :: u8
  raw_fb_flags :: u8

text \<open>The field offsets are those that the declaration of \<open>boot_info_raw_t\<close> documents.\<close>

definition boot_info_raw_of :: "u8 list \<Rightarrow> boot_info_raw" where
  "boot_info_raw_of bs =
     \<lparr>raw_boot_drive = bs ! 0, raw_video_mode = bs ! 1, raw_flags = get16 bs 2, raw_mmap_entries_far = get32 bs 4,
      raw_mmap_count = get16 bs 8, raw_mmap_capacity = get16 bs 10, raw_heap_base = get32 bs 12,
      raw_heap_capacity = get32 bs 16, raw_heap_offset = get32 bs 20, raw_io_buffer_far = get32 bs 24,
      raw_io_buffer_size = get32 bs 28, raw_framebuffer_far = get32 bs 32, raw_fb_width = get16 bs 36,
      raw_fb_height = get16 bs 38, raw_fb_pitch = get16 bs 40, raw_fb_bpp = bs ! 42, raw_fb_flags = bs ! 43\<rparr>"

definition read_bytes :: "memory \<Rightarrow> u32 \<Rightarrow> nat \<Rightarrow> u8 list" where
  "read_bytes mem a n = map (\<lambda>i. mem (a + of_nat i)) [0..<n]"

definition write_bytes :: "memory \<Rightarrow> u32 \<Rightarrow> u8 list \<Rightarrow> memory" where
  "write_bytes mem a bs = (\<lambda>x. if unat (x - a) < length bs then bs ! unat (x - a) else mem x)"

definition BOOT_INFO_ADDR :: u32 where "BOOT_INFO_ADDR = 0x60000"

definition boot_info_get :: "memory \<Rightarrow> boot_info_raw" where
  "boot_info_get mem = boot_info_raw_of (read_bytes mem BOOT_INFO_ADDR 44)"

definition get64 :: "u8 list \<Rightarrow> nat \<Rightarrow> u64" where
  "get64 bs i = ucast (get32 bs i) OR push_bit 32 (ucast (get32 bs (i + 4)))"

definition put64 :: "u64 \<Rightarrow> u8 list" where
  "put64 w = put32 (ucast w) @ put32 (ucast (drop_bit 32 w))"

definition e820_image :: "e820_entry \<Rightarrow> u8 list" where
  "e820_image e = put64 (e_base e) @ put64 (e_length e) @ put32 (e_type e) @ put32 (e_attrs e)"

definition e820_of :: "u8 list \<Rightarrow> e820_entry" where
  "e820_of bs = \<lparr>e_base = get64 bs 0, e_length = get64 bs 8, e_type = get32 bs 16, e_attrs = get32 bs 20\<rparr>"

text \<open>The array that \<open>boot_info_e820_entries\<close> points at; its entries are 24 bytes long.\<close>

definition boot_info_e820_entries :: "memory \<Rightarrow> u32" where
  "boot_info_e820_entries mem = far_to_flat (raw_mmap_entries_far (boot_info_get mem))"

definition e820_at :: "memory \<Rightarrow> u32 \<Rightarrow> nat \<Rightarrow> e820_entry" where
  "e820_at mem entries i = e820_of (read_bytes mem (entries + of_nat (24 * i)) 24)"

section \<open>Round trips\<close>

lemma far_segment: "(ucast (drop_bit 16 (push_bit 16 (ucast s) OR (ucast off :: u32))) :: u16) = s"
  for s off :: u16
  by (rule bit_word_eqI) (auto simp: bit_simps dest: bit_imp_le_length)

lemma far_offset: "(ucast ((push_bit 16 (ucast s) OR (ucast off :: u32)) AND 0xFFFF) :: u16) = off"
  for s off :: u16
proof -
  have "(ucast ((push_bit 16 (ucast s) OR (ucast off :: u32)) AND mask 16) :: u16) = off"
    by (rule bit_word_eqI) (auto simp: bit_simps)
  then show ?thesis by (simp add: mask_eq_exp_minus_1)
qed

lemma far_to_flat_parts:
  "far_to_flat (push_bit 16 (ucast s) OR ucast off) = ucast s * 16 + ucast off" for s off :: u16
  by (simp only: far_to_flat_def far_segment far_offset Let_def)

lemma segment_nat:
  assumes "unat (p :: u32) < 1048576"
  shows "unat (ucast (drop_bit 4 p) :: u16) = unat p div 16" "unat (ucast (p AND 0x0F) :: u16) = unat p mod 16"
proof -
  have "unat (drop_bit 4 p) = unat p div 16"
    by (simp only: unsigned_drop_bit_eq) (simp add: drop_bit_eq_div take_bit_nat_eq_self unat_u32_less)
  with assms show "unat (ucast (drop_bit 4 p) :: u16) = unat p div 16"
    by (simp only: unsigned_ucast_eq) (simp add: take_bit_nat_eq_self)
  have "p AND mask 4 = take_bit 4 p" by (simp add: take_bit_eq_mask)
  then have "p AND 0x0F = take_bit 4 p" by (simp add: mask_eq_exp_minus_1)
  then have "unat (p AND 0x0F) = unat p mod 16"
    by (simp only: unsigned_take_bit_eq) (simp add: take_bit_eq_mod)
  then show "unat (ucast (p AND 0x0F) :: u16) = unat p mod 16"
    by (simp only: unsigned_ucast_eq) (simp add: take_bit_nat_eq_self order_less_trans [of _ 16])
qed

lemma far_roundtrip:
  assumes "unat p < 1048576"
  shows "far_to_flat (MEMORY_PhysicalToFar p) = p"
proof -
  let ?s = "ucast (drop_bit 4 p) :: u16" and ?o = "ucast (p AND 0x0F) :: u16"
  have "far_to_flat (MEMORY_PhysicalToFar p) = ucast ?s * 16 + ucast ?o"
    by (simp only: MEMORY_PhysicalToFar_def Let_def far_to_flat_parts)
  moreover have "unat (ucast ?s * 16 + ucast ?o :: u32) = unat p"
    using segment_nat [OF assms] assms
    by (simp add: unat_word_ariths unat_ucast_up16_32 div_mult_mod_eq)
  ultimately show ?thesis by (simp add: word_unat_eq_iff)
qed

lemma boot_info_layout:
  "length (boot_info_image b) = 44"
  "boot_info_raw_of (boot_info_image b) =
     \<lparr>raw_boot_drive = bi_BootDrive b, raw_video_mode = bi_VideoMode b, raw_flags = bi_Flags b,
      raw_mmap_entries_far = mm_Entries (bi_MemoryMap b),
      raw_mmap_count = mm_EntryCount (bi_MemoryMap b),
      raw_mmap_capacity = mm_Capacity (bi_MemoryMap b),
      raw_heap_base = al_BasePhysical (bi_KernelAllocator b),
      raw_heap_capacity = al_Capacity (bi_KernelAllocator b),
      raw_heap_offset = al_Offset (bi_KernelAllocator b),
      raw_io_buffer_far = bi_IoBuffer b, raw_io_buffer_size = bi_IoBufferSize b,
      raw_framebuffer_far = bi_Framebuffer b, raw_fb_width = bi_FramebufferWidth b,
      raw_fb_height = bi_FramebufferHeight b, raw_fb_pitch = bi_FramebufferPitch b,
      raw_fb_bpp = bi_FramebufferBpp b, raw_fb_flags = bi_FramebufferFlags b\<rparr>"
  by (simp add: boot_info_image_def)
     (simp add: boot_info_image_def boot_info_raw_of_def put32_def put16_def get16_def get32_def
        join16 join32)

lemma join64: "(ucast (ucast w :: u32) :: u64) OR push_bit 32 (ucast (ucast (drop_bit 32 w) :: u32)) = w"
  by (rule bit_word_eqI) (auto simp: bit_simps)

lemma get64_put64: "get64 (xs @ put64 w @ ys) (length xs) = w"
  using get32_put32 [of xs "ucast w" "put32 (ucast (drop_bit 32 w)) @ ys"]
    get32_put32 [of "xs @ put32 (ucast w)" "ucast (drop_bit 32 w)" ys]
  by (simp add: get64_def put64_def join64)

lemma length_put64 [simp]: "length (put64 w) = 8"
  by (simp add: put64_def)

lemma e820_layout: "length (e820_image e) = 24" "e820_of (e820_image e) = e"
proof -
  show "length (e820_image e) = 24" by (simp add: e820_image_def)
  show "e820_of (e820_image e) = e"
    using get64_put64 [of "[]" "e_base e"] get64_put64 [of "put64 (e_base e)" "e_length e"]
      get32_put32 [of "put64 (e_base e) @ put64 (e_length e)" "e_type e"]
      get32_put32 [of "put64 (e_base e) @ put64 (e_length e) @ put32 (e_type e)" "e_attrs e" "[]"]
    by (simp add: e820_of_def e820_image_def)
qed

section \<open>Memory\<close>

lemma write_bytes_inside:
  assumes "i < length bs" "length bs < 2 ^ 32"
  shows "write_bytes mem a bs (a + of_nat i) = bs ! i"
  using assms by (simp add: write_bytes_def unat_of_nat_word)

lemma read_write_bytes:
  assumes "off + n \<le> length bs" "length bs < 2 ^ 32"
  shows "read_bytes (write_bytes mem a bs) (a + of_nat off) n = take n (drop off bs)"
proof (rule nth_equalityI)
  fix i assume "i < length (read_bytes (write_bytes mem a bs) (a + of_nat off) n)"
  then have "i < n" by (simp add: read_bytes_def)
  then show "read_bytes (write_bytes mem a bs) (a + of_nat off) n ! i = take n (drop off bs) ! i"
    using write_bytes_inside [of "off + i" bs mem a] assms
    by (simp add: read_bytes_def add.assoc)
qed (use assms in \<open>simp add: read_bytes_def\<close>)

lemma write_bytes_outside:
  "length bs \<le> unat (x - a) \<Longrightarrow> write_bytes mem a bs x = mem x"
  by (simp add: write_bytes_def)

lemma e820_images_length: "length (concat (map e820_image es)) = 24 * length es"
  by (induction es) (simp_all add: e820_layout)

lemma e820_images_nth:
  "i < length es \<Longrightarrow> take 24 (drop (24 * i) (concat (map e820_image es))) = e820_image (es ! i)"
proof (induction es arbitrary: i)
  case (Cons e es)
  then show ?case by (cases i) (simp_all add: e820_layout)
qed simp

definition boot_flags :: "memory_map option \<Rightarrow> u32 \<Rightarrow> u32 \<Rightarrow> u32 \<Rightarrow> u16" where
  "boot_flags mmap io io_size fb =
     (if (\<exists>m. mmap = Some m \<and> mm_Entries m \<noteq> 0 \<and> mm_EntryCount m \<noteq> 0) then 1 else 0) OR
     (if io \<noteq> 0 \<and> io_size \<noteq> 0 then 2 else 0) OR (if fb \<noteq> 0 then 4 else 0)"

lemma BootInfo_Init_fields:
  assumes "MEMORY_BootInfo_Init bootInfo drive mode mmap allocator io io_size fb w h pitch bpp fbf = Some b"
  shows "b = \<lparr>bi_BootDrive = drive, bi_VideoMode = mode, bi_Flags = boot_flags mmap io io_size fb,
     bi_MemoryMap = (case mmap of Some m \<Rightarrow> m
       | None \<Rightarrow> \<lparr>mm_Entries = 0, mm_EntryCount = 0, mm_Capacity = 0\<rparr>),
     bi_KernelAllocator = (case allocator of Some a \<Rightarrow> a
       | None \<Rightarrow> \<lparr>al_BasePhysical = 0, al_Capacity = 0, al_Offset = 0\<rparr>),
     bi_IoBuffer = io, bi_IoBufferSize = io_size, bi_Framebuffer = fb, bi_FramebufferWidth = w,
     bi_FramebufferHeight = h, bi_FramebufferPitch = pitch, bi_FramebufferBpp = bpp,
     bi_FramebufferFlags = fbf\<rparr>"
proof -
  have "(let flags = (0 :: u16);
             flags = (case mmap of None \<Rightarrow> flags
               | Some m \<Rightarrow> if mm_Entries m \<noteq> 0 \<and> mm_EntryCount m \<noteq> 0
                   then flags OR MEMORY_BOOT_INFO_HAS_MEMORY_MAP else flags);
             flags = (if io \<noteq> 0 \<and> io_size \<noteq> 0
                   then flags OR MEMORY_BOOT_INFO_HAS_IO_BUFFER else flags)
         in if fb \<noteq> 0 then flags OR MEMORY_BOOT_INFO_HAS_FRAMEBUFFER else flags) =
      boot_flags mmap io io_size fb"
    by (cases mmap)
       (simp_all add: Let_def boot_flags_def MEMORY_BOOT_INFO_HAS_MEMORY_MAP_def
          MEMORY_BOOT_INFO_HAS_IO_BUFFER_def MEMORY_BOOT_INFO_HAS_FRAMEBUFFER_def)
  moreover have "bootInfo \<noteq> 0" using assms by (auto simp: MEMORY_BootInfo_Init_def)
  ultimately show ?thesis using assms by (simp add: MEMORY_BootInfo_Init_def Let_def)
qed

text \<open>
  The boot block crosses from stage 2 to the kernel unchanged: once the structure that
  \<open>MEMORY_BootInfo_Init\<close> fills is in memory at the agreed address, every field that the kernel
  reads is the field that stage 2 wrote, and the flags are set exactly for the parts present.
\<close>

theorem boot_info_handoff:
  assumes "MEMORY_BootInfo_Init bootInfo drive mode mmap allocator io io_size fb w h pitch bpp fbf = Some b"
  shows "boot_info_get (write_bytes mem BOOT_INFO_ADDR (boot_info_image b)) =
    \<lparr>raw_boot_drive = drive, raw_video_mode = mode,
     raw_flags = boot_flags mmap io io_size fb,
     raw_mmap_entries_far = (case mmap of Some m \<Rightarrow> mm_Entries m | None \<Rightarrow> 0),
     raw_mmap_count = (case mmap of Some m \<Rightarrow> mm_EntryCount m | None \<Rightarrow> 0),
     raw_mmap_capacity = (case mmap of Some m \<Rightarrow> mm_Capacity m | None \<Rightarrow> 0),
     raw_heap_base = (case allocator of Some a \<Rightarrow> al_BasePhysical a | None \<Rightarrow> 0),
     raw_heap_capacity = (case allocator of Some a \<Rightarrow> al_Capacity a | None \<Rightarrow> 0),
     raw_heap_offset = (case allocator of Some a \<Rightarrow> al_Offset a | None \<Rightarrow> 0),
     raw_io_buffer_far = io, raw_io_buffer_size = io_size, raw_framebuffer_far = fb,
     raw_fb_width = w, raw_fb_height = h, raw_fb_pitch = pitch, raw_fb_bpp = bpp, raw_fb_flags = fbf\<rparr>"
proof -
  have "read_bytes (write_bytes mem BOOT_INFO_ADDR (boot_info_image b)) BOOT_INFO_ADDR 44 =
      boot_info_image b"
    using read_write_bytes [of 0 44 "boot_info_image b" mem BOOT_INFO_ADDR] by (simp add: boot_info_layout)
  then show ?thesis
    unfolding boot_info_get_def BootInfo_Init_fields [OF assms]
    by (cases mmap; cases allocator) (simp_all add: boot_info_layout)
qed

definition stage2_example :: memory_boot_info where
  "stage2_example = the (MEMORY_BootInfo_Init 0x60000000 0x80 0
     (Some \<lparr>mm_Entries = 0x61000000, mm_EntryCount = 1, mm_Capacity = 32\<rparr>)
     (Some \<lparr>al_BasePhysical = 0x78000, al_Capacity = 0x20000, al_Offset = 0\<rparr>)
     0x62000000 0x2000 0xB8000000 80 25 160 16 0)"

lemma boot_info_handoff_witness:
  "raw_flags (boot_info_get (write_bytes (\<lambda>x. 0) BOOT_INFO_ADDR (boot_info_image stage2_example))) = 7"
proof -
  have "MEMORY_BootInfo_Init 0x60000000 0x80 0
     (Some \<lparr>mm_Entries = 0x61000000, mm_EntryCount = 1, mm_Capacity = 32\<rparr>)
     (Some \<lparr>al_BasePhysical = 0x78000, al_Capacity = 0x20000, al_Offset = 0\<rparr>)
     0x62000000 0x2000 0xB8000000 80 25 160 16 0 = Some stage2_example"
    by (simp add: stage2_example_def MEMORY_BootInfo_Init_def Let_def)
  from boot_info_handoff [OF this] show ?thesis by (simp add: boot_flags_def)
qed

lemma e820_entries_read:
  assumes "unat p < 1048576" "raw_mmap_entries_far (boot_info_get mem) = MEMORY_PhysicalToFar p"
    "\<forall>k < 24 * length es. mem (p + of_nat k) = concat (map e820_image es) ! k" "i < length es"
  shows "e820_at mem (boot_info_e820_entries mem) i = es ! i"
proof -
  have "read_bytes mem (p + of_nat (24 * i)) 24 = take 24 (drop (24 * i) (concat (map e820_image es)))"
  proof (rule nth_equalityI)
    fix k assume "k < length (read_bytes mem (p + of_nat (24 * i)) 24)"
    then have "k < 24" by (simp add: read_bytes_def)
    moreover have "24 * i + k < 24 * length es" using \<open>k < 24\<close> assms(4) by linarith
    ultimately show "read_bytes mem (p + of_nat (24 * i)) 24 ! k =
        take 24 (drop (24 * i) (concat (map e820_image es))) ! k"
      using assms(3) [rule_format, of "24 * i + k"]
      by (simp add: read_bytes_def add.assoc e820_images_length)
  qed (use assms(4) in \<open>simp add: read_bytes_def e820_images_length\<close>)
  then show ?thesis
    using assms(2,4) far_roundtrip [OF assms(1)]
    by (simp add: e820_at_def boot_info_e820_entries_def e820_images_nth e820_layout)
qed

text \<open>
  The memory map crosses too: if stage 2 stored the entries at a physical address below
  1 MiB and put the far pointer to it in the boot block, each entry that the kernel reads through
  the flat pointer is the entry stored.
\<close>

theorem e820_handoff:
  assumes "unat p < 1048576" "raw_mmap_entries_far (boot_info_get mem) = MEMORY_PhysicalToFar p"
    "\<forall>k < 24 * length es. mem (p + of_nat k) = concat (map e820_image es) ! k" "i < length es"
  shows "e820_at mem (boot_info_e820_entries mem) i = es ! i"
  using assms by (rule e820_entries_read)

definition e820_example :: e820_entry where
  "e820_example = \<lparr>e_base = 0x100000, e_length = 0x7EE0000, e_type = 1, e_attrs = 1\<rparr>"

definition handoff_example :: memory where
  "handoff_example = write_bytes (write_bytes (\<lambda>x. 0) 0x61000 (e820_image e820_example))
     BOOT_INFO_ADDR (boot_info_image stage2_example)"

lemma handoff_example_map:
  "raw_mmap_entries_far (boot_info_get handoff_example) = MEMORY_PhysicalToFar 0x61000"
  and handoff_example_count: "raw_mmap_count (boot_info_get handoff_example) = 1"
proof -
  have "read_bytes handoff_example BOOT_INFO_ADDR 44 = boot_info_image stage2_example"
    using read_write_bytes [of 0 44 "boot_info_image stage2_example" _ BOOT_INFO_ADDR]
    by (simp add: boot_info_layout handoff_example_def)
  then show "raw_mmap_entries_far (boot_info_get handoff_example) = MEMORY_PhysicalToFar 0x61000"
    "raw_mmap_count (boot_info_get handoff_example) = 1"
    by (simp_all add: boot_info_get_def boot_info_layout stage2_example_def MEMORY_BootInfo_Init_def
        Let_def MEMORY_PhysicalToFar_def)
qed

lemma handoff_example_entries:
  assumes "k < 24"
  shows "handoff_example (0x61000 + of_nat k) = e820_image e820_example ! k"
proof -
  have "(0x61000 + of_nat k - BOOT_INFO_ADDR :: u32) = of_nat (0x1000 + k)"
    by (simp add: BOOT_INFO_ADDR_def)
  then have "unat (0x61000 + of_nat k - BOOT_INFO_ADDR :: u32) = 0x1000 + k"
    using assms unat_of_nat_word [of "0x1000 + k", where 'a = 32] by (simp only:) simp
  then show ?thesis
    using assms write_bytes_inside [of k "e820_image e820_example" _ "0x61000"]
    by (simp add: handoff_example_def write_bytes_outside boot_info_layout e820_layout)
qed

lemma e820_handoff_witness:
  "e820_at handoff_example (boot_info_e820_entries handoff_example) 0 = e820_example"
proof -
  have "\<forall>k < 24 * length [e820_example]. handoff_example (0x61000 + of_nat k) =
      concat (map e820_image [e820_example]) ! k"
    using handoff_example_entries by simp
  from e820_handoff [OF _ handoff_example_map this, of 0] show ?thesis by simp
qed

end
