(* ===== verification/Realmode.thy ===== *)
theory Realmode
  imports IrqFlow BootInfo
begin

text \<open>
  Calls into the BIOS (kernel/realmode.c): the block of registers that C and the assembly stub share
  in low memory, the 16-bit descriptors of the GDT, and the call itself. The stub (realmode.asm) and
  the BIOS behind it are a parameter that transforms memory and devices.
\<close>

unbundle bit_operations_syntax

section \<open>Flat memory\<close>

definition mem_get16 :: "memory \<Rightarrow> u32 \<Rightarrow> u16" where
  "mem_get16 mem a = get16 (read_bytes mem a 2) 0"

definition mem_get32 :: "memory \<Rightarrow> u32 \<Rightarrow> u32" where
  "mem_get32 mem a = get32 (read_bytes mem a 4) 0"

definition mem_put16 :: "u32 \<Rightarrow> u16 \<Rightarrow> memory \<Rightarrow> memory" where
  "mem_put16 a v mem = write_bytes mem a (put16 v)"

definition mem_put32 :: "u32 \<Rightarrow> u32 \<Rightarrow> memory \<Rightarrow> memory" where
  "mem_put32 a v mem = write_bytes mem a (put32 v)"

section \<open>Layout\<close>

definition REALMODE_STUB_ADDR :: u32 where "REALMODE_STUB_ADDR = 0x00030000"
definition REALMODE_DATA_ADDR :: u32 where "REALMODE_DATA_ADDR = 0x00030400"
definition REALMODE_BUFFER_ADDR :: u32 where "REALMODE_BUFFER_ADDR = 0x00033000"
definition REALMODE_BUFFER_SEG :: u16 where "REALMODE_BUFFER_SEG = 0x3300"
definition REALMODE_STUB_MAX_SIZE :: u32 where
  "REALMODE_STUB_MAX_SIZE = REALMODE_DATA_ADDR - REALMODE_STUB_ADDR"
definition GDT_INDEX_CODE16 :: u32 where "GDT_INDEX_CODE16 = 3"
definition GDT_INDEX_DATA16 :: u32 where "GDT_INDEX_DATA16 = 4"
definition REALMODE_FLAG_CARRY :: u32 where "REALMODE_FLAG_CARRY = 1"

lemmas realmode_layout = REALMODE_STUB_ADDR_def REALMODE_DATA_ADDR_def REALMODE_BUFFER_ADDR_def
  REALMODE_BUFFER_SEG_def REALMODE_STUB_MAX_SIZE_def GDT_INDEX_CODE16_def GDT_INDEX_DATA16_def

record realmode_regs =
  r_eax :: u32
  r_ebx :: u32
  r_ecx :: u32
  r_edx :: u32
  r_esi :: u32
  r_edi :: u32
  r_ebp :: u32
  r_ds :: u16
  r_es :: u16
  r_eflags :: u32

definition zero_regs :: realmode_regs where
  "zero_regs = \<lparr>r_eax = 0, r_ebx = 0, r_ecx = 0, r_edx = 0, r_esi = 0, r_edi = 0, r_ebp = 0,
     r_ds = 0, r_es = 0, r_eflags = 0\<rparr>"

text \<open>The fields of the shared block that C writes and reads, from the handler on.\<close>

definition put_regs :: "u32 \<Rightarrow> realmode_regs \<Rightarrow> memory \<Rightarrow> memory" where
  "put_regs handler r mem =
     write_bytes mem (REALMODE_DATA_ADDR + 0x1C)
       (put32 handler @ put32 (r_eax r) @ put32 (r_ebx r) @ put32 (r_ecx r) @ put32 (r_edx r) @
        put32 (r_esi r) @ put32 (r_edi r) @ put32 (r_ebp r) @ put16 (r_ds r) @ put16 (r_es r) @
        put32 0)"

definition get_regs :: "memory \<Rightarrow> realmode_regs" where
  "get_regs mem =
     (let bs = read_bytes mem (REALMODE_DATA_ADDR + 0x20) 36 in
      \<lparr>r_eax = get32 bs 0, r_ebx = get32 bs 4, r_ecx = get32 bs 8, r_edx = get32 bs 12,
       r_esi = get32 bs 16, r_edi = get32 bs 20, r_ebp = get32 bs 24, r_ds = get16 bs 28,
       r_es = get16 bs 30, r_eflags = get32 bs 32\<rparr>)"

section \<open>Operations\<close>

record 'd realmode =
  rm_mem :: memory
  rm_ready :: bool
  rm_dev :: 'd

definition gdt_set_base :: "u32 \<Rightarrow> u32 \<Rightarrow> memory \<Rightarrow> memory" where
  "gdt_set_base descriptor base mem =
     mem(descriptor + 2 := ucast (base AND 0xFF),
         descriptor + 3 := ucast (drop_bit 8 base AND 0xFF),
         descriptor + 4 := ucast (drop_bit 16 base AND 0xFF),
         descriptor + 7 := ucast (drop_bit 24 base AND 0xFF))"

text \<open>\<open>gdtr\<close> is what \<open>sgdt\<close> stores: limit and base.\<close>

definition realmode_patch_gdt :: "u16 \<times> u32 \<Rightarrow> memory \<Rightarrow> bool \<times> memory" where
  "realmode_patch_gdt gdtr mem =
     (let (limit, gdt) = gdtr in
      if (ucast limit :: u32) < GDT_INDEX_DATA16 * 8 + 7 then (False, mem)
      else
        (let mem = gdt_set_base (gdt + GDT_INDEX_CODE16 * 8) REALMODE_STUB_ADDR mem
         in (True, gdt_set_base (gdt + GDT_INDEX_DATA16 * 8) REALMODE_STUB_ADDR mem)))"

text \<open>The stub is given by the address and the size of its body in the kernel image.\<close>

definition realmode_init :: "u32 \<Rightarrow> u32 \<Rightarrow> u16 \<times> u32 \<Rightarrow> 'd realmode \<Rightarrow> bool \<times> 'd realmode" where
  "realmode_init stub_start stub_size gdtr s0 =
     (let s = s0\<lparr>rm_ready := False\<rparr> in
      if stub_size = 0 \<or> stub_size > REALMODE_STUB_MAX_SIZE then (False, s)
      else
        (let (ok, mem) = realmode_patch_gdt gdtr (rm_mem s) in
         if \<not> ok then (False, s\<lparr>rm_mem := mem\<rparr>)
         else
           (let mem = memcpy mem REALMODE_STUB_ADDR stub_start (unat stub_size);
                mem = memset mem REALMODE_DATA_ADDR 0 0x44;
                mem = write_bytes mem (REALMODE_DATA_ADDR + 0x14) [0xFF, 0x03, 0, 0, 0, 0]
            in (True, s\<lparr>rm_mem := mem, rm_ready := True\<rparr>))))"

definition realmode_is_ready :: "'d realmode \<Rightarrow> bool" where
  "realmode_is_ready s = rm_ready s"

text \<open>A null register pointer is \<open>None\<close>; \<open>stub\<close> is the effect of the code at the stub address.\<close>

definition realmode_int ::
  "'d hw \<Rightarrow> (memory \<times> 'd \<Rightarrow> memory \<times> 'd) \<Rightarrow> u8 \<Rightarrow> realmode_regs option \<Rightarrow> 'd realmode \<Rightarrow>
     bool \<times> realmode_regs option \<times> 'd realmode" where
  "realmode_int hw stub vector regs s =
     (case regs of
        None \<Rightarrow> (False, None, s)
      | Some r \<Rightarrow>
          if \<not> rm_ready s then (False, regs, s)
          else
            (let handler = mem_get32 (rm_mem s) (4 * ucast vector) in
             if handler = 0 then (False, regs, s)
             else
               (let mem = put_regs handler r (rm_mem s);
                    (mask_master, d) = inb hw PIC1_DATA (rm_dev s);
                    (mask_slave, d) = inb hw PIC2_DATA d;
                    d = outb hw PIC1_DATA 0xFF d;
                    d = outb hw PIC2_DATA 0xFF d;
                    (mem, d) = stub (mem, d);
                    d = outb hw PIC1_DATA mask_master d;
                    d = outb hw PIC2_DATA mask_slave d
                in (True, Some (get_regs mem), s\<lparr>rm_mem := mem, rm_dev := d\<rparr>))))"

section \<open>Descriptors\<close>

text \<open>The base that the processor reads from a descriptor of eight bytes.\<close>

definition gdt_base :: "memory \<Rightarrow> u32 \<Rightarrow> u32" where
  "gdt_base mem descriptor =
     ucast (mem (descriptor + 2)) OR push_bit 8 (ucast (mem (descriptor + 3))) OR
     push_bit 16 (ucast (mem (descriptor + 4))) OR push_bit 24 (ucast (mem (descriptor + 7)))"

lemma word_offset_neq: "x \<noteq> y \<Longrightarrow> a + x \<noteq> a + y" for a x y :: u32
  by simp

lemma gdt_set_base_gdt_base: "gdt_base (gdt_set_base a base mem) a = base"
proof -
  have m: "(255 :: u32) = mask 8" by (simp add: mask_eq_exp_minus_1)
  have b: "(ucast (base AND mask 8) :: u8) = ucast base"
    "(ucast (drop_bit k base AND mask 8) :: u8) = ucast (drop_bit k base)" for k
    by (rule bit_word_eqI; auto simp: bit_simps)+
  have "gdt_base (gdt_set_base a base mem) a =
      ucast (ucast base :: u8) OR push_bit 8 (ucast (ucast (drop_bit 8 base) :: u8)) OR
      push_bit 16 (ucast (ucast (drop_bit 16 base) :: u8)) OR
      push_bit 24 (ucast (ucast (drop_bit 24 base) :: u8))"
    by (simp add: gdt_base_def gdt_set_base_def m b)
  also have "\<dots> = base"
  proof (rule bit_word_eqI)
    fix n :: nat
    assume "n < LENGTH(32)"
    then consider "n < 8" | "8 \<le> n" "n < 16" | "16 \<le> n" "n < 24" | "24 \<le> n" "n < 32" by fastforce
    then show "bit (ucast (ucast base :: u8) OR push_bit 8 (ucast (ucast (drop_bit 8 base) :: u8)) OR
      push_bit 16 (ucast (ucast (drop_bit 16 base) :: u8)) OR
      push_bit 24 (ucast (ucast (drop_bit 24 base) :: u8) :: u32)) n \<longleftrightarrow> bit base n"
      by cases (auto simp: bit_simps)
  qed
  finally show ?thesis .
qed

lemma gdt_set_base_other:
  "x - a \<notin> {2, 3, 4, 7} \<Longrightarrow> gdt_set_base a base mem x = mem x"
  by (auto simp: gdt_set_base_def)

section \<open>The shared block\<close>

text \<open>What is written into the block is what is read from it, if nothing else writes there.\<close>

lemma get_put_regs:
  "get_regs (put_regs handler r mem) = r\<lparr>r_eflags := 0\<rparr>"
proof -
  let ?bs = "put32 handler @ put32 (r_eax r) @ put32 (r_ebx r) @ put32 (r_ecx r) @ put32 (r_edx r) @
        put32 (r_esi r) @ put32 (r_edi r) @ put32 (r_ebp r) @ put16 (r_ds r) @ put16 (r_es r) @
        put32 0"
  have bs: "read_bytes (put_regs handler r mem) (REALMODE_DATA_ADDR + 0x20) 36 = drop 4 ?bs"
    using read_write_bytes [of 4 36 ?bs mem "REALMODE_DATA_ADDR + 0x1C"]
    by (simp add: put_regs_def REALMODE_DATA_ADDR_def)
  show ?thesis
    unfolding get_regs_def bs Let_def
    by (simp add: put32_def put16_def get16_def get32_def join16 join32)
qed

section \<open>A call\<close>

lemma handler_put_regs: "mem_get32 (put_regs handler r mem) (REALMODE_DATA_ADDR + 0x1C) = handler"
proof -
  let ?bs = "put32 handler @ put32 (r_eax r) @ put32 (r_ebx r) @ put32 (r_ecx r) @ put32 (r_edx r) @
        put32 (r_esi r) @ put32 (r_edi r) @ put32 (r_ebp r) @ put16 (r_ds r) @ put16 (r_es r) @
        put32 0"
  have "read_bytes (put_regs handler r mem) (REALMODE_DATA_ADDR + 0x1C) 4 = take 4 ?bs"
    using read_write_bytes [of 0 4 ?bs mem "REALMODE_DATA_ADDR + 0x1C"]
    by (simp add: put_regs_def)
  then show ?thesis
    by (simp add: mem_get32_def put32_def put16_def get16_def get32_def join16 join32)
qed

definition mask_all :: "board \<Rightarrow> board" where
  "mask_all b = b\<lparr>b_master := (b_master b)\<lparr>imr := 0xFF\<rparr>, b_slave := (b_slave b)\<lparr>imr := 0xFF\<rparr>\<rparr>"

lemma mask_all_facts: "irq_mask (mask_all b) = 0xFFFF" "initialised b \<Longrightarrow> initialised (mask_all b)"
  by (simp_all add: mask_all_def irq_mask_def initialised_def)

text \<open>
  A BIOS call with a prepared trampoline and a vector that has a handler: the stub runs with all
  sixteen interrupt lines masked, finds the caller's registers and the handler in the shared block,
  and the caller gets back the registers that the stub left there; whatever the BIOS did to the
  masks, the lines that were masked before the call are masked after it, and no others.
\<close>

lemma realmode_int_board:
  assumes "rm_ready s" "mem_get32 (rm_mem s) (4 * ucast vector) \<noteq> 0" "initialised (rm_dev s)"
    "stub (put_regs (mem_get32 (rm_mem s) (4 * ucast vector)) r (rm_mem s), mask_all (rm_dev s)) = (mem', e)"
    "initialised e"
  obtains d' where "realmode_int board_hw stub vector (Some r) s =
      (True, Some (get_regs mem'), s\<lparr>rm_mem := mem', rm_dev := d'\<rparr>)"
    "initialised d'" "irq_mask d' = irq_mask (rm_dev s)"
proof -
  let ?h = "mem_get32 (rm_mem s) (4 * ucast vector)"
  let ?mem = "put_regs ?h r (rm_mem s)" and ?d = "mask_all (rm_dev s)"
  let ?d' = "e\<lparr>b_master := (b_master e)\<lparr>imr := imr (b_master (rm_dev s))\<rparr>,
      b_slave := (b_slave e)\<lparr>imr := imr (b_slave (rm_dev s))\<rparr>\<rparr>"
  have masked: "outb board_hw PIC2_DATA 0xFF (outb board_hw PIC1_DATA 0xFF (rm_dev s)) = ?d"
    using assms(3) by (simp add: pic_ports chip_data_def initialised_def mask_all_def)
  have restored: "outb board_hw PIC2_DATA y (outb board_hw PIC1_DATA x e) =
      e\<lparr>b_master := (b_master e)\<lparr>imr := x\<rparr>, b_slave := (b_slave e)\<lparr>imr := y\<rparr>\<rparr>" for x y
    using assms(5) by (simp add: pic_ports chip_data_def initialised_def)
  have saved: "inb board_hw PIC1_DATA b = (imr (b_master b), b)" "inb board_hw PIC2_DATA b = (imr (b_slave b), b)" for b
    by (simp_all add: board_in pic_ports)
  have "realmode_int board_hw stub vector (Some r) s =
      (True, Some (get_regs mem'), s\<lparr>rm_mem := mem', rm_dev := ?d'\<rparr>)"
    using assms(1,2) by (simp add: realmode_int_def saved masked assms(4) restored del: board_out)
  moreover have "initialised ?d'" "irq_mask ?d' = irq_mask (rm_dev s)"
    using assms(5) by (simp_all add: initialised_def irq_mask_def)
  ultimately show ?thesis using that by blast
qed

theorem realmode_int_call:
  assumes "rm_ready s" "mem_get32 (rm_mem s) (4 * ucast vector) \<noteq> 0" "initialised (rm_dev s)"
    "\<forall>mem d. initialised d \<longrightarrow> initialised (snd (stub (mem, d)))"
  shows "\<exists>mem d d'. irq_mask d = 0xFFFF \<and> get_regs mem = r\<lparr>r_eflags := 0\<rparr> \<and>
    mem_get32 mem 0x3041C = mem_get32 (rm_mem s) (4 * ucast vector) \<and>
    realmode_int board_hw stub vector (Some r) s =
      (True, Some (get_regs (fst (stub (mem, d)))), s\<lparr>rm_mem := fst (stub (mem, d)), rm_dev := d'\<rparr>) \<and>
    initialised d' \<and> irq_mask d' = irq_mask (rm_dev s)"
proof -
  let ?h = "mem_get32 (rm_mem s) (4 * ucast vector)"
  let ?mem = "put_regs ?h r (rm_mem s)" and ?d = "mask_all (rm_dev s)"
  obtain mem' e where stub: "stub (?mem, ?d) = (mem', e)" by fastforce
  have "initialised (snd (stub (?mem, ?d)))" using assms(3,4) mask_all_facts(2) by blast
  then have e: "initialised e" by (simp add: stub)
  obtain d' where "realmode_int board_hw stub vector (Some r) s =
      (True, Some (get_regs mem'), s\<lparr>rm_mem := mem', rm_dev := d'\<rparr>)"
    "initialised d'" "irq_mask d' = irq_mask (rm_dev s)"
    by (rule realmode_int_board [where stub = stub, OF assms(1-3) stub e])
  moreover have "mem_get32 ?mem 0x3041C = ?h"
    using handler_put_regs [of ?h r "rm_mem s"] by (simp add: REALMODE_DATA_ADDR_def)
  ultimately show ?thesis using get_put_regs mask_all_facts(1) stub
    by (metis fst_conv)
qed

text \<open>A firmware that has one handler, for the video vector, and answers with AX = 0x004F.\<close>

definition answer_mem :: memory where
  "answer_mem = mem_put32 0x40 0xC0001234 (\<lambda>a. 0)"

definition answer_stub :: "memory \<times> board \<Rightarrow> memory \<times> board" where
  "answer_stub md = (mem_put32 0x30420 0x4F (fst md), snd md)"

lemma realmode_int_call_witness:
  "\<exists>regs s'. realmode_int board_hw answer_stub 0x10 (Some zero_regs)
      \<lparr>rm_mem = answer_mem, rm_ready = True, rm_dev =
         \<lparr>b_master = \<lparr>imr = 0xFC, in_service = 0, vbase = 0x20, cascade = 4, icw = 0\<rparr>,
          b_slave = \<lparr>imr = 0xFF, in_service = 0, vbase = 0x28, cascade = 2, icw = 0\<rparr>, b_scan = 0\<rparr>\<rparr> =
     (True, Some regs, s') \<and> irq_mask (rm_dev s') = 0xFFFC"
proof -
  define s where "s = \<lparr>rm_mem = answer_mem, rm_ready = True, rm_dev =
         \<lparr>b_master = \<lparr>imr = 0xFC, in_service = 0, vbase = 0x20, cascade = 4, icw = 0\<rparr>,
          b_slave = \<lparr>imr = 0xFF, in_service = 0, vbase = 0x28, cascade = 2, icw = 0\<rparr>, b_scan = 0\<rparr>\<rparr>"
  have "read_bytes answer_mem (0x40 + of_nat 0) 4 = take 4 (drop 0 (put32 0xC0001234))"
    unfolding answer_mem_def mem_put32_def by (rule read_write_bytes) simp_all
  then have "mem_get32 answer_mem 0x40 = 0xC0001234"
    using get32_put32 [of "[]" "0xC0001234" "[]"] by (simp add: mem_get32_def)
  then have h: "mem_get32 (rm_mem s) (4 * ucast (0x10 :: u8)) \<noteq> 0" by (simp add: s_def)
  have "initialised (rm_dev s)" "irq_mask (rm_dev s) = 0xFFFC"
    by (simp_all add: s_def initialised_def irq_mask_def)
  moreover have "\<forall>mem d. initialised d \<longrightarrow> initialised (snd (answer_stub (mem, d)))"
    by (simp add: answer_stub_def)
  moreover have "rm_ready s" by (simp add: s_def)
  ultimately obtain mem d d' where
    "realmode_int board_hw answer_stub 0x10 (Some zero_regs) s =
       (True, Some (get_regs (fst (answer_stub (mem, d)))), s\<lparr>rm_mem := fst (answer_stub (mem, d)), rm_dev := d'\<rparr>)"
    "irq_mask d' = 0xFFFC"
    using realmode_int_call [OF _ h, of answer_stub zero_regs] by metis
  then show ?thesis unfolding s_def [symmetric] by simp
qed

end
