(* ===== verification/Stack32.thy ===== *)
theory Stack32
  imports Cpu Realmode
begin

text \<open>
  The stack of the 32-bit kernel on flat memory: the instructions that push and pop, as the interrupt
  stubs and the real-mode trampoline use them, and what is read back from memory that was written.
\<close>

unbundle bit_operations_syntax

section \<open>Instructions\<close>

type_synonym machine = "cpu \<times> memory"

definition push32 :: "u32 \<Rightarrow> machine \<Rightarrow> machine" where
  "push32 v cm =
     (let (c, mem) = cm; c = c\<lparr>c_esp := c_esp c - 4\<rparr>
      in (c, mem_put32 (c_esp c) v mem))"

definition pop32 :: "machine \<Rightarrow> u32 \<times> machine" where
  "pop32 cm = (let (c, mem) = cm in (mem_get32 mem (c_esp c), c\<lparr>c_esp := c_esp c + 4\<rparr>, mem))"

text \<open>\<open>pushad\<close> stores the stack pointer from before the instruction; \<open>popad\<close> skips that word.\<close>

definition pushad :: "machine \<Rightarrow> machine" where
  "pushad cm =
     (let r = fst cm;
          cm = push32 (c_eax r) cm;
          cm = push32 (c_ecx r) cm;
          cm = push32 (c_edx r) cm;
          cm = push32 (c_ebx r) cm;
          cm = push32 (c_esp r) cm;
          cm = push32 (c_ebp r) cm;
          cm = push32 (c_esi r) cm
      in push32 (c_edi r) cm)"

definition popad :: "machine \<Rightarrow> machine" where
  "popad cm =
     (let (v, c, mem) = pop32 cm; c = c\<lparr>c_edi := v\<rparr>;
          (v, c, mem) = pop32 (c, mem); c = c\<lparr>c_esi := v\<rparr>;
          (v, c, mem) = pop32 (c, mem); c = c\<lparr>c_ebp := v\<rparr>;
          (v, c, mem) = pop32 (c, mem);
          (v, c, mem) = pop32 (c, mem); c = c\<lparr>c_ebx := v\<rparr>;
          (v, c, mem) = pop32 (c, mem); c = c\<lparr>c_edx := v\<rparr>;
          (v, c, mem) = pop32 (c, mem); c = c\<lparr>c_ecx := v\<rparr>;
          (v, c, mem) = pop32 (c, mem); c = c\<lparr>c_eax := v\<rparr>
      in (c, mem))"

definition pushfd :: "machine \<Rightarrow> machine" where "pushfd cm = push32 (c_eflags (fst cm)) cm"

definition popfd :: "machine \<Rightarrow> machine" where
  "popfd cm = (let (v, c, mem) = pop32 cm in (c\<lparr>c_eflags := v\<rparr>, mem))"

text \<open>The interrupt flag, bit 9.\<close>

definition cli :: "cpu \<Rightarrow> cpu" where "cli c = c\<lparr>c_eflags := c_eflags c AND NOT 0x200\<rparr>"

section \<open>Memory that was written\<close>

text \<open>Two areas of \<open>n\<close> and \<open>m\<close> bytes without a common address.\<close>

definition apart :: "u32 \<Rightarrow> nat \<Rightarrow> u32 \<Rightarrow> nat \<Rightarrow> bool" where
  "apart a n b m \<longleftrightarrow> n \<le> unat (b - a) \<and> m \<le> unat (a - b)"

lemma read_bytes_other:
  assumes "apart a n b (length bs)" "n \<le> 4294967295"
  shows "read_bytes (write_bytes mem b bs) a n = read_bytes mem a n"
proof -
  have "unat (a + of_nat i - b) \<ge> length bs" if "i < n" for i
  proof -
    have a: "length bs \<le> unat (a - b)" "n \<le> unat (b - a)" using assms(1) by (simp_all add: apart_def)
    have i: "unat (of_nat i :: u32) = i" using that assms(2) by (simp add: unat_of_nat_word)
    show ?thesis
    proof (cases "a = b")
      case False
      then have "unat (b - a) + unat (a - b) = 4294967296"
        using unat_u32_less [of a] unat_u32_less [of b] by (auto simp: unat_sub_if' word_unat_eq_iff)
      then have "unat (a - b) + i < 4294967296" using a(2) that by linarith
      then have "unat (a - b + of_nat i) = unat (a - b) + i" using i by (simp add: unat_word_ariths)
      moreover have eq: "a + of_nat i - b = a - b + of_nat i" by simp
      ultimately show ?thesis using a(1) unfolding eq by simp
    qed (use a that in simp)
  qed
  then have "\<not> unat (a + of_nat i - b) < length bs" if "i < n" for i
    using that by (simp add: not_less)
  then show ?thesis by (simp add: read_bytes_def write_bytes_def)
qed

lemma read_bytes_same: "length bs \<le> 4294967295 \<Longrightarrow> read_bytes (write_bytes mem a bs) a (length bs) = bs"
  using read_write_bytes [of 0 "length bs" bs mem a] by simp

lemma get32_put32_alone [simp]: "get32 (put32 v) 0 = v" "get16 (put16 w) 0 = w"
  using get32_put32 [of "[]" v "[]"] get16_put16 [of "[]" w "[]"] by simp_all

lemma mem_read_written [simp]:
  "mem_get32 (mem_put32 a v mem) a = v" "mem_get16 (mem_put16 a w mem) a = w"
  using read_bytes_same [of "put32 v" mem a] read_bytes_same [of "put16 w" mem a]
  by (simp_all add: mem_get32_def mem_put32_def mem_get16_def mem_put16_def)

lemma mem_read_other:
  "apart a 4 b 4 \<Longrightarrow> mem_get32 (mem_put32 b v mem) a = mem_get32 mem a"
  "apart a 4 b 2 \<Longrightarrow> mem_get32 (mem_put16 b w mem) a = mem_get32 mem a"
  "apart a 2 b 4 \<Longrightarrow> mem_get16 (mem_put32 b v mem) a = mem_get16 mem a"
  "apart a 2 b 2 \<Longrightarrow> mem_get16 (mem_put16 b w mem) a = mem_get16 mem a"
  using read_bytes_other [of a 4 b "put32 v" mem] read_bytes_other [of a 4 b "put16 w" mem]
    read_bytes_other [of a 2 b "put32 v" mem] read_bytes_other [of a 2 b "put16 w" mem]
  by (simp_all add: mem_get32_def mem_put32_def mem_get16_def mem_put16_def)

text \<open>Addresses at constant distances from one another.\<close>

lemma apart_offsets [simp]:
  "apart (e - x) n (e - y) m \<longleftrightarrow> n \<le> unat (x - y) \<and> m \<le> unat (y - x)"
  "apart e n (e - y) m \<longleftrightarrow> n \<le> unat (- y) \<and> m \<le> unat y"
  "apart (e - x) n e m \<longleftrightarrow> n \<le> unat x \<and> m \<le> unat (- x)"
  by (simp_all add: apart_def)

lemma apart_numerals [simp]:
  "apart (numeral a) n (numeral b) m \<longleftrightarrow> n \<le> unat (numeral b - numeral a :: u32) \<and> m \<le> unat (numeral a - numeral b :: u32)"
  by (simp add: apart_def)

section \<open>Words on the stack\<close>

primrec stack_has :: "memory \<Rightarrow> u32 \<Rightarrow> u32 list \<Rightarrow> bool" where
  "stack_has mem a [] \<longleftrightarrow> True"
| "stack_has mem a (w # ws) \<longleftrightarrow> mem_get32 mem a = w \<and> stack_has mem (a + 4) ws"

lemma stack_has_below:
  "stack_has mem b ws \<Longrightarrow> unat (b - a) + 4 * length ws \<le> 4294967295 \<Longrightarrow> 4 \<le> unat (b - a) \<Longrightarrow>
     stack_has (mem_put32 a v mem) b ws"
proof (induction ws arbitrary: b)
  case (Cons w ws)
  have d: "unat (b + 4 - a) = unat (b - a) + 4"
  proof -
    have "b + 4 - a = b - a + 4" by simp
    moreover have "unat (b - a) + 4 < 4294967296" using Cons.prems(2) by simp
    ultimately show ?thesis by (simp only: unat_word_ariths) simp
  qed
  have "unat (b - a) + unat (a - b) = 4294967296"
    using Cons.prems(3) unat_u32_less [of a] unat_u32_less [of b] by (auto simp: unat_sub_if')
  then have "apart b 4 a 4" using Cons.prems(2,3) by (simp add: apart_def)
  then have "mem_get32 (mem_put32 a v mem) b = mem_get32 mem b" by (rule mem_read_other(1))
  with Cons d show ?case by simp
qed simp

text \<open>One word more on top.\<close>

lemma stack_push:
  "stack_has mem b ws \<Longrightarrow> b = a + 4 \<Longrightarrow> length ws \<le> 1000 \<Longrightarrow> stack_has (mem_put32 a v mem) a (v # ws)"
  by (simp add: stack_has_below)

lemma push32_eq [simp]: "push32 v (c, mem) = (c\<lparr>c_esp := c_esp c - 4\<rparr>, mem_put32 (c_esp c - 4) v mem)"
  by (simp add: push32_def Let_def)

lemma pop32_eq [simp]: "pop32 (c, mem) = (mem_get32 mem (c_esp c), c\<lparr>c_esp := c_esp c + 4\<rparr>, mem)"
  by (simp add: pop32_def Let_def)

text \<open>The words depend on their own bytes only.\<close>

lemma stack_has_cong:
  assumes "\<forall>i < 4 * length ws. mem' (a + of_nat i) = mem (a + of_nat i)" "stack_has mem a ws"
  shows "stack_has mem' a ws"
  using assms
proof (induction ws arbitrary: a)
  case (Cons w ws)
  have "read_bytes mem' a 4 = read_bytes mem a 4" using Cons.prems(1) by (simp add: read_bytes_def)
  moreover have "mem' (a + 4 + of_nat i) = mem (a + 4 + of_nat i)" if "i < 4 * length ws" for i
    using Cons.prems(1) that by (auto dest: spec [of _ "4 + i"] simp: add.assoc)
  ultimately show ?case using Cons by (simp add: mem_get32_def)
qed simp

end
