(* ===== verification/RealmodeStub.thy ===== *)
theory RealmodeStub
  imports Stack32
begin

text \<open>
  The trampoline into real mode (kernel/realmode.asm): the layout of the block that it shares with
  realmode.c, the way down to real mode and back instruction by instruction, and what a BIOS call
  leaves of the kernel's processor state. The BIOS handler is a parameter.
\<close>

unbundle bit_operations_syntax

section \<open>The shared block\<close>

text \<open>\<open>realmode_state_t\<close> of realmode.c: the fields in order with their sizes, without padding.\<close>

definition realmode_state_t :: "(string \<times> nat) list" where
  "realmode_state_t =
     [(''saved_esp'', 4), (''saved_gdtr'', 6), (''pad0'', 2), (''saved_idtr'', 6), (''pad1'', 2),
      (''ivt_idtr'', 6), (''pad2'', 2), (''bios_handler'', 4), (''eax'', 4), (''ebx'', 4), (''ecx'', 4),
      (''edx'', 4), (''esi'', 4), (''edi'', 4), (''ebp'', 4), (''ds'', 2), (''es'', 2), (''eflags'', 4)]"

definition field_offset :: "(string \<times> nat) list \<Rightarrow> string \<Rightarrow> nat" where
  "field_offset ts f = sum_list (map snd (takeWhile (\<lambda>x. fst x \<noteq> f) ts))"

text \<open>The offsets as the assembly has them.\<close>

definition RM_SAVED_ESP :: u32 where "RM_SAVED_ESP = 0x00"
definition RM_SAVED_GDTR :: u32 where "RM_SAVED_GDTR = 0x04"
definition RM_SAVED_IDTR :: u32 where "RM_SAVED_IDTR = 0x0C"
definition RM_IVT_IDTR :: u32 where "RM_IVT_IDTR = 0x14"
definition RM_BIOS_HANDLER :: u32 where "RM_BIOS_HANDLER = 0x1C"
definition RM_EAX :: u32 where "RM_EAX = 0x20"
definition RM_EBX :: u32 where "RM_EBX = 0x24"
definition RM_ECX :: u32 where "RM_ECX = 0x28"
definition RM_EDX :: u32 where "RM_EDX = 0x2C"
definition RM_ESI :: u32 where "RM_ESI = 0x30"
definition RM_EDI :: u32 where "RM_EDI = 0x34"
definition RM_EBP :: u32 where "RM_EBP = 0x38"
definition RM_DS :: u32 where "RM_DS = 0x3C"
definition RM_ES :: u32 where "RM_ES = 0x3E"
definition RM_EFLAGS :: u32 where "RM_EFLAGS = 0x40"

lemmas rm_offsets = RM_SAVED_ESP_def RM_SAVED_GDTR_def RM_SAVED_IDTR_def RM_IVT_IDTR_def RM_BIOS_HANDLER_def
  RM_EAX_def RM_EBX_def RM_ECX_def RM_EDX_def RM_ESI_def RM_EDI_def RM_EBP_def RM_DS_def RM_ES_def RM_EFLAGS_def

definition GDT_CODE32 :: u16 where "GDT_CODE32 = 0x08"
definition GDT_DATA32 :: u16 where "GDT_DATA32 = 0x10"
definition GDT_CODE16 :: u16 where "GDT_CODE16 = 0x18"
definition GDT_DATA16 :: u16 where "GDT_DATA16 = 0x20"
definition REALMODE_STUB_SEG :: u16 where "REALMODE_STUB_SEG = 0x3000"
definition REALMODE_DATA_OFF :: u16 where "REALMODE_DATA_OFF = 0x0400"
definition REALMODE_STACK_TOP :: u16 where "REALMODE_STACK_TOP = 0x2000"

lemmas rm_layout = GDT_CODE32_def GDT_DATA32_def GDT_CODE16_def GDT_DATA16_def REALMODE_STUB_SEG_def
  REALMODE_DATA_OFF_def REALMODE_STACK_TOP_def

section \<open>Instructions\<close>

text \<open>A segment and an offset in real mode; the pseudo descriptors of limit and base.\<close>

definition rm_flat :: "u16 \<Rightarrow> u16 \<Rightarrow> u32" where
  "rm_flat seg off = ucast seg * 16 + ucast off"

definition store_dtr :: "u32 \<Rightarrow> u16 \<times> u32 \<Rightarrow> memory \<Rightarrow> memory" where
  "store_dtr a dtr mem = mem_put32 (a + 2) (snd dtr) (mem_put16 a (fst dtr) mem)"

definition load_dtr :: "u32 \<Rightarrow> memory \<Rightarrow> u16 \<times> u32" where
  "load_dtr a mem = (mem_get16 mem a, mem_get32 mem (a + 2))"

text \<open>All data segment registers and the stack segment at once, in the order of the code.\<close>

definition load_segments :: "u16 \<Rightarrow> cpu \<Rightarrow> cpu" where
  "load_segments s c =
     (let c = c\<lparr>c_eax := set_low16 s (c_eax c)\<rparr>
      in c\<lparr>c_ds := low16 (c_eax c), c_es := low16 (c_eax c), c_fs := low16 (c_eax c), c_gs := low16 (c_eax c),
           c_ss := low16 (c_eax c)\<rparr>)"

text \<open>Pushes on the stack of real mode, whose pointer has 16 bits.\<close>

definition rm_push16 :: "u16 \<Rightarrow> machine \<Rightarrow> machine" where
  "rm_push16 v cm =
     (let (c, mem) = cm; c = c\<lparr>c_esp := set_low16 (low16 (c_esp c) - 2) (c_esp c)\<rparr>
      in (c, mem_put16 (rm_flat (c_ss c) (low16 (c_esp c))) v mem))"

definition rm_push32 :: "u32 \<Rightarrow> machine \<Rightarrow> machine" where
  "rm_push32 v cm =
     (let (c, mem) = cm; c = c\<lparr>c_esp := set_low16 (low16 (c_esp c) - 4) (c_esp c)\<rparr>
      in (c, mem_put32 (rm_flat (c_ss c) (low16 (c_esp c))) v mem))"

definition rm_pop32 :: "machine \<Rightarrow> u32 \<times> machine" where
  "rm_pop32 cm =
     (let (c, mem) = cm
      in (mem_get32 mem (rm_flat (c_ss c) (low16 (c_esp c))),
          c\<lparr>c_esp := set_low16 (low16 (c_esp c) + 4) (c_esp c)\<rparr>, mem))"

section \<open>The trampoline\<close>

text \<open>From the call in protected mode to the far jump through the 16-bit code descriptor.\<close>

definition stub_save :: "machine \<Rightarrow> machine" where
  "stub_save cm =
     (let cm = pushad cm;
          (c, mem) = pushfd cm;
          c = cli c;
          mem = mem_put32 (REALMODE_DATA_ADDR + RM_SAVED_ESP) (c_esp c) mem;
          mem = store_dtr (REALMODE_DATA_ADDR + RM_SAVED_GDTR) (c_gdtr c) mem;
          mem = store_dtr (REALMODE_DATA_ADDR + RM_SAVED_IDTR) (c_idtr c) mem
      in (c, mem))"

text \<open>
  16-bit protected mode, real mode, and the registers for the handler. The block is reached through
  the code segment.
\<close>

definition rm_field :: "cpu \<Rightarrow> u32 \<Rightarrow> u32" where
  "rm_field c off = rm_flat (c_cs c) REALMODE_DATA_OFF + off"

definition stub_down :: "machine \<Rightarrow> machine" where
  "stub_down cm =
     (let (c, mem) = cm;
          c = c\<lparr>c_cs := GDT_CODE16\<rparr>;
          c = load_segments GDT_DATA16 c;
          c = c\<lparr>c_eax := c_cr0 c\<rparr>;
          c = c\<lparr>c_eax := c_eax c AND 0xFFFFFFFE\<rparr>;
          c = c\<lparr>c_cr0 := c_eax c\<rparr>;
          c = c\<lparr>c_cs := REALMODE_STUB_SEG\<rparr>;
          c = load_segments REALMODE_STUB_SEG c;
          c = c\<lparr>c_esp := set_low16 REALMODE_STACK_TOP (c_esp c)\<rparr>;
          c = c\<lparr>c_idtr := load_dtr (rm_field c RM_IVT_IDTR) mem\<rparr>;
          c = c\<lparr>c_eax := mem_get32 mem (rm_field c RM_EAX)\<rparr>;
          c = c\<lparr>c_ebx := mem_get32 mem (rm_field c RM_EBX)\<rparr>;
          c = c\<lparr>c_ecx := mem_get32 mem (rm_field c RM_ECX)\<rparr>;
          c = c\<lparr>c_edx := mem_get32 mem (rm_field c RM_EDX)\<rparr>;
          c = c\<lparr>c_esi := mem_get32 mem (rm_field c RM_ESI)\<rparr>;
          c = c\<lparr>c_edi := mem_get32 mem (rm_field c RM_EDI)\<rparr>;
          c = c\<lparr>c_ebp := mem_get32 mem (rm_field c RM_EBP)\<rparr>;
          c = c\<lparr>c_es := mem_get16 mem (rm_field c RM_ES)\<rparr>;
          c = c\<lparr>c_ds := mem_get16 mem (rm_field c RM_DS)\<rparr>
      in (c, mem))"

text \<open>
  \<open>pushf\<close> and the far call: flags, code segment and the offset \<open>ip\<close> of the next instruction are what
  the handler's \<open>iret\<close> takes back. The handler gets its own far address.
\<close>

definition stub_call ::
  "u16 \<Rightarrow> (u32 \<Rightarrow> machine \<times> 'd \<Rightarrow> machine \<times> 'd) \<Rightarrow> machine \<times> 'd \<Rightarrow> machine \<times> 'd" where
  "stub_call ip bios cmd =
     (let (cm, d) = cmd;
          handler = mem_get32 (snd cm) (rm_field (fst cm) RM_BIOS_HANDLER);
          cm = rm_push16 (low16 (c_eflags (fst cm))) cm;
          cm = rm_push16 (c_cs (fst cm)) cm;
          cm = rm_push16 ip cm
      in bios handler (cm, d))"

text \<open>The results into the block.\<close>

definition stub_results :: "machine \<Rightarrow> machine" where
  "stub_results cm =
     (let (c, mem) = cm;
          mem = mem_put32 (rm_field c RM_EAX) (c_eax c) mem;
          c = c\<lparr>c_eax := set_low16 REALMODE_STUB_SEG (c_eax c)\<rparr>;
          c = c\<lparr>c_ss := low16 (c_eax c)\<rparr>;
          c = c\<lparr>c_esp := set_low16 REALMODE_STACK_TOP (c_esp c)\<rparr>;
          (c, mem) = rm_push32 (c_eflags c) (c, mem);
          (v, c, mem) = rm_pop32 (c, mem);
          c = c\<lparr>c_eax := v\<rparr>;
          mem = mem_put32 (rm_field c RM_EFLAGS) (c_eax c) mem;
          mem = mem_put32 (rm_field c RM_EBX) (c_ebx c) mem;
          mem = mem_put32 (rm_field c RM_ECX) (c_ecx c) mem;
          mem = mem_put32 (rm_field c RM_EDX) (c_edx c) mem;
          mem = mem_put32 (rm_field c RM_ESI) (c_esi c) mem;
          mem = mem_put32 (rm_field c RM_EDI) (c_edi c) mem;
          mem = mem_put32 (rm_field c RM_EBP) (c_ebp c) mem;
          c = c\<lparr>c_eax := set_low16 (c_es c) (c_eax c)\<rparr>;
          mem = mem_put16 (rm_field c RM_ES) (low16 (c_eax c)) mem;
          c = c\<lparr>c_eax := set_low16 (c_ds c) (c_eax c)\<rparr>;
          mem = mem_put16 (rm_field c RM_DS) (low16 (c_eax c)) mem
      in (c, mem))"

text \<open>Back to protected mode, and the registers of the kernel.\<close>

definition stub_up :: "machine \<Rightarrow> machine" where
  "stub_up cm =
     (let (c, mem) = cm;
          c = cli c;
          c = c\<lparr>c_gdtr := load_dtr (rm_field c RM_SAVED_GDTR) mem\<rparr>;
          c = c\<lparr>c_eax := c_cr0 c\<rparr>;
          c = c\<lparr>c_eax := c_eax c OR 1\<rparr>;
          c = c\<lparr>c_cr0 := c_eax c\<rparr>;
          c = c\<lparr>c_cs := GDT_CODE32\<rparr>;
          c = load_segments GDT_DATA32 c;
          c = c\<lparr>c_esp := mem_get32 mem (REALMODE_DATA_ADDR + RM_SAVED_ESP)\<rparr>;
          c = c\<lparr>c_idtr := load_dtr (REALMODE_DATA_ADDR + RM_SAVED_IDTR) mem\<rparr>
      in popad (popfd (c, mem)))"

text \<open>
  The whole call from C, \<open>ret\<close> being the address after it. The far jump into 16-bit protected mode
  reaches the stub only when the base of the descriptor is the address of the stub; otherwise the
  processor is lost, which is \<open>None\<close>.
\<close>

definition trampoline ::
  "u16 \<Rightarrow> (u32 \<Rightarrow> machine \<times> 'd \<Rightarrow> machine \<times> 'd) \<Rightarrow> u32 \<Rightarrow> machine \<times> 'd \<Rightarrow> (machine \<times> 'd) option" where
  "trampoline ip bios ret cmd =
     (let (cm, d) = cmd;
          cm = push32 ret cm;
          (c, mem) = stub_save cm in
      if gdt_base mem (snd (c_gdtr c) + ucast GDT_CODE16) \<noteq> REALMODE_STUB_ADDR then None
      else
        (let cm = stub_down (c, mem);
             (cm, d) = stub_call ip bios (cm, d);
             cm = stub_up (stub_results cm);
             (v, c, mem) = pop32 cm
         in Some ((c\<lparr>c_eip := v\<rparr>, mem), d)))"

section \<open>The layout is the same on both sides\<close>

text \<open>The assertions of realmode.c, and every offset of the assembly.\<close>

lemma realmode_layouts_agree:
  "sum_list (map snd realmode_state_t) = 0x44"
  "map (\<lambda>f. of_nat (field_offset realmode_state_t f))
     [''saved_esp'', ''saved_gdtr'', ''saved_idtr'', ''ivt_idtr'', ''bios_handler'', ''eax'', ''ebx'', ''ecx'',
      ''edx'', ''esi'', ''edi'', ''ebp'', ''ds'', ''es'', ''eflags''] =
   [RM_SAVED_ESP, RM_SAVED_GDTR, RM_SAVED_IDTR, RM_IVT_IDTR, RM_BIOS_HANDLER, RM_EAX, RM_EBX, RM_ECX,
    RM_EDX, RM_ESI, RM_EDI, RM_EBP, RM_DS, RM_ES, RM_EFLAGS]"
  "rm_flat REALMODE_STUB_SEG 0 = REALMODE_STUB_ADDR"
  "rm_flat REALMODE_STUB_SEG REALMODE_DATA_OFF = REALMODE_DATA_ADDR"
  by (simp_all add: realmode_state_t_def field_offset_def rm_offsets rm_flat_def rm_layout REALMODE_STUB_ADDR_def
      REALMODE_DATA_ADDR_def)

section \<open>Memory by ranges of addresses\<close>

definition same_range :: "nat \<Rightarrow> nat \<Rightarrow> memory \<Rightarrow> memory \<Rightarrow> bool" where
  "same_range lo hi m m' \<longleftrightarrow> (\<forall>x. lo \<le> unat x \<and> unat x < hi \<longrightarrow> m' x = m x)"

lemma same_range_refl [simp]: "same_range lo hi m m"
  by (simp add: same_range_def)

lemma same_range_trans: "same_range lo hi m m' \<Longrightarrow> same_range lo hi m' m'' \<Longrightarrow> same_range lo hi m m''"
  by (simp add: same_range_def)

lemma same_range_sub: "same_range lo hi m m' \<Longrightarrow> lo \<le> lo' \<Longrightarrow> hi' \<le> hi \<Longrightarrow> same_range lo' hi' m m'"
  by (simp add: same_range_def)

lemma write_bytes_off_range:
  assumes "unat x < unat a \<or> unat a + length bs \<le> unat x" "unat a + length bs \<le> 4294967296"
  shows "write_bytes m a bs x = m x"
proof -
  have "length bs \<le> unat (x - a)"
    using assms unat_u32_less [of x] unat_u32_less [of a] by (auto simp: unat_sub_if')
  then show ?thesis by (simp add: write_bytes_def)
qed

lemma same_range_put:
  "same_range lo hi m m' \<Longrightarrow> hi \<le> unat a \<or> unat a + 4 \<le> lo \<Longrightarrow> unat a + 4 \<le> 4294967296 \<Longrightarrow>
     same_range lo hi m (mem_put32 a v m')"
  "same_range lo hi m m' \<Longrightarrow> hi \<le> unat a \<or> unat a + 2 \<le> lo \<Longrightarrow> unat a + 2 \<le> 4294967296 \<Longrightarrow>
     same_range lo hi m (mem_put16 a w m')"
  by (auto simp: same_range_def mem_put32_def mem_put16_def write_bytes_off_range)

lemma same_range_read:
  assumes "same_range lo hi m m'" "lo \<le> unat a" "unat a + n \<le> hi" "hi \<le> 4294967296"
  shows "read_bytes m' a n = read_bytes m a n"
proof -
  have "unat (a + of_nat i) = unat a + i" if "i < n" for i
    using assms(3,4) that by (simp add: unat_word_ariths unat_of_nat_word)
  then show ?thesis using assms by (simp add: read_bytes_def same_range_def)
qed

lemma same_range_get:
  assumes "same_range lo hi m m'" "hi \<le> 4294967296" "lo \<le> unat a"
  shows "unat a + 4 \<le> hi \<Longrightarrow> mem_get32 m' a = mem_get32 m a"
    "unat a + 2 \<le> hi \<Longrightarrow> mem_get16 m' a = mem_get16 m a"
  using same_range_read [OF assms(1,3) _ assms(2)] by (simp_all add: mem_get32_def mem_get16_def)

lemma same_range_stack:
  assumes "same_range lo hi m m'" "hi \<le> 4294967296" "lo \<le> unat a" "unat a + 4 * length ws \<le> hi" "stack_has m a ws"
  shows "stack_has m' a ws"
proof (rule stack_has_cong [OF _ assms(5)], intro allI impI)
  fix i assume "i < 4 * length ws"
  then have "unat (a + of_nat i) = unat a + i"
    using assms(2,4) by (simp add: unat_word_ariths unat_of_nat_word)
  then show "m' (a + of_nat i) = m (a + of_nat i)"
    using assms(1,3,4) \<open>i < 4 * length ws\<close> by (simp add: same_range_def)
qed

section \<open>The registers in the block\<close>

lemma get_regs_words:
  "get_regs mem = \<lparr>r_eax = mem_get32 mem 0x30420, r_ebx = mem_get32 mem 0x30424, r_ecx = mem_get32 mem 0x30428,
     r_edx = mem_get32 mem 0x3042C, r_esi = mem_get32 mem 0x30430, r_edi = mem_get32 mem 0x30434,
     r_ebp = mem_get32 mem 0x30438, r_ds = mem_get16 mem 0x3043C, r_es = mem_get16 mem 0x3043E,
     r_eflags = mem_get32 mem 0x30440\<rparr>"
  by (simp add: get_regs_def Let_def mem_get32_def mem_get16_def read_bytes_def get32_def get16_def REALMODE_DATA_ADDR_def
      upt_conv_Cons)

definition regs_of :: "cpu \<Rightarrow> realmode_regs" where
  "regs_of c = \<lparr>r_eax = c_eax c, r_ebx = c_ebx c, r_ecx = c_ecx c, r_edx = c_edx c, r_esi = c_esi c,
     r_edi = c_edi c, r_ebp = c_ebp c, r_ds = c_ds c, r_es = c_es c, r_eflags = c_eflags c\<rparr>"

section \<open>The way down\<close>

lemma esp_offset: "0x34040 \<le> unat e \<Longrightarrow> unat k \<le> 64 \<Longrightarrow> unat (e - k) = unat e - unat k" for e k :: u32
  by (intro unat_word_sub) (simp add: word_le_nat_alt)

lemma stub_save_facts:
  assumes "0x34040 \<le> unat (c_esp c)"
  obtains m1 where "stub_save (push32 ret (c, mem)) = ((cli c)\<lparr>c_esp := c_esp c - 40\<rparr>, m1)"
    "stack_has m1 (c_esp c - 40) [c_eflags c, c_edi c, c_esi c, c_ebp c, c_esp c - 4, c_ebx c, c_edx c, c_ecx c, c_eax c, ret]"
    "mem_get32 m1 0x30400 = c_esp c - 40" "load_dtr 0x30404 m1 = c_gdtr c" "load_dtr 0x3040C m1 = c_idtr c"
    "same_range 0 0x30400 mem m1" "same_range 0x30412 0x34000 mem m1"
proof -
  let ?e = "c_esp c"
  let ?m0 = "snd (pushfd (pushad (push32 ret (c, mem))))"
  have m0: "?m0 = mem_put32 (?e - 40) (c_eflags c) (mem_put32 (?e - 36) (c_edi c) (mem_put32 (?e - 32) (c_esi c)
     (mem_put32 (?e - 28) (c_ebp c) (mem_put32 (?e - 24) (?e - 4) (mem_put32 (?e - 20) (c_ebx c)
     (mem_put32 (?e - 16) (c_edx c) (mem_put32 (?e - 12) (c_ecx c) (mem_put32 (?e - 8) (c_eax c)
     (mem_put32 (?e - 4) ret mem)))))))))"
    by (simp add: pushfd_def pushad_def Let_def)
  have st: "stack_has ?m0 (?e - 40) [c_eflags c, c_edi c, c_esi c, c_ebp c, ?e - 4, c_ebx c, c_edx c, c_ecx c, c_eax c, ret]"
    unfolding m0 by ((rule stack_push | simp del: stack_has.simps(2) | simp only: stack_has.simps(1))+)
  have low: "same_range 0 0x34000 mem ?m0"
    unfolding m0 using assms unat_u32_less [of ?e] by (intro same_range_put same_range_refl) (simp_all add: esp_offset)
  define m1 where "m1 = store_dtr 0x3040C (c_idtr c) (store_dtr 0x30404 (c_gdtr c) (mem_put32 0x30400 (?e - 40) ?m0))"
  have "stub_save (push32 ret (c, mem)) = ((cli c)\<lparr>c_esp := ?e - 40\<rparr>, m1)"
    by (simp add: stub_save_def m1_def pushfd_def pushad_def Let_def cli_def rm_offsets REALMODE_DATA_ADDR_def)
  moreover have "same_range 0x34000 4294967296 ?m0 m1"
    unfolding m1_def store_dtr_def by (intro same_range_put same_range_refl) simp_all
  then have "stack_has m1 (?e - 40) [c_eflags c, c_edi c, c_esi c, c_ebp c, ?e - 4, c_ebx c, c_edx c, c_ecx c, c_eax c, ret]"
    by (rule same_range_stack [OF _ _ _ _ st]) (use assms unat_u32_less [of ?e] in \<open>simp_all add: esp_offset\<close>)
  moreover have "mem_get32 m1 0x30400 = ?e - 40" "load_dtr 0x30404 m1 = c_gdtr c" "load_dtr 0x3040C m1 = c_idtr c"
    by (simp_all add: m1_def store_dtr_def load_dtr_def mem_read_other)
  moreover have parts: "same_range 0 0x30400 mem ?m0" "same_range 0x30412 0x34000 mem ?m0"
    by (rule same_range_sub [OF low]; simp)+
  have "same_range 0 0x30400 mem m1" "same_range 0x30412 0x34000 mem m1"
    unfolding m1_def store_dtr_def by (intro same_range_put parts; simp)+
  ultimately show ?thesis using that by blast
qed

text \<open>Real mode, with the registers of the block, and the flags, segment and offset for the handler's return.\<close>

lemma stub_down_facts:
  assumes "stub_down (c, m) = (c2, m2)"
  shows "m2 = m" "c_cs c2 = 0x3000" "c_ss c2 = 0x3000" "low16 (c_esp c2) = 0x2000" "c_cr0 c2 = c_cr0 c AND 0xFFFFFFFE"
    "c_idtr c2 = load_dtr 0x30414 m" "c_gdtr c2 = c_gdtr c" "c_eflags c2 = c_eflags c"
    "regs_of c2 = (get_regs m)\<lparr>r_eflags := c_eflags c\<rparr>"
  using assms
  by (auto simp: stub_down_def Let_def load_segments_def rm_field_def rm_flat_def rm_layout rm_offsets regs_of_def get_regs_words)

lemma stub_call_facts:
  assumes "c_cs c = 0x3000" "c_ss c = 0x3000" "low16 (c_esp c) = 0x2000"
  obtains m3 where "stub_call ip bios ((c, m), d) =
      bios (mem_get32 m 0x3041C) ((c\<lparr>c_esp := set_low16 0x1FFA (c_esp c)\<rparr>, m3), d)"
    "same_range 0 0x31FFA m m3" "same_range 0x32000 4294967296 m m3"
proof -
  define m3 where "m3 = mem_put16 0x31FFA ip (mem_put16 0x31FFC 0x3000 (mem_put16 0x31FFE (low16 (c_eflags c)) m))"
  have sl: "set_low16 v (set_low16 w r) = set_low16 v r" for v w r
    unfolding set_low16_def low16_mask by (rule bit_word_eqI) (auto simp: bit_simps dest: bit_imp_le_length)
  have "stub_call ip bios ((c, m), d) =
      bios (mem_get32 m 0x3041C) ((c\<lparr>c_esp := set_low16 0x1FFA (c_esp c)\<rparr>, m3), d)"
    using assms by (simp add: stub_call_def Let_def rm_push16_def rm_field_def rm_flat_def rm_layout rm_offsets m3_def sl)
  moreover have "same_range 0 0x31FFA m m3" "same_range 0x32000 4294967296 m m3"
    unfolding m3_def by (intro same_range_put same_range_refl; simp)+
  ultimately show ?thesis using that by blast
qed

section \<open>The way up\<close>

lemma stub_results_facts:
  assumes "c_cs c = 0x3000"
  obtains c5 m5 where "stub_results (c, m) = (c5, m5)" "get_regs m5 = regs_of c" "c_cs c5 = 0x3000"
    "c_cr0 c5 = c_cr0 c" "same_range 0 0x30420 m m5" "same_range 0x32000 4294967296 m m5"
proof -
  obtain c5 m5 where r: "stub_results (c, m) = (c5, m5)" by fastforce
  have m5: "m5 = mem_put16 0x3043C (c_ds c) (mem_put16 0x3043E (c_es c) (mem_put32 0x30438 (c_ebp c)
      (mem_put32 0x30434 (c_edi c) (mem_put32 0x30430 (c_esi c) (mem_put32 0x3042C (c_edx c)
      (mem_put32 0x30428 (c_ecx c) (mem_put32 0x30424 (c_ebx c) (mem_put32 0x30440 (c_eflags c)
      (mem_put32 0x31FFC (c_eflags c) (mem_put32 0x30420 (c_eax c) m))))))))))"
    "c_cs c5 = 0x3000" "c_cr0 c5 = c_cr0 c"
    using r assms
    by (auto simp: stub_results_def Let_def rm_push32_def rm_pop32_def rm_field_def rm_flat_def rm_layout rm_offsets)
  have "same_range 0 0x30420 m m5" "same_range 0x32000 4294967296 m m5"
    unfolding m5(1) by (intro same_range_put same_range_refl; simp)+
  moreover have "get_regs m5 = regs_of c"
    unfolding get_regs_words m5(1) regs_of_def by (simp add: mem_read_other)
  ultimately show ?thesis using that r m5(2,3) by blast
qed

lemma stub_up_facts:
  assumes "c_cs c = 0x3000" "mem_get32 m 0x30400 = e - 40"
    "stack_has m (e - 40) [flags, edi, esi, ebp, esp, ebx, edx, ecx, eax, ret]"
  shows "pop32 (stub_up (c, m)) = (ret, c\<lparr>c_eax := eax, c_ebx := ebx, c_ecx := ecx, c_edx := edx, c_esi := esi,
      c_edi := edi, c_ebp := ebp, c_esp := e, c_cs := 0x08, c_ds := 0x10, c_es := 0x10, c_fs := 0x10, c_gs := 0x10,
      c_ss := 0x10, c_eflags := flags, c_cr0 := c_cr0 c OR 1, c_gdtr := load_dtr 0x30404 m, c_idtr := load_dtr 0x3040C m\<rparr>, m)"
  using assms
  by (simp add: stub_up_def Let_def load_segments_def popfd_def popad_def cli_def rm_field_def rm_flat_def rm_layout
      rm_offsets REALMODE_DATA_ADDR_def add.assoc)

section \<open>The whole call\<close>

text \<open>
  The kernel when it calls the trampoline: flat 32-bit segments, protected mode, a stack above the
  area of the trampoline, and a GDT below it.
\<close>

definition kernel_cpu :: "cpu \<Rightarrow> bool" where
  "kernel_cpu c \<longleftrightarrow> c_cs c = 0x08 \<and> c_ds c = 0x10 \<and> c_es c = 0x10 \<and> c_fs c = 0x10 \<and> c_gs c = 0x10 \<and>
     c_ss c = 0x10 \<and> bit (c_cr0 c) 0 \<and> 0x34040 \<le> unat (c_esp c) \<and> unat (snd (c_gdtr c)) + 0x28 \<le> 0x30000"

text \<open>
  What a handler must respect: it returns to its caller's code segment in real mode, and it writes
  neither to the saved part of the block nor to the kernel's stack above \<open>e - 40\<close>.
\<close>

definition bios_respects :: "u32 \<Rightarrow> (u32 \<Rightarrow> machine \<times> 'd \<Rightarrow> machine \<times> 'd) \<Rightarrow> bool" where
  "bios_respects e bios \<longleftrightarrow> (\<forall>h c m d c' m' d'. bios h ((c, m), d) = ((c', m'), d') \<longrightarrow>
     c_cs c' = c_cs c \<and> c_cr0 c' = c_cr0 c \<and> same_range 0x30400 0x30414 m m' \<and>
     same_range (unat e - 40) (unat e) m m')"

text \<open>A processor in real mode, ready for a handler: interrupts off, the vectors of the BIOS, the block's registers.\<close>

definition real_mode :: "realmode_regs \<Rightarrow> u16 \<times> u32 \<Rightarrow> cpu \<Rightarrow> bool" where
  "real_mode r ivt c \<longleftrightarrow> \<not> bit (c_cr0 c) 0 \<and> \<not> bit (c_eflags c) 9 \<and> c_cs c = 0x3000 \<and> c_ss c = 0x3000 \<and>
     low16 (c_esp c) = 0x1FFA \<and> c_idtr c = ivt \<and> (regs_of c)\<lparr>r_eflags := r_eflags r\<rparr> = r"

lemma gdt_base_range:
  assumes "same_range 0 0x30000 m m'" "unat g + 0x28 \<le> 0x30000"
  shows "gdt_base m' (g + 0x18) = gdt_base m (g + 0x18)"
proof -
  have "unat (g + 0x18 + of_nat i) = unat g + 24 + i" if "i < 8" for i
    using assms(2) that by (simp add: unat_word_ariths unat_of_nat_word)
  then have "m' (g + 0x18 + of_nat i) = m (g + 0x18 + of_nat i)" if "i < 8" for i
    using assms that by (simp add: same_range_def)
  from this [of 2] this [of 3] this [of 4] this [of 7] show ?thesis
    by (simp add: gdt_base_def add.assoc)
qed

lemma cr0_protected: "bit x 0 \<Longrightarrow> (x AND 0xFFFFFFFE) OR 1 = x" "\<not> bit (x AND 0xFFFFFFFE) 0" for x :: u32
proof -
  have m: "(0xFFFFFFFE :: u32) = NOT 1" by simp
  show "\<not> bit (x AND 0xFFFFFFFE) 0" unfolding m by (simp add: bit_simps)
  show "(x AND 0xFFFFFFFE) OR 1 = x" if "bit x 0"
    unfolding m by (rule bit_word_eqI) (use that in \<open>auto simp: bit_simps\<close>)
qed

lemma cli_bit: "\<not> bit (c_eflags (cli c)) 9"
proof -
  have m: "(0x200 :: u32) = push_bit 9 1" by simp
  show ?thesis unfolding cli_def m by (simp add: bit_simps)
qed

lemma trampoline_call:
  assumes "kernel_cpu c" "gdt_base m (snd (c_gdtr c) + 0x18) = REALMODE_STUB_ADDR" "bios_respects (c_esp c) bios"
  obtains c3 m3 c4 m4 d4 m6 where
    "real_mode ((get_regs m)\<lparr>r_eflags := r_eflags (regs_of c3)\<rparr>) (load_dtr 0x30414 m) c3"
    "same_range 0x30414 0x31FFA m m3"
    "bios (mem_get32 m 0x3041C) ((c3, m3), d) = ((c4, m4), d4)"
    "trampoline ip bios ret ((c, m), d) = Some ((c\<lparr>c_eip := ret\<rparr>, m6), d4)" "get_regs m6 = regs_of c4"
proof -
  let ?e = "c_esp c"
  have k: "0x34040 \<le> unat ?e" "unat (snd (c_gdtr c)) + 0x28 \<le> 0x30000" "bit (c_cr0 c) 0"
    using assms(1) by (simp_all add: kernel_cpu_def)
  obtain m1 where m1: "stub_save (push32 ret (c, m)) = ((cli c)\<lparr>c_esp := ?e - 40\<rparr>, m1)"
    "stack_has m1 (?e - 40) [c_eflags c, c_edi c, c_esi c, c_ebp c, ?e - 4, c_ebx c, c_edx c, c_ecx c, c_eax c, ret]"
    "mem_get32 m1 0x30400 = ?e - 40" "load_dtr 0x30404 m1 = c_gdtr c" "load_dtr 0x3040C m1 = c_idtr c"
    "same_range 0 0x30400 m m1" "same_range 0x30412 0x34000 m m1"
    by (rule stub_save_facts [OF k(1), of ret m])
  obtain c2 m2 where down: "stub_down ((cli c)\<lparr>c_esp := ?e - 40\<rparr>, m1) = (c2, m2)" by fastforce
  note c2 = stub_down_facts [OF down]
  obtain m3 where m3: "stub_call ip bios ((c2, m2), d) =
      bios (mem_get32 m2 0x3041C) ((c2\<lparr>c_esp := set_low16 0x1FFA (c_esp c2)\<rparr>, m3), d)"
    "same_range 0 0x31FFA m2 m3" "same_range 0x32000 4294967296 m2 m3"
    by (rule stub_call_facts [OF c2(2-4), of ip bios m2 d])
  define c3 where "c3 = c2\<lparr>c_esp := set_low16 0x1FFA (c_esp c2)\<rparr>"
  obtain c4 m4 d4 where b: "bios (mem_get32 m2 0x3041C) ((c3, m3), d) = ((c4, m4), d4)" by (metis prod.exhaust)
  with assms(3) have c4: "c_cs c4 = c_cs c3" "c_cr0 c4 = c_cr0 c3" "same_range 0x30400 0x30414 m3 m4"
    "same_range (unat ?e - 40) (unat ?e) m3 m4"
    unfolding bios_respects_def by blast+
  have "c_cs c4 = 0x3000" using c4(1) c2(2) by (simp add: c3_def)
  from stub_results_facts [OF this, of m4] obtain c5 m5 where
    c5: "stub_results (c4, m4) = (c5, m5)" "get_regs m5 = regs_of c4" "c_cs c5 = 0x3000" "c_cr0 c5 = c_cr0 c4"
      "same_range 0 0x30420 m4 m5" "same_range 0x32000 4294967296 m4 m5" by blast
  have handler: "mem_get32 m2 0x3041C = mem_get32 m 0x3041C"
    using same_range_get(1) [OF m1(7), of "0x3041C"] c2(1) by simp
  have "same_range 0x30400 0x30414 m1 m5"
    using same_range_sub [OF m3(2), of "0x30400" "0x30414"] c4(3) same_range_sub [OF c5(5), of "0x30400" "0x30414"] c2(1)
    by (auto intro: same_range_trans)
  note saved = same_range_get [OF this]
  have e: "0x32000 \<le> unat ?e - 40" "unat ?e \<le> 4294967296" using k(1) unat_u32_less [of ?e] by simp_all
  have "same_range (unat ?e - 40) (unat ?e) m1 m5"
    using same_range_sub [OF m3(3) e] c4(4) same_range_sub [OF c5(6) e] c2(1)
    by (metis same_range_trans)
  then have "stack_has m5 (?e - 40) [c_eflags c, c_edi c, c_esi c, c_ebp c, ?e - 4, c_ebx c, c_edx c, c_ecx c, c_eax c, ret]"
    by (rule same_range_stack [OF _ _ _ _ m1(2)]) (use k(1) unat_u32_less [of ?e] in \<open>simp_all add: esp_offset\<close>)
  moreover have "mem_get32 m5 0x30400 = ?e - 40" "load_dtr 0x30404 m5 = c_gdtr c" "load_dtr 0x3040C m5 = c_idtr c"
    using m1(3-5) saved by (simp_all add: load_dtr_def)
  moreover have "c_cr0 c5 OR 1 = c_cr0 c"
    using c5(4) c4(2) c2(5) cr0_protected(1) [OF k(3)] by (simp add: c3_def cli_def)
  ultimately have up: "pop32 (stub_up (c5, m5)) = (ret, c\<lparr>c_eip := c_eip c5\<rparr>, m5)"
    using stub_up_facts [OF c5(3), of m5 ?e] assms(1) by (cases c; cases c5) (simp add: kernel_cpu_def)
  have "gdt_base m1 (snd (c_gdtr c) + ucast GDT_CODE16) = REALMODE_STUB_ADDR"
    using gdt_base_range [OF same_range_sub [OF m1(6)] k(2)] assms(2) by (simp add: GDT_CODE16_def)
  then have "trampoline ip bios ret ((c, m), d) = Some ((c\<lparr>c_eip := ret\<rparr>, m5), d4)"
    using m1(1) down m3(1) b c5(1) up
    by (simp add: trampoline_def Let_def c3_def cli_def)
  moreover have "real_mode ((get_regs m)\<lparr>r_eflags := r_eflags (regs_of c3)\<rparr>) (load_dtr 0x30414 m) c3"
  proof -
    have "get_regs m1 = get_regs m"
      unfolding get_regs_words using same_range_get [OF m1(7)] by simp
    moreover have "load_dtr 0x30414 m1 = load_dtr 0x30414 m"
      unfolding load_dtr_def using same_range_get [OF m1(7)] by simp
    moreover have "\<not> bit (c_eflags c3) 9" using cli_bit [of c] c2(8) by (simp add: c3_def)
    ultimately show ?thesis
      using c2 cr0_protected(2) by (simp add: real_mode_def c3_def regs_of_def cli_def)
  qed
  moreover have "same_range 0x30414 0x31FFA m m3"
    using same_range_sub [OF m1(7), of "0x30414" "0x31FFA"] same_range_sub [OF m3(2), of "0x30414" "0x31FFA"] c2(1)
    by (auto intro: same_range_trans)
  ultimately show ?thesis using that b c5(2) handler by simp
qed

section \<open>Preparing the trampoline\<close>

text \<open>What a call needs of memory, for a kernel whose GDT is where \<open>sgdt\<close> says it is.\<close>

definition trampoline_ready :: "u16 \<times> u32 \<Rightarrow> memory \<Rightarrow> bool" where
  "trampoline_ready gdtr m \<longleftrightarrow>
     gdt_base m (snd gdtr + 0x18) = REALMODE_STUB_ADDR \<and> load_dtr 0x30414 m = (0x3FF, 0)"

lemma same_range_steps:
  "unat a + n \<le> 4294967296 \<Longrightarrow> hi \<le> unat a \<or> unat a + n \<le> lo \<Longrightarrow> same_range lo hi m (memcpy m a b n)"
  "unat a + n \<le> 4294967296 \<Longrightarrow> hi \<le> unat a \<or> unat a + n \<le> lo \<Longrightarrow> same_range lo hi m (memset m a v n)"
  "unat a + length bs \<le> 4294967296 \<Longrightarrow> hi \<le> unat a \<or> unat a + length bs \<le> lo \<Longrightarrow>
     same_range lo hi m (write_bytes m a bs)"
proof -
  assume a: "unat a + n \<le> 4294967296" "hi \<le> unat a \<or> unat a + n \<le> lo"
  have o: "unat (a + of_nat i) = unat a + i" if "i < n" for i
    using a(1) that by (simp add: unat_word_ariths unat_of_nat_word)
  have "\<forall>i<n. x \<noteq> a + of_nat i" if "lo \<le> unat x" "unat x < hi" for x
    using a(2) o that by fastforce
  then show "same_range lo hi m (memcpy m a b n)" "same_range lo hi m (memset m a v n)"
    by (simp_all add: same_range_def memcpy_outside memset_outside)
qed (auto simp: same_range_def write_bytes_off_range)

lemma put_regs_range: "hi \<le> 0x3041C \<Longrightarrow> same_range lo hi m (put_regs h r m)"
  unfolding put_regs_def by (rule same_range_steps) (simp_all add: REALMODE_DATA_ADDR_def put32_def put16_def)

lemma trampoline_ready_cong:
  assumes "same_range 0 0x3041C m m'" "unat (snd gdtr) + 0x28 \<le> 0x30000" "trampoline_ready gdtr m"
  shows "trampoline_ready gdtr m'"
  using assms gdt_base_range [OF same_range_sub [OF assms(1)] assms(2)] same_range_get [OF assms(1)]
  by (simp add: trampoline_ready_def load_dtr_def)

lemma realmode_init_ready:
  assumes "realmode_init stub_start stub_size gdtr s0 = (True, s)" "unat (snd gdtr) + 0x28 \<le> 0x30000"
  shows "rm_ready s" "trampoline_ready gdtr (rm_mem s)" "rm_dev s = rm_dev s0"
    "same_range 0 (unat (snd gdtr)) (rm_mem s0) (rm_mem s)"
    "same_range 0 0x30000 (gdt_set_base (snd gdtr + 0x20) REALMODE_STUB_ADDR
       (gdt_set_base (snd gdtr + 0x18) REALMODE_STUB_ADDR (rm_mem s0))) (rm_mem s)"
proof -
  obtain limit g where [simp]: "gdtr = (limit, g)" by fastforce
  define m1 where "m1 = gdt_set_base (g + 0x20) REALMODE_STUB_ADDR (gdt_set_base (g + 0x18) REALMODE_STUB_ADDR (rm_mem s0))"
  define m2 where "m2 = memset (memcpy m1 0x30000 stub_start (unat stub_size)) 0x30400 0 0x44"
  have size: "unat stub_size \<le> 0x400" and s: "s = s0\<lparr>rm_ready := True, rm_mem := write_bytes m2 0x30414 [0xFF, 0x03, 0, 0, 0, 0]\<rparr>"
    using assms(1)
    by (auto simp: realmode_init_def realmode_patch_gdt_def Let_def m1_def m2_def realmode_layout word_le_nat_alt not_less
        split: if_splits)
  then show "rm_ready s" "rm_dev s = rm_dev s0" by simp_all
  have "same_range 0 0x30000 m1 m2" unfolding m2_def
    using size by (intro same_range_trans [OF same_range_steps(1) same_range_steps(2)]) simp_all
  then have "same_range 0 0x30000 m1 (rm_mem s)" unfolding s
    by (simp add: same_range_trans [OF _ same_range_steps(3)])
  then show "same_range 0 0x30000 (gdt_set_base (snd gdtr + 0x20) REALMODE_STUB_ADDR
       (gdt_set_base (snd gdtr + 0x18) REALMODE_STUB_ADDR (rm_mem s0))) (rm_mem s)"
    by (simp add: m1_def)
  have base: "gdt_base m1 (g + 0x18) = REALMODE_STUB_ADDR"
  proof -
    have "gdt_base m1 (g + 0x18) = gdt_base (gdt_set_base (g + 0x18) REALMODE_STUB_ADDR (rm_mem s0)) (g + 0x18)"
      by (simp add: gdt_base_def m1_def gdt_set_base_other)
    then show ?thesis by (simp add: gdt_set_base_gdt_base)
  qed
  have "gdt_base (rm_mem s) (g + 0x18) = gdt_base m1 (g + 0x18)"
    using gdt_base_range [OF \<open>same_range 0 0x30000 m1 (rm_mem s)\<close>] assms(2) by simp
  moreover have "load_dtr 0x30414 (rm_mem s) = (0x3FF, 0)"
    using read_write_bytes [of 0 2 "[0xFF, 0x03, 0, 0, 0, 0]" m2 "0x30414"]
      read_write_bytes [of 2 4 "[0xFF, 0x03, 0, 0, 0, 0]" m2 "0x30414"]
    by (simp add: s load_dtr_def mem_get16_def mem_get32_def get16_def get32_def)
  ultimately show "trampoline_ready gdtr (rm_mem s)" using base by (simp add: trampoline_ready_def)
  have o: "unat (g + k) = unat g + unat k" if "unat k < 0x28" for k
    using assms(2) that by (simp add: unat_word_ariths)
  have ne: "x \<noteq> g + k" if "unat x < unat g" "unat k < 0x28" for x k
    using that o [of k] by auto
  have "m1 x = rm_mem s0 x" if "unat x < unat g" for x
  proof -
    have "x \<noteq> g + 26" "x \<noteq> g + 27" "x \<noteq> g + 28" "x \<noteq> g + 31" "x \<noteq> g + 34" "x \<noteq> g + 35" "x \<noteq> g + 36" "x \<noteq> g + 39"
      by (rule ne [OF that]; simp)+
    then show ?thesis by (simp add: m1_def gdt_set_base_def add.assoc)
  qed
  then have "same_range 0 (unat g) (rm_mem s0) m1" by (simp add: same_range_def)
  moreover have "same_range 0 (unat g) m1 (rm_mem s)"
    by (rule same_range_sub [OF \<open>same_range 0 0x30000 m1 (rm_mem s)\<close>]) (use assms(2) in simp_all)
  ultimately have "same_range 0 (unat g) (rm_mem s0) (rm_mem s)" by (rule same_range_trans)
  then show "same_range 0 (unat (snd gdtr)) (rm_mem s0) (rm_mem s)" by simp
qed

section \<open>A BIOS call through the trampoline\<close>

text \<open>
  C26: A BIOS call from C down to the handler and back, instruction by instruction. The processor that
  enters the handler is in real mode with the vectors of the BIOS and the registers that the C caller
  asked for, with the interrupt flag clear and all sixteen lines masked; the caller gets exactly the registers that the
  handler leaves, flags included; every register of the kernel's processor (general, segment, flags,
  mode, GDT and IDT) is as before the call, and so are the masks.
\<close>

theorem realmode_int_through:
  assumes "rm_ready s" "trampoline_ready (c_gdtr c) (rm_mem s)" "kernel_cpu c"
    "mem_get32 (rm_mem s) (4 * ucast vector) \<noteq> 0" "initialised (rm_dev s)"
    "bios_respects (c_esp c) bios" "\<forall>h cm d. initialised d \<longrightarrow> initialised (snd (bios h (cm, d)))"
    "\<forall>mem d c' mem' d'. trampoline ip bios ret ((c, mem), d) = Some ((c', mem'), d') \<longrightarrow> stub (mem, d) = (mem', d')"
  shows "\<exists>c3 m3 b c4 m4 b4 m6 d'. real_mode r (0x3FF, 0) c3 \<and> irq_mask b = 0xFFFF \<and>
    bios (mem_get32 (rm_mem s) (4 * ucast vector)) ((c3, m3), b) = ((c4, m4), b4) \<and>
    trampoline ip bios ret ((c, put_regs (mem_get32 (rm_mem s) (4 * ucast vector)) r (rm_mem s)), b) =
      Some ((c\<lparr>c_eip := ret\<rparr>, m6), b4) \<and>
    realmode_int board_hw stub vector (Some r) s = (True, Some (regs_of c4), s\<lparr>rm_mem := m6, rm_dev := d'\<rparr>) \<and>
    irq_mask d' = irq_mask (rm_dev s)"
proof -
  let ?h = "mem_get32 (rm_mem s) (4 * ucast vector)"
  let ?m = "put_regs ?h r (rm_mem s)" and ?b = "mask_all (rm_dev s)"
  have ready: "trampoline_ready (c_gdtr c) ?m"
    using trampoline_ready_cong [OF put_regs_range _ assms(2)] assms(3) by (simp add: kernel_cpu_def)
  then have g: "gdt_base ?m (snd (c_gdtr c) + 0x18) = REALMODE_STUB_ADDR" by (simp add: trampoline_ready_def)
  obtain c3 m3 c4 m4 d4 m6 where t:
    "real_mode ((get_regs ?m)\<lparr>r_eflags := r_eflags (regs_of c3)\<rparr>) (load_dtr 0x30414 ?m) c3"
    "same_range 0x30414 0x31FFA ?m m3" "bios (mem_get32 ?m 0x3041C) ((c3, m3), ?b) = ((c4, m4), d4)"
    "trampoline ip bios ret ((c, ?m), ?b) = Some ((c\<lparr>c_eip := ret\<rparr>, m6), d4)" "get_regs m6 = regs_of c4"
    by (rule trampoline_call [OF assms(3) g assms(6)])
  have h: "mem_get32 ?m 0x3041C = ?h"
    using handler_put_regs [of ?h r "rm_mem s"] by (simp add: REALMODE_DATA_ADDR_def)
  have "initialised d4"
    using assms(7) mask_all_facts(2) [OF assms(5)] t(3) by (metis snd_conv)
  moreover have "stub (?m, ?b) = (m6, d4)" using assms(8) t(4) by blast
  ultimately obtain d' where
    "realmode_int board_hw stub vector (Some r) s = (True, Some (get_regs m6), s\<lparr>rm_mem := m6, rm_dev := d'\<rparr>)"
    "irq_mask d' = irq_mask (rm_dev s)"
    using t(5) by (auto intro: realmode_int_board [OF assms(1,4,5)])
  moreover have "real_mode r (0x3FF, 0) c3"
    using t(1) ready by (cases r) (simp add: trampoline_ready_def real_mode_def get_put_regs regs_of_def)
  ultimately show ?thesis using t(3-5) h mask_all_facts(1) by metis
qed

text \<open>
  The kernel right after the trampoline has been prepared, and the handler of the video vector that
  returns AX = 0x004F.
\<close>

definition calling_cpu :: cpu where
  "calling_cpu = \<lparr>c_eax = 0x10, c_ebx = 1, c_ecx = 2, c_edx = 3, c_esi = 4, c_edi = 5, c_ebp = 0x8FFE0, c_esp = 0x8FFC0,
     c_eip = 0x101000, c_cs = 0x08, c_ds = 0x10, c_es = 0x10, c_fs = 0x10, c_gs = 0x10, c_ss = 0x10, c_eflags = 0x202,
     c_cr0 = 0x11, c_gdtr = (39, 0x7C00), c_idtr = (0x7FF, 0x105000)\<rparr>"

definition calling_board :: board where
  "calling_board = \<lparr>b_master = \<lparr>imr = 0xFC, in_service = 0, vbase = 0x20, cascade = 4, icw = 0\<rparr>,
     b_slave = \<lparr>imr = 0xFF, in_service = 0, vbase = 0x28, cascade = 2, icw = 0\<rparr>, b_scan = 0\<rparr>"

definition calling_state :: "board realmode" where
  "calling_state = snd (realmode_init 0x101000 0x150 (39, 0x7C00) \<lparr>rm_mem = answer_mem, rm_ready = False, rm_dev = calling_board\<rparr>)"

definition answer_bios :: "u32 \<Rightarrow> machine \<times> board \<Rightarrow> machine \<times> board" where
  "answer_bios h cmd = (case cmd of ((c, mem), d) \<Rightarrow> ((c\<lparr>c_eax := set_low16 0x4F (c_eax c)\<rparr>, mem), d))"

definition answer_trampoline :: "memory \<times> board \<Rightarrow> memory \<times> board" where
  "answer_trampoline md =
     (case trampoline 0xB0 answer_bios 0x101005 ((calling_cpu, fst md), snd md) of
        None \<Rightarrow> md
      | Some ((c, mem), d) \<Rightarrow> (mem, d))"

lemma answer_mem_handler: "mem_get32 answer_mem 0x40 = 0xC0001234"
proof -
  have "read_bytes answer_mem (0x40 + of_nat 0) 4 = take 4 (drop 0 (put32 0xC0001234))"
    unfolding answer_mem_def mem_put32_def by (rule read_write_bytes) simp_all
  then show ?thesis using get32_put32 [of "[]" "0xC0001234" "[]"] by (simp add: mem_get32_def)
qed

lemma realmode_int_through_witness:
  "\<exists>c4 s'. realmode_int board_hw answer_trampoline 0x10 (Some (zero_regs\<lparr>r_eax := 0x4F02\<rparr>)) calling_state =
     (True, Some (regs_of c4), s') \<and> low16 (c_eax c4) = 0x4F \<and> irq_mask (rm_dev s') = 0xFFFC"
proof -
  let ?s0 = "\<lparr>rm_mem = answer_mem, rm_ready = False, rm_dev = calling_board\<rparr>"
  have "realmode_init 0x101000 0x150 (39, 0x7C00) ?s0 = (True, calling_state)"
    by (simp add: calling_state_def realmode_init_def realmode_patch_gdt_def Let_def realmode_layout)
  from realmode_init_ready [OF this]
  have s: "rm_ready calling_state" "trampoline_ready (39, 0x7C00) (rm_mem calling_state)"
    "rm_dev calling_state = calling_board" "same_range 0 0x7C00 answer_mem (rm_mem calling_state)"
    by simp_all
  have t: "trampoline_ready (c_gdtr calling_cpu) (rm_mem calling_state)"
    using s(2) by (simp add: calling_cpu_def)
  have k: "kernel_cpu calling_cpu" by (simp add: kernel_cpu_def calling_cpu_def)
  have v: "mem_get32 (rm_mem calling_state) (4 * ucast (0x10 :: u8)) = 0xC0001234"
    using same_range_get(1) [OF s(4), of "0x40"] answer_mem_handler by simp
  then have h: "mem_get32 (rm_mem calling_state) (4 * ucast (0x10 :: u8)) \<noteq> 0" by simp
  have d: "rm_dev calling_state = calling_board" using s(3) by simp
  then have i: "initialised (rm_dev calling_state)" by (simp add: calling_board_def initialised_def)
  have b: "bios_respects (c_esp calling_cpu) answer_bios"
    by (auto simp: bios_respects_def answer_bios_def)
  have "\<forall>h cm d. initialised d \<longrightarrow> initialised (snd (answer_bios h (cm, d)))"
    by (simp add: answer_bios_def split: prod.split)
  moreover have "\<forall>mem d c' mem' d'. trampoline 0xB0 answer_bios 0x101005 ((calling_cpu, mem), d) =
      Some ((c', mem'), d') \<longrightarrow> answer_trampoline (mem, d) = (mem', d')"
    by (simp add: answer_trampoline_def)
  ultimately obtain c3 m3 b c4 m4 b4 m6 d' where r:
    "answer_bios (mem_get32 (rm_mem calling_state) (4 * ucast (0x10 :: u8))) ((c3, m3), b) = ((c4, m4), b4)"
    "realmode_int board_hw answer_trampoline 0x10 (Some (zero_regs\<lparr>r_eax := 0x4F02\<rparr>)) calling_state =
       (True, Some (regs_of c4), calling_state\<lparr>rm_mem := m6, rm_dev := d'\<rparr>)"
    "irq_mask d' = irq_mask (rm_dev calling_state)"
    using realmode_int_through [OF s(1) t k h i b, of "0xB0" "0x101005" answer_trampoline "zero_regs\<lparr>r_eax := 0x4F02\<rparr>"]
    by blast
  have "low16 (c_eax c4) = 0x4F" using r(1) by (auto simp: answer_bios_def)
  moreover have "irq_mask d' = 0xFFFC" using r(3) d by (simp add: calling_board_def irq_mask_def)
  ultimately show ?thesis using r(2) by auto
qed

end
