(* ===== verification/FlatBlocks.thy ===== *)
theory FlatBlocks
  imports Realmode
begin

text \<open>
  Loops that write blocks of bytes to flat memory, such as the conversion of a back buffer to the
  screen. The blocks do not overlap and do not touch what the loop reads, so that the order of the
  iterations does not matter for the result.
\<close>

section \<open>One block\<close>

definition in_range :: "u32 \<Rightarrow> nat \<Rightarrow> nat \<Rightarrow> bool" where
  "in_range x a n \<longleftrightarrow> a \<le> unat x \<and> unat x < a + n"

lemma unat_sub_base: "a < 2 ^ 32 \<Longrightarrow> a \<le> unat x \<Longrightarrow> unat (x - of_nat a :: u32) = unat x - a"
  by (subst unat_word_sub) (simp_all add: word_le_nat_alt unat_of_nat_word)

lemma unat_sub_below:
  assumes "unat x < a" "a + n \<le> 2 ^ 32"
  shows "n \<le> unat (x - of_nat a :: u32)"
proof -
  have "unat (x - of_nat a :: u32) = 2 ^ 32 + unat x - a"
  proof (cases "a = 2 ^ 32")
    case True
    then have "(of_nat a :: u32) = 0" by (simp only: word_of_nat_eq_0_iff) simp
    with True show ?thesis by (simp only:) simp
  next
    case False
    with assms have a: "unat (of_nat a :: u32) = a" by (simp add: unat_of_nat_word)
    with assms show ?thesis
      by (simp add: unat_sub_if_size word_size)
  qed
  with assms show ?thesis by simp
qed

lemma write_block_outside:
  assumes "a + length bs \<le> 2 ^ 32" "\<not> in_range x a (length bs)"
  shows "write_bytes mem (of_nat a) bs x = mem x"
proof (cases "bs = []")
  case True
  then show ?thesis by (simp add: write_bytes_def)
next
  case False
  then have "0 < length bs" by simp
  with assms have "length bs \<le> unat (x - of_nat a)"
    using unat_sub_base [of a x] unat_sub_below [of x a "length bs"] unat_u32_less [of x]
    by (cases "a \<le> unat x") (auto simp: in_range_def not_le)
  then show ?thesis by (rule write_bytes_outside)
qed

lemma write_block_inside:
  "length bs = k \<Longrightarrow> k < 2 ^ 32 \<Longrightarrow> read_bytes (write_bytes mem a bs) a k = bs"
  using read_write_bytes [of 0 k bs mem a] by simp

lemma read_bytes_cong:
  "(\<And>i. i < k \<Longrightarrow> m (a + of_nat i) = m' (a + of_nat i)) \<Longrightarrow> read_bytes m a k = read_bytes m' a k"
  by (simp add: read_bytes_def)

lemma in_range_offset: "a + n \<le> 2 ^ 32 \<Longrightarrow> i < n \<Longrightarrow> in_range (of_nat a + of_nat i) a n"
  using unat_of_nat_word [of "a + i", where 'a = 32] by (simp add: in_range_def)

section \<open>A loop of blocks\<close>

text \<open>
  \<open>A i\<close> is where iteration \<open>i\<close> writes its \<open>k\<close> bytes \<open>V i\<close>; the bytes are computed from memory in the
  set \<open>S\<close>, which no iteration touches.
\<close>

definition blocks_apart :: "nat \<Rightarrow> ('i \<Rightarrow> nat) \<Rightarrow> 'i list \<Rightarrow> bool" where
  "blocks_apart k A is \<longleftrightarrow> distinct is \<and> (\<forall>i \<in> set is. A i + k \<le> 2 ^ 32) \<and>
     (\<forall>i \<in> set is. \<forall>j \<in> set is. i \<noteq> j \<longrightarrow> A i + k \<le> A j \<or> A j + k \<le> A i)"

lemma blocks_apart_Cons:
  "blocks_apart k A (i # is) \<Longrightarrow> blocks_apart k A is \<and> A i + k \<le> 2 ^ 32 \<and>
     (\<forall>j \<in> set is. A i + k \<le> A j \<or> A j + k \<le> A i)"
  by (auto simp: blocks_apart_def)

lemma fold_blocks:
  fixes step :: "'i \<Rightarrow> memory \<Rightarrow> memory"
  assumes step: "\<And>i m. i \<in> set is \<Longrightarrow> step i m = write_bytes m (of_nat (A i)) (V i m)"
    and len: "\<And>i m. i \<in> set is \<Longrightarrow> length (V i m) = k"
    and dep: "\<And>i m m'. i \<in> set is \<Longrightarrow> (\<forall>a \<in> S. m a = m' a) \<Longrightarrow> V i m = V i m'"
    and apart: "blocks_apart k A is"
    and safe: "\<And>i a. i \<in> set is \<Longrightarrow> a \<in> S \<Longrightarrow> \<not> in_range a (A i) k"
    and k: "k < 2 ^ 32"
  shows "(\<forall>a. (\<forall>i \<in> set is. \<not> in_range a (A i) k) \<longrightarrow> fold step is m a = m a) \<and>
    (\<forall>i \<in> set is. read_bytes (fold step is m) (of_nat (A i)) k = V i m)"
  using assms(1-5)
proof (induction "is" arbitrary: m)
  case (Cons i "is")
  note ap = blocks_apart_Cons [OF Cons.prems(4)]
  let ?m1 = "write_bytes m (of_nat (A i)) (V i m)"
  have out1: "\<not> in_range a (A i) k \<Longrightarrow> ?m1 a = m a" for a
    using write_block_outside [of "A i" "V i m" a m] ap Cons.prems(2) [of i m] by simp
  have IH: "(\<forall>a. (\<forall>j \<in> set is. \<not> in_range a (A j) k) \<longrightarrow> fold step is ?m1 a = ?m1 a) \<and>
      (\<forall>j \<in> set is. read_bytes (fold step is ?m1) (of_nat (A j)) k = V j ?m1)"
    using Cons.prems ap by (intro Cons.IH) auto
  have V: "V j ?m1 = V j m" if "j \<in> set is" for j
    using that Cons.prems(5) [of i] out1 by (intro Cons.prems(3)) auto
  have keep: "read_bytes (fold step is ?m1) (of_nat (A i)) k = read_bytes ?m1 (of_nat (A i)) k"
  proof (rule read_bytes_cong)
    fix n assume "n < k"
    with ap have "in_range (of_nat (A i) + of_nat n) (A i) k" by (auto intro: in_range_offset)
    with ap have "\<forall>j \<in> set is. \<not> in_range (of_nat (A i) + of_nat n) (A j) k"
      by (fastforce simp: in_range_def)
    with IH show "fold step is ?m1 (of_nat (A i) + of_nat n) = ?m1 (of_nat (A i) + of_nat n)" by blast
  qed
  have first: "step i m = ?m1" by (simp add: Cons.prems(1))
  have "read_bytes ?m1 (of_nat (A i)) k = V i m"
    using Cons.prems(2) [of i m] k by (intro write_block_inside) simp_all
  then show ?case using IH V keep out1 by (simp add: first)
qed simp

section \<open>Words\<close>

lemma mem_put_get32: "mem_get32 (mem_put32 a v mem) a = v"
  using get32_put32 [of "[]" v "[]"] by (simp add: mem_get32_def mem_put32_def write_block_inside)

lemma mem_put_get16: "mem_get16 (mem_put16 a v mem) a = v"
  using get16_put16 [of "[]" v "[]"] by (simp add: mem_get16_def mem_put16_def write_block_inside)

lemma mem_get32_cong:
  "(\<And>i. i < 4 \<Longrightarrow> m (a + of_nat i) = m' (a + of_nat i)) \<Longrightarrow> mem_get32 m a = mem_get32 m' a"
  using read_bytes_cong [of 4 m a m'] by (simp add: mem_get32_def)

lemma mem_get32_block: "read_bytes m a 4 = put32 v \<Longrightarrow> mem_get32 m a = v"
  using get32_put32 [of "[]" v "[]"] by (simp add: mem_get32_def)

end
