(* ===== verification/KernelEntry.thy ===== *)
theory KernelEntry
  imports RealmodeStub FlatBlocks
begin

text \<open>
  The first code of the kernel (kernel/boot.asm): from the jump of stage 2 in real mode to the C entry
  point in protected mode, with the descriptor table that the whole kernel runs on.
\<close>

unbundle bit_operations_syntax

section \<open>The descriptor table\<close>

definition KERNEL_PHYS_BASE :: u32 where "KERNEL_PHYS_BASE = 0x12000"
definition KERNEL_C_ENTRY :: u32 where "KERNEL_C_ENTRY = 0x12200"
definition GDT_CODE_SEL :: u16 where "GDT_CODE_SEL = 0x08"
definition GDT_DATA_SEL :: u16 where "GDT_DATA_SEL = 0x10"
definition KERNEL_STACK_TOP :: u32 where "KERNEL_STACK_TOP = 0x78000"

lemmas kernel_layout = KERNEL_PHYS_BASE_def KERNEL_C_ENTRY_def GDT_CODE_SEL_def GDT_DATA_SEL_def KERNEL_STACK_TOP_def

text \<open>A descriptor as the file lays it out: limit, base, base, access, flags with limit, base.\<close>

definition gdt_bytes :: "u16 \<Rightarrow> u16 \<Rightarrow> u8 \<Rightarrow> u8 \<Rightarrow> u8 \<Rightarrow> u8 \<Rightarrow> u8 list" where
  "gdt_bytes limit base_low base_mid access flags base_high =
     put16 limit @ put16 base_low @ [base_mid, access, flags, base_high]"

definition gdt_table :: "u8 list" where
  "gdt_table =
     [0, 0, 0, 0, 0, 0, 0, 0] @
     gdt_bytes 0xFFFF 0x0000 0x00 0x9A 0xCF 0x00 @
     gdt_bytes 0xFFFF 0x0000 0x00 0x92 0xCF 0x00 @
     gdt_bytes 0xFFFF 0x0000 0x00 0x9A 0x00 0x00 @
     gdt_bytes 0xFFFF 0x0000 0x00 0x92 0x00 0x00"

text \<open>
  The pseudo descriptor behind the table. \<open>gdt_start\<close> is where the assembler places the table, at a
  multiple of eight behind the code.
\<close>

definition gdt_desc :: "u16 \<Rightarrow> u8 list" where
  "gdt_desc gdt_start =
     put16 (of_nat (length gdt_table) - 1) @ put32 (ucast gdt_start + KERNEL_PHYS_BASE)"

definition gdt_end :: "u16 \<Rightarrow> u16" where
  "gdt_end gdt_start = gdt_start + of_nat (length gdt_table)"

section \<open>The way into protected mode\<close>

definition rm_pop16 :: "machine \<Rightarrow> u16 \<times> machine" where
  "rm_pop16 cm =
     (let (c, mem) = cm
      in (mem_get16 mem (rm_flat (c_ss c) (low16 (c_esp c))),
          c\<lparr>c_esp := set_low16 (low16 (c_esp c) + 2) (c_esp c)\<rparr>, mem))"

text \<open>The gate A20 through the system control port; bit 0 of the port resets the machine.\<close>

definition enable_a20 :: "'d hw \<Rightarrow> cpu \<times> 'd \<Rightarrow> cpu \<times> 'd" where
  "enable_a20 hw cd =
     (let (c, d) = cd;
          (v, d) = inb hw 0x92 d;
          c = c\<lparr>c_eax := set_low8 v (c_eax c)\<rparr> in
      if low8 (c_eax c) AND 2 \<noteq> 0 then (c, d)
      else
        (let c = c\<lparr>c_eax := set_low8 (low8 (c_eax c) OR 2) (c_eax c)\<rparr>;
             c = c\<lparr>c_eax := set_low8 (low8 (c_eax c) AND 0xFE) (c_eax c)\<rparr>
         in (c, outb hw 0x92 (low8 (c_eax c)) d)))"

text \<open>The jump of stage 2 into the kernel, with its arguments: a return to a far address from the stack.\<close>

definition x86_FarJump_asm :: "u16 \<Rightarrow> u16 \<Rightarrow> machine \<Rightarrow> machine" where
  "x86_FarJump_asm segment offset cm =
     (let (c, mem) = rm_push16 (low16 (c_ebp (fst cm))) cm;
          c = c\<lparr>c_ebp := set_low16 (low16 (c_esp c)) (c_ebp c)\<rparr>;
          c = cli c;
          cm = rm_push16 segment (c, mem);
          cm = rm_push16 offset cm;
          (v, c, mem) = rm_pop16 cm;
          c = c\<lparr>c_eip := ucast v\<rparr>;
          (v, c, mem) = rm_pop16 (c, mem)
      in (c\<lparr>c_cs := v\<rparr>, mem))"

text \<open>
  From \<open>start\<close> to the far jump, and from \<open>pm_entry\<close> to the jump into C. In 16-bit code \<open>lgdt\<close> takes
  24 bits of the base.
\<close>

definition kernel_start_real :: "'d hw \<Rightarrow> u16 \<Rightarrow> machine \<times> 'd \<Rightarrow> machine \<times> 'd" where
  "kernel_start_real hw gdt_start cmd =
     (let ((c, mem), d) = cmd;
          c = cli c;
          (c, mem) = rm_push16 (c_cs c) (c, mem);
          (v, c, mem) = rm_pop16 (c, mem);
          c = c\<lparr>c_ds := v\<rparr>;
          (c, d) = enable_a20 hw (c, d);
          (limit, base) = load_dtr (rm_flat (c_ds c) (gdt_end gdt_start)) mem;
          c = c\<lparr>c_gdtr := (limit, base AND 0xFFFFFF)\<rparr>;
          c = c\<lparr>c_eax := c_cr0 c\<rparr>;
          c = c\<lparr>c_eax := c_eax c OR 1\<rparr>;
          c = c\<lparr>c_cr0 := c_eax c\<rparr>
      in ((c\<lparr>c_cs := GDT_CODE_SEL\<rparr>, mem), d))"

definition pm_entry :: "cpu \<Rightarrow> cpu" where
  "pm_entry c =
     (let c = load_segments GDT_DATA_SEL c;
          c = c\<lparr>c_esp := KERNEL_STACK_TOP\<rparr>;
          c = c\<lparr>c_eax := KERNEL_C_ENTRY\<rparr>
      in c\<lparr>c_eip := c_eax c\<rparr>)"

text \<open>
  The far jump gives the linear address of \<open>pm_entry\<close>, so it gets there only through a code
  descriptor with base 0; otherwise the processor is lost, which is \<open>None\<close>.
\<close>

definition kernel_start :: "'d hw \<Rightarrow> u16 \<Rightarrow> machine \<times> 'd \<Rightarrow> (machine \<times> 'd) option" where
  "kernel_start hw gdt_start cmd =
     (let ((c, mem), d) = kernel_start_real hw gdt_start cmd in
      if gdt_base mem (snd (c_gdtr c) + ucast (c_cs c)) \<noteq> 0 then None
      else Some ((pm_entry c, mem), d))"

section \<open>What the descriptors mean\<close>

text \<open>A descriptor as the processor takes it apart: base, last valid offset, access rights, operand size.\<close>

record descriptor =
  ds_base :: u32
  ds_last :: nat
  ds_access :: u8
  ds_32bit :: bool

definition descriptor_at :: "memory \<Rightarrow> u32 \<Rightarrow> descriptor" where
  "descriptor_at mem a =
     (let limit = unat (mem_get16 mem a) + 65536 * unat (mem (a + 6) AND 0x0F) in
      \<lparr>ds_base = gdt_base mem a,
       ds_last = (if bit (mem (a + 6)) 7 then 4096 * limit + 4095 else limit),
       ds_access = mem (a + 5), ds_32bit = bit (mem (a + 6)) 6\<rparr>)"

text \<open>Rings, presence and type: code that can be read, data that can be written, both in ring 0.\<close>

definition flat_code :: descriptor where
  "flat_code = \<lparr>ds_base = 0, ds_last = 0xFFFFFFFF, ds_access = 0x9A, ds_32bit = True\<rparr>"

definition flat_data :: descriptor where
  "flat_data = \<lparr>ds_base = 0, ds_last = 0xFFFFFFFF, ds_access = 0x92, ds_32bit = True\<rparr>"

definition code16 :: "u32 \<Rightarrow> descriptor" where
  "code16 base = \<lparr>ds_base = base, ds_last = 0xFFFF, ds_access = 0x9A, ds_32bit = False\<rparr>"

definition data16 :: "u32 \<Rightarrow> descriptor" where
  "data16 base = \<lparr>ds_base = base, ds_last = 0xFFFF, ds_access = 0x92, ds_32bit = False\<rparr>"

lemma gdt_table_length [simp]: "length gdt_table = 40"
  by (simp add: gdt_table_def gdt_bytes_def put16_def)

lemma gdt_table_nth:
  "gdt_table = [0, 0, 0, 0, 0, 0, 0, 0, 0xFF, 0xFF, 0, 0, 0, 0x9A, 0xCF, 0, 0xFF, 0xFF, 0, 0, 0, 0x92, 0xCF, 0,
     0xFF, 0xFF, 0, 0, 0, 0x9A, 0, 0, 0xFF, 0xFF, 0, 0, 0, 0x92, 0, 0]"
  by (simp add: gdt_table_def gdt_bytes_def put16_def)

text \<open>The table with the upper byte of the two 16-bit bases still to be filled in.\<close>

definition gdt_with_base :: "u8 \<Rightarrow> u8 list" where
  "gdt_with_base b = gdt_table[28 := b, 36 := b]"

lemma gdt_with_base_0: "gdt_with_base 0 = gdt_table"
  by (simp add: gdt_with_base_def gdt_table_nth)

lemma table_descriptors:
  assumes "read_bytes mem a 40 = gdt_with_base b"
  shows "descriptor_at mem (a + 0x08) = flat_code" "descriptor_at mem (a + 0x10) = flat_data"
    "descriptor_at mem (a + 0x18) = code16 (push_bit 16 (ucast b))"
    "descriptor_at mem (a + 0x20) = data16 (push_bit 16 (ucast b))"
proof -
  have b: "mem (a + of_nat i) = gdt_with_base b ! i" if "i < 40" for i
    using that arg_cong [OF assms, of "\<lambda>l. l ! i"] by (simp add: read_bytes_def)
  note c = b [of 8] b [of 9] b [of 10] b [of 11] b [of 12] b [of 13] b [of 14] b [of 15] b [of 16] b [of 17]
    b [of 18] b [of 19] b [of 20] b [of 21] b [of 22] b [of 23] b [of 24] b [of 25] b [of 26] b [of 27] b [of 28]
    b [of 29] b [of 30] b [of 31] b [of 32] b [of 33] b [of 34] b [of 35] b [of 36] b [of 37] b [of 38] b [of 39]
  show "descriptor_at mem (a + 0x08) = flat_code" "descriptor_at mem (a + 0x10) = flat_data"
    "descriptor_at mem (a + 0x18) = code16 (push_bit 16 (ucast b))"
    "descriptor_at mem (a + 0x20) = data16 (push_bit 16 (ucast b))"
    using c by (simp_all add: descriptor_at_def gdt_base_def mem_get16_def read_bytes_def get16_def Let_def
        flat_code_def flat_data_def code16_def data16_def gdt_with_base_def gdt_table_nth upt_conv_Cons add.assoc)
qed

text \<open>What realmode_init makes of the table.\<close>

lemma gdt_patched:
  assumes "read_bytes mem a 40 = gdt_table"
  shows "read_bytes (gdt_set_base (a + 0x20) REALMODE_STUB_ADDR (gdt_set_base (a + 0x18) REALMODE_STUB_ADDR mem)) a 40 =
    gdt_with_base 3"
proof (rule nth_equalityI)
  fix i assume "i < length (read_bytes (gdt_set_base (a + 0x20) REALMODE_STUB_ADDR
      (gdt_set_base (a + 0x18) REALMODE_STUB_ADDR mem)) a 40)"
  then have i: "i < 40" by (simp add: read_bytes_def)
  then have m: "mem (a + of_nat i) = gdt_table ! i"
    using arg_cong [OF assms, of "\<lambda>l. l ! i"] by (simp add: read_bytes_def)
  have n: "of_nat i = k \<longleftrightarrow> i = unat k" if "unat k < 40" for k :: u32
    using i by (simp add: word_unat_eq_iff unat_of_nat_word)
  have s: "gdt_set_base (a + 0x20) REALMODE_STUB_ADDR (gdt_set_base (a + 0x18) REALMODE_STUB_ADDR mem) (a + of_nat i) =
      (if i = 28 \<or> i = 36 then 3 else if i \<in> {26, 27, 31, 34, 35, 39} then 0 else mem (a + of_nat i))"
    by (simp add: gdt_set_base_def REALMODE_STUB_ADDR_def add.assoc n)
  have "gdt_table ! 26 = 0" "gdt_table ! 27 = 0" "gdt_table ! 31 = 0" "gdt_table ! 34 = 0" "gdt_table ! 35 = 0" "gdt_table ! 39 = 0"
    by (simp_all add: gdt_table_nth)
  then have "(if i = 28 \<or> i = 36 then 3 else if i \<in> {26, 27, 31, 34, 35, 39} then 0 else gdt_table ! i) = gdt_with_base 3 ! i"
    using i by (auto simp: gdt_with_base_def nth_list_update)
  moreover have "read_bytes M a 40 ! i = M (a + of_nat i)" for M
    using i by (simp add: read_bytes_def)
  ultimately show "read_bytes (gdt_set_base (a + 0x20) REALMODE_STUB_ADDR (gdt_set_base (a + 0x18) REALMODE_STUB_ADDR mem)) a 40 ! i =
      gdt_with_base 3 ! i"
    by (simp only: s m)
qed (simp add: read_bytes_def gdt_with_base_def)

lemma realmode_init_descriptors:
  assumes "read_bytes (rm_mem s0) a 40 = gdt_table" "unat a + 40 \<le> 0x30000" "stub_size \<noteq> 0" "unat stub_size \<le> 0x400"
  obtains s where "realmode_init stub_start stub_size (39, a) s0 = (True, s)" "rm_ready s"
    "trampoline_ready (39, a) (rm_mem s)" "read_bytes (rm_mem s) a 40 = gdt_with_base 3" "rm_dev s = rm_dev s0"
proof -
  define s where "s = snd (realmode_init stub_start stub_size (39, a) s0)"
  have i: "realmode_init stub_start stub_size (39, a) s0 = (True, s)"
    using assms(3,4) by (simp add: s_def realmode_init_def realmode_patch_gdt_def Let_def realmode_layout word_le_nat_alt not_less)
  note r = realmode_init_ready [OF i, simplified, OF assms(2) [simplified]]
  have "read_bytes (rm_mem s) a 40 = gdt_with_base 3"
    using same_range_read [OF r(5), of a 40] gdt_patched [OF assms(1)] assms(2) by simp
  with that i r(1-3) show ?thesis by blast
qed

section \<open>Into protected mode\<close>

text \<open>The gate is open afterwards, and the value that is written never resets the machine.\<close>

definition a20_value :: "u8 \<Rightarrow> u8" where
  "a20_value v = (v OR 2) AND 0xFE"

lemma a20_value_bits: "bit (a20_value v) 1" "\<not> bit (a20_value v) 0"
  "2 \<le> n \<Longrightarrow> bit (a20_value v) n \<longleftrightarrow> bit v n"
proof -
  have m: "(0xFE :: u8) = NOT 1" "(2 :: u8) = push_bit 1 1" by simp_all
  show "bit (a20_value v) 1" "\<not> bit (a20_value v) 0"
    unfolding a20_value_def m by (simp_all add: bit_simps)
  show "bit (a20_value v) n \<longleftrightarrow> bit v n" if "2 \<le> n"
    unfolding a20_value_def m using that by (auto simp: bit_simps dest: bit_imp_le_length)
qed

lemma and_two_bit: "v AND 2 \<noteq> 0 \<longleftrightarrow> bit v 1" for v :: u8
proof -
  have "v AND 2 = (if bit v 1 then 2 else 0)"
  proof (rule bit_word_eqI)
    fix n assume "n < LENGTH(8)"
    have m: "(2 :: u8) = push_bit 1 1" by simp
    show "bit (v AND 2) n \<longleftrightarrow> bit (if bit v 1 then 2 else 0 :: u8) n"
      unfolding m by (auto simp: bit_simps)
  qed
  then show ?thesis by simp
qed

lemma enable_a20_result:
  assumes "inb hw 0x92 d = (v, d1)"
  obtains a where "enable_a20 hw (c, d) = (c\<lparr>c_eax := a\<rparr>, if bit v 1 then d1 else outb hw 0x92 (a20_value v) d1)"
  using assms and_two_bit [of v] by (cases "bit v 1") (auto simp: enable_a20_def Let_def a20_value_def)

text \<open>The stack of stage 2 is the segment 0x2000.\<close>

lemma stack_flat: "unat (rm_flat 0x2000 sp) = 0x20000 + unat sp"
  using unat_u16_less [of sp] by (simp add: rm_flat_def unat_word_ariths unat_ucast_up16_32)

lemma stack_put:
  assumes "unat sp < 65535"
  shows "same_range 0 0x20000 m (mem_put16 (rm_flat 0x2000 sp) v m)"
    "same_range 0x30000 4294967296 m (mem_put16 (rm_flat 0x2000 sp) v m)"
  using assms by (intro same_range_put same_range_refl; simp add: stack_flat)+

lemma stack_get_other:
  assumes "unat sp + 1 < unat sp'" "unat sp' < 65535"
  shows "mem_get16 (mem_put16 (rm_flat 0x2000 sp) v m) (rm_flat 0x2000 sp') = mem_get16 m (rm_flat 0x2000 sp')"
proof -
  have "same_range (unat (rm_flat 0x2000 sp')) 0x30000 m (mem_put16 (rm_flat 0x2000 sp) v m)"
    using assms by (intro same_range_put same_range_refl) (simp_all add: stack_flat)
  then show ?thesis using same_range_get(2) assms(2) by (simp add: stack_flat)
qed

text \<open>The image of the kernel's first sector, as far as the table goes.\<close>

definition kernel_table_in :: "u16 \<Rightarrow> memory \<Rightarrow> bool" where
  "kernel_table_in g mem \<longleftrightarrow> unat g + 46 \<le> 512 \<and> read_bytes mem (0x12000 + ucast g) 46 = gdt_table @ gdt_desc g"

lemma low_word: "unat g + 46 \<le> 512 \<Longrightarrow> unat (0x12000 + ucast g + of_nat i :: u32) = 0x12000 + unat g + i"
  if "i < 0x100000" for g :: u16
  using that by (simp add: unat_word_ariths unat_ucast_up16_32 unat_of_nat_word)

lemma read_bytes_parts:
  assumes "read_bytes mem a n = xs @ ys" "n = length xs + length ys"
  shows "read_bytes mem a (length xs) = xs" "read_bytes mem (a + of_nat (length xs)) (length ys) = ys"
proof -
  have b: "mem (a + of_nat i) = (xs @ ys) ! i" if "i < n" for i
    using that arg_cong [OF assms(1), of "\<lambda>l. l ! i"] by (simp add: read_bytes_def)
  show "read_bytes mem a (length xs) = xs"
    using b assms(2) by (intro nth_equalityI) (simp_all add: read_bytes_def nth_append)
  have "mem (a + of_nat (length xs) + of_nat i) = ys ! i" if "i < length ys" for i
    using b [of "length xs + i"] that assms(2) by (simp add: add.assoc)
  then show "read_bytes mem (a + of_nat (length xs)) (length ys) = ys"
    by (intro nth_equalityI) (simp_all add: read_bytes_def)
qed

lemma kernel_table_parts:
  assumes "kernel_table_in g mem"
  shows "read_bytes mem (0x12000 + ucast g) 40 = gdt_table" "load_dtr (0x12000 + ucast g + 40) mem = (39, 0x12000 + ucast g)"
proof -
  have l: "length (gdt_desc g) = 6" by (simp add: gdt_desc_def put16_def put32_def)
  have r: "read_bytes mem (0x12000 + ucast g) 46 = gdt_table @ gdt_desc g"
    using assms by (simp add: kernel_table_in_def)
  show "read_bytes mem (0x12000 + ucast g) 40 = gdt_table" using read_bytes_parts(1) [OF r] l by simp
  have d: "read_bytes mem (0x12000 + ucast g + 40) 6 = put16 39 @ put32 (0x12000 + ucast g)"
    using read_bytes_parts(2) [OF r] l by (simp add: gdt_desc_def KERNEL_PHYS_BASE_def add.commute)
  have p: "read_bytes mem (0x12000 + ucast g + 40) 2 = put16 39"
    using read_bytes_parts(1) [OF d] by (simp add: put16_def put32_def eval_nat_numeral)
  have q: "read_bytes mem (0x12000 + ucast g + 42) 4 = put32 (0x12000 + ucast g)"
    using read_bytes_parts(2) [OF d] by (simp add: put16_def put32_def add.assoc eval_nat_numeral)
  have "mem_get16 mem (0x12000 + ucast g + 40) = 39"
    using p get16_put16 [of "[]" 39 "[]"] by (simp add: mem_get16_def)
  with mem_get32_block [OF q] show "load_dtr (0x12000 + ucast g + 40) mem = (39, 0x12000 + ucast g)"
    by (simp add: load_dtr_def add.assoc)
qed

lemma kernel_table_cong:
  assumes "same_range 0 0x20000 mem m'" "kernel_table_in g mem"
  shows "kernel_table_in g m'"
  using same_range_read [OF assms(1), of "0x12000 + ucast g" 46] assms(2) low_word [of 0 g]
  by (simp add: kernel_table_in_def)

lemma and_24_bits:
  fixes x :: u32
  assumes "unat x < 0x1000000"
  shows "x AND 0xFFFFFF = x"
proof -
  have m: "(0xFFFFFF :: u32) = mask 24" by (simp add: mask_eq_exp_minus_1)
  have "take_bit 24 (unat x) = unat x" using assms by (simp add: take_bit_eq_mod)
  then have "unat (x AND mask 24) = unat x"
    by (simp only: take_bit_eq_mask [symmetric] unsigned_take_bit_eq)
  then show ?thesis unfolding m by (metis word_unat_eq_iff)
qed

lemma kernel_start_protected:
  assumes "c_cs c = 0x1200" "c_ss c = 0x2000" "2 \<le> unat (low16 (c_esp c))" "kernel_table_in g mem"
    "inb hw 0x92 d = (v, d1)"
  obtains c' m' where "kernel_start hw g ((c, mem), d) =
      Some ((c', m'), if bit v 1 then d1 else outb hw 0x92 (a20_value v) d1)"
    "kernel_cpu c'" "c_eip c' = 0x12200" "c_esp c' = 0x78000" "\<not> bit (c_eflags c') 9"
    "c_gdtr c' = (39, 0x12000 + ucast g)" "kernel_table_in g m'" "same_range 0 0x20000 mem m'"
    "same_range 0x30000 4294967296 mem m'"
proof -
  let ?sp = "low16 (c_esp c) - 2"
  define m' where "m' = mem_put16 (rm_flat 0x2000 ?sp) 0x1200 mem"
  have g: "unat g + 46 \<le> 512" using assms(4) by (simp add: kernel_table_in_def)
  have "unat ?sp = unat (low16 (c_esp c)) - 2" using assms(3) by (simp add: unat_sub_if')
  then have "unat ?sp < 65535" using unat_u16_less [of "low16 (c_esp c)"] by simp
  note keep = stack_put [OF this, where m = mem and v = "0x1200", folded m'_def]
  note table = kernel_table_cong [OF keep(1) assms(4)]
  have "ucast (g + 40) = (ucast g + 40 :: u32)"
    using g by (simp add: word_unat_eq_iff unat_word_ariths unat_ucast_up16_32)
  then have desc: "load_dtr (rm_flat 0x1200 (gdt_end g)) m' = (39, 0x12000 + ucast g)"
    using kernel_table_parts(2) [OF table] by (simp add: rm_flat_def gdt_end_def add.assoc)
  have base: "(0x12000 + ucast g) AND 0xFFFFFF = (0x12000 + ucast g :: u32)"
    using low_word [of 0 g] g by (intro and_24_bits) simp
  have pop: "rm_pop16 (rm_push16 (c_cs (cli c)) (cli c, mem)) =
      (0x1200, (cli c)\<lparr>c_esp := set_low16 (low16 (c_esp c)) (set_low16 ?sp (c_esp c))\<rparr>, m')"
    using assms(1,2) by (simp add: rm_push16_def rm_pop16_def Let_def m'_def mem_put_get16 cli_def)
  obtain a where a20: "enable_a20 hw ((cli c)\<lparr>c_esp := set_low16 (low16 (c_esp c)) (set_low16 ?sp (c_esp c)), c_ds := 0x1200\<rparr>, d) =
      ((cli c)\<lparr>c_esp := set_low16 (low16 (c_esp c)) (set_low16 ?sp (c_esp c)), c_ds := 0x1200, c_eax := a\<rparr>,
       if bit v 1 then d1 else outb hw 0x92 (a20_value v) d1)"
    by (rule enable_a20_result [OF assms(5)]) auto
  have code: "gdt_base m' (0x12000 + ucast g + 8) = 0"
    using table_descriptors(1) [OF kernel_table_parts(1) [OF table, folded gdt_with_base_0]]
    by (simp add: descriptor_at_def flat_code_def Let_def)
  define cr where "cr = (cli c)\<lparr>c_esp := set_low16 (low16 (c_esp c)) (set_low16 ?sp (c_esp c)), c_ds := 0x1200,
      c_gdtr := (39, 0x12000 + ucast g), c_eax := c_cr0 c OR 1, c_cr0 := c_cr0 c OR 1, c_cs := 0x08\<rparr>"
  have "kernel_start_real hw g ((c, mem), d) = ((cr, m'), if bit v 1 then d1 else outb hw 0x92 (a20_value v) d1)"
  proof -
    obtain c1 where c1: "rm_push16 (c_cs (cli c)) (cli c, mem) = (c1, m')"
      by (simp add: rm_push16_def Let_def m'_def assms(1,2) cli_def)
    show ?thesis
      using pop unfolding c1
      by (simp add: kernel_start_real_def c1 a20 desc base kernel_layout cr_def) (simp add: cli_def)
  qed
  moreover have "kernel_cpu (pm_entry cr)"
    using low_word [of 0 g] g
    by (simp add: kernel_cpu_def pm_entry_def load_segments_def kernel_layout cr_def Let_def bit_simps)
  moreover have "c_eip (pm_entry cr) = 0x12200" "c_esp (pm_entry cr) = 0x78000" "c_gdtr (pm_entry cr) = (39, 0x12000 + ucast g)"
    "c_gdtr cr = (39, 0x12000 + ucast g)" "c_cs cr = 0x08"
    by (simp_all add: pm_entry_def load_segments_def kernel_layout cr_def Let_def)
  moreover have "\<not> bit (c_eflags (pm_entry cr)) 9"
    using cli_bit [of c] by (simp add: pm_entry_def load_segments_def cr_def Let_def)
  ultimately show ?thesis using that [of "pm_entry cr" m'] code table keep by (simp add: kernel_start_def)
qed

lemma far_jump_entry:
  assumes "c_ss c = 0x2000" "8 \<le> unat (low16 (c_esp c))"
  obtains c1 m1 where "x86_FarJump_asm segment offset (c, mem) = (c1, m1)" "c_cs c1 = segment" "c_eip c1 = ucast offset"
    "c_ss c1 = 0x2000" "low16 (c_esp c1) = low16 (c_esp c) - 2"
    "same_range 0 0x20000 mem m1" "same_range 0x30000 4294967296 mem m1"
proof -
  let ?sp = "low16 (c_esp c)"
  have u: "unat (?sp - 2) = unat ?sp - 2" "unat (?sp - 4) = unat ?sp - 4" "unat (?sp - 6) = unat ?sp - 6"
    using assms(2) by (simp_all add: unat_sub_if')
  then have l: "unat (?sp - 2) < 65535" "unat (?sp - 4) < 65535" "unat (?sp - 6) < 65535"
    using unat_u16_less [of ?sp] assms(2) by simp_all
  define ma where "ma = mem_put16 (rm_flat 0x2000 (?sp - 2)) (low16 (c_ebp c)) mem"
  define mb where "mb = mem_put16 (rm_flat 0x2000 (?sp - 4)) segment ma"
  define mc where "mc = mem_put16 (rm_flat 0x2000 (?sp - 6)) offset mb"
  have "mem_get16 mc (rm_flat 0x2000 (?sp - 4)) = mem_get16 mb (rm_flat 0x2000 (?sp - 4))"
    unfolding mc_def using l u assms(2) by (intro stack_get_other) simp_all
  then have seg: "mem_get16 mc (rm_flat 0x2000 (?sp - 4)) = segment" by (simp add: mb_def mem_put_get16)
  have off: "mem_get16 mc (rm_flat 0x2000 (?sp - 6)) = offset" by (simp add: mc_def mem_put_get16)
  obtain c1 m1 where j: "x86_FarJump_asm segment offset (c, mem) = (c1, m1)" by fastforce
  then have "c_cs c1 = segment" "c_eip c1 = ucast offset" "c_ss c1 = 0x2000" "low16 (c_esp c1) = ?sp - 2" "m1 = mc"
    using assms(1) seg off
    by (auto simp: x86_FarJump_asm_def rm_push16_def rm_pop16_def Let_def cli_def ma_def mb_def mc_def)
  moreover have "same_range 0 0x20000 mem mc" "same_range 0x30000 4294967296 mem mc"
    unfolding mc_def mb_def ma_def using stack_put [OF l(1)] stack_put [OF l(2)] stack_put [OF l(3)]
    by (meson same_range_trans)+
  ultimately show ?thesis using that j by blast
qed

end
