(* ===== verification/Bump.thy ===== *)
theory Bump
  imports Prelude
begin

text \<open>
  The contract of a bump allocator, which both the stage 2 heap and the kernel page allocator
  provide: blocks are handed out upwards inside a region and are never taken back. The lemmas on
  whole sequences of requests are proved here from the laws.
\<close>

section \<open>A sequence of requests\<close>

text \<open>The blocks granted, as start and length, and the final state.\<close>

fun bump_run ::
  "('r \<Rightarrow> 's \<Rightarrow> (nat \<times> 's) option) \<Rightarrow> ('r \<Rightarrow> nat) \<Rightarrow> 'r list \<Rightarrow> 's \<Rightarrow> (nat \<times> nat) list \<times> 's" where
  "bump_run alloc sz [] s = ([], s)"
| "bump_run alloc sz (r # rs) s =
     (case alloc r s of
        None \<Rightarrow> bump_run alloc sz rs s
      | Some (a, s') \<Rightarrow> (let (bs, t) = bump_run alloc sz rs s' in ((a, sz r) # bs, t)))"

definition block :: "nat \<times> nat \<Rightarrow> nat set" where
  "block b = {fst b..<fst b + snd b}"

fun separate :: "(nat \<times> nat) list \<Rightarrow> bool" where
  "separate [] = True"
| "separate (b # bs) = ((\<forall>b' \<in> set bs. block b \<inter> block b' = {}) \<and> separate bs)"

section \<open>The contract\<close>

locale bump_alloc =
  fixes alloc :: "'r \<Rightarrow> 's \<Rightarrow> (nat \<times> 's) option"
    and sz :: "'r \<Rightarrow> nat"
    and inv :: "'s \<Rightarrow> bool"
    and top :: "'s \<Rightarrow> nat"
    and limit :: "'s \<Rightarrow> nat"
  assumes alloc_inv: "inv s \<Longrightarrow> alloc r s = Some (a, s') \<Longrightarrow> inv s'"
    and alloc_limit: "inv s \<Longrightarrow> alloc r s = Some (a, s') \<Longrightarrow> limit s' = limit s"
    and alloc_block: "inv s \<Longrightarrow> alloc r s = Some (a, s') \<Longrightarrow>
      top s \<le> a \<and> a + sz r \<le> top s' \<and> top s' \<le> limit s'"
begin

lemma run_bounds:
  "inv s \<Longrightarrow> inv (snd (bump_run alloc sz rs s)) \<and>
     limit (snd (bump_run alloc sz rs s)) = limit s \<and>
     (\<forall>b \<in> set (fst (bump_run alloc sz rs s)). top s \<le> fst b \<and> fst b + snd b \<le> limit s)"
proof (induction rs arbitrary: s)
  case (Cons r rs)
  show ?case
  proof (cases "alloc r s")
    case None
    with Cons show ?thesis by simp
  next
    case (Some x)
    obtain a s' where x: "x = (a, s')" by (cases x)
    note facts = alloc_inv [OF Cons.prems Some [unfolded x]] alloc_limit [OF Cons.prems Some [unfolded x]]
      alloc_block [OF Cons.prems Some [unfolded x]]
    from Cons.IH [OF facts(1)] facts(2,3) Some x show ?thesis
      by (fastforce split: prod.splits)
  qed
qed simp

lemma run_separate: "inv s \<Longrightarrow> separate (fst (bump_run alloc sz rs s))"
proof (induction rs arbitrary: s)
  case (Cons r rs)
  show ?case
  proof (cases "alloc r s")
    case None
    with Cons show ?thesis by simp
  next
    case (Some x)
    obtain a s' where x: "x = (a, s')" by (cases x)
    note facts = alloc_inv [OF Cons.prems Some [unfolded x]] alloc_block [OF Cons.prems Some [unfolded x]]
    from run_bounds [OF facts(1), of rs] facts(2)
    have "\<forall>b \<in> set (fst (bump_run alloc sz rs s')). block (a, sz r) \<inter> block b = {}"
      by (auto simp: block_def)
    with Cons.IH [OF facts(1)] Some x show ?thesis by (auto split: prod.splits)
  qed
qed simp

end

text \<open>An allocator whose blocks start on a fixed boundary.\<close>

locale page_alloc = bump_alloc +
  fixes page :: nat
  assumes alloc_aligned: "inv s \<Longrightarrow> alloc r s = Some (a, s') \<Longrightarrow> page dvd a"
begin

lemma run_aligned:
  "inv s \<Longrightarrow> \<forall>b \<in> set (fst (bump_run alloc sz rs s)). page dvd fst b"
proof (induction rs arbitrary: s)
  case (Cons r rs)
  show ?case
  proof (cases "alloc r s")
    case None
    with Cons show ?thesis by simp
  next
    case (Some x)
    obtain a s' where x: "x = (a, s')" by (cases x)
    with Cons.IH [OF alloc_inv [OF Cons.prems Some [unfolded x]]]
      alloc_aligned [OF Cons.prems Some [unfolded x]] Some
    show ?thesis by (auto split: prod.splits)
  qed
qed simp

end

end
