(* ===== verification/BootMemory.thy ===== *)
theory BootMemory
  imports Bump BootInfo
begin

text \<open>
  The memory services of stage 2 (bootloader/stage2/memory.c): far block operations, the E820 map
  buffer, and the heap allocator that stage 2 reserves for the kernel. The BIOS call behind
  \<open>x86_Memory_GetMap\<close> is a parameter.
\<close>

unbundle bit_operations_syntax

section \<open>Far blocks\<close>

text \<open>Indexing a far pointer moves its 16-bit offset; the segment stays.\<close>

definition far_add :: "u32 \<Rightarrow> u16 \<Rightarrow> u32" where
  "far_add p n = push_bit 16 (ucast (ucast (drop_bit 16 p) :: u16)) OR ucast ((ucast p :: u16) + n)"

definition far_memcpy :: "u32 \<Rightarrow> u32 \<Rightarrow> u16 \<Rightarrow> memory \<Rightarrow> memory" where
  "far_memcpy dst src num mem =
     fold (\<lambda>i m. m(far_to_flat (far_add dst (of_nat i)) := m (far_to_flat (far_add src (of_nat i)))))
       [0..<unat num] mem"

definition far_memset :: "u32 \<Rightarrow> u16 \<Rightarrow> u16 \<Rightarrow> memory \<Rightarrow> memory" where
  "far_memset ptr val num mem =
     fold (\<lambda>i m. m(far_to_flat (far_add ptr (of_nat i)) := ucast val)) [0..<unat num] mem"

definition far_memcmp :: "u32 \<Rightarrow> u32 \<Rightarrow> u16 \<Rightarrow> memory \<Rightarrow> nat" where
  "far_memcmp p q num mem =
     (case find (\<lambda>i. mem (far_to_flat (far_add p (of_nat i))) \<noteq> mem (far_to_flat (far_add q (of_nat i))))
        [0..<unat num] of None \<Rightarrow> 0 | Some _ \<Rightarrow> 1)"

section \<open>The map buffer\<close>

definition MEMORY_Map_Init :: "u32 \<Rightarrow> u16 \<Rightarrow> memory \<Rightarrow> memory_map \<times> memory" where
  "MEMORY_Map_Init entries capacity mem =
     (\<lparr>mm_Entries = entries, mm_EntryCount = 0, mm_Capacity = capacity\<rparr>,
      if entries \<noteq> 0 then far_memset entries 0 (capacity * 24) mem else mem)"

text \<open>
  \<open>x86_Memory_GetMap\<close> is a parameter: its result, the count that it stored, and the memory with what
  reached the buffer.
\<close>

definition MEMORY_Map_Collect ::
  "(u32 \<Rightarrow> u16 \<Rightarrow> memory \<Rightarrow> bool \<times> u16 \<times> memory) \<Rightarrow> memory_map \<Rightarrow> memory \<Rightarrow>
     bool \<times> memory_map \<times> memory" where
  "MEMORY_Map_Collect get_map m mem =
     (if mm_Entries m = 0 \<or> mm_Capacity m = 0 then (False, m, mem)
      else (let mem = far_memset (mm_Entries m) 0 (mm_Capacity m * 24) mem;
                (ok, entryCount, mem) = get_map (mm_Entries m) (mm_Capacity m) mem in
        if \<not> ok then (False, m, mem)
        else (True, m\<lparr>mm_EntryCount := entryCount\<rparr>, mem)))"

definition map_entry :: "memory \<Rightarrow> memory_map \<Rightarrow> nat \<Rightarrow> e820_entry" where
  "map_entry mem m i = e820_at mem (far_to_flat (far_add (mm_Entries m) (of_nat (24 * i)))) 0"

section \<open>The heap\<close>

definition MEMORY_Allocator_Init :: "u32 \<Rightarrow> u32 \<Rightarrow> memory_allocator" where
  "MEMORY_Allocator_Init basePhysical capacity =
     \<lparr>al_BasePhysical = basePhysical, al_Capacity = capacity, al_Offset = 0\<rparr>"

text \<open>The three tests of one entry.\<close>

definition map_covers :: "e820_entry \<Rightarrow> u32 \<Rightarrow> u32 \<Rightarrow> bool" where
  "map_covers e basePhysical regionEnd \<longleftrightarrow>
     e_type e = 1 \<and> \<not> e_base e > ucast basePhysical \<and> \<not> e_base e + e_length e < ucast regionEnd"

definition MEMORY_Allocator_InitFromMap ::
  "memory \<Rightarrow> memory_map \<Rightarrow> u32 \<Rightarrow> u32 \<Rightarrow> memory_allocator option" where
  "MEMORY_Allocator_InitFromMap mem m basePhysical desiredSize =
     (let regionEnd = basePhysical + desiredSize in
      if mm_Entries m = 0 \<or> mm_EntryCount m = 0 then None
      else map_option (\<lambda>i. MEMORY_Allocator_Init basePhysical desiredSize)
        (find (\<lambda>i. map_covers (map_entry mem m i) basePhysical regionEnd) [0..<unat (mm_EntryCount m)]))"

definition MEMORY_Allocator_Alloc ::
  "u32 \<Rightarrow> u16 \<Rightarrow> memory_allocator \<Rightarrow> u32 option \<times> memory_allocator" where
  "MEMORY_Allocator_Alloc sz alignment al =
     (if sz = 0 then (None, al)
      else
        (let alignment = (if alignment < 1 then 1 else alignment);
             alignedOffset = al_Offset al;
             remainder = alignedOffset mod ucast alignment;
             alignedOffset = (if remainder \<noteq> 0 then alignedOffset + (ucast alignment - remainder)
                              else alignedOffset) in
         if alignedOffset > al_Capacity al then (None, al)
         else if sz > al_Capacity al - alignedOffset then (None, al)
         else (Some (MEMORY_PhysicalToFar (al_BasePhysical al + alignedOffset)),
               al\<lparr>al_Offset := alignedOffset + sz\<rparr>)))"

section \<open>Allocation properties\<close>

text \<open>The region lies in the first megabyte, where a far pointer reaches.\<close>

definition heap_inv :: "memory_allocator \<Rightarrow> bool" where
  "heap_inv al \<longleftrightarrow> unat (al_Offset al) \<le> unat (al_Capacity al) \<and>
     unat (al_BasePhysical al) + unat (al_Capacity al) \<le> 1048576"

definition align_up_nat :: "nat \<Rightarrow> nat \<Rightarrow> nat" where
  "align_up_nat k n = (if n mod k = 0 then n else n + (k - n mod k))"

lemma align_up_nat_props: "0 < k \<Longrightarrow> n \<le> align_up_nat k n \<and> align_up_nat k n < n + k \<and> k dvd align_up_nat k n"
proof -
  assume "0 < k"
  have "n + (k - n mod k) = (n div k + 1) * k"
  proof -
    define q r where "q = n div k" and "r = n mod k"
    then have "n = q * k + r" "r < k" using \<open>0 < k\<close> by simp_all
    then show ?thesis unfolding q_def [symmetric] r_def [symmetric] by simp
  qed
  then have "k dvd align_up_nat k n"
    by (auto simp: align_up_nat_def simp del: One_nat_def)
  moreover have "n mod k < k" using \<open>0 < k\<close> by simp
  ultimately show ?thesis by (auto simp: align_up_nat_def)
qed

text \<open>The block granted, by its flat address.\<close>

definition heap_block :: "u32 \<times> u16 \<Rightarrow> memory_allocator \<Rightarrow> (nat \<times> memory_allocator) option" where
  "heap_block r al =
     (case MEMORY_Allocator_Alloc (fst r) (snd r) al of
        (Some p, al') \<Rightarrow> Some (unat (far_to_flat p), al') | (None, _) \<Rightarrow> None)"

definition heap_align :: "u16 \<Rightarrow> nat" where
  "heap_align a = (if a = 0 then 1 else unat a)"

definition heap_bytes :: "u32 \<times> u16 \<Rightarrow> nat" where "heap_bytes r = unat (fst r)"

lemma aligned_offset:
  fixes off :: u32 and alignment :: u16
  assumes "unat off \<le> 1048576"
  defines "al \<equiv> (if alignment < 1 then 1 else alignment)"
  shows "unat (if off mod ucast al \<noteq> 0 then off + (ucast al - off mod ucast al) else off) =
    align_up_nat (heap_align alignment) (unat off)"
proof -
  let ?k = "unat al"
  have al: "?k = heap_align alignment" "0 < ?k" "?k < 65536"
    using unat_u16_less [of al]
    by (auto simp: al_def heap_align_def word_less_nat_alt unat_eq_zero unat_gt_0)
  have c: "unat (ucast al :: u32) = ?k" by (simp add: unat_ucast_up16_32)
  then have m: "unat (off mod ucast al) = unat off mod ?k" by (simp add: unat_mod_distrib)
  have "off mod ucast al \<le> ucast al"
    using m c al(2) by (simp add: word_le_nat_alt mod_less_divisor less_imp_le)
  then have "unat (ucast al - off mod ucast al) = ?k - unat off mod ?k"
    using m c by (simp add: unat_sub)
  then have "unat (off + (ucast al - off mod ucast al)) = unat off + (?k - unat off mod ?k)"
    using assms(1) al(3) by (simp add: unat_word_ariths)
  moreover have "off mod ucast al = 0 \<longleftrightarrow> unat off mod ?k = 0"
    using m by (metis unat_eq_zero)
  ultimately show ?thesis using al(1) by (simp add: align_up_nat_def)
qed

lemma heap_block_eq:
  assumes "heap_inv al"
  shows "heap_block r al =
    (let start = align_up_nat (heap_align (snd r)) (unat (al_Offset al)) in
     if fst r \<noteq> 0 \<and> start + heap_bytes r \<le> unat (al_Capacity al)
     then Some (unat (al_BasePhysical al) + start, al\<lparr>al_Offset := of_nat (start + heap_bytes r)\<rparr>)
     else None)"
proof -
  let ?a = "if snd r < 1 then 1 else snd r" and ?off = "al_Offset al"
  define ao where "ao = (if ?off mod ucast ?a \<noteq> 0 then ?off + (ucast ?a - ?off mod ucast ?a) else ?off)"
  define start where "start = align_up_nat (heap_align (snd r)) (unat (al_Offset al))"
  have bounds: "unat ?off \<le> 1048576" "unat (al_Capacity al) \<le> 1048576"
    using assms by (simp_all add: heap_inv_def)
  have ao: "unat ao = start"
    unfolding ao_def start_def using aligned_offset [OF bounds(1), of "snd r"] by simp
  have def: "heap_block r al =
      (if fst r = 0 \<or> ao > al_Capacity al \<or> fst r > al_Capacity al - ao then None
       else Some (unat (far_to_flat (MEMORY_PhysicalToFar (al_BasePhysical al + ao))),
         al\<lparr>al_Offset := ao + fst r\<rparr>))"
    by (simp add: heap_block_def MEMORY_Allocator_Alloc_def Let_def ao_def)
  show ?thesis
  proof (cases "fst r \<noteq> 0 \<and> start + heap_bytes r \<le> unat (al_Capacity al)")
    case True
    then have le: "ao \<le> al_Capacity al" using ao by (simp add: word_le_nat_alt)
    have "fst r \<le> al_Capacity al - ao"
      using True ao by (auto simp: word_le_nat_alt unat_word_sub [OF le] heap_bytes_def)
    moreover have "unat (al_BasePhysical al + ao) = unat (al_BasePhysical al) + start"
      "unat (al_BasePhysical al + ao) < 1048576"
    proof -
      have "0 < heap_bytes r" using True by (simp add: heap_bytes_def unat_gt_0)
      then show "unat (al_BasePhysical al + ao) = unat (al_BasePhysical al) + start"
        "unat (al_BasePhysical al + ao) < 1048576"
        using True ao assms by (simp_all add: heap_inv_def unat_word_ariths)
    qed
    moreover have "ao + fst r = of_nat (start + heap_bytes r)"
      using ao by (intro word_of_unat) (use True bounds in \<open>simp add: heap_bytes_def unat_word_ariths\<close>)
    ultimately show ?thesis
      using True le far_roundtrip [of "al_BasePhysical al + ao"]
      by (simp add: def start_def [symmetric] linorder_not_less [symmetric] del: linorder_not_less)
  next
    case False
    then have "fst r = 0 \<or> ao > al_Capacity al \<or> fst r > al_Capacity al - ao"
      using ao unat_word_sub [of ao "al_Capacity al"]
      by (cases "ao \<le> al_Capacity al")
         (auto simp: word_less_nat_alt word_le_nat_alt heap_bytes_def not_less)
    with False show ?thesis by (auto simp: def start_def [symmetric])
  qed
qed

interpretation heap: bump_alloc heap_block heap_bytes heap_inv
  "\<lambda>al. unat (al_BasePhysical al) + unat (al_Offset al)"
  "\<lambda>al. unat (al_BasePhysical al) + unat (al_Capacity al)"
proof unfold_locales
  fix al r a al'
  assume inv: "heap_inv al" and b: "heap_block r al = Some (a, al')"
  define start where "start = align_up_nat (heap_align (snd r)) (unat (al_Offset al))"
  have r: "start + heap_bytes r \<le> unat (al_Capacity al)" "a = unat (al_BasePhysical al) + start"
    "al' = al\<lparr>al_Offset := of_nat (start + heap_bytes r)\<rparr>"
    using b by (auto simp: heap_block_eq [OF inv] Let_def start_def split: if_splits)
  have off: "unat (al_Offset al') = start + heap_bytes r"
    using r(1,3) inv by (simp add: heap_inv_def unat_of_nat_word del: of_nat_add)
  have "unat (al_Offset al) \<le> start"
    using align_up_nat_props [of "heap_align (snd r)" "unat (al_Offset al)"]
    by (simp add: start_def heap_align_def unat_gt_0)
  with r off inv show "heap_inv al'"
    "unat (al_BasePhysical al') + unat (al_Capacity al') = unat (al_BasePhysical al) + unat (al_Capacity al)"
    "unat (al_BasePhysical al) + unat (al_Offset al) \<le> a \<and>
     a + heap_bytes r \<le> unat (al_BasePhysical al') + unat (al_Offset al') \<and>
     unat (al_BasePhysical al') + unat (al_Offset al') \<le>
       unat (al_BasePhysical al') + unat (al_Capacity al')"
    by (simp_all add: heap_inv_def)
qed

section \<open>The heap of the kernel\<close>

definition entry_covers :: "e820_entry \<Rightarrow> u32 \<Rightarrow> u32 \<Rightarrow> bool" where
  "entry_covers e base sz \<longleftrightarrow> e_type e = 1 \<and> unat (e_base e) \<le> unat base \<and>
     unat base + unat sz \<le> unat (e_base e) + unat (e_length e)"

lemma map_covers_iff:
  assumes "unat (e_base e) + unat (e_length e) < 18446744073709551616"
    "unat base + unat sz < 4294967296"
  shows "map_covers e base (base + sz) \<longleftrightarrow> entry_covers e base sz"
proof -
  have "unat (e_base e + e_length e) = unat (e_base e) + unat (e_length e)"
    using assms(1) by (simp add: unat_word_ariths)
  moreover have "unat (base + sz) = unat base + unat sz"
    using assms(2) by (simp add: unat_word_ariths)
  ultimately show ?thesis
    by (auto simp: map_covers_def entry_covers_def word_less_nat_alt unat_ucast_up32_64 not_less)
qed

text \<open>
  The heap is validated against the memory map: for a range below 4 GiB, initialisation
  succeeds exactly when some usable entry of the map contains the whole range, and then the heap
  is that range, empty. (Entries are taken not to wrap around 64 bits.)
\<close>

theorem heap_from_map:
  assumes "mm_Entries m \<noteq> 0" "unat base + unat sz < 4294967296"
    "\<forall>i < unat (mm_EntryCount m). unat (e_base (map_entry mem m i)) + unat (e_length (map_entry mem m i))
       < 18446744073709551616"
  shows "MEMORY_Allocator_InitFromMap mem m base sz =
    (if \<exists>i < unat (mm_EntryCount m). entry_covers (map_entry mem m i) base sz
     then Some \<lparr>al_BasePhysical = base, al_Capacity = sz, al_Offset = 0\<rparr> else None)"
proof -
  have iff: "map_covers (map_entry mem m i) base (base + sz) \<longleftrightarrow> entry_covers (map_entry mem m i) base sz"
    if "i < unat (mm_EntryCount m)" for i
    using map_covers_iff [OF assms(3) [rule_format, OF that] assms(2)] .
  show ?thesis
  proof (cases "\<exists>i < unat (mm_EntryCount m). entry_covers (map_entry mem m i) base sz")
    case True
    then have "find (\<lambda>i. map_covers (map_entry mem m i) base (base + sz)) [0..<unat (mm_EntryCount m)] \<noteq> None"
      using iff by (auto simp: find_None_iff)
    moreover have "mm_EntryCount m \<noteq> 0" using True by auto
    ultimately show ?thesis
      using True assms(1) by (auto simp: MEMORY_Allocator_InitFromMap_def Let_def MEMORY_Allocator_Init_def)
  next
    case False
    then have "find (\<lambda>i. map_covers (map_entry mem m i) base (base + sz)) [0..<unat (mm_EntryCount m)] = None"
      using iff by (auto simp: find_None_iff)
    with False show ?thesis by (simp only: MEMORY_Allocator_InitFromMap_def Let_def) simp
  qed
qed

text \<open>
  Every sequence of allocations from a heap in the first megabyte yields blocks of the
  requested sizes that are pairwise disjoint and inside the heap, read through the far pointers
  returned; and each single request starts at the next aligned offset, or is refused when that
  does not fit.
\<close>

theorem heap_blocks_disjoint:
  assumes "heap_inv al"
  shows "separate (fst (bump_run heap_block heap_bytes rs al)) \<and>
    (\<forall>b \<in> set (fst (bump_run heap_block heap_bytes rs al)).
       unat (al_BasePhysical al) + unat (al_Offset al) \<le> fst b \<and>
       fst b + snd b \<le> unat (al_BasePhysical al) + unat (al_Capacity al)) \<and>
    map_option fst (heap_block (sz, alignment) al) =
      (let start = align_up_nat (heap_align alignment) (unat (al_Offset al)) in
       if sz \<noteq> 0 \<and> start + unat sz \<le> unat (al_Capacity al)
       then Some (unat (al_BasePhysical al) + start) else None)"
  using heap.run_separate [OF assms, of rs] heap.run_bounds [OF assms, of rs]
  by (simp add: heap_block_eq [OF assms] Let_def heap_bytes_def)

section \<open>Witnesses\<close>

definition stage2_heap :: memory_allocator where
  "stage2_heap = \<lparr>al_BasePhysical = 0x78000, al_Capacity = 0x20000, al_Offset = 0\<rparr>"

lemma stage2_heap_inv: "heap_inv stage2_heap"
  by (simp add: stage2_heap_def heap_inv_def)

lemma heap_blocks_disjoint_witness:
  "map_option fst (heap_block (16, 512) stage2_heap) = Some 0x78000"
  using heap_blocks_disjoint [OF stage2_heap_inv, of "[]" 16 512]
  by (simp add: stage2_heap_def Let_def align_up_nat_def heap_align_def)

text \<open>A map of one usable entry from 0 to 640 KiB, at 0x61000.\<close>

definition low_memory :: e820_entry where
  "low_memory = \<lparr>e_base = 0, e_length = 0xA0000, e_type = 1, e_attrs = 1\<rparr>"

definition low_map :: memory where
  "low_map = write_bytes (\<lambda>x. 0) 0x61000 (e820_image low_memory)"

definition low_memory_map :: memory_map where
  "low_memory_map = \<lparr>mm_Entries = 0x61000000, mm_EntryCount = 1, mm_Capacity = 32\<rparr>"

lemma low_entry: "map_entry low_map low_memory_map 0 = low_memory"
proof -
  have "far_to_flat (far_add 0x61000000 0) = 0x61000"
    by (simp add: far_add_def far_to_flat_def)
  moreover have "read_bytes low_map 0x61000 24 = e820_image low_memory"
    using read_write_bytes [of 0 24 "e820_image low_memory" "\<lambda>x. 0" "0x61000"]
    by (simp add: low_map_def e820_layout)
  ultimately show ?thesis
    by (simp add: map_entry_def low_memory_map_def e820_at_def e820_layout)
qed

lemma heap_from_map_witness:
  "MEMORY_Allocator_InitFromMap low_map low_memory_map 0x78000 0x20000 = Some stage2_heap"
  using heap_from_map [of low_memory_map "0x78000" "0x20000" low_map] low_entry
  by (simp add: low_memory_map_def low_memory_def entry_covers_def stage2_heap_def)

end
