(* ===== verification/X86Map.thy ===== *)
theory X86Map
  imports Cpu BootMemory
begin

text \<open>
  The memory map of stage 2 through INT 15h (x86_Memory_GetMap of bootloader/stage2/x86.asm): the
  loop over the continuation token, on a BIOS described by its registers.
\<close>

unbundle bit_operations_syntax

section \<open>The routine\<close>

definition SMAP :: u32 where "SMAP = 0x534D4150"

text \<open>INT 15h takes registers and memory and returns them.\<close>

type_synonym int15 = "cpu \<Rightarrow> memory \<Rightarrow> cpu \<times> memory"

text \<open>The registers of one call.\<close>

definition e820_registers :: "cpu \<Rightarrow> cpu" where
  "e820_registers c =
     (let c = c\<lparr>c_eax := 0xE820\<rparr>;
          c = c\<lparr>c_edx := SMAP\<rparr>
      in c\<lparr>c_ecx := 24\<rparr>)"

lemma count_up: "\<not> capacity \<le> n \<Longrightarrow> unat capacity - unat (n + 1) < unat capacity - unat n" for capacity n :: u16
proof -
  assume "\<not> capacity \<le> n"
  then have "unat n < unat capacity" unfolding not_le word_less_nat_alt .
  moreover from this have "unat (n + 1) = unat n + 1"
    using unat_u16_less [of capacity] by (simp add: unat_word_ariths)
  ultimately show ?thesis by simp
qed

text \<open>The loop, with the counter at \<open>[bp - 4]\<close>: the result in AX, the count, the memory.\<close>

function (sequential) get_map_loop :: "int15 \<Rightarrow> u16 \<Rightarrow> u16 \<Rightarrow> cpu \<Rightarrow> memory \<Rightarrow> u16 \<times> u16 \<times> memory" where
  "get_map_loop int15 capacity n c mem =
     (if n \<ge> capacity then (0, 0, mem)
      else
        (let (c, mem) = int15 (e820_registers c) mem in
         if carry c then (0, 0, mem)
         else if c_eax c \<noteq> SMAP then (0, 0, mem)
         else
           (let c = c\<lparr>c_edi := set_low16 (low16 (c_edi c) + 24) (c_edi c)\<rparr>;
                n = n + 1
            in if c_ebx c \<noteq> 0 then get_map_loop int15 capacity n c mem
               else (1, n, mem))))"
  by pat_completeness auto

termination
  by (relation "measure (\<lambda>(int15, capacity, n, c, mem). unat capacity - unat n)") (simp_all add: count_up)

declare get_map_loop.simps [simp del]

definition x86_Memory_GetMap_asm :: "int15 \<Rightarrow> cpu \<Rightarrow> u32 \<Rightarrow> u16 \<Rightarrow> memory \<Rightarrow> u16 \<times> u16 \<times> memory" where
  "x86_Memory_GetMap_asm int15 c entriesOut entryCapacity mem =
     (let c = c\<lparr>c_edi := set_low16 (ucast entriesOut) (c_edi c)\<rparr>;
          c = c\<lparr>c_es := ucast (drop_bit 16 entriesOut)\<rparr>;
          c = c\<lparr>c_ebx := 0\<rparr>
      in get_map_loop int15 entryCapacity 0 c mem)"

text \<open>The service as C sees it; the result is the byte AL.\<close>

definition stub_map :: "int15 \<Rightarrow> cpu \<Rightarrow> u32 \<Rightarrow> u16 \<Rightarrow> memory \<Rightarrow> bool \<times> u16 \<times> memory" where
  "stub_map int15 c entriesOut entryCapacity mem =
     (case x86_Memory_GetMap_asm int15 c entriesOut entryCapacity mem of
        (ax, n, mem) \<Rightarrow> ((ucast ax :: u8) \<noteq> 0, n, mem))"

section \<open>A BIOS with a list of regions\<close>

text \<open>
  Function E820h: one region per call, stored at ES:DI; EBX is 0 at the start and after the last
  region, and otherwise the token to go on with, here the number of the next region.
\<close>

definition flat16 :: "u16 \<Rightarrow> u16 \<Rightarrow> u32" where
  "flat16 seg off = ucast seg * 16 + ucast off"

definition int15_e820 :: "e820_entry list \<Rightarrow> int15" where
  "int15_e820 rs = (\<lambda>c mem.
     let i = unat (c_ebx c) in
     if c_eax c = 0xE820 \<and> c_edx c = SMAP \<and> 24 \<le> c_ecx c \<and> i < length rs
     then (clc (c\<lparr>c_eax := SMAP, c_ecx := 24, c_ebx := (if i + 1 < length rs then of_nat (i + 1) else 0)\<rparr>),
           write_bytes mem (flat16 (c_es c) (low16 (c_edi c))) (e820_image (rs ! i)))
     else (stc c, mem))"

lemma clc_fields [simp]:
  "c_eax (clc c) = c_eax c" "c_ebx (clc c) = c_ebx c" "c_edi (clc c) = c_edi c" "c_es (clc c) = c_es c"
  by (simp_all add: clc_def)

lemma e820_call:
  assumes "c_ebx c = of_nat i" "i < length rs" "length rs < 65536"
  shows "\<exists>c'. int15_e820 rs (e820_registers c) mem =
      (c', write_bytes mem (flat16 (c_es c) (low16 (c_edi c))) (e820_image (rs ! i))) \<and>
    \<not> carry c' \<and> c_eax c' = SMAP \<and> c_edi c' = c_edi c \<and> c_es c' = c_es c \<and>
    c_ebx c' = (if i + 1 < length rs then of_nat (i + 1) else 0)"
proof -
  have "unat (of_nat i :: u32) = i" using assms(2,3) by (intro unat_of_nat_word) simp
  then show ?thesis using assms(1,2) by (simp add: int15_e820_def e820_registers_def Let_def del: of_nat_Suc)
qed

lemma unat_sub_of_nat:
  assumes "k < 4294967296"
  shows "unat (z - of_nat k :: u32) = (if unat z < k then 4294967296 + unat z - k else unat z - k)"
  using assms by (auto simp: unat_sub_if' unat_of_nat_word)

lemma write_bytes_append:
  assumes "length xs + length ys < 4294967296"
  shows "write_bytes (write_bytes mem a xs) (a + of_nat (length xs)) ys = write_bytes mem a (xs @ ys)"
proof
  fix x
  define z where "z = x - a"
  have "x - (a + of_nat (length xs)) = z - of_nat (length xs)" by (simp add: z_def)
  then have u: "unat (x - (a + of_nat (length xs))) =
      (if unat z < length xs then 4294967296 + unat z - length xs else unat z - length xs)"
    using assms unat_sub_of_nat [of "length xs" z] by (simp only:)
  show "write_bytes (write_bytes mem a xs) (a + of_nat (length xs)) ys x = write_bytes mem a (xs @ ys) x"
    using assms by (auto simp: write_bytes_def u z_def [symmetric] nth_append)
qed

lemma flat16_add:
  assumes "unat off + n < 65536"
  shows "flat16 seg (off + of_nat n) = flat16 seg off + of_nat n"
proof -
  have "ucast (off + of_nat n) = (ucast off + of_nat n :: u32)"
    using assms by (simp add: word_unat_eq_iff unat_word_ariths unat_ucast_up16_32 unat_of_nat_word)
  then show ?thesis by (simp add: flat16_def)
qed

lemma of_nat_u32_nonzero: "0 < n \<Longrightarrow> n < 65536 \<Longrightarrow> (of_nat n :: u32) \<noteq> 0"
  using of_nat_word_inj [of n 0, where 'a = 32] by simp

text \<open>The regions stored so far, and the state of the loop before the call for region \<open>i\<close>.\<close>

definition stored :: "e820_entry list \<Rightarrow> u16 \<Rightarrow> u16 \<Rightarrow> memory \<Rightarrow> nat \<Rightarrow> memory" where
  "stored rs seg off mem i = write_bytes mem (flat16 seg off) (concat (map e820_image (take i rs)))"

definition at_region :: "u16 \<Rightarrow> u16 \<Rightarrow> nat \<Rightarrow> cpu \<Rightarrow> bool" where
  "at_region seg off i c \<longleftrightarrow> c_ebx c = of_nat i \<and> low16 (c_edi c) = off + of_nat (24 * i) \<and> c_es c = seg"

lemma stored_Suc:
  assumes "i < length rs" "unat off + 24 * length rs \<le> 65536"
  shows "write_bytes (stored rs seg off mem i) (flat16 seg (off + of_nat (24 * i))) (e820_image (rs ! i)) =
    stored rs seg off mem (Suc i)"
proof -
  have l: "length (concat (map e820_image (take i rs))) = 24 * i"
    using assms(1) by (simp add: e820_images_length)
  have "24 * i + 24 \<le> 24 * length rs" using assms(1) by linarith
  then show ?thesis
    using write_bytes_append [of "concat (map e820_image (take i rs))" "e820_image (rs ! i)" mem "flat16 seg off"]
      flat16_add [of off "24 * i" seg] assms
    by (simp add: stored_def l take_Suc_conv_app_nth e820_layout)
qed

text \<open>One turn of the loop.\<close>

lemma get_map_step:
  assumes "at_region seg off i c" "i < length rs" "length rs < 65536" "unat off + 24 * length rs \<le> 65536" "i < unat cap"
  shows "\<exists>c'. get_map_loop (int15_e820 rs) cap (of_nat i) c (stored rs seg off mem i) =
    (if Suc i < length rs then get_map_loop (int15_e820 rs) cap (of_nat (Suc i)) c' (stored rs seg off mem (Suc i))
     else (1, of_nat (Suc i), stored rs seg off mem (Suc i))) \<and> (Suc i < length rs \<longrightarrow> at_region seg off (Suc i) c')"
proof -
  have a: "c_ebx c = of_nat i" "low16 (c_edi c) = off + of_nat (24 * i)" "c_es c = seg"
    using assms(1) by (simp_all add: at_region_def)
  from e820_call [OF a(1) assms(2,3), of "stored rs seg off mem i"] obtain c' where
    c': "int15_e820 rs (e820_registers c) (stored rs seg off mem i) = (c', stored rs seg off mem (Suc i))"
    "\<not> carry c'" "c_eax c' = SMAP" "c_edi c' = c_edi c" "c_es c' = seg"
    "c_ebx c' = (if i + 1 < length rs then of_nat (i + 1) else 0)"
    using a stored_Suc [OF assms(2,4)] by auto
  have "unat (of_nat i :: u16) = i" using assms(2,3) by (intro unat_of_nat_word) simp
  then have n: "\<not> cap \<le> (of_nat i :: u16)" using assms(5) by (simp add: word_le_nat_alt)
  have nz: "Suc i < length rs \<Longrightarrow> (of_nat (Suc i) :: u32) \<noteq> 0"
    using assms(3) by (intro of_nat_u32_nonzero) simp_all
  let ?c = "c'\<lparr>c_edi := set_low16 (low16 (c_edi c') + 24) (c_edi c')\<rparr>"
  have "at_region seg off (Suc i) ?c" if "Suc i < length rs"
    using c'(4-6) a that by (simp add: at_region_def algebra_simps)
  then show ?thesis
    using n c' nz by (subst get_map_loop.simps) (auto simp: Let_def add.commute intro!: exI [of _ ?c])
qed

lemma get_map_all:
  assumes "at_region seg off i c" "i < length rs" "length rs < 65536" "unat off + 24 * length rs \<le> 65536"
    "length rs \<le> unat cap"
  shows "get_map_loop (int15_e820 rs) cap (of_nat i) c (stored rs seg off mem i) =
    (1, of_nat (length rs), stored rs seg off mem (length rs))"
  using assms(1,2)
proof (induction "length rs - i" arbitrary: i c)
  case (Suc k)
  have "i < unat cap" using Suc.prems(2) assms(5) by simp
  from get_map_step [OF Suc.prems assms(3,4) this] obtain c' where
    "get_map_loop (int15_e820 rs) cap (of_nat i) c (stored rs seg off mem i) =
      (if Suc i < length rs then get_map_loop (int15_e820 rs) cap (of_nat (Suc i)) c' (stored rs seg off mem (Suc i))
       else (1, of_nat (Suc i), stored rs seg off mem (Suc i)))"
    "Suc i < length rs \<longrightarrow> at_region seg off (Suc i) c'" by blast
  moreover have "length rs = Suc i" if "\<not> Suc i < length rs" using that Suc.prems(2) by simp
  moreover have "k = length rs - Suc i" using Suc.hyps(2) by simp
  ultimately show ?case using Suc.hyps(1) [of "Suc i" c'] by (cases "Suc i < length rs") (simp_all del: of_nat_Suc)
qed simp

lemma get_map_full:
  assumes "at_region seg off i c" "i \<le> unat cap" "length rs < 65536" "unat off + 24 * length rs \<le> 65536"
    "unat cap < length rs"
  shows "\<exists>mem'. get_map_loop (int15_e820 rs) cap (of_nat i) c (stored rs seg off mem i) = (0, 0, mem')"
  using assms(1,2)
proof (induction "unat cap - i" arbitrary: i c)
  case 0
  then have "(of_nat i :: u16) = cap" by (intro word_of_unat [symmetric]) simp
  then show ?case by (subst get_map_loop.simps) simp
next
  case (Suc k)
  then have i: "i < unat cap" "Suc i < length rs" using assms(5) by simp_all
  from get_map_step [OF Suc.prems(1) _ assms(3,4) i(1)] i(2) obtain c' where
    "get_map_loop (int15_e820 rs) cap (of_nat i) c (stored rs seg off mem i) =
      get_map_loop (int15_e820 rs) cap (of_nat (Suc i)) c' (stored rs seg off mem (Suc i))"
    "at_region seg off (Suc i) c'" by (metis Suc_lessD)
  then show ?case using Suc.hyps(1) [of "Suc i" c'] Suc.hyps(2) i(1) by auto
qed

section \<open>What stage 2 gets\<close>

lemma far_flat16: "far_to_flat p = flat16 (ucast (drop_bit 16 p)) (ucast p)"
proof -
  have m: "(0xFFFF :: u32) = mask 16" by (simp add: mask_eq_exp_minus_1)
  have "(ucast (p AND 0xFFFF) :: u16) = ucast p"
    unfolding m by (rule bit_word_eqI) (auto simp: bit_simps)
  then show ?thesis by (simp add: far_to_flat_def flat16_def)
qed

lemma map_start:
  "x86_Memory_GetMap_asm int15 c entries cap mem = get_map_loop int15 cap (of_nat 0)
     (c\<lparr>c_edi := set_low16 (ucast entries) (c_edi c), c_es := ucast (drop_bit 16 entries), c_ebx := 0\<rparr>)
     (stored rs (ucast (drop_bit 16 entries)) (ucast entries) mem 0)"
  "at_region (ucast (drop_bit 16 entries)) (ucast entries) 0
     (c\<lparr>c_edi := set_low16 (ucast entries) (c_edi c), c_es := ucast (drop_bit 16 entries), c_ebx := 0\<rparr>)"
  by (simp_all add: x86_Memory_GetMap_asm_def stored_def at_region_def write_bytes_def)

text \<open>
  With room for all regions the buffer holds them one after another and the count is theirs; with
  more regions than room the call fails, although the buffer is full of valid ones.
\<close>

theorem stub_map_e820:
  fixes entries :: u32
  defines "off \<equiv> (ucast entries :: u16)"
  assumes "rs \<noteq> []" "unat off + 24 * length rs \<le> 65536"
  shows "length rs \<le> unat cap \<Longrightarrow> stub_map (int15_e820 rs) c entries cap mem =
      (True, of_nat (length rs), write_bytes mem (far_to_flat entries) (concat (map e820_image rs)))"
    "unat cap < length rs \<Longrightarrow> \<exists>mem'. stub_map (int15_e820 rs) c entries cap mem = (False, 0, mem')"
proof -
  have l: "0 < length rs" "length rs < 65536" using assms(2,3) by auto
  note start = map_start(1) [of "int15_e820 rs" c entries cap mem rs, folded off_def]
  note at = map_start(2) [of entries c, folded off_def]
  show "stub_map (int15_e820 rs) c entries cap mem =
      (True, of_nat (length rs), write_bytes mem (far_to_flat entries) (concat (map e820_image rs)))"
    if "length rs \<le> unat cap"
    using get_map_all [OF at l assms(3) that]
    by (simp add: stub_map_def start stored_def far_flat16 off_def)
  show "\<exists>mem'. stub_map (int15_e820 rs) c entries cap mem = (False, 0, mem')" if "unat cap < length rs"
    using get_map_full [OF at _ l(2) assms(3) that, of mem] by (auto simp: stub_map_def start)
qed

end
