(* ===== verification/Disk.thy ===== *)
theory Disk
  imports Prelude
begin

text \<open>
  The disk layer of stage 2 (bootloader/stage2/disk.c): geometry, translation of logical sectors
  to cylinder, head and sector, and reads with three attempts. The BIOS services behind the
  assembly stubs are a parameter; the lemmas about reading rest on a contract, stated as a locale.
\<close>

unbundle bit_operations_syntax

section \<open>BIOS disk services\<close>

text \<open>
  A read delivers the bytes that reached the buffer, also when it fails half way; the geometry call
  delivers drive type, cylinders, sectors per track and heads, each last index as the BIOS gives it.
\<close>

record 'b bios =
  x86_Disk_Read :: "u8 \<Rightarrow> u16 \<Rightarrow> u16 \<Rightarrow> u16 \<Rightarrow> u8 \<Rightarrow> 'b \<Rightarrow> bool \<times> u8 list \<times> 'b"
  x86_Disk_Reset :: "u8 \<Rightarrow> 'b \<Rightarrow> 'b"
  x86_Disk_GetDriveParams :: "u8 \<Rightarrow> 'b \<Rightarrow> (u8 \<times> u16 \<times> u16 \<times> u16) option \<times> 'b"

record disk =
  d_id :: u8
  d_cylinders :: u16
  d_sectors :: u16
  d_heads :: u16

section \<open>Operations\<close>

definition DISK_Initialize :: "'b bios \<Rightarrow> u8 \<Rightarrow> disk \<Rightarrow> 'b \<Rightarrow> bool \<times> disk \<times> 'b" where
  "DISK_Initialize bios driveNumber d st =
     (let d = d\<lparr>d_id := driveNumber\<rparr>;
          (r, st) = x86_Disk_GetDriveParams bios driveNumber st in
      case r of
        None \<Rightarrow> (False, d, st)
      | Some (driveType, cylinders, sectors, heads) \<Rightarrow>
          (True, d\<lparr>d_cylinders := cylinders + 1, d_heads := heads + 1, d_sectors := sectors\<rparr>, st))"

text \<open>Cylinder, sector and head of a logical sector.\<close>

definition DISK_LBA2CHS :: "disk \<Rightarrow> u32 \<Rightarrow> u16 \<times> u16 \<times> u16" where
  "DISK_LBA2CHS d lba =
     (let lba16 = (ucast lba :: u16) in
      ((lba16 div d_sectors d) div d_heads d,
       (lba16 mod d_sectors d) + 1,
       (lba16 div d_sectors d) mod d_heads d))"

text \<open>The retry loop with the attempts that are left; \<open>dataOut\<close> is the destination buffer.\<close>

primrec read_attempts ::
  "nat \<Rightarrow> 'b bios \<Rightarrow> disk \<Rightarrow> u16 \<times> u16 \<times> u16 \<Rightarrow> u8 \<Rightarrow> u8 list \<Rightarrow> 'b \<Rightarrow> bool \<times> u8 list \<times> 'b" where
  "read_attempts 0 bios d chs sectors dataOut st = (False, dataOut, st)"
| "read_attempts (Suc n) bios d chs sectors dataOut st =
     (let (ok, data, st) =
          x86_Disk_Read bios (d_id d) (fst chs) (fst (snd chs)) (snd (snd chs)) sectors st;
          dataOut = blit data dataOut in
      if ok then (True, dataOut, st)
      else read_attempts n bios d chs sectors dataOut (x86_Disk_Reset bios (d_id d) st))"

definition DISK_ReadSectors ::
  "'b bios \<Rightarrow> disk \<Rightarrow> u32 \<Rightarrow> u8 \<Rightarrow> u8 list \<Rightarrow> 'b \<Rightarrow> bool \<times> u8 list \<times> 'b" where
  "DISK_ReadSectors bios d lba sectors dataOut st =
     read_attempts 3 bios d (DISK_LBA2CHS d lba) sectors dataOut st"

section \<open>Geometry\<close>

definition chs_lba :: "disk \<Rightarrow> u16 \<times> u16 \<times> u16 \<Rightarrow> nat" where
  "chs_lba d chs = (unat (fst chs) * unat (d_heads d) + unat (snd (snd chs))) * unat (d_sectors d) +
     (unat (fst (snd chs)) - 1)"

lemma unat_low16: "unat (lba :: u32) < 65536 \<Longrightarrow> unat (ucast lba :: u16) = unat lba"
  by (simp add: unsigned_ucast_eq take_bit_nat_eq_self)

lemma chs_bounds:
  assumes "d_sectors d \<noteq> 0" "d_heads d \<noteq> 0" "unat (d_sectors d) < 65536"
  shows "unat (fst (snd (DISK_LBA2CHS d lba))) = unat (ucast lba :: u16) mod unat (d_sectors d) + 1"
    "unat (snd (snd (DISK_LBA2CHS d lba))) = unat (ucast lba :: u16) div unat (d_sectors d) mod unat (d_heads d)"
    "unat (fst (DISK_LBA2CHS d lba)) = unat (ucast lba :: u16) div unat (d_sectors d) div unat (d_heads d)"
proof -
  let ?l = "ucast lba :: u16"
  have pos: "0 < unat (d_sectors d)" using assms(1) by (simp add: unat_gt_0)
  have "unat (?l mod d_sectors d) = unat ?l mod unat (d_sectors d)" by (rule unat_mod_distrib)
  moreover have "unat ?l mod unat (d_sectors d) < unat (d_sectors d)" using pos by simp
  ultimately show "unat (fst (snd (DISK_LBA2CHS d lba))) = unat ?l mod unat (d_sectors d) + 1"
    using assms(3) by (simp add: DISK_LBA2CHS_def Let_def unat_word_ariths)
  show "unat (snd (snd (DISK_LBA2CHS d lba))) = unat ?l div unat (d_sectors d) mod unat (d_heads d)"
    "unat (fst (DISK_LBA2CHS d lba)) = unat ?l div unat (d_sectors d) div unat (d_heads d)"
    by (simp_all add: DISK_LBA2CHS_def Let_def unat_mod_distrib unat_div_distrib)
qed

lemma lba_chs_lba:
  assumes "d_sectors d \<noteq> 0" "d_heads d \<noteq> 0"
  shows "chs_lba d (DISK_LBA2CHS d lba) = unat (ucast lba :: u16)"
  using chs_bounds [OF assms unat_u16_less] by (simp add: chs_lba_def)

text \<open>
  The translation to cylinder, head and sector is lossless for the first 65536 sectors: with a
  nonzero geometry the triple names the logical sector it came from, the head and the sector are
  within the geometry, and sectors count from one.
\<close>

theorem lba2chs_roundtrip:
  assumes "d_sectors d \<noteq> 0" "d_heads d \<noteq> 0" "unat lba < 65536"
  shows "case DISK_LBA2CHS d lba of (cylinder, sector, head) \<Rightarrow>
    (unat cylinder * unat (d_heads d) + unat head) * unat (d_sectors d) + (unat sector - 1) = unat lba \<and>
    1 \<le> unat sector \<and> unat sector \<le> unat (d_sectors d) \<and> unat head < unat (d_heads d)"
proof -
  have "0 < unat (d_sectors d)" "0 < unat (d_heads d)" using assms by (simp_all add: unat_gt_0)
  then show ?thesis
    using lba_chs_lba [OF assms(1,2), of lba] chs_bounds [OF assms(1,2) unat_u16_less, of lba]
      unat_low16 [OF assms(3)]
    by (auto simp: chs_lba_def Suc_le_eq split: prod.splits)
qed

lemma lba2chs_roundtrip_witness:
  "DISK_LBA2CHS \<lparr>d_id = 0, d_cylinders = 80, d_sectors = 18, d_heads = 2\<rparr> 1000 = (27, 11, 1) \<and>
   (27 * 2 + 1) * 18 + (11 - 1) = (1000 :: nat)"
proof -
  have "DISK_LBA2CHS \<lparr>d_id = 0, d_cylinders = 80, d_sectors = 18, d_heads = 2\<rparr> 1000 = (27, 11, 1)"
    by (simp add: DISK_LBA2CHS_def)
  then show ?thesis
    using lba2chs_roundtrip [of "\<lparr>d_id = 0, d_cylinders = 80, d_sectors = 18, d_heads = 2\<rparr>" 1000] by simp
qed

section \<open>Retries\<close>

text \<open>A BIOS that follows a script of read results and records what it is asked to do.\<close>

datatype disk_event = Did_read u16 u16 u16 u8 | Did_reset

definition scripted_bios :: "((bool \<times> u8 list) list \<times> disk_event list) bios" where
  "scripted_bios = \<lparr>
     x86_Disk_Read = (\<lambda>drive c s h n (rs, tr).
       case rs of [] \<Rightarrow> (False, [], [], tr @ [Did_read c s h n])
       | (ok, data) # rs' \<Rightarrow> (ok, data, rs', tr @ [Did_read c s h n])),
     x86_Disk_Reset = (\<lambda>drive (rs, tr). (rs, tr @ [Did_reset])),
     x86_Disk_GetDriveParams = (\<lambda>drive st. (None, st))\<rparr>"

definition leading_failures :: "nat \<Rightarrow> (bool \<times> u8 list) list \<Rightarrow> nat" where
  "leading_failures n rs =
     length (takeWhile (\<lambda>r. \<not> fst r) (take n (rs @ replicate n (False, []))))"

lemma attempts_scripted:
  "\<exists>buf rs'. read_attempts n scripted_bios d (c, s, h) k dataOut (rs, tr) =
     (leading_failures n rs < n, buf, rs',
      tr @ concat (replicate (leading_failures n rs) [Did_read c s h k, Did_reset]) @
        (if leading_failures n rs < n then [Did_read c s h k] else []))"
proof (induction n arbitrary: dataOut rs tr)
  case 0
  show ?case by (simp add: leading_failures_def)
next
  case (Suc n)
  have pad: "take n (rs @ replicate (Suc n) (False, [])) = take n (rs @ replicate n (False, []))" for rs :: "(bool \<times> u8 list) list"
    by (simp add: replicate_append_same [symmetric])
  show ?case
  proof (cases rs)
    case Nil
    then have "leading_failures (Suc n) rs = Suc (leading_failures n [])"
      by (simp add: leading_failures_def)
    with Nil Suc.IH [of dataOut "[]" "tr @ [Did_read c s h k, Did_reset]"]
    show ?thesis by (simp add: scripted_bios_def blit_def)
  next
    case (Cons r rest)
    obtain ok data where r: "r = (ok, data)" by (cases r)
    have lf: "leading_failures (Suc n) rs = (if ok then 0 else Suc (leading_failures n rest))"
      using Cons r pad [of rest] by (simp add: leading_failures_def)
    show ?thesis
    proof (cases ok)
      case True
      with lf Cons r show ?thesis by (simp add: scripted_bios_def)
    next
      case False
      with lf Cons r Suc.IH [of "blit data dataOut" rest "tr @ [Did_read c s h k, Did_reset]"]
      show ?thesis by (simp add: scripted_bios_def)
    qed
  qed
qed

text \<open>
  A sector read is attempted at the translated address up to three times, the controller is
  reset after every failure, and the read succeeds exactly when one of the three attempts does;
  nothing is attempted after a success.
\<close>

theorem disk_read_retries:
  "\<exists>buf rs'. DISK_ReadSectors scripted_bios d lba k dataOut (rs, []) =
     (leading_failures 3 rs < 3, buf, rs',
      (case DISK_LBA2CHS d lba of (c, s, h) \<Rightarrow>
         concat (replicate (leading_failures 3 rs) [Did_read c s h k, Did_reset]) @
           (if leading_failures 3 rs < 3 then [Did_read c s h k] else [])))"
proof -
  obtain c s h where chs: "DISK_LBA2CHS d lba = (c, s, h)" by (metis prod_cases3)
  from attempts_scripted [of 3 d c s h k dataOut rs "[]"] show ?thesis
    by (simp add: DISK_ReadSectors_def chs)
qed

section \<open>The contract that the file system relies on\<close>

locale sector_source =
  fixes rd :: "u32 \<Rightarrow> u8 \<Rightarrow> u8 list \<Rightarrow> 'b \<Rightarrow> bool \<times> u8 list \<times> 'b"
    and img :: "u32 \<Rightarrow> u8 list"
    and reach :: "u32 \<Rightarrow> bool"
    and good :: "'b \<Rightarrow> bool"
  assumes img_length: "length (img lba) = 512"
    and rd_one: "good st \<Longrightarrow> reach lba \<Longrightarrow> length buf = 512 \<Longrightarrow>
      \<exists>st'. rd lba 1 buf st = (True, img lba, st') \<and> good st'"

text \<open>
  The provider: the disk layer over a BIOS that serves a disk image and may fail twice before it
  answers, as a drive does that is still spinning up.
\<close>

definition image_sector :: "u8 list \<Rightarrow> nat \<Rightarrow> u8 list" where
  "image_sector di n =
     map (\<lambda>k. if 512 * n + k < length di then di ! (512 * n + k) else 0) [0..<512]"

definition image_bios :: "disk \<Rightarrow> u8 list \<Rightarrow> nat bios" where
  "image_bios d di = \<lparr>
     x86_Disk_Read = (\<lambda>drive c s h n fails.
       if 0 < fails then (False, [0xFF], fails - 1)
       else (True, concat (map (\<lambda>i. image_sector di (chs_lba d (c, s, h) + i)) [0..<unat n]), 0)),
     x86_Disk_Reset = (\<lambda>drive fails. fails),
     x86_Disk_GetDriveParams = (\<lambda>drive fails.
       (Some (0, d_cylinders d - 1, d_sectors d, d_heads d - 1), fails))\<rparr>"

definition floppy :: disk where
  "floppy = \<lparr>d_id = 0, d_cylinders = 80, d_sectors = 18, d_heads = 2\<rparr>"

lemma length_image_sector [simp]: "length (image_sector di n) = 512"
  by (simp add: image_sector_def)

lemma attempts_image:
  assumes "fails < n" "length buf = 512"
  shows "read_attempts n (image_bios d di) d chs 1 buf fails =
    (True, image_sector di (chs_lba d chs), 0)"
  using assms
proof (induction n arbitrary: fails buf)
  case (Suc n)
  show ?case
  proof (cases fails)
    case 0
    with Suc.prems show ?thesis by (simp add: image_bios_def blit_full)
  next
    case (Suc m)
    with Suc.IH [of m "blit [0xFF] buf"] Suc.prems show ?thesis
      by (simp add: image_bios_def length_blit)
  qed
qed simp

lemma read_image:
  assumes "d_sectors d \<noteq> 0" "d_heads d \<noteq> 0" "unat lba < 65536" "fails < 3" "length buf = 512"
  shows "DISK_ReadSectors (image_bios d di) d lba 1 buf fails = (True, image_sector di (unat lba), 0)"
  using attempts_image [OF assms(4,5), of d di "DISK_LBA2CHS d lba"]
    lba_chs_lba [OF assms(1,2), of lba] unat_low16 [OF assms(3)]
  by (simp add: DISK_ReadSectors_def)

interpretation floppy: sector_source "DISK_ReadSectors (image_bios floppy di) floppy"
  "\<lambda>lba. image_sector di (unat lba)" "\<lambda>lba. unat lba < 65536" "\<lambda>fails. fails < 3"
  for di :: "u8 list"
  by unfold_locales (simp_all add: read_image floppy_def)

end
