(* ===== verification/Fat.thy ===== *)
theory Fat
  imports Disk
begin

text \<open>
  The FAT12 driver of stage 2 (bootloader/stage2/fat.c), compiled for 16-bit x86: \<open>int\<close> and
  \<open>size_t\<close> have 16 bits. Sectors are read through the disk layer, the argument \<open>rd\<close>; loops that
  may run forever are partial functions, and what C leaves undefined is an error value. The
  messages that the code prints are left out.
\<close>

unbundle bit_operations_syntax

section \<open>Data\<close>

text \<open>
  What goes wrong, in order: a copy that runs past the sector buffer, a FAT entry outside the memory
  of the table, a path component longer than its buffer, the use of a null file pointer.
\<close>

datatype fat_error = FatOverread | FatTableRange | FatNameOverflow | FatNullFile

type_synonym 'b sector_read = "u32 \<Rightarrow> u8 \<Rightarrow> u8 list \<Rightarrow> 'b \<Rightarrow> bool \<times> u8 list \<times> 'b"

definition MAX_FILE_HANDLES :: nat where "MAX_FILE_HANDLES = 10"
definition MAX_PATH_SIZE :: nat where "MAX_PATH_SIZE = 256"
definition ROOT_DIRECTORY_HANDLE :: int where "ROOT_DIRECTORY_HANDLE = -1"
definition MEMORY_FAT_SIZE :: u32 where "MEMORY_FAT_SIZE = 0x00010000"
definition SECTOR_SIZE :: u32 where "SECTOR_SIZE = 512"
definition FAT_ATTRIBUTE_DIRECTORY :: u8 where "FAT_ATTRIBUTE_DIRECTORY = 0x10"

record fat_file_data =
  fd_Buffer :: "u8 list"
  fd_Handle :: int
  fd_IsDirectory :: bool
  fd_Position :: u32
  fd_Size :: u32
  fd_Opened :: bool
  fd_FirstCluster :: u32
  fd_CurrentCluster :: u32
  fd_CurrentSectorInCluster :: u32

record fat_data =
  fat_BootSectorBytes :: "u8 list"
  fat_RootDirectory :: fat_file_data
  fat_OpenedFiles :: "fat_file_data list"
  g_Fat :: "u8 list"
  g_DataSectionLba :: u32

record fat_dir_entry =
  de_Name :: "u8 list"
  de_Attributes :: u8
  de_Reserved :: u8
  de_CreatedTimeTenths :: u8
  de_CreatedTime :: u16
  de_CreatedDate :: u16
  de_AccessedDate :: u16
  de_FirstClusterHigh :: u16
  de_ModifiedTime :: u16
  de_ModifiedDate :: u16
  de_FirstClusterLow :: u16
  de_Size :: u32

text \<open>The packed 32-byte entry, and the fields of the boot sector at their offsets.\<close>

definition dir_entry_of :: "u8 list \<Rightarrow> fat_dir_entry" where
  "dir_entry_of bs =
     \<lparr>de_Name = take 11 bs, de_Attributes = bs ! 11, de_Reserved = bs ! 12,
      de_CreatedTimeTenths = bs ! 13, de_CreatedTime = get16 bs 14, de_CreatedDate = get16 bs 16,
      de_AccessedDate = get16 bs 18, de_FirstClusterHigh = get16 bs 20,
      de_ModifiedTime = get16 bs 22, de_ModifiedDate = get16 bs 24,
      de_FirstClusterLow = get16 bs 26, de_Size = get32 bs 28\<rparr>"

definition bs_BytesPerSector :: "fat_data \<Rightarrow> u16" where
  "bs_BytesPerSector g = get16 (fat_BootSectorBytes g) 11"
definition bs_SectorsPerCluster :: "fat_data \<Rightarrow> u8" where
  "bs_SectorsPerCluster g = fat_BootSectorBytes g ! 13"
definition bs_ReservedSectors :: "fat_data \<Rightarrow> u16" where
  "bs_ReservedSectors g = get16 (fat_BootSectorBytes g) 14"
definition bs_FatCount :: "fat_data \<Rightarrow> u8" where
  "bs_FatCount g = fat_BootSectorBytes g ! 16"
definition bs_DirEntryCount :: "fat_data \<Rightarrow> u16" where
  "bs_DirEntryCount g = get16 (fat_BootSectorBytes g) 17"
definition bs_SectorsPerFat :: "fat_data \<Rightarrow> u16" where
  "bs_SectorsPerFat g = get16 (fat_BootSectorBytes g) 22"

text \<open>\<open>int min(int, int)\<close> applied to 32-bit values: both are cut to 16 bits, the result is signed.\<close>

definition min16 :: "u32 \<Rightarrow> u32 \<Rightarrow> u32" where
  "min16 a b = (let a' = (ucast a :: u16); b' = (ucast b :: u16) in scast (if a' <s b' then a' else b'))"

definition get_fd :: "int \<Rightarrow> fat_data \<Rightarrow> fat_file_data" where
  "get_fd h g = (if h = ROOT_DIRECTORY_HANDLE then fat_RootDirectory g else fat_OpenedFiles g ! nat h)"

definition set_fd :: "int \<Rightarrow> fat_file_data \<Rightarrow> fat_data \<Rightarrow> fat_data" where
  "set_fd h fd g =
     (if h = ROOT_DIRECTORY_HANDLE then g\<lparr>fat_RootDirectory := fd\<rparr>
      else g\<lparr>fat_OpenedFiles := (fat_OpenedFiles g)[nat h := fd]\<rparr>)"

section \<open>Initialisation and open entries\<close>

definition FAT_ReadBootSector :: "'b sector_read \<Rightarrow> fat_data \<times> 'b \<Rightarrow> bool \<times> fat_data \<times> 'b" where
  "FAT_ReadBootSector rd gs =
     (let (ok, buf, st) = rd 0 1 (fat_BootSectorBytes (fst gs)) (snd gs)
      in (ok, (fst gs)\<lparr>fat_BootSectorBytes := buf\<rparr>, st))"

definition FAT_ReadFat :: "'b sector_read \<Rightarrow> fat_data \<times> 'b \<Rightarrow> bool \<times> fat_data \<times> 'b" where
  "FAT_ReadFat rd gs =
     (let g = fst gs;
          (ok, buf, st) = rd (ucast (bs_ReservedSectors g)) (ucast (bs_SectorsPerFat g)) (g_Fat g) (snd gs)
      in (ok, g\<lparr>g_Fat := buf\<rparr>, st))"

definition root_dir_lba :: "fat_data \<Rightarrow> u32" where
  "root_dir_lba g =
     ucast (bs_ReservedSectors g + bs_SectorsPerFat g * ucast (bs_FatCount g))"

text \<open>\<open>sz\<close> is \<open>sizeof(fat_data_t)\<close>, which the compiler's struct packing decides.\<close>

definition FAT_Initialize :: "u16 \<Rightarrow> 'b sector_read \<Rightarrow> fat_data \<times> 'b \<Rightarrow> bool \<times> fat_data \<times> 'b" where
  "FAT_Initialize sz rd gs =
     (let (ok, g, st) = FAT_ReadBootSector rd gs in
      if \<not> ok then (False, g, st)
      else if bs_BytesPerSector g \<noteq> 512 \<or> bs_SectorsPerCluster g = 0 then (False, g, st)
      else
        (let fatSize = (ucast (bs_BytesPerSector g * bs_SectorsPerFat g) :: u32) in
         if ucast sz + fatSize \<ge> MEMORY_FAT_SIZE then (False, g, st)
         else
           (let (ok, g, st) = FAT_ReadFat rd (g, st) in
            if \<not> ok then (False, g, st)
            else
              (let rootDirLba = root_dir_lba g;
                   root = (fat_RootDirectory g)
                     \<lparr>fd_Handle := ROOT_DIRECTORY_HANDLE, fd_IsDirectory := True, fd_Position := 0,
                      fd_Size := ucast (32 * bs_DirEntryCount g), fd_Opened := True,
                      fd_FirstCluster := rootDirLba, fd_CurrentCluster := rootDirLba,
                      fd_CurrentSectorInCluster := 0\<rparr>;
                   (ok, buf, st) = rd rootDirLba 1 (fd_Buffer root) st;
                   g = g\<lparr>fat_RootDirectory := root\<lparr>fd_Buffer := buf\<rparr>\<rparr> in
               if \<not> ok then (False, g, st)
               else
                 (let bps = (ucast (bs_BytesPerSector g) :: u32);
                      rootDirSectors = (ucast (bs_DirEntryCount g) * 32 + bps - 1) div bps
                  in (True,
                      g\<lparr>g_DataSectionLba := rootDirLba + rootDirSectors,
                        fat_OpenedFiles := map (\<lambda>fd. fd\<lparr>fd_Opened := False\<rparr>) (fat_OpenedFiles g)\<rparr>,
                      st))))))"

definition FAT_ClusterToLba :: "fat_data \<Rightarrow> u32 \<Rightarrow> u32" where
  "FAT_ClusterToLba g cluster = g_DataSectionLba g + (cluster - 2) * ucast (bs_SectorsPerCluster g)"

text \<open>The handle of the file opened; \<open>None\<close> is the null pointer.\<close>

definition FAT_OpenEntry ::
  "'b sector_read \<Rightarrow> fat_dir_entry \<Rightarrow> fat_data \<times> 'b \<Rightarrow> int option \<times> fat_data \<times> 'b" where
  "FAT_OpenEntry rd entry gs =
     (let (g, st) = gs in
      case find (\<lambda>i. \<not> fd_Opened (fat_OpenedFiles g ! i)) [0..<MAX_FILE_HANDLES] of
        None \<Rightarrow> (None, g, st)
      | Some i \<Rightarrow>
          (let first = ucast (de_FirstClusterLow entry) + push_bit 16 (ucast (de_FirstClusterHigh entry));
               fd = (fat_OpenedFiles g ! i)
                 \<lparr>fd_Handle := int i,
                  fd_IsDirectory := (de_Attributes entry AND FAT_ATTRIBUTE_DIRECTORY \<noteq> 0),
                  fd_Position := 0, fd_Size := de_Size entry, fd_FirstCluster := first,
                  fd_CurrentCluster := first, fd_CurrentSectorInCluster := 0\<rparr>;
               (ok, buf, st) = rd (FAT_ClusterToLba g first) 1 (fd_Buffer fd) st;
               fd = fd\<lparr>fd_Buffer := buf\<rparr> in
           if \<not> ok then (None, set_fd (int i) fd g, st)
           else (Some (int i), set_fd (int i) (fd\<lparr>fd_Opened := True\<rparr>) g, st)))"

definition FAT_NextCluster :: "u8 list \<Rightarrow> u32 \<Rightarrow> u32 option" where
  "FAT_NextCluster tbl currentCluster =
     (let fatIndex = unat (currentCluster * 3 div 2) in
      if length tbl \<le> fatIndex + 1 then None
      else
        (let val = (ucast (tbl ! fatIndex) OR push_bit 8 (ucast (tbl ! (fatIndex + 1))) :: u16) in
         Some (if currentCluster mod 2 = 0 then ucast (val AND 0x0FFF) else ucast (drop_bit 4 val))))"

section \<open>Reading\<close>

text \<open>The step to the next sector: inside the cluster, or to the next cluster of the chain.\<close>

definition chain_next :: "fat_data \<Rightarrow> u32 \<times> u32 \<Rightarrow> (u32 \<times> u32) option" where
  "chain_next g p =
     (if snd p + 1 \<ge> ucast (bs_SectorsPerCluster g)
      then map_option (\<lambda>c. (c, 0)) (FAT_NextCluster (g_Fat g) (fst p))
      else Some (fst p, snd p + 1))"

text \<open>
  The end of the loop body, once a sector is used up: the next sector of the root directory or of
  the cluster chain, and whether the loop breaks.
\<close>

definition fat_advance ::
  "'b sector_read \<Rightarrow> int \<Rightarrow> fat_data \<times> 'b \<Rightarrow> fat_error + bool \<times> fat_data \<times> 'b" where
  "fat_advance rd h gs =
     (let (g, st) = gs; fd = get_fd h g in
      if fd_Handle fd = ROOT_DIRECTORY_HANDLE then
        (if fd_Position fd \<ge> fd_Size fd then Inr (True, g, st)
         else
           (let fd = fd\<lparr>fd_CurrentCluster := fd_CurrentCluster fd + 1\<rparr>;
                (ok, buf, st) = rd (fd_CurrentCluster fd) 1 (fd_Buffer fd) st
            in Inr (\<not> ok, set_fd h (fd\<lparr>fd_Buffer := buf\<rparr>) g, st)))
      else
        (case chain_next g (fd_CurrentCluster fd, fd_CurrentSectorInCluster fd) of
           None \<Rightarrow> Inl FatTableRange
         | Some (cluster, sec) \<Rightarrow>
             (let fd = fd\<lparr>fd_CurrentCluster := cluster, fd_CurrentSectorInCluster := sec\<rparr> in
              if cluster \<ge> 0xFF8 then Inr (True, set_fd h (fd\<lparr>fd_Size := fd_Position fd\<rparr>) g, st)
              else
                (let (ok, buf, st) = rd (FAT_ClusterToLba g cluster + sec) 1 (fd_Buffer fd) st
                 in Inr (\<not> ok, set_fd h (fd\<lparr>fd_Buffer := buf\<rparr>) g, st)))))"

text \<open>One iteration: the bytes copied, the count they are taken to be, and whether to break.\<close>

definition fat_read_step ::
  "'b sector_read \<Rightarrow> int \<Rightarrow> u32 \<Rightarrow> fat_data \<times> 'b \<Rightarrow> fat_error + u8 list \<times> u32 \<times> bool \<times> fat_data \<times> 'b" where
  "fat_read_step rd h byteCount gs =
     (let (g, st) = gs;
          fd = get_fd h g;
          off = fd_Position fd mod SECTOR_SIZE;
          leftInBuffer = SECTOR_SIZE - off;
          taken = min16 byteCount leftInBuffer;
          n = unat (ucast taken :: u16) in
      if length (fd_Buffer fd) < unat off + n then Inl FatOverread
      else
        (let data = take n (drop (unat off) (fd_Buffer fd));
             g = set_fd h (fd\<lparr>fd_Position := fd_Position fd + taken\<rparr>) g in
         if leftInBuffer = taken then
           map_sum id (\<lambda>(stop, gs). (data, taken, stop, gs)) (fat_advance rd h (g, st))
         else Inr (data, taken, False, g, st)))"

partial_function (option) fat_read_loop ::
  "'b sector_read \<Rightarrow> int \<Rightarrow> u32 \<Rightarrow> u32 \<Rightarrow> u8 list \<Rightarrow> fat_data \<times> 'b \<Rightarrow>
     (fat_error + u32 \<times> u8 list \<times> fat_data \<times> 'b) option" where
  "fat_read_loop rd h byteCount bytesRead out gs =
     (if byteCount = 0 then Some (Inr (bytesRead, out, gs))
      else (case fat_read_step rd h byteCount gs of
          Inl e \<Rightarrow> Some (Inl e)
        | Inr (data, taken, stop, gs) \<Rightarrow>
            if stop then Some (Inr (bytesRead + taken, out @ data, gs))
            else fat_read_loop rd h (byteCount - taken) (bytesRead + taken) (out @ data) gs))"

declare fat_read_loop.simps [code]

text \<open>\<open>FAT_Read\<close> and \<open>FAT_ReadFar\<close> differ in the kind of destination pointer only.\<close>

definition FAT_ReadImpl ::
  "'b sector_read \<Rightarrow> int \<Rightarrow> u32 \<Rightarrow> fat_data \<times> 'b \<Rightarrow> (fat_error + u32 \<times> u8 list \<times> fat_data \<times> 'b) option" where
  "FAT_ReadImpl rd h byteCount gs =
     (let fd = get_fd h (fst gs);
          byteCount = (if fd_IsDirectory fd then byteCount
            else min16 byteCount (fd_Size fd - fd_Position fd))
      in fat_read_loop rd h byteCount 0 [] gs)"

text \<open>The entry read, or \<open>None\<close> when fewer than 32 bytes came.\<close>

definition FAT_ReadEntry ::
  "'b sector_read \<Rightarrow> int \<Rightarrow> fat_data \<times> 'b \<Rightarrow> (fat_error + fat_dir_entry option \<times> fat_data \<times> 'b) option" where
  "FAT_ReadEntry rd h gs =
     map_option (map_sum id (\<lambda>(n, out, gs). (if n = 32 then Some (dir_entry_of out) else None, gs)))
       (FAT_ReadImpl rd h 32 gs)"

definition FAT_Close :: "int \<Rightarrow> fat_data \<Rightarrow> fat_data" where
  "FAT_Close h g =
     (if fd_Handle (get_fd h g) = ROOT_DIRECTORY_HANDLE then
        set_fd h ((get_fd h g)\<lparr>fd_Position := 0,
          fd_CurrentCluster := fd_FirstCluster (fat_RootDirectory g)\<rparr>) g
      else set_fd h ((get_fd h g)\<lparr>fd_Opened := False\<rparr>) g)"

section \<open>Names and paths\<close>

definition islower :: "u8 \<Rightarrow> bool" where "islower chr \<longleftrightarrow> 97 <=s chr \<and> chr <=s 122"
definition toupper :: "u8 \<Rightarrow> u8" where "toupper chr = (if islower chr then chr - 97 + 65 else chr)"

text \<open>The index of a character before the terminator, in a buffer.\<close>

definition strchr :: "u8 list \<Rightarrow> u8 \<Rightarrow> nat option" where
  "strchr s c = find (\<lambda>i. s ! i = c) [0..<length (takeWhile (\<lambda>x. x \<noteq> 0) s)]"

text \<open>
  The name in 8.3 form. Without a dot the code points its extension at \<open>name + 11\<close>, a byte that
  may lie behind the terminator; \<open>name\<close> is the 256-byte buffer of the caller.
\<close>

definition fat_name :: "u8 list \<Rightarrow> u8 list" where
  "fat_name name =
     (let ext = (case strchr name 46 of None \<Rightarrow> 11 | Some i \<Rightarrow> i);
          base = map toupper (takeWhile (\<lambda>x. x \<noteq> 0) (take (min 8 ext) name));
          extension = (if name ! ext = 46
            then map toupper (takeWhile (\<lambda>x. x \<noteq> 0) (take 3 (drop (ext + 1) name))) else [])
      in base @ replicate (8 - length base) 32 @ extension @ replicate (3 - length extension) 32)"

partial_function (option) fat_find_loop ::
  "'b sector_read \<Rightarrow> int \<Rightarrow> u8 list \<Rightarrow> fat_data \<times> 'b \<Rightarrow>
     (fat_error + fat_dir_entry option \<times> fat_data \<times> 'b) option" where
  "fat_find_loop rd h fatName gs =
     (case FAT_ReadEntry rd h gs of
        None \<Rightarrow> None
      | Some (Inl e) \<Rightarrow> Some (Inl e)
      | Some (Inr (None, gs)) \<Rightarrow> Some (Inr (None, gs))
      | Some (Inr (Some entry, gs)) \<Rightarrow>
          if fatName = de_Name entry then Some (Inr (Some entry, gs))
          else fat_find_loop rd h fatName gs)"

declare fat_find_loop.simps [code]

definition FAT_FindFile ::
  "'b sector_read \<Rightarrow> int \<Rightarrow> u8 list \<Rightarrow> fat_data \<times> 'b \<Rightarrow>
     (fat_error + fat_dir_entry option \<times> fat_data \<times> 'b) option" where
  "FAT_FindFile rd h name gs = fat_find_loop rd h (fat_name name) gs"

text \<open>
  The loop of \<open>FAT_Open\<close> over the components of the path; \<open>name\<close> keeps what earlier components
  left in it. The file pointer is a handle, \<open>None\<close> for null.
\<close>

function fat_open_loop ::
  "'b sector_read \<Rightarrow> u8 list \<Rightarrow> u8 list \<Rightarrow> int option \<Rightarrow> fat_data \<times> 'b \<Rightarrow>
     (fat_error + int option \<times> fat_data \<times> 'b) option" where
  "fat_open_loop rd path name current gs =
     (if path = [] then Some (Inr (current, gs))
      else
        (let component = takeWhile (\<lambda>c. c \<noteq> 47) path;
             isLast = (47 \<notin> set path);
             rest = drop (length component + 1) path in
         if MAX_PATH_SIZE \<le> length component then Some (Inl FatNameOverflow)
         else
           (let name = blit (component @ [0]) name in
            case current of
              None \<Rightarrow> Some (Inl FatNullFile)
            | Some h \<Rightarrow>
                (case FAT_FindFile rd h name gs of
                   None \<Rightarrow> None
                 | Some (Inl e) \<Rightarrow> Some (Inl e)
                 | Some (Inr (None, g, st)) \<Rightarrow> Some (Inr (None, FAT_Close h g, st))
                 | Some (Inr (Some entry, g, st)) \<Rightarrow>
                     (let g = FAT_Close h g in
                      if \<not> isLast \<and> de_Attributes entry AND FAT_ATTRIBUTE_DIRECTORY = 0
                      then Some (Inr (None, g, st))
                      else (let (current, gs) = FAT_OpenEntry rd entry (g, st)
                            in fat_open_loop rd rest name current gs))))))"
  by pat_completeness auto
termination
  by (relation "measure (\<lambda>(rd, path, name, current, gs). length path)") auto

definition FAT_Open ::
  "'b sector_read \<Rightarrow> u8 list \<Rightarrow> u8 list \<Rightarrow> fat_data \<times> 'b \<Rightarrow>
     (fat_error + int option \<times> fat_data \<times> 'b) option" where
  "FAT_Open rd path name gs =
     (let path = (if path \<noteq> [] \<and> hd path = 47 then tl path else path)
      in fat_open_loop rd path name (Some ROOT_DIRECTORY_HANDLE) gs)"

end
