(* ===== verification/FatFile.thy ===== *)
theory FatFile
  imports Fat
begin

text \<open>
  Reading through the FAT driver: the 12-bit table, the sectors of a cluster chain, and the bytes
  that a read delivers, from the contract of the disk layer.
\<close>

unbundle bit_operations_syntax

section \<open>The 12-bit table\<close>

text \<open>The table as FAT12 stores it: two entries in three bytes.\<close>

fun fat12_pack :: "u16 list \<Rightarrow> u8 list" where
  "fat12_pack [] = []"
| "fat12_pack [a] = [ucast a, ucast (drop_bit 8 a)]"
| "fat12_pack (a # b # es) =
     [ucast a, ucast (take_bit 4 (drop_bit 8 a)) OR push_bit 4 (ucast b), ucast (drop_bit 4 b)] @
     fat12_pack es"

definition fat12_val :: "u8 list \<Rightarrow> nat \<Rightarrow> u16" where
  "fat12_val tbl i =
     (let val = (ucast (tbl ! (i * 3 div 2)) OR push_bit 8 (ucast (tbl ! (i * 3 div 2 + 1))) :: u16)
      in if even i then val AND 0x0FFF else drop_bit 4 val)"

lemma and_fff: "w AND 0x0FFF = take_bit 12 w" for w :: u16
proof -
  have "take_bit 12 w = w AND mask 12" by (rule take_bit_eq_mask)
  then show ?thesis by (simp add: mask_eq_exp_minus_1)
qed

lemma fat12_even:
  "take_bit 12 (ucast (ucast a :: u8) OR
     push_bit 8 (ucast (ucast (take_bit 4 (drop_bit 8 a)) OR push_bit 4 (ucast b) :: u8))) = take_bit 12 a"
  "take_bit 12 (ucast (ucast a :: u8) OR push_bit 8 (ucast (ucast (drop_bit 8 a) :: u8))) = take_bit 12 a"
  for a b :: u16
  by (rule bit_word_eqI; auto simp: bit_simps)+

lemma fat12_odd:
  "drop_bit 4 (ucast (ucast (take_bit 4 (drop_bit 8 a)) OR push_bit 4 (ucast b) :: u8) OR
     push_bit 8 (ucast (ucast (drop_bit 4 b) :: u8))) = take_bit 12 b"
  for a b :: u16
  by (rule bit_word_eqI) (auto simp: bit_simps)

lemma fat12_entry:
  "i < length es \<Longrightarrow> i * 3 div 2 + 1 < length (fat12_pack es) \<and>
     fat12_val (fat12_pack es @ rest) i = take_bit 12 (es ! i)"
proof (induction es arbitrary: i rule: fat12_pack.induct)
  case (2 a)
  then show ?case by (simp add: fat12_val_def and_fff fat12_even del: take_bit_or)
next
  case (3 a b es)
  consider "i = 0" | "i = 1" | j where "i = j + 2" by (metis One_nat_def Suc_1 add.commute not0_implies_Suc plus_1_eq_Suc add_2_eq_Suc')
  then show ?case
  proof cases
    case 1
    then show ?thesis by (simp add: fat12_val_def and_fff fat12_even del: take_bit_or)
  next
    case 2
    then show ?thesis by (simp add: fat12_val_def fat12_odd del: drop_bit_or)
  next
    case 3
    have shift: "(fat12_pack (a # b # es) @ rest) ! (k + 3) = (fat12_pack es @ rest) ! k" for k
      by (simp add: numeral_3_eq_3)
    have idx: "(j + 2) * 3 div 2 = j * 3 div 2 + 3" "(j + 2) * 3 div 2 + 1 = (j * 3 div 2 + 1) + 3" by simp_all
    then have "fat12_val (fat12_pack (a # b # es) @ rest) (j + 2) = fat12_val (fat12_pack es @ rest) j"
      unfolding fat12_val_def by (simp only: shift) simp
    moreover have "(j + 2) * 3 div 2 + 1 < length (fat12_pack (a # b # es))"
      unfolding idx using "3.IH" [of j] "3.prems" 3 by simp
    ultimately show ?thesis using 3 "3.IH" [of j] "3.prems" by (simp only:) simp
  qed
qed simp

lemma next_cluster_nat:
  assumes "i < 1431655765"
  shows "FAT_NextCluster tbl (of_nat i) =
    (if length tbl \<le> i * 3 div 2 + 1 then None else Some (ucast (fat12_val tbl i)))"
proof -
  have u: "unat (of_nat i :: u32) = i" using assms by (simp add: unat_of_nat_word)
  have "unat (of_nat i * 3 div 2 :: u32) = i * 3 div 2"
    using assms u by (simp add: unat_div_distrib unat_word_ariths)
  moreover have "(of_nat i :: u32) mod 2 = 0 \<longleftrightarrow> even i"
  proof -
    have "unat ((of_nat i :: u32) mod 2) = i mod 2" using u by (simp add: unat_mod_distrib)
    then show ?thesis by (metis even_iff_mod_2_eq_zero unat_eq_zero unsigned_0)
  qed
  ultimately show ?thesis by (simp add: FAT_NextCluster_def fat12_val_def Let_def)
qed

text \<open>
  C35: Following the FAT: on a table that stores the entries in FAT12's packed form, the successor
  of cluster \<open>i\<close> is entry \<open>i\<close>, its low twelve bits, for even and odd clusters alike.
\<close>

theorem fat12_next_cluster:
  assumes "i < length es" "i < 65536"
  shows "FAT_NextCluster (fat12_pack es @ rest) (of_nat i) = Some (ucast (take_bit 12 (es ! i)))"
  using next_cluster_nat [of i] fat12_entry [OF assms(1), of rest] assms(2) by simp

lemma fat12_next_cluster_witness:
  "FAT_NextCluster (fat12_pack [0xFF0, 0xFFF, 3, 4, 0xFFF]) 3 = Some 4"
  using fat12_next_cluster [of 3 "[0xFF0, 0xFFF, 3, 4, 0xFFF]" "[]"]
  by simp

section \<open>The 16-bit minimum\<close>

lemma min16_small:
  assumes "unat a < 32768" "unat b < 32768"
  shows "min16 a b = (if unat a < unat b then a else b)"
proof -
  have s: "sint (ucast x :: u16) = int (unat x)" if "unat x < 32768" for x :: u32
  proof -
    have "unat (ucast x :: u16) = unat x" using that by (simp add: unsigned_ucast_eq take_bit_nat_eq_self)
    then have "uint (ucast x :: u16) = int (unat x)" by (metis uint_nat)
    moreover have st: "signed_take_bit 15 (int k) = int k" if "k < 32768" for k
      using that by (intro signed_take_bit_int_eq_self) simp_all
    have "signed_take_bit 15 (uint x) = uint x" using st [OF that] by simp
    ultimately show ?thesis by (simp add: sint_uint)
  qed
  have e: "scast (ucast x :: u16) = x" if "unat x < 32768" for x :: u32
    using s [OF that] by (metis scast_eq uint_nat word_of_int_uint)
  have "unat a < unat b \<longleftrightarrow> uint a < uint b" by (simp add: uint_cmp word_less_nat_alt)
  then show ?thesis
    using assms by (simp add: min16_def Let_def word_sless_alt s e)
qed

section \<open>The sectors of a file\<close>

text \<open>The position in the chain after \<open>n\<close> sectors: a cluster and a sector inside it.\<close>

fun chain_at :: "fat_data \<Rightarrow> u32 \<Rightarrow> nat \<Rightarrow> (u32 \<times> u32) option" where
  "chain_at g first 0 = Some (first, 0)"
| "chain_at g first (Suc n) =
     (case chain_at g first n of None \<Rightarrow> None | Some p \<Rightarrow> chain_next g p)"

definition chain_lba :: "fat_data \<Rightarrow> u32 \<times> u32 \<Rightarrow> u32" where
  "chain_lba g p = FAT_ClusterToLba g (fst p) + snd p"

definition sector_lba :: "fat_data \<Rightarrow> u32 \<Rightarrow> nat \<Rightarrow> u32" where
  "sector_lba g first i = chain_lba g (the (chain_at g first i))"

text \<open>Byte \<open>j\<close> of the file that starts at a cluster, on a disk with the given sectors.\<close>

definition file_byte :: "(u32 \<Rightarrow> u8 list) \<Rightarrow> fat_data \<Rightarrow> u32 \<Rightarrow> nat \<Rightarrow> u8" where
  "file_byte img g first j = img (sector_lba g first (j div 512)) ! (j mod 512)"

text \<open>The chain reaches sector \<open>i\<close> without meeting an end mark, and the disk has that sector.\<close>

definition chain_ok :: "(u32 \<Rightarrow> bool) \<Rightarrow> fat_data \<Rightarrow> u32 \<Rightarrow> nat \<Rightarrow> bool" where
  "chain_ok reach g first i \<longleftrightarrow>
     (case chain_at g first i of None \<Rightarrow> False | Some p \<Rightarrow> fst p < 0xFF8 \<and> reach (chain_lba g p))"

text \<open>An open regular file whose buffer holds the sector that its position is in.\<close>

definition file_at :: "(u32 \<Rightarrow> u8 list) \<Rightarrow> int \<Rightarrow> fat_data \<Rightarrow> bool" where
  "file_at img h g \<longleftrightarrow> 0 \<le> h \<and> nat h < length (fat_OpenedFiles g) \<and> fd_Handle (get_fd h g) = h \<and>
     chain_at g (fd_FirstCluster (get_fd h g)) (unat (fd_Position (get_fd h g)) div 512) =
       Some (fd_CurrentCluster (get_fd h g), fd_CurrentSectorInCluster (get_fd h g)) \<and>
     fd_Buffer (get_fd h g) =
       img (sector_lba g (fd_FirstCluster (get_fd h g)) (unat (fd_Position (get_fd h g)) div 512))"

lemma get_set_fd [simp]:
  "0 \<le> h \<Longrightarrow> nat h < length (fat_OpenedFiles g) \<Longrightarrow> get_fd h (set_fd h fd g) = fd"
  by (simp add: get_fd_def set_fd_def ROOT_DIRECTORY_HANDLE_def)

lemma get_set_root [simp]:
  "get_fd ROOT_DIRECTORY_HANDLE (set_fd ROOT_DIRECTORY_HANDLE fd g) = fd"
  by (simp add: get_fd_def set_fd_def)

lemma set_fd_frame [simp]:
  "length (fat_OpenedFiles (set_fd h fd g)) = length (fat_OpenedFiles g)"
  "bs_SectorsPerCluster (set_fd h fd g) = bs_SectorsPerCluster g"
  "g_Fat (set_fd h fd g) = g_Fat g" "g_DataSectionLba (set_fd h fd g) = g_DataSectionLba g"
  by (simp_all add: set_fd_def bs_SectorsPerCluster_def)

lemma set_set_fd [simp]: "set_fd h fd (set_fd h fd' g) = set_fd h fd g"
  by (simp add: set_fd_def)

lemma chain_frame [simp]:
  "chain_next (set_fd h fd g) = chain_next g" "chain_lba (set_fd h fd g) = chain_lba g"
  "FAT_ClusterToLba (set_fd h fd g) = FAT_ClusterToLba g"
  by (auto simp: fun_eq_iff chain_next_def chain_lba_def FAT_ClusterToLba_def)

lemma chain_at_frame [simp]: "chain_at (set_fd h fd g) first n = chain_at g first n"
  by (induction n) (simp_all split: option.splits)

lemma file_frame [simp]:
  "sector_lba (set_fd h fd g) = sector_lba g" "file_byte img (set_fd h fd g) = file_byte img g"
  "chain_ok reach (set_fd h fd g) = chain_ok reach g"
  by (auto simp: fun_eq_iff sector_lba_def file_byte_def chain_ok_def split: option.splits)

lemma same_sector:
  fixes p i :: nat
  assumes "p mod 512 + i < 512"
  shows "(p + i) mod 512 = p mod 512 + i" "(p + i) div 512 = p div 512"
proof -
  show m: "(p + i) mod 512 = p mod 512 + i"
    using assms by (metis mod_add_left_eq mod_less)
  show "(p + i) div 512 = p div 512"
    using m div_mult_mod_eq [of "p + i" 512] div_mult_mod_eq [of p 512] by linarith
qed

lemma file_bytes_in_sector:
  assumes "p mod 512 + n \<le> 512" "length (img (sector_lba g first (p div 512))) = 512"
  shows "take n (drop (p mod 512) (img (sector_lba g first (p div 512)))) =
    map (file_byte img g first) [p..<p + n]"
proof (rule nth_equalityI)
  fix i assume "i < length (take n (drop (p mod 512) (img (sector_lba g first (p div 512)))))"
  then have i: "i < n" by simp
  have lt: "p mod 512 + i < 512" using i assms(1) by simp
  note eqs = same_sector [OF lt]
  with i assms eqs show "take n (drop (p mod 512) (img (sector_lba g first (p div 512)))) ! i =
      map (file_byte img g first) [p..<p + n] ! i"
    by (simp add: file_byte_def)
qed (use assms in simp)

end
