(* ===== verification/FatRead.thy ===== *)
theory FatRead
  imports FatFile
begin

text \<open>
  What \<open>FAT_Read\<close> delivers, proved from the contract of the disk layer: the bytes of the cluster
  chain in order, across sectors and clusters.
\<close>

unbundle bit_operations_syntax

section \<open>Positions\<close>

lemma position_words:
  fixes P :: u32
  shows "unat (P mod SECTOR_SIZE) = unat P mod 512"
    "unat (SECTOR_SIZE - P mod SECTOR_SIZE) = 512 - unat P mod 512"
proof -
  show m: "unat (P mod SECTOR_SIZE) = unat P mod 512"
    by (simp add: SECTOR_SIZE_def unat_mod_distrib)
  have "P mod SECTOR_SIZE \<le> SECTOR_SIZE"
    using m by (simp add: word_le_nat_alt SECTOR_SIZE_def less_imp_le)
  then show "unat (SECTOR_SIZE - P mod SECTOR_SIZE) = 512 - unat P mod 512"
    using m by (simp add: unat_word_sub) (simp add: SECTOR_SIZE_def)
qed

lemma taken_words:
  fixes P :: u32
  assumes "n < 32768"
  defines "taken \<equiv> min16 (of_nat n) (SECTOR_SIZE - P mod SECTOR_SIZE)"
  shows "unat taken = min n (512 - unat P mod 512)" "unat (ucast taken :: u16) = min n (512 - unat P mod 512)"
    "taken = of_nat (min n (512 - unat P mod 512))"
    "SECTOR_SIZE - P mod SECTOR_SIZE = taken \<longleftrightarrow> min n (512 - unat P mod 512) = 512 - unat P mod 512"
proof -
  let ?left = "SECTOR_SIZE - P mod SECTOR_SIZE"
  have l: "unat ?left = 512 - unat P mod 512" by (rule position_words)
  have n: "unat (of_nat n :: u32) = n" using assms by (simp add: unat_of_nat_word)
  have t: "taken = (if n < 512 - unat P mod 512 then of_nat n else ?left)"
    unfolding taken_def using min16_small [of "of_nat n" ?left] n l assms(1) by simp
  then show u: "unat taken = min n (512 - unat P mod 512)"
    using l n by (simp add: min_def)
  then show "unat (ucast taken :: u16) = min n (512 - unat P mod 512)"
    by (simp add: unsigned_ucast_eq take_bit_nat_eq_self min_def)
  show "taken = of_nat (min n (512 - unat P mod 512))" using u by (rule word_of_unat)
  show "?left = taken \<longleftrightarrow> min n (512 - unat P mod 512) = 512 - unat P mod 512"
    using u l by (metis unsigned_word_eqI)
qed

lemma set_get_fd [simp]: "set_fd h (get_fd h g) g = g"
  by (simp add: set_fd_def get_fd_def)

lemma sector_boundary:
  "(p + (512 - p mod 512)) div 512 = Suc (p div 512)" "(p + (512 - p mod 512)) mod 512 = 0" for p :: nat
proof -
  define q r where "q = p div 512" and "r = p mod 512"
  then have "p = q * 512 + r" "r < 512" by simp_all
  then have "p + (512 - r) = (q + 1) * 512" by simp
  then show "(p + (512 - p mod 512)) div 512 = Suc (p div 512)" "(p + (512 - p mod 512)) mod 512 = 0"
    unfolding q_def r_def by (metis nonzero_mult_div_cancel_right Suc_eq_plus1 zero_neq_numeral, metis mod_mult_self2_is_0)
qed

text \<open>What a read may change: one file, in its position and its place in the chain.\<close>

definition same_file :: "fat_file_data \<Rightarrow> fat_file_data \<Rightarrow> bool" where
  "same_file fd fd' \<longleftrightarrow> fd_Handle fd' = fd_Handle fd \<and> fd_IsDirectory fd' = fd_IsDirectory fd \<and>
     fd_FirstCluster fd' = fd_FirstCluster fd \<and> fd_Size fd' = fd_Size fd \<and> fd_Opened fd' = fd_Opened fd"

lemma same_file_refl [simp]: "same_file fd fd"
  by (simp add: same_file_def)

lemma same_file_trans: "same_file a b \<Longrightarrow> same_file b c \<Longrightarrow> same_file a c"
  by (simp add: same_file_def)

context sector_source
begin

lemma read_step:
  assumes "file_at img h g" "0 < n" "n < 32768"
  defines "fd \<equiv> get_fd h g"
  defines "p \<equiv> unat (fd_Position fd)"
  defines "t \<equiv> min n (512 - p mod 512)"
  shows "fat_read_step rd h (of_nat n) (g, st) =
    (let data = map (file_byte img g (fd_FirstCluster fd)) [p..<p + t];
         g' = set_fd h (fd\<lparr>fd_Position := fd_Position fd + of_nat t\<rparr>) g in
     if t = 512 - p mod 512 then
       map_sum id (\<lambda>(stop, gs). (data, of_nat t, stop, gs)) (fat_advance rd h (g', st))
     else Inr (data, of_nat t, False, g', st))"
proof -
  note words = taken_words [OF assms(3), of "fd_Position fd", folded p_def, folded t_def]
  have off: "unat (fd_Position fd mod SECTOR_SIZE) = p mod 512" by (simp add: position_words p_def)
  have buf: "fd_Buffer fd = img (sector_lba g (fd_FirstCluster fd) (p div 512))"
    using assms(1) by (simp add: file_at_def fd_def p_def)
  have t512: "p mod 512 + t \<le> 512"
  proof -
    have "t \<le> 512 - p mod 512" by (simp add: t_def)
    moreover have "p mod 512 < 512" by simp
    ultimately show ?thesis by linarith
  qed
  have data: "take t (drop (p mod 512) (fd_Buffer fd)) = map (file_byte img g (fd_FirstCluster fd)) [p..<p + t]"
    unfolding buf using t512 by (intro file_bytes_in_sector) (simp_all add: img_length)
  have "length (fd_Buffer fd) = 512" by (simp add: buf img_length)
  then show ?thesis
    using t512 data
    by (simp add: fat_read_step_def Let_def fd_def [symmetric] off words(2) words(4)) (simp add: words(3))
qed

lemma advance:
  assumes "file_at img h g" "good st"
  defines "fd \<equiv> get_fd h g"
  defines "k \<equiv> unat (fd_Position fd) div 512"
  assumes "chain_at g (fd_FirstCluster fd) (Suc k) \<noteq> None" "unat P div 512 = Suc k"
  shows "\<exists>stop fd' st'. fat_advance rd h (set_fd h (fd\<lparr>fd_Position := P\<rparr>) g, st) =
      Inr (stop, set_fd h fd' g, st') \<and> (fd_Size fd' = fd_Size fd \<or> fd_Size fd' = P) \<and> fd_Handle fd' = h \<and>
    (chain_ok reach g (fd_FirstCluster fd) (Suc k) \<longrightarrow>
       \<not> stop \<and> good st' \<and> file_at img h (set_fd h fd' g) \<and> same_file fd fd' \<and> fd_Position fd' = P)"
proof -
  have f: "0 \<le> h" "nat h < length (fat_OpenedFiles g)" "fd_Handle fd = h" "h \<noteq> ROOT_DIRECTORY_HANDLE"
    "chain_at g (fd_FirstCluster fd) k = Some (fd_CurrentCluster fd, fd_CurrentSectorInCluster fd)"
    "length (fd_Buffer fd) = 512"
    using assms(1) by (auto simp: file_at_def fd_def k_def ROOT_DIRECTORY_HANDLE_def img_length)
  obtain c s where nxt: "chain_next g (fd_CurrentCluster fd, fd_CurrentSectorInCluster fd) = Some (c, s)"
    using assms(5) f(5) by auto
  then have at: "chain_at g (fd_FirstCluster fd) (Suc k) = Some (c, s)" using f(5) by simp
  define fd1 where "fd1 = fd\<lparr>fd_Position := P, fd_CurrentCluster := c, fd_CurrentSectorInCluster := s\<rparr>"
  have adv: "fat_advance rd h (set_fd h (fd\<lparr>fd_Position := P\<rparr>) g, st) =
      (if c \<ge> 0xFF8 then Inr (True, set_fd h (fd1\<lparr>fd_Size := P\<rparr>) g, st)
       else (let (ok, buf, st) = rd (FAT_ClusterToLba g c + s) 1 (fd_Buffer fd) st
             in Inr (\<not> ok, set_fd h (fd1\<lparr>fd_Buffer := buf\<rparr>) g, st)))"
    using f(1-4) nxt by (simp add: fat_advance_def Let_def fd1_def)
  show ?thesis
  proof (cases "chain_ok reach g (fd_FirstCluster fd) (Suc k)")
    case False
    then show ?thesis unfolding adv using f(3) by (auto simp: fd1_def split: prod.splits)
  next
    case True
    then have "c < 0xFF8" "reach (chain_lba g (c, s))" using at by (simp_all add: chain_ok_def)
    with rd_one [OF assms(2) _ f(6), of "chain_lba g (c, s)"] obtain st' where
      r: "rd (FAT_ClusterToLba g c + s) 1 (fd_Buffer fd) st = (True, img (chain_lba g (c, s)), st')" "good st'"
      by (auto simp: chain_lba_def)
    let ?fd' = "fd1\<lparr>fd_Buffer := img (chain_lba g (c, s))\<rparr>"
    have "file_at img h (set_fd h ?fd' g)"
      using f(1-3) at assms(6) by (simp add: file_at_def fd1_def sector_lba_def del: chain_at.simps)
    moreover have "same_file fd ?fd'" by (simp add: same_file_def fd1_def)
    ultimately show ?thesis
      unfolding adv using r f(3) \<open>c < 0xFF8\<close>
      by (intro exI [of _ False] exI [of _ ?fd'] exI [of _ st']) (simp add: fd1_def not_le)
  qed
qed

lemma read_loop:
  assumes "file_at img h g" "good st" "n < 32768"
  defines "fd \<equiv> get_fd h g"
  defines "p \<equiv> unat (fd_Position fd)"
  assumes "p + n < 4294967296" "chain_at g (fd_FirstCluster fd) ((p + n) div 512) \<noteq> None"
    "\<forall>i. p div 512 < i \<and> i * 512 < p + n \<longrightarrow> chain_ok reach g (fd_FirstCluster fd) i"
  shows "\<exists>fd' st'. fat_read_loop rd h (of_nat n) br out (g, st) =
      Some (Inr (br + of_nat n, out @ map (file_byte img g (fd_FirstCluster fd)) [p..<p + n], set_fd h fd' g, st')) \<and>
    fd_Handle fd' = h \<and> (fd_Size fd' = fd_Size fd \<or> fd_Size fd' = fd_Position fd + of_nat n) \<and>
    (chain_ok reach g (fd_FirstCluster fd) ((p + n) div 512) \<or> (p + n) mod 512 \<noteq> 0 \<longrightarrow>
       good st' \<and> file_at img h (set_fd h fd' g) \<and> same_file fd fd' \<and>
       fd_Position fd' = fd_Position fd + of_nat n)"
  using assms(1,2,3,6,7,8)
  unfolding fd_def p_def
proof (induction n arbitrary: g st br out rule: less_induct)
  case (less n)
  let ?fd = "get_fd h g"
  let ?P = "fd_Position ?fd" and ?F = "fd_FirstCluster ?fd"
  let ?p = "unat ?P"
  show ?case
  proof (cases "n = 0")
    case True
    with less.prems(1,2) show ?thesis
      by (intro exI [of _ ?fd] exI [of _ st]) (simp add: fat_read_loop.simps file_at_def)
  next
    case False
    define t where "t = min n (512 - ?p mod 512)"
    have t: "0 < t" "t \<le> n" using False by (simp_all add: t_def)
    have n0: "(of_nat n :: u32) \<noteq> 0" using False less.prems(3) of_nat_word_inj [of n 0, where 'a = 32] by simp
    have sub: "(of_nat n - of_nat t :: u32) = of_nat (n - t)" using t(2) by (simp add: of_nat_diff)
    have pos: "unat (?P + of_nat t) = ?p + t"
    proof -
      have "unat (of_nat t :: u32) = t" using t(2) less.prems(3) by (simp add: unat_of_nat_word)
      then show ?thesis using less.prems(4) t(2) by (simp add: unat_word_ariths)
    qed
    let ?data = "map (file_byte img g ?F) [?p..<?p + t]"
    note step = read_step [OF less.prems(1) _ less.prems(3), of st, folded t_def, unfolded Let_def]
    have f: "0 \<le> h" "nat h < length (fat_OpenedFiles g)" "fd_Handle ?fd = h"
      using less.prems(1) by (simp_all add: file_at_def)
    show ?thesis
    proof (cases "t = 512 - ?p mod 512")
      case True
      have k: "(?p + t) div 512 = Suc (?p div 512)" "(?p + t) mod 512 = 0"
        unfolding True by (rule sector_boundary)+
      have more: "chain_ok reach g ?F (Suc (?p div 512))" if "t < n"
        using less.prems(6) [rule_format, of "Suc (?p div 512)"] k that div_mult_mod_eq [of "?p + t" 512]
        by simp
      have at: "chain_at g ?F (Suc (?p div 512)) \<noteq> None"
      proof (cases "t = n")
        case True
        with less.prems(5) k show ?thesis by simp
      next
        case False
        with more t show ?thesis by (auto simp: chain_ok_def split: option.splits)
      qed
      from advance [OF less.prems(1,2) at, of "?P + of_nat t"] pos k
      obtain stop fd' st' where adv:
        "fat_advance rd h (set_fd h (?fd\<lparr>fd_Position := ?P + of_nat t\<rparr>) g, st) = Inr (stop, set_fd h fd' g, st')"
        "fd_Size fd' = fd_Size ?fd \<or> fd_Size fd' = ?P + of_nat t" "fd_Handle fd' = h"
        "chain_ok reach g ?F (Suc (?p div 512)) \<longrightarrow>
          \<not> stop \<and> good st' \<and> file_at img h (set_fd h fd' g) \<and> same_file ?fd fd' \<and> fd_Position fd' = ?P + of_nat t"
        by auto
      have loop: "fat_read_loop rd h (of_nat n) br out (g, st) =
          (if stop then Some (Inr (br + of_nat t, out @ ?data, set_fd h fd' g, st'))
           else fat_read_loop rd h (of_nat (n - t)) (br + of_nat t) (out @ ?data) (set_fd h fd' g, st'))"
      proof -
        have "fat_read_step rd h (of_nat n) (g, st) = Inr (?data, of_nat t, stop, set_fd h fd' g, st')"
          using step False True adv(1) by simp
        then show ?thesis by (subst fat_read_loop.simps) (simp add: n0 sub)
      qed
      show ?thesis
      proof (cases "t = n")
        case True
        then show ?thesis
          unfolding loop using adv(2-4) k
          by (intro exI [of _ fd'] exI [of _ st']) (auto simp: fat_read_loop.simps)
      next
        case lt: False
        then have ok: "chain_ok reach g ?F (Suc (?p div 512))" using more t by simp
        with adv(4) have a: "\<not> stop" "good st'" "file_at img h (set_fd h fd' g)" "same_file ?fd fd'"
          "fd_Position fd' = ?P + of_nat t" by blast+
        have fd': "get_fd h (set_fd h fd' g) = fd'" using f by simp
        have eqs: "unat (fd_Position fd') = ?p + t" "fd_FirstCluster fd' = ?F"
          using a(4,5) pos by (simp_all add: same_file_def)
        have sum: "?p + t + (n - t) = ?p + n" using t by simp
        have "\<exists>fd'' st''. fat_read_loop rd h (of_nat (n - t)) (br + of_nat t) (out @ ?data) (set_fd h fd' g, st') =
            Some (Inr (br + of_nat t + of_nat (n - t), (out @ ?data) @ map (file_byte img g ?F) [?p + t..<?p + n],
              set_fd h fd'' g, st'')) \<and>
          fd_Handle fd'' = h \<and> (fd_Size fd'' = fd_Size fd' \<or> fd_Size fd'' = fd_Position fd' + of_nat (n - t)) \<and>
          (chain_ok reach g ?F ((?p + n) div 512) \<or> (?p + n) mod 512 \<noteq> 0 \<longrightarrow>
             good st'' \<and> file_at img h (set_fd h fd'' g) \<and> same_file fd' fd'' \<and>
             fd_Position fd'' = fd_Position fd' + of_nat (n - t))"
          using less.IH [of "n - t" "set_fd h fd' g" st' "br + of_nat t" "out @ ?data", unfolded fd' eqs sum]
            a less.prems t k by simp
        then obtain fd'' st'' where r:
          "fat_read_loop rd h (of_nat (n - t)) (br + of_nat t) (out @ ?data) (set_fd h fd' g, st') =
            Some (Inr (br + of_nat t + of_nat (n - t), (out @ ?data) @ map (file_byte img g ?F) [?p + t..<?p + n],
              set_fd h fd'' g, st''))"
          "fd_Handle fd'' = h" "fd_Size fd'' = fd_Size fd' \<or> fd_Size fd'' = fd_Position fd' + of_nat (n - t)"
          "chain_ok reach g ?F ((?p + n) div 512) \<or> (?p + n) mod 512 \<noteq> 0 \<longrightarrow>
             good st'' \<and> file_at img h (set_fd h fd'' g) \<and> same_file fd' fd'' \<and>
             fd_Position fd'' = fd_Position fd' + of_nat (n - t)"
          by blast
        have split: "[?p..<?p + n] = [?p..<?p + t] @ [?p + t..<?p + n]"
          using t upt_add_eq_append [of ?p "?p + t" "n - t"] sum by simp
        have sz: "fd_Size fd'' = fd_Size ?fd \<or> fd_Size fd'' = ?P + of_nat n"
          using r(3) a(4,5) t by (auto simp: same_file_def of_nat_diff)
        have ofn: "(of_nat t + of_nat (n - t) :: u32) = of_nat n" using t by (metis le_add_diff_inverse of_nat_add)
        show ?thesis
          unfolding loop using a r ofn same_file_trans [OF a(4)] sz
          by (intro exI [of _ fd''] exI [of _ st''])
             (simp add: split add.assoc of_nat_diff)
      qed
    next
      case lt: False
      then have tn: "t = n" "?p mod 512 + n < 512" by (auto simp: t_def min_def split: if_splits)
      then have same: "(?p + n) div 512 = ?p div 512"
        by (intro same_sector)
      let ?fd' = "?fd\<lparr>fd_Position := ?P + of_nat n\<rparr>"
      have "fat_read_loop rd h (of_nat n) br out (g, st) =
          Some (Inr (br + of_nat n, out @ ?data, set_fd h ?fd' g, st))"
        by (subst fat_read_loop.simps) (use False n0 lt tn(1) in \<open>simp add: step Let_def fat_read_loop.simps\<close>)
      moreover have "file_at img h (set_fd h ?fd' g)"
        using less.prems(1) f pos tn same by (simp add: file_at_def)
      ultimately show ?thesis
        using less.prems(2) tn f(3) by (intro exI [of _ ?fd'] exI [of _ st]) (simp add: same_file_def)
    qed
  qed
qed

end

section \<open>Reading a file\<close>

lemma sint_u16: "sint (w :: u16) = (int (unat w) + 32768) mod 65536 - 32768"
  by (simp add: sint_uint signed_take_bit_eq_take_bit_shift take_bit_eq_mod)

lemma centred_mod:
  "32768 \<le> k \<Longrightarrow> k < 65536 \<Longrightarrow> (k + 32768) mod 65536 - 32768 = k - 65536"
  "0 \<le> k \<Longrightarrow> k < 32768 \<Longrightarrow> (k + 32768) mod 65536 - 32768 = k" for k :: int
proof -
  assume "32768 \<le> k" "k < 65536"
  then have "(k - 32768 + 65536) mod 65536 = k - 32768"
    by (simp only: mod_add_self2) (simp add: mod_pos_pos_trivial)
  moreover have "k - 32768 + 65536 = k + 32768" by simp
  ultimately show "(k + 32768) mod 65536 - 32768 = k - 65536" by (simp only:)
qed (simp add: mod_pos_pos_trivial)

lemma sint_u16_high: "32768 \<le> unat (w :: u16) \<Longrightarrow> sint w < 0"
  using centred_mod(1) [of "int (unat w)"] unat_u16_less [of w] unfolding sint_u16 by linarith

lemma sint_u16_low: "unat (w :: u16) < 32768 \<Longrightarrow> 0 \<le> sint w"
  using centred_mod(2) [of "int (unat w)"] unfolding sint_u16 by linarith

abbreviation floppy_read :: "u8 list \<Rightarrow> nat sector_read" where
  "floppy_read di \<equiv> DISK_ReadSectors (image_bios floppy di) floppy"

abbreviation floppy_sector :: "u8 list \<Rightarrow> u32 \<Rightarrow> u8 list" where
  "floppy_sector di lba \<equiv> image_sector di (unat lba)"

abbreviation floppy_reach :: "u32 \<Rightarrow> bool" where
  "floppy_reach lba \<equiv> unat lba < 65536"

text \<open>The count a read is reduced to: what is asked for, but no more than the file still has.\<close>

definition read_count :: "u32 \<Rightarrow> fat_file_data \<Rightarrow> nat" where
  "read_count byteCount fd = min (unat byteCount) (unat (fd_Size fd) - unat (fd_Position fd))"

context sector_source
begin

lemma read_file:
  assumes "file_at img h g" "good st"
    "\<not> fd_IsDirectory (get_fd h g)" "fd_Position (get_fd h g) \<le> fd_Size (get_fd h g)"
    "unat byteCount < 32768" "unat (fd_Size (get_fd h g)) - unat (fd_Position (get_fd h g)) < 32768"
    "p = unat (fd_Position (get_fd h g))" "n = read_count byteCount (get_fd h g)"
    "first = fd_FirstCluster (get_fd h g)" "chain_at g first ((p + n) div 512) \<noteq> None"
    "\<forall>i. p div 512 < i \<and> i * 512 < p + n \<longrightarrow> chain_ok reach g first i"
  shows "\<exists>fd' st'. FAT_ReadImpl rd h byteCount (g, st) =
      Some (Inr (of_nat n, map (file_byte img g first) [p..<p + n], set_fd h fd' g, st')) \<and>
    fd_Handle fd' = h \<and> (fd_Size fd' = fd_Size (get_fd h g) \<or> unat (fd_Size fd') = p + n) \<and>
    (chain_ok reach g first ((p + n) div 512) \<or> (p + n) mod 512 \<noteq> 0 \<longrightarrow>
      file_at img h (set_fd h fd' g) \<and> good st' \<and> unat (fd_Position fd') = p + n \<and> same_file (get_fd h g) fd')"
proof -
  let ?fd = "get_fd h g"
  have left: "unat (fd_Size ?fd - fd_Position ?fd) = unat (fd_Size ?fd) - unat (fd_Position ?fd)"
    using assms(4) by (rule unat_word_sub)
  have le: "p + n < 4294967296"
    using assms(4,7,8) unat_u32_less [of "fd_Size ?fd"] by (simp add: read_count_def word_le_nat_alt)
  have n: "n < 32768" using assms(5,8) by (simp add: read_count_def)
  have "min16 byteCount (fd_Size ?fd - fd_Position ?fd) = of_nat n"
    using min16_small [of byteCount "fd_Size ?fd - fd_Position ?fd"] assms(5,6,8) left
    by (intro word_of_unat) (simp add: read_count_def min_def)
  then have impl: "FAT_ReadImpl rd h byteCount (g, st) = fat_read_loop rd h (of_nat n) 0 [] (g, st)"
    using assms(3) by (simp add: FAT_ReadImpl_def)
  have pos: "unat (fd_Position ?fd + of_nat n) = p + n"
    using le assms(7) n by (simp add: unat_word_ariths unat_of_nat_word)
  from read_loop [OF assms(1,2) n, of 0 "[]"] le assms(7,9,10,11) obtain fd' st' where
    "FAT_ReadImpl rd h byteCount (g, st) =
      Some (Inr (of_nat n, map (file_byte img g first) [p..<p + n], set_fd h fd' g, st'))"
    "fd_Handle fd' = h" "fd_Size fd' = fd_Size ?fd \<or> fd_Size fd' = fd_Position ?fd + of_nat n"
    "chain_ok reach g first ((p + n) div 512) \<or> (p + n) mod 512 \<noteq> 0 \<longrightarrow>
       good st' \<and> file_at img h (set_fd h fd' g) \<and> same_file ?fd fd' \<and> fd_Position fd' = fd_Position ?fd + of_nat n"
    unfolding impl by auto
  with pos show ?thesis by (intro exI [of _ fd'] exI [of _ st']) auto
qed

end

text \<open>
  The file as the volume defines it, without the driver: the clusters that follow the first one in a
  table of 12-bit entries, the sectors of a cluster at their place in the data area, and the bytes of
  these sectors. Cluster 2 is the first of the data area.
\<close>

primrec nth_cluster :: "u16 list \<Rightarrow> nat \<Rightarrow> nat \<Rightarrow> nat" where
  "nth_cluster es c 0 = c"
| "nth_cluster es c (Suc k) = unat (es ! nth_cluster es c k) mod 4096"

definition per_cluster :: "fat_data \<Rightarrow> nat" where
  "per_cluster g = unat (bs_SectorsPerCluster g)"

definition fat_sector :: "u16 list \<Rightarrow> fat_data \<Rightarrow> nat \<Rightarrow> nat \<Rightarrow> nat" where
  "fat_sector es g first i =
     unat (g_DataSectionLba g) + (nth_cluster es first (i div per_cluster g) - 2) * per_cluster g + i mod per_cluster g"

definition fat_byte :: "u8 list \<Rightarrow> u16 list \<Rightarrow> fat_data \<Rightarrow> nat \<Rightarrow> nat \<Rightarrow> u8" where
  "fat_byte di es g first j = image_sector di (fat_sector es g first (j div 512)) ! (j mod 512)"

text \<open>Sector \<open>i\<close> of the file is in a cluster of the data area that the table has, on the floppy.\<close>

definition fat_has :: "u16 list \<Rightarrow> fat_data \<Rightarrow> nat \<Rightarrow> nat \<Rightarrow> bool" where
  "fat_has es g first i \<longleftrightarrow> (let c = nth_cluster es first (i div per_cluster g) in
     2 \<le> c \<and> c < 0xFF8 \<and> c < length es \<and> fat_sector es g first i < 65536)"

definition fat_table :: "u16 list \<Rightarrow> fat_data \<Rightarrow> bool" where
  "fat_table es g \<longleftrightarrow> 0 < per_cluster g \<and> (\<exists>rest. g_Fat g = fat12_pack es @ rest)"

text \<open>An open file whose position is in sector \<open>i\<close> of the chain, with that sector in its buffer.\<close>

definition fat_at :: "u8 list \<Rightarrow> u16 list \<Rightarrow> int \<Rightarrow> fat_data \<Rightarrow> bool" where
  "fat_at di es h g \<longleftrightarrow> (let fd = get_fd h g; first = unat (fd_FirstCluster fd); i = unat (fd_Position fd) div 512 in
     0 \<le> h \<and> nat h < length (fat_OpenedFiles g) \<and> fd_Handle fd = h \<and> \<not> fd_IsDirectory fd \<and>
     (\<forall>j \<le> i. fat_has es g first j) \<and>
     unat (fd_CurrentCluster fd) = nth_cluster es first (i div per_cluster g) \<and>
     unat (fd_CurrentSectorInCluster fd) = i mod per_cluster g \<and>
     fd_Buffer fd = image_sector di (fat_sector es g first i))"

lemma per_cluster_less: "per_cluster g < 256"
  unfolding per_cluster_def by (rule unat_u8_less)

text \<open>The driver's walk through the chain meets these clusters and sectors.\<close>

lemma next_in_table:
  assumes "fat_table es g" "c < length es" "c < 0xFF8"
  shows "FAT_NextCluster (g_Fat g) (of_nat c) = Some (of_nat (unat (es ! c) mod 4096))"
proof -
  obtain rest where rest: "g_Fat g = fat12_pack es @ rest" using assms(1) by (auto simp: fat_table_def)
  have "(ucast (take_bit 12 (es ! c)) :: u32) = of_nat (unat (es ! c) mod 4096)"
    by (rule word_of_unat) (simp only: unat_ucast_up16_32 unsigned_take_bit_eq, simp add: take_bit_eq_mod)
  with next_cluster_nat [of c "g_Fat g"] fat12_entry [OF assms(2), of rest] assms(3) show ?thesis
    by (simp add: rest)
qed

lemma chain_at_table:
  assumes "fat_table es g"
  shows "(\<forall>j < i. fat_has es g first j) \<Longrightarrow> chain_at g (of_nat first) i =
    Some (of_nat (nth_cluster es first (i div per_cluster g)), of_nat (i mod per_cluster g))"
proof (induction i)
  case 0
  then show ?case by simp
next
  case (Suc i)
  let ?s = "per_cluster g" and ?c = "nth_cluster es first (i div per_cluster g)"
  have s: "0 < ?s" "?s < 256" using assms per_cluster_less [of g] by (simp_all add: fat_table_def)
  have at: "chain_at g (of_nat first) i = Some (of_nat ?c, of_nat (i mod ?s))" using Suc by simp
  have c: "?c < length es" "?c < 0xFF8" using Suc.prems by (auto simp: fat_has_def Let_def)
  have m: "i mod ?s < ?s" using s(1) by simp
  have "unat (of_nat (i mod ?s) + 1 :: u32) = i mod ?s + 1"
    using m s(2) by (simp add: unat_word_ariths unat_of_nat_word)
  moreover have "unat (ucast (bs_SectorsPerCluster g) :: u32) = ?s"
    by (simp add: per_cluster_def unat_ucast_up8_32)
  ultimately have "(of_nat (i mod ?s) + 1 :: u32) \<ge> ucast (bs_SectorsPerCluster g) \<longleftrightarrow> ?s \<le> i mod ?s + 1"
    by (simp only: word_le_nat_alt)
  then have nxt: "chain_next g (of_nat ?c, of_nat (i mod ?s)) =
      (if ?s \<le> i mod ?s + 1 then Some (of_nat (unat (es ! ?c) mod 4096), 0) else Some (of_nat ?c, of_nat (i mod ?s + 1)))"
    by (simp add: chain_next_def next_in_table [OF assms c])
  show ?case
  proof (cases "Suc (i mod ?s) = ?s")
    case True
    then have "Suc i mod ?s = 0" "Suc i div ?s = Suc (i div ?s)" by (simp_all add: mod_Suc div_Suc)
    with at nxt True show ?thesis by simp
  next
    case False
    then have "Suc i mod ?s = Suc (i mod ?s)" "Suc i div ?s = i div ?s" by (simp_all add: mod_Suc div_Suc)
    with at nxt False m show ?thesis by simp
  qed
qed

lemma chain_lba_table:
  assumes "fat_has es g first i"
  shows "unat (chain_lba g (of_nat (nth_cluster es first (i div per_cluster g)), of_nat (i mod per_cluster g))) =
    fat_sector es g first i"
proof -
  let ?c = "nth_cluster es first (i div per_cluster g)"
  have h: "2 \<le> ?c" "fat_sector es g first i < 65536" using assms by (simp_all add: fat_has_def Let_def)
  have "(of_nat ?c - 2 :: u32) = of_nat (?c - 2)" using h(1) by (simp add: of_nat_diff)
  moreover have "(ucast (bs_SectorsPerCluster g) :: u32) = of_nat (per_cluster g)"
    by (rule word_of_unat) (simp add: per_cluster_def unat_ucast_up8_32)
  ultimately have "chain_lba g (of_nat ?c, of_nat (i mod per_cluster g)) = of_nat (fat_sector es g first i)"
    by (simp add: chain_lba_def FAT_ClusterToLba_def fat_sector_def)
  then show ?thesis using h(2) by (simp add: unat_of_nat_word)
qed

lemma chain_table:
  assumes "fat_table es g" "\<forall>j \<le> i. fat_has es g first j"
  shows "chain_ok floppy_reach g (of_nat first) i" "unat (sector_lba g (of_nat first) i) = fat_sector es g first i"
proof -
  have has: "fat_has es g first i" using assms(2) by simp
  note at = chain_at_table [OF assms(1), of i first] chain_lba_table [OF has]
  have "nth_cluster es first (i div per_cluster g) < 0xFF8" using has by (simp add: fat_has_def Let_def)
  then have "(of_nat (nth_cluster es first (i div per_cluster g)) :: u32) < 0xFF8"
    by (simp add: word_less_nat_alt unat_of_nat_word)
  with at assms(2) has show "chain_ok floppy_reach g (of_nat first) i" "unat (sector_lba g (of_nat first) i) = fat_sector es g first i"
    by (simp_all add: chain_ok_def sector_lba_def fat_has_def Let_def)
qed

lemma fat_at_file:
  assumes "fat_table es g" "0 \<le> h" "nat h < length (fat_OpenedFiles g)"
    "\<forall>j \<le> unat (fd_Position (get_fd h g)) div 512. fat_has es g (unat (fd_FirstCluster (get_fd h g))) j"
  shows "fat_at di es h g \<longleftrightarrow> file_at (floppy_sector di) h g \<and> \<not> fd_IsDirectory (get_fd h g)"
proof -
  let ?fd = "get_fd h g"
  let ?f = "unat (fd_FirstCluster ?fd)" and ?i = "unat (fd_Position ?fd) div 512"
  note ch = chain_table [OF assms(1,4)]
  have at: "chain_at g (fd_FirstCluster ?fd) ?i =
      Some (of_nat (nth_cluster es ?f (?i div per_cluster g)), of_nat (?i mod per_cluster g))"
    using chain_at_table [OF assms(1), of ?i ?f] assms(4) by simp
  have small: "nth_cluster es ?f (?i div per_cluster g) < 4294967296" "?i mod per_cluster g < 4294967296"
  proof -
    have "nth_cluster es ?f (?i div per_cluster g) < 0xFF8" using assms(4) by (auto simp: fat_has_def Let_def)
    then show "nth_cluster es ?f (?i div per_cluster g) < 4294967296" by simp
    have "0 < per_cluster g" using assms(1) by (simp add: fat_table_def)
    then have "?i mod per_cluster g < per_cluster g" by simp
    then show "?i mod per_cluster g < 4294967296" using per_cluster_less [of g] by simp
  qed
  have w: "w = of_nat n \<longleftrightarrow> unat w = n" if "n < 4294967296" for w :: u32 and n
    using that by (auto simp: unat_of_nat_word)
  have "of_nat (nth_cluster es ?f (?i div per_cluster g)) = fd_CurrentCluster ?fd \<longleftrightarrow>
      unat (fd_CurrentCluster ?fd) = nth_cluster es ?f (?i div per_cluster g)"
    "of_nat (?i mod per_cluster g) = fd_CurrentSectorInCluster ?fd \<longleftrightarrow>
      unat (fd_CurrentSectorInCluster ?fd) = ?i mod per_cluster g"
    using w small by metis+
  with at ch(2) assms(2-4) show ?thesis by (auto simp: fat_at_def file_at_def Let_def)
qed

lemma fat_frame [simp]:
  "per_cluster (set_fd h fd g) = per_cluster g" "fat_sector es (set_fd h fd g) = fat_sector es g"
  "fat_has es (set_fd h fd g) = fat_has es g" "fat_table es (set_fd h fd g) = fat_table es g"
  by (simp_all add: fun_eq_iff per_cluster_def fat_sector_def fat_has_def fat_table_def)

text \<open>Between two positions, the driver's view of the chain and the one of the volume agree.\<close>

lemma fat_covered:
  assumes "fat_table es g" "\<forall>j. j * 512 < q \<or> j \<le> p div 512 \<longrightarrow> fat_has es g first j"
  shows "\<forall>j < q div 512. fat_has es g first j" "chain_at g (of_nat first) (q div 512) \<noteq> None"
    "\<forall>i. p div 512 < i \<and> i * 512 < q \<longrightarrow> chain_ok floppy_reach g (of_nat first) i"
    "map (file_byte (floppy_sector di) g (of_nat first)) [p..<q] = map (fat_byte di es g first) [p..<q]"
proof -
  have upto: "\<forall>k \<le> i. fat_has es g first k" if "i * 512 < q" for i
  proof (intro allI impI)
    fix k assume "k \<le> i"
    then have "k * 512 \<le> i * 512" by simp
    with that have "k * 512 < q" by linarith
    then show "fat_has es g first k" using assms(2) by blast
  qed
  show before: "\<forall>j < q div 512. fat_has es g first j"
  proof (intro allI impI)
    fix j assume "j < q div 512"
    then have "Suc j \<le> q div 512" by simp
    then have "Suc j * 512 \<le> q" by (subst (asm) less_eq_div_iff_mult_less_eq) simp_all
    then show "fat_has es g first j" using assms(2) by simp
  qed
  show "chain_at g (of_nat first) (q div 512) \<noteq> None"
    using chain_at_table [OF assms(1) before] by simp
  show "\<forall>i. p div 512 < i \<and> i * 512 < q \<longrightarrow> chain_ok floppy_reach g (of_nat first) i"
    using upto chain_table(1) [OF assms(1)] by blast
  show "map (file_byte (floppy_sector di) g (of_nat first)) [p..<q] = map (fat_byte di es g first) [p..<q]"
  proof (rule map_cong [OF refl])
    fix j assume "j \<in> set [p..<q]"
    then have "j < q" by simp
    with div_times_less_eq_dividend have "j div 512 * 512 < q" by (rule le_less_trans)
    then show "file_byte (floppy_sector di) g (of_nat first) j = fat_byte di es g first j"
      using chain_table(2) [OF assms(1) upto] by (simp add: file_byte_def fat_byte_def)
  qed
qed

text \<open>
  C36: Reading a file from a floppy: a read of an open file that is positioned inside its cluster
  chain returns, whatever number of sectors and clusters it spans, and delivers exactly the next
  bytes of the file as many as asked for and left: the bytes of the sectors of the clusters that the
  12-bit table chains, cluster 2 first in the data area. It advances the position by that, and the file
  stays readable while its chain goes on. Counts are below 32768, and the BIOS may need three attempts.
\<close>

theorem fat_read_delivers:
  assumes "fat_table es g" "fat_at di es h g" "fails < 3" "fd_Position (get_fd h g) \<le> fd_Size (get_fd h g)"
    "unat byteCount < 32768" "unat (fd_Size (get_fd h g)) - unat (fd_Position (get_fd h g)) < 32768"
    "p = unat (fd_Position (get_fd h g))" "n = read_count byteCount (get_fd h g)"
    "first = unat (fd_FirstCluster (get_fd h g))" "\<forall>i. i * 512 < p + n \<longrightarrow> fat_has es g first i"
  shows "\<exists>fd' fails'. FAT_ReadImpl (floppy_read di) h byteCount (g, fails) =
      Some (Inr (of_nat n, map (fat_byte di es g first) [p..<p + n], set_fd h fd' g, fails')) \<and>
    (fat_has es g first ((p + n) div 512) \<longrightarrow>
      fat_at di es h (set_fd h fd' g) \<and> fails' < 3 \<and> unat (fd_Position fd') = p + n)"
proof -
  let ?fd = "get_fd h g" and ?q = "p + n"
  have at: "0 \<le> h" "nat h < length (fat_OpenedFiles g)" "\<not> fd_IsDirectory ?fd" "\<forall>j \<le> p div 512. fat_has es g first j"
    using assms(2) by (simp_all add: fat_at_def Let_def assms(7,9))
  have fat: "file_at (floppy_sector di) h g"
    using fat_at_file [OF assms(1) at(1,2), of di] at(4) assms(2,7,9) by simp
  have has: "\<forall>j. j * 512 < ?q \<or> j \<le> p div 512 \<longrightarrow> fat_has es g first j" using at(4) assms(10) by blast
  note cover = fat_covered [OF assms(1) has]
  have first: "of_nat first = fd_FirstCluster ?fd" using assms(9) by simp
  note read = floppy.read_file [OF fat assms(3) at(3) assms(4-8) first cover(2,3), unfolded cover(4)]
  from read obtain fd' fails' where rd: "FAT_ReadImpl (floppy_read di) h byteCount (g, fails) =
      Some (Inr (of_nat n, map (fat_byte di es g first) [p..<?q], set_fd h fd' g, fails'))"
    "chain_ok floppy_reach g (of_nat first) (?q div 512) \<or> ?q mod 512 \<noteq> 0 \<longrightarrow>
      file_at (floppy_sector di) h (set_fd h fd' g) \<and> fails' < 3 \<and> unat (fd_Position fd') = ?q \<and> same_file ?fd fd'"
    by blast
  have "fat_at di es h (set_fd h fd' g) \<and> fails' < 3 \<and> unat (fd_Position fd') = ?q"
    if "fat_has es g first (?q div 512)"
  proof -
    have all: "\<forall>j \<le> ?q div 512. fat_has es g first j" using cover(1) that by (auto simp: le_less)
    then have "chain_ok floppy_reach g (of_nat first) (?q div 512)" by (rule chain_table(1) [OF assms(1)])
    with rd(2) have f: "file_at (floppy_sector di) h (set_fd h fd' g)" "fails' < 3" "unat (fd_Position fd') = ?q"
      "same_file ?fd fd'" by blast+
    with at all assms(1,9) fat_at_file [of es "set_fd h fd' g" h di] show ?thesis by (auto simp: same_file_def)
  qed
  with rd(1) show ?thesis by blast
qed

text \<open>
  The limit of the 16-bit minimum: asking for the rest of a file that has between 32768 and
  65535 bytes left runs the copy past the 512-byte sector buffer, on any disk.
\<close>

theorem fat_read_over_32k:
  assumes "\<not> fd_IsDirectory (get_fd h g)" "fd_Position (get_fd h g) \<le> fd_Size (get_fd h g)"
    "length (fd_Buffer (get_fd h g)) = 512"
    "left = fd_Size (get_fd h g) - fd_Position (get_fd h g)" "32768 \<le> unat left" "unat left < 65536"
  shows "FAT_ReadImpl rd h left (g, st) = Some (Inl FatOverread)"
proof -
  let ?fd = "get_fd h g" and ?w = "ucast left :: u16"
  let ?c = "scast ?w :: u32" and ?room = "SECTOR_SIZE - fd_Position (get_fd h g) mod SECTOR_SIZE"
  have u: "unat ?w = unat left"
    using assms(6) by (simp add: unsigned_ucast_eq take_bit_nat_eq_self)
  have again: "ucast ?c = ?w"
  proof (rule bit_word_eqI)
    fix n :: nat
    assume "n < LENGTH(16)"
    then have "n < 15 \<or> n = 15" by auto
    then show "bit (ucast ?c :: u16) n \<longleftrightarrow> bit ?w n" by (auto simp: bit_simps min_def)
  qed
  have neg: "?w <s 0" using sint_u16_high [of ?w] u assms(5) by (simp add: word_sless_alt)
  have room: "unat ?room = 512 - unat (fd_Position ?fd) mod 512" by (rule position_words)
  have "unat (ucast ?room :: u16) = unat ?room"
    using room by (simp add: unsigned_ucast_eq take_bit_nat_eq_self)
  then have "0 \<le>s (ucast ?room :: u16)"
    using sint_u16_low [of "ucast ?room"] room by (simp add: word_sle_eq)
  with neg have less: "?w <s ucast ?room" by (meson signed.less_le_trans)
  have c: "?c \<noteq> 0" using again u assms(5) by (metis ucast_0 unsigned_0 not_numeral_le_zero)
  have "fat_read_step rd h ?c (g, st) = Inl FatOverread"
    using less assms(3,5) u by (simp add: fat_read_step_def Let_def min16_def again)
  then have "fat_read_loop rd h ?c 0 [] (g, st) = Some (Inl FatOverread)"
    using c by (subst fat_read_loop.simps) simp
  moreover have "min16 left (fd_Size ?fd - fd_Position ?fd) = ?c"
    by (simp add: min16_def assms(4))
  ultimately show ?thesis using assms(1) by (simp add: FAT_ReadImpl_def)
qed

section \<open>Witnesses\<close>

text \<open>A ten-byte file in cluster 2, on a volume whose data area starts at sector 33.\<close>

definition fat_closed :: fat_file_data where
  "fat_closed = \<lparr>fd_Buffer = replicate 512 0, fd_Handle = 0, fd_IsDirectory = False, fd_Position = 0,
     fd_Size = 0, fd_Opened = False, fd_FirstCluster = 0, fd_CurrentCluster = 0,
     fd_CurrentSectorInCluster = 0\<rparr>"

definition fat_small :: "u8 list \<Rightarrow> u32 \<Rightarrow> fat_data" where
  "fat_small buf sz =
     \<lparr>fat_BootSectorBytes = replicate 13 0 @ [1] @ replicate 498 0,
      fat_RootDirectory = fat_closed\<lparr>fd_Handle := -1, fd_IsDirectory := True\<rparr>,
      fat_OpenedFiles = fat_closed\<lparr>fd_Buffer := buf, fd_Size := sz, fd_Opened := True,
        fd_FirstCluster := 2, fd_CurrentCluster := 2\<rparr> # replicate 9 fat_closed,
      g_Fat = fat12_pack [0xFF0, 0xFFF, 0xFFF], g_DataSectionLba = 33\<rparr>"

lemma fat_small_file:
  "get_fd 0 (fat_small buf sz) = fat_closed\<lparr>fd_Buffer := buf, fd_Size := sz, fd_Opened := True,
     fd_FirstCluster := 2, fd_CurrentCluster := 2\<rparr>"
  by (simp add: get_fd_def fat_small_def ROOT_DIRECTORY_HANDLE_def)

lemma fat_small_at: "file_at (floppy_sector di) 0 (fat_small (image_sector di 33) sz)"
  unfolding file_at_def fat_small_file
  by (simp add: fat_closed_def sector_lba_def chain_lba_def FAT_ClusterToLba_def)
     (simp add: fat_small_def)

text \<open>A file of 600 bytes in the clusters 2 and 3 of a volume with data from sector 33.\<close>

definition fat_two :: "u8 list \<Rightarrow> fat_data" where
  "fat_two buf = (fat_small buf 600)\<lparr>g_Fat := fat12_pack [0xFF0, 0xFFF, 3, 0xFFF]\<rparr>"

lemma fat_two_facts:
  "fat_table [0xFF0, 0xFFF, 3, 0xFFF] (fat_two buf)" "per_cluster (fat_two buf) = 1"
  "get_fd 0 (fat_two buf) = fat_closed\<lparr>fd_Buffer := buf, fd_Size := 600, fd_Opened := True,
     fd_FirstCluster := 2, fd_CurrentCluster := 2\<rparr>"
proof -
  have bs: "bs_SectorsPerCluster (fat_two buf) = 1"
    by (simp add: bs_SectorsPerCluster_def fat_two_def fat_small_def nth_append)
  then show one: "per_cluster (fat_two buf) = 1" by (simp add: per_cluster_def)
  then show "fat_table [0xFF0, 0xFFF, 3, 0xFFF] (fat_two buf)" by (simp add: fat_table_def fat_two_def)
  show "get_fd 0 (fat_two buf) = fat_closed\<lparr>fd_Buffer := buf, fd_Size := 600, fd_Opened := True,
      fd_FirstCluster := 2, fd_CurrentCluster := 2\<rparr>"
    by (simp add: get_fd_def fat_two_def fat_small_def ROOT_DIRECTORY_HANDLE_def)
qed

lemma fat_read_delivers_witness:
  "\<exists>fd' fails'. FAT_ReadImpl (floppy_read []) 0 1000 (fat_two (image_sector [] 33), 2) =
     Some (Inr (600, map (fat_byte [] [0xFF0, 0xFFF, 3, 0xFFF] (fat_two (image_sector [] 33)) 2) [0..<600],
       set_fd 0 fd' (fat_two (image_sector [] 33)), fails'))"
proof -
  let ?g = "fat_two (image_sector [] 33)" and ?es = "[0xFF0, 0xFFF, 3, 0xFFF] :: u16 list"
  note f = fat_two_facts [of "image_sector [] 33"]
  have has: "fat_has ?es ?g 2 i" if "i < 2" for i
  proof -
    have "i = 0 \<or> i = 1" using that by auto
    moreover have "g_DataSectionLba ?g = 33" by (simp add: fat_two_def fat_small_def)
    ultimately show ?thesis using f(2) by (auto simp: fat_has_def fat_sector_def Let_def)
  qed
  have at: "fat_at [] ?es 0 ?g"
    using f(2,3) has [of 0] by (simp add: fat_at_def Let_def fat_closed_def)
      (simp add: fat_two_def fat_small_def fat_sector_def per_cluster_def bs_SectorsPerCluster_def)
  have "(2 :: nat) < 3" "fd_Position (get_fd 0 ?g) \<le> fd_Size (get_fd 0 ?g)" "unat (1000 :: u32) < 32768"
    "unat (fd_Size (get_fd 0 ?g)) - unat (fd_Position (get_fd 0 ?g)) < 32768"
    "0 = unat (fd_Position (get_fd 0 ?g))" "600 = read_count 1000 (get_fd 0 ?g)"
    "2 = unat (fd_FirstCluster (get_fd 0 ?g))" "\<forall>i. i * 512 < 0 + (600 :: nat) \<longrightarrow> fat_has ?es ?g 2 i"
    using has by (auto simp: f(3) fat_closed_def read_count_def)
  from fat_read_delivers [OF f(1) at this] show ?thesis by (simp only: of_nat_numeral add_0) blast
qed

lemma fat_read_over_32k_witness:
  "FAT_ReadImpl (floppy_read []) 0 40000 (fat_small (replicate 512 0) 40000, 0) = Some (Inl FatOverread)"
  using fat_read_over_32k [of 0 "fat_small (replicate 512 0) 40000" 40000 "floppy_read []" 0]
  by (simp add: fat_small_file fat_closed_def)

end
