(* ===== verification/FatDir.thy ===== *)
theory FatDir
  imports FatRead
begin

text \<open>
  Directories in the FAT driver: reading entries, finding a file by name, and the table of open
  files.
\<close>

unbundle bit_operations_syntax

section \<open>Reading one entry\<close>

text \<open>An open directory, positioned at an entry, with a sector in its buffer.\<close>

definition dir_ok :: "int \<Rightarrow> fat_data \<Rightarrow> bool" where
  "dir_ok h g \<longleftrightarrow> (h = ROOT_DIRECTORY_HANDLE \<or> 0 \<le> h \<and> nat h < length (fat_OpenedFiles g)) \<and>
     fd_Handle (get_fd h g) = h \<and> fd_IsDirectory (get_fd h g) \<and>
     unat (fd_Position (get_fd h g)) mod 32 = 0 \<and> length (fd_Buffer (get_fd h g)) = 512"

definition entry_bytes :: "fat_file_data \<Rightarrow> u8 list" where
  "entry_bytes fd = take 32 (drop (unat (fd_Position fd) mod 512) (fd_Buffer fd))"

lemma dir_get_set: "dir_ok h g \<Longrightarrow> get_fd h (set_fd h fd g) = fd"
  by (auto simp: dir_ok_def)

lemma slot_offset:
  fixes p :: nat
  assumes "p mod 32 = 0"
  shows "p mod 512 + 32 \<le> 512" "(p mod 512) mod 32 = 0"
proof -
  show m: "(p mod 512) mod 32 = 0" using assms by (simp add: mod_mod_cancel)
  define r where "r = p mod 512"
  have "r < 512" "r mod 32 = 0" using m by (simp_all add: r_def)
  then have "r = 32 * (r div 32)" "r div 32 < 16" by auto
  then show "p mod 512 + 32 \<le> 512" unfolding r_def [symmetric] by linarith
qed

lemma slot_words:
  fixes P :: u32
  assumes "unat P mod 32 = 0"
  shows "min16 32 (SECTOR_SIZE - P mod SECTOR_SIZE) = 32"
    "SECTOR_SIZE - P mod SECTOR_SIZE = 32 \<longleftrightarrow> unat P mod 512 = 480" "unat (P + 32) mod 32 = 0"
proof -
  note off = slot_offset [OF assms]
  have left: "unat (SECTOR_SIZE - P mod SECTOR_SIZE) = 512 - unat P mod 512" by (rule position_words)
  then show "SECTOR_SIZE - P mod SECTOR_SIZE = 32 \<longleftrightarrow> unat P mod 512 = 480"
    using off by (auto simp: word_unat_eq_iff)
  show "min16 32 (SECTOR_SIZE - P mod SECTOR_SIZE) = 32"
    using min16_small [of 32 "SECTOR_SIZE - P mod SECTOR_SIZE"] left off
    by (auto simp: word_unat_eq_iff split: if_splits)
  have "unat (P + 32) = (unat P + 32) mod 4294967296" by (simp add: unat_word_ariths)
  then show "unat (P + 32) mod 32 = 0"
    using assms by (simp add: mod_mod_cancel)
qed

lemma dir_read:
  assumes "dir_ok h g"
  defines "fd \<equiv> get_fd h g"
  defines "g1 \<equiv> set_fd h (fd\<lparr>fd_Position := fd_Position fd + 32\<rparr>) g"
  shows "FAT_ReadEntry rd h (g, st) =
    (if unat (fd_Position fd) mod 512 = 480
     then Some (map_sum id (\<lambda>(stop, gs). (Some (dir_entry_of (entry_bytes fd)), gs)) (fat_advance rd h (g1, st)))
     else Some (Inr (Some (dir_entry_of (entry_bytes fd)), g1, st)))"
proof -
  have d: "fd_IsDirectory fd" "unat (fd_Position fd) mod 32 = 0" "length (fd_Buffer fd) = 512"
    using assms(1) by (auto simp: dir_ok_def fd_def)
  note w = slot_words [OF d(2)] and off = slot_offset [OF d(2)]
  have step: "fat_read_step rd h 32 (g, st) =
      (if unat (fd_Position fd) mod 512 = 480
       then map_sum id (\<lambda>(stop, gs). (entry_bytes fd, 32, stop, gs)) (fat_advance rd h (g1, st))
       else Inr (entry_bytes fd, 32, False, g1, st))"
    using off d(3)
    by (simp add: fat_read_step_def Let_def fd_def [symmetric] w position_words entry_bytes_def g1_def)
  have loop: "fat_read_loop rd h 32 0 [] (g, st) =
      (if unat (fd_Position fd) mod 512 = 480
       then Some (map_sum id (\<lambda>(stop, gs). (32, entry_bytes fd, gs)) (fat_advance rd h (g1, st)))
       else Some (Inr (32, entry_bytes fd, g1, st)))"
    by (subst fat_read_loop.simps, cases "fat_advance rd h (g1, st)")
       (simp_all add: step fat_read_loop.simps split_def)
  have "FAT_ReadEntry rd h (g, st) =
      map_option (map_sum id (\<lambda>(n, out, gs). (if n = 32 then Some (dir_entry_of out) else None, gs)))
        (fat_read_loop rd h 32 0 [] (g, st))"
    using d(1) by (simp add: FAT_ReadEntry_def FAT_ReadImpl_def fd_def [symmetric])
  then show ?thesis
    unfolding loop by (cases "fat_advance rd h (g1, st)") (simp_all add: split_def)
qed

text \<open>A transfer of one sector stays inside the 512-byte buffer it is given.\<close>

definition keeps_buffer :: "'b sector_read \<Rightarrow> bool" where
  "keeps_buffer rd \<longleftrightarrow> (\<forall>lba buf st. length buf = 512 \<longrightarrow> length (fst (snd (rd lba 1 buf st))) = 512)"

lemma keeps_bufferD: "keeps_buffer rd \<Longrightarrow> rd lba 1 buf st = (ok, buf', st') \<Longrightarrow> length buf = 512 \<Longrightarrow> length buf' = 512"
  by (metis fst_conv keeps_buffer_def snd_conv)

lemma dir_ok_set:
  "dir_ok h g \<Longrightarrow> fd_Handle fd = h \<Longrightarrow> fd_IsDirectory fd \<Longrightarrow> unat (fd_Position fd) mod 32 = 0 \<Longrightarrow>
     length (fd_Buffer fd) = 512 \<Longrightarrow> dir_ok h (set_fd h fd g)"
  by (auto simp: dir_ok_def)

lemma advance_dir_ok:
  assumes "keeps_buffer rd" "dir_ok h g" "fat_advance rd h (g, st) = Inr (stop, g', st')"
  shows "dir_ok h g'"
proof -
  have d: "fd_Handle (get_fd h g) = h" "fd_IsDirectory (get_fd h g)"
    "unat (fd_Position (get_fd h g)) mod 32 = 0" "length (fd_Buffer (get_fd h g)) = 512"
    using assms(2) by (auto simp: dir_ok_def)
  show ?thesis
    using assms(3) d assms(2)
    by (auto simp: fat_advance_def Let_def split: if_splits option.splits prod.splits
        dest!: keeps_bufferD [OF assms(1)] intro!: dir_ok_set)
qed

lemma read_entry_dir:
  assumes "keeps_buffer rd" "dir_ok h g"
  shows "(\<exists>e. FAT_ReadEntry rd h (g, st) = Some (Inl e)) \<or>
    (\<exists>g' st'. FAT_ReadEntry rd h (g, st) = Some (Inr (Some (dir_entry_of (entry_bytes (get_fd h g))), g', st')) \<and>
       dir_ok h g')"
proof -
  let ?fd = "get_fd h g"
  let ?g1 = "set_fd h (?fd\<lparr>fd_Position := fd_Position ?fd + 32\<rparr>) g"
  have ok1: "dir_ok h ?g1"
    using assms(2) slot_words(3) by (intro dir_ok_set) (auto simp: dir_ok_def)
  show ?thesis
  proof (cases "fat_advance rd h (?g1, st)")
    case (Inl e)
    with ok1 show ?thesis by (auto simp: dir_read [OF assms(2)])
  next
    case (Inr r)
    obtain stop g' st' where r: "r = (stop, g', st')" by (cases r)
    with advance_dir_ok [OF assms(1) ok1] Inr ok1 show ?thesis by (auto simp: dir_read [OF assms(2)])
  qed
qed

section \<open>Finding a file\<close>

lemma find_loop_hit:
  assumes "keeps_buffer rd" "fat_find_loop rd h fatName gs = Some r" "dir_ok h (fst gs)"
  shows "(\<exists>e. r = Inl e) \<or> (\<exists>entry gs'. r = Inr (Some entry, gs') \<and> de_Name entry = fatName)"
proof -
  have "keeps_buffer rd \<longrightarrow> dir_ok h (fst gs) \<longrightarrow>
      (\<exists>e. r = Inl e) \<or> (\<exists>entry gs'. r = Inr (Some entry, gs') \<and> de_Name entry = fatName)"
  proof (rule fat_find_loop.raw_induct [OF _ assms(2), where P = "\<lambda>rd h fatName gs r. keeps_buffer rd \<longrightarrow>
      dir_ok h (fst gs) \<longrightarrow> (\<exists>e. r = Inl e) \<or> (\<exists>entry gs'. r = Inr (Some entry, gs') \<and> de_Name entry = fatName)"],
      intro impI)
    fix f and rd :: "'a sector_read" and h fatName gs r
    assume IH: "\<And>rd h fatName gs r. f rd h fatName gs = Some r \<Longrightarrow> keeps_buffer rd \<longrightarrow> dir_ok h (fst gs) \<longrightarrow>
        (\<exists>e. r = Inl e) \<or> (\<exists>entry gs'. r = Inr (Some entry, gs') \<and> de_Name entry = fatName)"
      and body: "(case FAT_ReadEntry rd h gs of
        None \<Rightarrow> None
      | Some (Inl e) \<Rightarrow> Some (Inl e)
      | Some (Inr (None, gs)) \<Rightarrow> Some (Inr (None, gs))
      | Some (Inr (Some entry, gs)) \<Rightarrow>
          if fatName = de_Name entry then Some (Inr (Some entry, gs)) else f rd h fatName gs) = Some r"
      and k: "keeps_buffer rd" and d: "dir_ok h (fst gs)"
    obtain g st where gs: "gs = (g, st)" by (cases gs)
    from read_entry_dir [OF k, of h g st] d gs consider
        (err) e where "FAT_ReadEntry rd h (g, st) = Some (Inl e)"
      | (entry) entry g' st' where "FAT_ReadEntry rd h (g, st) = Some (Inr (Some entry, g', st'))" "dir_ok h g'"
      by auto
    then show "(\<exists>e. r = Inl e) \<or> (\<exists>entry gs'. r = Inr (Some entry, gs') \<and> de_Name entry = fatName)"
    proof cases
      case err
      with body gs show ?thesis by auto
    next
      case entry
      with body gs IH [of rd h fatName "(g', st')" r] k show ?thesis
        by (cases "fatName = de_Name entry") auto
    qed
  qed
  with assms(1,3) show ?thesis by blast
qed

text \<open>
  A directory search never reports a miss: if it returns, it returns an entry whose name is
  the one asked for (or a table error). An entry read from a directory is always complete, also
  past the end, so the loop has no other way out. The transfers are only taken to respect the
  sector buffer.
\<close>

theorem fat_find_never_misses:
  assumes "keeps_buffer rd" "dir_ok h g" "FAT_FindFile rd h name (g, st) = Some r"
  shows "(\<exists>e. r = Inl e) \<or> (\<exists>entry gs'. r = Inr (Some entry, gs') \<and> de_Name entry = fat_name name)"
  using find_loop_hit [OF assms(1)] assms(2,3) by (simp add: FAT_FindFile_def)

section \<open>The root directory\<close>

text \<open>Slot \<open>k\<close> of the root directory that starts at sector \<open>first\<close>: sixteen to a sector.\<close>

definition root_slot :: "(u32 \<Rightarrow> u8 list) \<Rightarrow> u32 \<Rightarrow> nat \<Rightarrow> u8 list" where
  "root_slot img first k = take 32 (drop (32 * (k mod 16)) (img (first + of_nat (k div 16))))"

definition root_at :: "(u32 \<Rightarrow> u8 list) \<Rightarrow> nat \<Rightarrow> fat_data \<Rightarrow> bool" where
  "root_at img k g \<longleftrightarrow> dir_ok ROOT_DIRECTORY_HANDLE g \<and>
     unat (fd_Position (fat_RootDirectory g)) = 32 * k \<and>
     fd_CurrentCluster (fat_RootDirectory g) = fd_FirstCluster (fat_RootDirectory g) + of_nat (k div 16) \<and>
     fd_Buffer (fat_RootDirectory g) = img (fd_FirstCluster (fat_RootDirectory g) + of_nat (k div 16))"

lemma get_root [simp]: "get_fd ROOT_DIRECTORY_HANDLE g = fat_RootDirectory g"
  by (simp add: get_fd_def)

lemma set_root [simp]:
  "fat_RootDirectory (set_fd ROOT_DIRECTORY_HANDLE fd g) = fd"
  by (simp add: set_fd_def)

lemma slot_div: "(32 * k) mod 512 = 32 * (k mod 16)" "(32 * k) mod 512 = 480 \<longleftrightarrow> k mod 16 = 15"
  "Suc k div 16 = (if k mod 16 = 15 then Suc (k div 16) else k div 16)" for k :: nat
proof -
  show m: "(32 * k) mod 512 = 32 * (k mod 16)" using mult_mod_right [of 32 k 16] by simp
  show "(32 * k) mod 512 = 480 \<longleftrightarrow> k mod 16 = 15" unfolding m by linarith
  show "Suc k div 16 = (if k mod 16 = 15 then Suc (k div 16) else k div 16)"
    by (simp add: div_Suc) presburger
qed

context sector_source
begin

lemma root_read:
  assumes "root_at img k g" "good st" "32 * k + 32 < 4294967296"
  defines "root \<equiv> fat_RootDirectory g"
  shows "\<exists>g' st'. FAT_ReadEntry rd ROOT_DIRECTORY_HANDLE (g, st) =
      Some (Inr (Some (dir_entry_of (root_slot img (fd_FirstCluster root) k)), g', st')) \<and>
    (\<exists>fd'. g' = set_fd ROOT_DIRECTORY_HANDLE fd' g \<and> fd_Handle fd' = ROOT_DIRECTORY_HANDLE) \<and>
    ((\<forall>lba. reach lba) \<longrightarrow> good st') \<and>
    (32 * (k + 1) < unat (fd_Size root) \<longrightarrow> reach (fd_FirstCluster root + of_nat ((k + 1) div 16)) \<longrightarrow>
       root_at img (k + 1) g' \<and> good st' \<and>
       fd_FirstCluster (fat_RootDirectory g') = fd_FirstCluster root \<and>
       fd_Size (fat_RootDirectory g') = fd_Size root)"
proof -
  have d: "dir_ok ROOT_DIRECTORY_HANDLE g" and pos: "unat (fd_Position root) = 32 * k"
    and cur: "fd_CurrentCluster root = fd_FirstCluster root + of_nat (k div 16)"
    and buf: "fd_Buffer root = img (fd_FirstCluster root + of_nat (k div 16))"
    and hd: "fd_Handle root = ROOT_DIRECTORY_HANDLE" "fd_IsDirectory root"
    using assms(1) by (auto simp: root_at_def root_def dir_ok_def)
  define g1 where "g1 = set_fd ROOT_DIRECTORY_HANDLE (root\<lparr>fd_Position := fd_Position root + 32\<rparr>) g"
  have g1: "\<exists>fd'. g1 = set_fd ROOT_DIRECTORY_HANDLE fd' g \<and> fd_Handle fd' = ROOT_DIRECTORY_HANDLE"
    "fd_FirstCluster (fat_RootDirectory g1) = fd_FirstCluster root"
    "fd_Size (fat_RootDirectory g1) = fd_Size root"
    unfolding g1_def using hd by (auto simp: exI [of _ "root\<lparr>fd_Position := fd_Position root + 32\<rparr>"])
  have pos1: "unat (fd_Position root + 32) = 32 * (k + 1)"
    using pos assms(3) by (simp add: unat_word_ariths)
  have slot: "entry_bytes root = root_slot img (fd_FirstCluster root) k"
    by (simp add: entry_bytes_def root_slot_def pos slot_div buf)
  have read: "FAT_ReadEntry rd ROOT_DIRECTORY_HANDLE (g, st) =
    (if k mod 16 = 15
     then Some (map_sum id (\<lambda>(stop, gs). (Some (dir_entry_of (root_slot img (fd_FirstCluster root) k)), gs))
       (fat_advance rd ROOT_DIRECTORY_HANDLE (g1, st)))
     else Some (Inr (Some (dir_entry_of (root_slot img (fd_FirstCluster root) k)), g1, st)))"
    using dir_read [OF d, of rd st] by (simp add: root_def [symmetric] pos slot_div slot g1_def)
  show ?thesis
  proof (cases "k mod 16 = 15")
    case False
    have "root_at img (k + 1) g1"
      using False d pos1 cur buf hd
      by (simp add: root_at_def g1_def slot_div dir_ok_def img_length)
    with False read assms(2) g1 show ?thesis
      by (intro exI [of _ g1] exI [of _ st]) (simp del: set_root)
  next
    case True
    let ?cur = "fd_CurrentCluster root + 1"
    obtain ok b st1 where r: "rd ?cur 1 (fd_Buffer root) st = (ok, b, st1)" by (metis prod_cases3)
    let ?g2 = "set_fd ROOT_DIRECTORY_HANDLE (root\<lparr>fd_Position := fd_Position root + 32,
        fd_CurrentCluster := ?cur, fd_Buffer := b\<rparr>) g"
    have adv: "fat_advance rd ROOT_DIRECTORY_HANDLE (g1, st) =
        (if fd_Size root \<le> fd_Position root + 32 then Inr (True, g1, st) else Inr (\<not> ok, ?g2, st1))"
      using hd r by (simp add: fat_advance_def g1_def Let_def)
    show ?thesis
    proof (cases "fd_Size root \<le> fd_Position root + 32")
      case le: True
      then have "\<not> 32 * (k + 1) < unat (fd_Size root)" using pos1 by (simp add: word_le_nat_alt)
      with True le read adv g1 assms(2) show ?thesis
        by (intro exI [of _ g1] exI [of _ st]) simp
    next
      case lt: False
      have next_lba: "fd_FirstCluster root + of_nat ((k + 1) div 16) = ?cur"
        using True cur by (simp add: slot_div)
      have "root_at img (k + 1) ?g2 \<and> good st1" if "reach ?cur"
      proof -
        have "b = img ?cur \<and> good st1"
          using rd_one [OF assms(2) that, of "fd_Buffer root"] r by (auto simp: buf img_length)
        then show ?thesis
          using d pos1 hd next_lba by (simp add: root_at_def dir_ok_def img_length)
      qed
      moreover have "\<exists>fd'. ?g2 = set_fd ROOT_DIRECTORY_HANDLE fd' g \<and> fd_Handle fd' = ROOT_DIRECTORY_HANDLE"
        by (rule exI, rule conjI [OF refl]) (simp add: hd)
      ultimately show ?thesis
        using True lt read adv next_lba by (intro exI [of _ ?g2] exI [of _ st1]) simp
    qed
  qed
qed

lemma root_find:
  assumes "root_at img i g" "good st" "i \<le> k" "32 * k < unat (fd_Size (fat_RootDirectory g))"
    "unat (fd_Size (fat_RootDirectory g)) < 65536" "first = fd_FirstCluster (fat_RootDirectory g)"
    "\<forall>j. i < j \<and> j \<le> k \<longrightarrow> reach (first + of_nat (j div 16))"
    "\<forall>j. i \<le> j \<and> j < k \<longrightarrow> de_Name (dir_entry_of (root_slot img first j)) \<noteq> nm"
    "de_Name (dir_entry_of (root_slot img first k)) = nm"
  shows "\<exists>fd' st'. fat_find_loop rd ROOT_DIRECTORY_HANDLE nm (g, st) =
      Some (Inr (Some (dir_entry_of (root_slot img first k)), set_fd ROOT_DIRECTORY_HANDLE fd' g, st')) \<and>
    fd_Handle fd' = ROOT_DIRECTORY_HANDLE \<and> ((\<forall>lba. reach lba) \<longrightarrow> good st')"
  using assms
proof (induction "k - i" arbitrary: i g st)
  case 0
  then have ik: "i = k" "32 * i + 32 < 4294967296" by simp_all
  from root_read [OF "0.prems"(1,2) ik(2)] obtain fd' st' where
    "FAT_ReadEntry rd ROOT_DIRECTORY_HANDLE (g, st) =
      Some (Inr (Some (dir_entry_of (root_slot img first i)), set_fd ROOT_DIRECTORY_HANDLE fd' g, st'))"
    "fd_Handle fd' = ROOT_DIRECTORY_HANDLE" "(\<forall>lba. reach lba) \<longrightarrow> good st'"
    using "0.prems"(6) by blast
  with ik(1) "0.prems"(9) show ?case
    by (intro exI [of _ fd'] exI [of _ st']) (subst fat_find_loop.simps, simp)
next
  case (Suc n)
  then have ik: "i < k" "32 * i + 32 < 4294967296" "n = k - Suc i" by simp_all
  from root_read [OF Suc.prems(1,2) ik(2)] obtain g' st' where
    r: "FAT_ReadEntry rd ROOT_DIRECTORY_HANDLE (g, st) =
      Some (Inr (Some (dir_entry_of (root_slot img first i)), g', st'))" and
    upd: "\<exists>fd'. g' = set_fd ROOT_DIRECTORY_HANDLE fd' g" and
    nxt: "32 * (i + 1) < unat (fd_Size (fat_RootDirectory g)) \<longrightarrow> reach (first + of_nat ((i + 1) div 16)) \<longrightarrow>
       root_at img (i + 1) g' \<and> good st' \<and> fd_FirstCluster (fat_RootDirectory g') = first \<and>
       fd_Size (fat_RootDirectory g') = fd_Size (fat_RootDirectory g)"
    using Suc.prems(6) by blast
  have "reach (first + of_nat (Suc i div 16))" using Suc.prems(7) ik(1) by auto
  moreover have "32 * Suc i < unat (fd_Size (fat_RootDirectory g))" using Suc.prems(4) ik(1) by simp
  ultimately have n: "root_at img (Suc i) g'" "good st'" "fd_FirstCluster (fat_RootDirectory g') = first"
    "fd_Size (fat_RootDirectory g') = fd_Size (fat_RootDirectory g)" using nxt by simp_all
  from upd obtain fd1 where g': "g' = set_fd ROOT_DIRECTORY_HANDLE fd1 g" by blast
  have "\<exists>fd' st''. fat_find_loop rd ROOT_DIRECTORY_HANDLE nm (g', st') =
      Some (Inr (Some (dir_entry_of (root_slot img first k)), set_fd ROOT_DIRECTORY_HANDLE fd' g', st'')) \<and>
    fd_Handle fd' = ROOT_DIRECTORY_HANDLE \<and> ((\<forall>lba. reach lba) \<longrightarrow> good st'')"
    using Suc.hyps(1) [OF ik(3) n(1,2)] n(3,4) ik(1) Suc.prems by simp
  moreover have "nm \<noteq> de_Name (dir_entry_of (root_slot img first i))" using Suc.prems(8) ik(1) by auto
  ultimately show ?case using r by (subst fat_find_loop.simps) (simp add: g')
qed

end

text \<open>
  A file that is in the root directory is found: the search from the start returns the first
  slot that carries the name in 8.3 form, with every field of its entry, provided it lies within
  the size of the directory.
\<close>

theorem fat_find_in_root:
  assumes "root_at (floppy_sector di) 0 g" "fails < 3"
    "32 * k < unat (fd_Size (fat_RootDirectory g))" "unat (fd_Size (fat_RootDirectory g)) < 65536"
    "first = fd_FirstCluster (fat_RootDirectory g)" "unat first + k div 16 < 65536"
    "\<forall>j<k. de_Name (dir_entry_of (root_slot (floppy_sector di) first j)) \<noteq> fat_name name"
    "de_Name (dir_entry_of (root_slot (floppy_sector di) first k)) = fat_name name"
  shows "\<exists>gs'. FAT_FindFile (floppy_read di) ROOT_DIRECTORY_HANDLE name (g, fails) =
    Some (Inr (Some (dir_entry_of (root_slot (floppy_sector di) first k)), gs'))"
proof -
  have "floppy_reach (first + of_nat (j div 16))" if "j \<le> k" for j
  proof -
    have "j div 16 \<le> k div 16" using that by (rule div_le_mono)
    with assms(6) have "unat first + j div 16 < 65536" by simp
    then show ?thesis by (simp add: unat_word_ariths unat_of_nat_word)
  qed
  then show ?thesis
    using floppy.root_find [OF assms(1,2) _ assms(3,4,5)] assms(7,8) by (simp add: FAT_FindFile_def) blast
qed

section \<open>A missing file\<close>

lemma read_image_any:
  assumes "fails < 3" "length buf = 512"
  shows "floppy_read di lba 1 buf fails = (True, image_sector di (unat (ucast lba :: u16)), 0)"
  using attempts_image [OF assms, where di = di and d = floppy and chs = "DISK_LBA2CHS floppy lba"] lba_chs_lba [of floppy lba]
  by (simp add: DISK_ReadSectors_def floppy_def)

definition not_on_disk :: "u8 list \<Rightarrow> u8 list \<Rightarrow> bool" where
  "not_on_disk di nm \<longleftrightarrow> (\<forall>n s. s < 16 \<longrightarrow> take 11 (drop (32 * s) (image_sector di n)) \<noteq> nm)"

definition searching :: "u8 list \<Rightarrow> fat_data \<times> nat \<Rightarrow> bool" where
  "searching di gs \<longleftrightarrow> dir_ok ROOT_DIRECTORY_HANDLE (fst gs) \<and> snd gs < 3 \<and>
     (\<exists>n. fd_Buffer (fat_RootDirectory (fst gs)) = image_sector di n)"

lemma searching_name:
  assumes "searching di (g, st)" "not_on_disk di nm"
  shows "de_Name (dir_entry_of (entry_bytes (fat_RootDirectory g))) \<noteq> nm"
proof -
  define p where "p = unat (fd_Position (fat_RootDirectory g)) mod 512"
  obtain n where n: "fd_Buffer (fat_RootDirectory g) = image_sector di n"
    and p32: "unat (fd_Position (fat_RootDirectory g)) mod 32 = 0"
    using assms(1) by (auto simp: searching_def dir_ok_def)
  have "p mod 32 = 0" "p + 32 \<le> 512" using slot_offset [OF p32] by (simp_all add: p_def)
  then have "p = 32 * (p div 32)" "p div 32 < 16" by auto
  then have "take 11 (drop p (image_sector di n)) \<noteq> nm"
    using assms(2) unfolding not_on_disk_def by metis
  then show ?thesis by (simp add: dir_entry_of_def entry_bytes_def n p_def)
qed

lemma searching_step:
  assumes "searching di (g, st)"
  shows "\<exists>gs'. FAT_ReadEntry (floppy_read di) ROOT_DIRECTORY_HANDLE (g, st) =
    Some (Inr (Some (dir_entry_of (entry_bytes (fat_RootDirectory g))), gs')) \<and> searching di gs'"
proof -
  let ?root = "fat_RootDirectory g"
  let ?r1 = "?root\<lparr>fd_Position := fd_Position ?root + 32\<rparr>"
  let ?g1 = "set_fd ROOT_DIRECTORY_HANDLE ?r1 g"
  have d: "dir_ok ROOT_DIRECTORY_HANDLE g" "st < 3" using assms by (simp_all add: searching_def)
  have h: "fd_Handle ?root = ROOT_DIRECTORY_HANDLE" "length (fd_Buffer ?root) = 512"
    "unat (fd_Position ?root) mod 32 = 0" "fd_IsDirectory ?root"
    using d(1) by (auto simp: dir_ok_def)
  note p = slot_words(3) [OF h(3)]
  have s1: "searching di (?g1, st)"
    using assms h p by (auto simp: searching_def dir_ok_def)
  let ?g2 = "set_fd ROOT_DIRECTORY_HANDLE (?r1\<lparr>fd_CurrentCluster := fd_CurrentCluster ?root + 1,
      fd_Buffer := image_sector di (unat (ucast (fd_CurrentCluster ?root + 1) :: u16))\<rparr>) g"
  have s2: "searching di (?g2, 0)"
    using assms h p by (auto simp: searching_def dir_ok_def)
  have "fat_advance (floppy_read di) ROOT_DIRECTORY_HANDLE (?g1, st) =
      (if fd_Size ?root \<le> fd_Position ?root + 32 then Inr (True, ?g1, st) else Inr (False, ?g2, 0))"
    using h d(2) by (simp add: fat_advance_def Let_def read_image_any)
  then show ?thesis
    using dir_read [OF d(1), of "floppy_read di" st] s1 s2 by auto
qed

lemma find_missing:
  assumes "searching di (g, fails)" "not_on_disk di (fat_name name)"
  shows "FAT_FindFile (floppy_read di) ROOT_DIRECTORY_HANDLE name (g, fails) = None"
proof (rule ccontr)
  assume "FAT_FindFile (floppy_read di) ROOT_DIRECTORY_HANDLE name (g, fails) \<noteq> None"
  then obtain r where "fat_find_loop (floppy_read di) ROOT_DIRECTORY_HANDLE (fat_name name) (g, fails) = Some r"
    by (auto simp: FAT_FindFile_def)
  then have "floppy_read di = floppy_read di \<longrightarrow> ROOT_DIRECTORY_HANDLE = ROOT_DIRECTORY_HANDLE \<longrightarrow>
      not_on_disk di (fat_name name) \<longrightarrow> \<not> searching di (g, fails)"
  proof (rule fat_find_loop.raw_induct [rotated, where P = "\<lambda>rd h nm gs r. rd = floppy_read di \<longrightarrow>
      h = ROOT_DIRECTORY_HANDLE \<longrightarrow> not_on_disk di nm \<longrightarrow> \<not> searching di gs"], intro impI)
    fix f and rd :: "nat sector_read" and h nm gs r
    assume IH: "\<And>rd h nm gs r. f rd h nm gs = Some r \<Longrightarrow> rd = floppy_read di \<longrightarrow>
        h = ROOT_DIRECTORY_HANDLE \<longrightarrow> not_on_disk di nm \<longrightarrow> \<not> searching di gs"
      and body: "(case FAT_ReadEntry rd h gs of
        None \<Rightarrow> None
      | Some (Inl e) \<Rightarrow> Some (Inl e)
      | Some (Inr (None, gs)) \<Rightarrow> Some (Inr (None, gs))
      | Some (Inr (Some entry, gs)) \<Rightarrow>
          if nm = de_Name entry then Some (Inr (Some entry, gs)) else f rd h nm gs) = Some r"
      and eq: "rd = floppy_read di" "h = ROOT_DIRECTORY_HANDLE" "not_on_disk di nm"
    show "\<not> searching di gs"
    proof
      assume s: "searching di gs"
      obtain g st where gs: "gs = (g, st)" by (cases gs)
      from searching_step [OF s [unfolded gs]] obtain gs' where
        "FAT_ReadEntry rd h gs = Some (Inr (Some (dir_entry_of (entry_bytes (fat_RootDirectory g))), gs'))"
        "searching di gs'" using eq gs by blast
      moreover have "nm \<noteq> de_Name (dir_entry_of (entry_bytes (fat_RootDirectory g)))"
        using searching_name [OF s [unfolded gs] eq(3)] by auto
      ultimately show False using body IH [of rd h nm gs' r] eq by auto
    qed
  qed
  with assms show False by simp
qed

text \<open>
  A file that is not there is not reported missing: if no directory slot of the disk begins
  with the name, the search of the root directory does not return at all. Past the end it reads
  the last sector again and again.
\<close>

theorem fat_find_missing_diverges:
  assumes "searching di (g, fails)" "not_on_disk di (fat_name name)"
  shows "FAT_FindFile (floppy_read di) ROOT_DIRECTORY_HANDLE name (g, fails) = None"
  by (rule find_missing [OF assms])

section \<open>Witnesses\<close>

text \<open>A disk whose sector 1 is a root directory with the single file KERNEL.BIN.\<close>

definition kernel_name :: "u8 list" where
  "kernel_name = bytes ''kernel.bin'' @ replicate 246 0"

definition dir_image :: "u8 list" where
  "dir_image = replicate 512 0 @ bytes ''KERNEL  BIN'' @ replicate 21 0"

definition dir_state :: "u8 list \<Rightarrow> fat_data" where
  "dir_state di = (fat_small (replicate 512 0) 0)\<lparr>fat_RootDirectory :=
     fat_closed\<lparr>fd_Buffer := image_sector di 1, fd_Handle := -1, fd_IsDirectory := True,
       fd_Size := 512, fd_FirstCluster := 1, fd_CurrentCluster := 1\<rparr>\<rparr>"

lemma dir_state_root: "root_at (floppy_sector di) 0 (dir_state di)"
  by (simp add: root_at_def dir_state_def dir_ok_def fat_closed_def ROOT_DIRECTORY_HANDLE_def get_fd_def)

lemma kernel_fat_name: "fat_name kernel_name = bytes ''KERNEL  BIN''"
  by code_simp

lemma dir_image_name:
  "de_Name (dir_entry_of (root_slot (floppy_sector dir_image) 1 0)) = bytes ''KERNEL  BIN''"
  by (simp add: dir_entry_of_def root_slot_def image_sector_def take_map dir_image_def bytes_def
      nth_append upt_rec)

lemma fat_find_in_root_witness:
  "\<exists>gs'. FAT_FindFile (floppy_read dir_image) ROOT_DIRECTORY_HANDLE kernel_name (dir_state dir_image, 2) =
    Some (Inr (Some (dir_entry_of (root_slot (floppy_sector dir_image) 1 0)), gs'))"
  by (rule fat_find_in_root [OF dir_state_root])
     (simp_all add: dir_image_name kernel_fat_name dir_state_def fat_closed_def)

lemma keeps_floppy: "keeps_buffer (floppy_read di)"
proof -
  have "length buf = 512 \<Longrightarrow>
      length (fst (snd (read_attempts n (image_bios floppy di) floppy chs 1 buf st))) = 512" for n buf st chs
  proof (induction n arbitrary: buf st)
    case (Suc n)
    then show ?case by (cases st) (simp_all add: image_bios_def length_blit)
  qed simp
  then show ?thesis by (simp add: keeps_buffer_def DISK_ReadSectors_def)
qed

lemma kernel_found:
  "\<exists>gs'. FAT_FindFile (floppy_read dir_image) ROOT_DIRECTORY_HANDLE kernel_name (dir_state dir_image, 2) =
    Some (Inr (Some (dir_entry_of (root_slot (floppy_sector dir_image) 1 0)), gs'))"
  using floppy.root_find [OF dir_state_root, where st = 2 and k = 0 and first = 1 and
      nm = "fat_name kernel_name" and di = dir_image]
  by (simp add: FAT_FindFile_def dir_image_name kernel_fat_name dir_state_def fat_closed_def) blast

lemma fat_find_never_misses_witness:
  "\<exists>r. FAT_FindFile (floppy_read dir_image) ROOT_DIRECTORY_HANDLE kernel_name (dir_state dir_image, 2) = Some r \<and>
     ((\<exists>e. r = Inl e) \<or> (\<exists>entry gs'. r = Inr (Some entry, gs') \<and> de_Name entry = fat_name kernel_name))"
proof -
  have "dir_ok ROOT_DIRECTORY_HANDLE (dir_state dir_image)"
    using dir_state_root by (simp add: root_at_def)
  with fat_find_never_misses [OF keeps_floppy] kernel_found show ?thesis by blast
qed

lemma fat_find_missing_diverges_witness:
  "FAT_FindFile (floppy_read []) ROOT_DIRECTORY_HANDLE kernel_name (dir_state [], 0) = None"
proof (rule fat_find_missing_diverges)
  show "searching [] (dir_state [], 0)"
    using dir_state_root [of "[]"] by (auto simp: searching_def root_at_def)
  have "image_sector [] n = replicate 512 0" for n
    by (simp add: image_sector_def map_replicate_const)
  moreover have "replicate 11 (0 :: u8) \<noteq> bytes ''KERNEL  BIN''" by code_simp
  ultimately show "not_on_disk [] (fat_name kernel_name)"
    by (simp add: not_on_disk_def kernel_fat_name)
qed

end
