(* ===== verification/FatMount.thy ===== *)
theory FatMount
  imports FatDir
begin

text \<open>
  Mounting a FAT12 volume: what \<open>FAT_Initialize\<close> finds on a floppy image, and what \<open>FAT_Open\<close>
  then opens. The volume is described from its image alone, so that the statements about the
  driver do not speak of its state.
\<close>

unbundle bit_operations_syntax

section \<open>The disk by 16-bit sector numbers\<close>

text \<open>
  The disk layer cuts a sector number to 16 bits, so that it answers for every number; this is the
  second disk that the contract of the file system is proved for.
\<close>

definition image16 :: "u8 list \<Rightarrow> u32 \<Rightarrow> u8 list" where
  "image16 di lba = image_sector di (unat (ucast lba :: u16))"

text \<open>A disk that answers for every sector number: searches need no bound, and leave it working.\<close>

locale total_source = sector_source rd img reach good
  for rd :: "u32 \<Rightarrow> u8 \<Rightarrow> u8 list \<Rightarrow> 'b \<Rightarrow> bool \<times> u8 list \<times> 'b" and img reach good +
  assumes reach_all: "reach lba"
begin

lemma find_in_root:
  assumes "root_at img 0 g" "good st" "32 * k < unat (fd_Size (fat_RootDirectory g))"
    "unat (fd_Size (fat_RootDirectory g)) < 65536" "first = fd_FirstCluster (fat_RootDirectory g)"
    "\<forall>j<k. de_Name (dir_entry_of (root_slot img first j)) \<noteq> nm"
    "de_Name (dir_entry_of (root_slot img first k)) = nm"
  shows "\<exists>fd' st'. fat_find_loop rd ROOT_DIRECTORY_HANDLE nm (g, st) =
      Some (Inr (Some (dir_entry_of (root_slot img first k)), set_fd ROOT_DIRECTORY_HANDLE fd' g, st')) \<and>
    fd_Handle fd' = ROOT_DIRECTORY_HANDLE \<and> good st'"
  using root_find [OF assms(1,2) _ assms(3-5), where nm = nm] assms(6,7) reach_all by simp

end

interpretation image16: total_source "DISK_ReadSectors (image_bios floppy di) floppy" "image16 di"
  "\<lambda>lba. True" "\<lambda>fails. fails < 3" for di :: "u8 list"
  by unfold_locales (simp_all add: image16_def read_image_any)

lemma image16_length [simp]: "length (image16 di lba) = 512"
  by (simp add: image16_def)

lemma blit_blit_byte: "src \<noteq> [] \<Longrightarrow> blit src (blit [x] buf) = blit src buf"
  by (cases src) (simp_all add: blit_def)

lemma attempts_sectors:
  assumes "fails < n" "0 < unat k"
  shows "read_attempts n (image_bios d di) d chs k buf fails =
    (True, blit (concat (map (\<lambda>i. image_sector di (chs_lba d chs + i)) [0..<unat k])) buf, 0)"
  using assms(1)
proof (induction n arbitrary: fails buf)
  case (Suc n)
  let ?data = "concat (map (\<lambda>i. image_sector di (chs_lba d chs + i)) [0..<unat k])"
  have "length ?data \<noteq> 0" using assms(2) by (simp add: length_concat comp_def sum_list_triv)
  then have over: "blit ?data (blit [0xFF] buf) = blit ?data buf"
    by (intro blit_blit_byte) auto
  show ?case
  proof (cases fails)
    case 0
    then show ?thesis by (simp add: image_bios_def)
  next
    case (Suc m)
    then show ?thesis using Suc.IH [of m "blit [0xFF] buf"] Suc.prems over
      by (simp add: image_bios_def)
  qed
qed simp

lemma read_sectors:
  assumes "fails < 3" "0 < unat k"
  shows "floppy_read di lba k buf fails =
    (True, blit (concat (map (\<lambda>i. image_sector di (unat (ucast lba :: u16) + i)) [0..<unat k])) buf, 0)"
  using attempts_sectors [OF assms, of floppy di "DISK_LBA2CHS floppy lba" buf] lba_chs_lba [of floppy lba]
  by (simp add: DISK_ReadSectors_def floppy_def)

section \<open>The volume\<close>

definition vol_boot :: "u8 list \<Rightarrow> u8 list" where "vol_boot di = image_sector di 0"
definition vol_reserved :: "u8 list \<Rightarrow> nat" where "vol_reserved di = unat (get16 (vol_boot di) 14)"
definition vol_spf :: "u8 list \<Rightarrow> nat" where "vol_spf di = unat (get16 (vol_boot di) 22)"
definition vol_entries :: "u8 list \<Rightarrow> nat" where "vol_entries di = unat (get16 (vol_boot di) 17)"

definition vol_root_lba :: "u8 list \<Rightarrow> nat" where
  "vol_root_lba di = vol_reserved di + vol_spf di * unat (vol_boot di ! 16)"

definition vol_data_lba :: "u8 list \<Rightarrow> nat" where
  "vol_data_lba di = vol_root_lba di + (32 * vol_entries di + 511) div 512"

definition vol_fat :: "u8 list \<Rightarrow> u8 list" where
  "vol_fat di = concat (map (\<lambda>i. image_sector di (vol_reserved di + i)) [0..<vol_spf di])"

text \<open>
  A volume that the driver can mount: sectors of 512 bytes, clusters of at least one sector, a
  table that fits the memory set aside for it, a root directory below sector 65536 and of less
  than 64 KiB. \<open>sz\<close> is the size of the driver's data.
\<close>

definition vol_ok :: "u16 \<Rightarrow> u8 list \<Rightarrow> bool" where
  "vol_ok sz di \<longleftrightarrow> get16 (vol_boot di) 11 = 512 \<and> vol_boot di ! 13 \<noteq> 0 \<and> 0 < vol_spf di \<and>
     unat sz + 512 * vol_spf di < 65536 \<and> vol_root_lba di < 65536 \<and> 32 * vol_entries di < 65536"

text \<open>The memory of the driver before it is initialised: buffers of the declared sizes, anything in them.\<close>

definition fat_memory :: "fat_data \<Rightarrow> bool" where
  "fat_memory g \<longleftrightarrow> length (fat_BootSectorBytes g) = 512 \<and> length (fd_Buffer (fat_RootDirectory g)) = 512 \<and>
     length (fat_OpenedFiles g) = MAX_FILE_HANDLES \<and>
     (\<forall>fd \<in> set (fat_OpenedFiles g). length (fd_Buffer fd) = 512)"

definition mounted :: "u8 list \<Rightarrow> fat_data \<Rightarrow> bool" where
  "mounted di g \<longleftrightarrow> fat_BootSectorBytes g = vol_boot di \<and> take (512 * vol_spf di) (g_Fat g) = vol_fat di \<and>
     g_DataSectionLba g = of_nat (vol_data_lba di) \<and> root_at (image16 di) 0 g \<and>
     fd_Size (fat_RootDirectory g) = of_nat (32 * vol_entries di) \<and>
     fd_FirstCluster (fat_RootDirectory g) = of_nat (vol_root_lba di) \<and>
     length (fat_OpenedFiles g) = MAX_FILE_HANDLES \<and>
     (\<forall>fd \<in> set (fat_OpenedFiles g). length (fd_Buffer fd) = 512 \<and> \<not> fd_Opened fd)"

lemma length_sectors:
  "length (concat (map (\<lambda>i. image_sector di (f i)) [0..<n])) = 512 * n"
  by (simp add: length_concat comp_def sum_list_triv)

lemma vol_fat_length: "length (vol_fat di) = 512 * vol_spf di"
  by (simp add: vol_fat_def length_sectors)

lemma narrow16: "(ucast (ucast w :: u32) :: u16) = w"
  by (rule bit_word_eqI) (auto simp: bit_simps)

lemma vol_words:
  assumes "vol_ok sz di" "fat_BootSectorBytes g = vol_boot di"
  shows "unat (ucast (bs_SectorsPerFat g) :: u8) = vol_spf di"
    "\<not> MEMORY_FAT_SIZE \<le> ucast sz + ucast (bs_BytesPerSector g * bs_SectorsPerFat g)"
    "root_dir_lba g = of_nat (vol_root_lba di)"
    "ucast (32 * bs_DirEntryCount g) = (of_nat (32 * vol_entries di) :: u32)"
    "(ucast (bs_DirEntryCount g) * 32 + ucast (bs_BytesPerSector g) - 1) div ucast (bs_BytesPerSector g) =
       (of_nat ((32 * vol_entries di + 511) div 512) :: u32)"
proof -
  have v: "get16 (vol_boot di) 11 = 512" "unat sz + 512 * vol_spf di < 65536" "vol_spf di < 128"
    "vol_root_lba di < 65536" "32 * vol_entries di < 65536"
    using assms(1) by (simp_all add: vol_ok_def)
  have f: "bs_BytesPerSector g = 512" "unat (bs_SectorsPerFat g) = vol_spf di"
    "unat (bs_DirEntryCount g) = vol_entries di" "unat (bs_ReservedSectors g) = vol_reserved di"
    "bs_FatCount g = vol_boot di ! 16"
    using v(1) assms(2) by (simp_all add: bs_BytesPerSector_def bs_SectorsPerFat_def bs_DirEntryCount_def
        bs_ReservedSectors_def bs_FatCount_def vol_spf_def vol_entries_def vol_reserved_def)
  show "unat (ucast (bs_SectorsPerFat g) :: u8) = vol_spf di"
    using f(2) v(3) by (simp add: unsigned_ucast_eq take_bit_nat_eq_self)
  have "unat (ucast (512 * bs_SectorsPerFat g) :: u32) = 512 * vol_spf di"
    using f(2) v(3) by (simp add: unat_ucast_up16_32 unat_word_ariths)
  then have "unat (ucast sz + ucast (512 * bs_SectorsPerFat g) :: u32) = unat sz + 512 * vol_spf di"
    using v(2) by (simp add: unat_word_ariths unat_ucast_up16_32)
  then show "\<not> MEMORY_FAT_SIZE \<le> ucast sz + ucast (bs_BytesPerSector g * bs_SectorsPerFat g)"
    using v(2) by (simp add: f(1) word_le_nat_alt MEMORY_FAT_SIZE_def)
  have c: "unat (ucast (bs_FatCount g) :: u16) = unat (vol_boot di ! 16)"
    by (simp add: f(5) unat_ucast_up8_16)
  have lba: "vol_reserved di + vol_spf di * unat (vol_boot di ! 16) < 65536"
    using v(4) by (simp add: vol_root_lba_def)
  then have "vol_spf di * unat (vol_boot di ! 16) < 65536" by linarith
  then have "unat (bs_ReservedSectors g + bs_SectorsPerFat g * ucast (bs_FatCount g)) = vol_root_lba di"
    using f(2,4) c lba by (simp add: unat_word_ariths vol_root_lba_def)
  then show "root_dir_lba g = of_nat (vol_root_lba di)"
    unfolding root_dir_lba_def by (intro word_of_unat) (simp add: unat_ucast_up16_32)
  show "ucast (32 * bs_DirEntryCount g) = (of_nat (32 * vol_entries di) :: u32)"
    using f(3) v(5) by (intro word_of_unat) (simp add: unat_ucast_up16_32 unat_word_ariths)
  have b: "(ucast (bs_BytesPerSector g) :: u32) = 512" by (simp add: f(1))
  have "unat (ucast (bs_DirEntryCount g) * 32 + 511 :: u32) = 32 * vol_entries di + 511"
    using f(3) v(5) by (simp add: unat_word_ariths unat_ucast_up16_32)
  then have "unat ((ucast (bs_DirEntryCount g) * 32 + 511 :: u32) div 512) = (32 * vol_entries di + 511) div 512"
    by (simp only: unat_div_distrib) simp
  then show "(ucast (bs_DirEntryCount g) * 32 + ucast (bs_BytesPerSector g) - 1) div ucast (bs_BytesPerSector g) =
       (of_nat ((32 * vol_entries di + 511) div 512) :: u32)"
    unfolding b by (intro word_of_unat) (simp add: add.commute)
qed

text \<open>
  Mounting: on a well-formed volume initialisation succeeds, whatever was in the memory of the
  driver and although the first reads may fail; the boot sector and the whole table are in memory,
  the root directory is open at its first entry, the data area starts behind it, and no file is
  open.
\<close>

theorem fat_initialize_mounts:
  assumes "vol_ok sz di" "fat_memory g0" "fails < 3"
  shows "\<exists>g. FAT_Initialize sz (floppy_read di) (g0, fails) = (True, g, 0) \<and> mounted di g"
proof -
  let ?g = "g0\<lparr>fat_BootSectorBytes := vol_boot di\<rparr>"
  let ?g2 = "?g\<lparr>g_Fat := blit (vol_fat di) (g_Fat g0)\<rparr>"
  have "fat_BootSectorBytes ?g = vol_boot di" "fat_BootSectorBytes ?g2 = vol_boot di" by simp_all
  note w = vol_words [OF assms(1) this(1)] and w2 = vol_words [OF assms(1) this(2)]
  have m: "length (fat_BootSectorBytes g0) = 512" "length (fd_Buffer (fat_RootDirectory g0)) = 512"
    "length (fat_OpenedFiles g0) = MAX_FILE_HANDLES"
    "\<forall>fd \<in> set (fat_OpenedFiles g0). length (fd_Buffer fd) = 512"
    using assms(2) by (simp_all add: fat_memory_def)
  have v: "0 < vol_spf di" "vol_root_lba di < 65536" using assms(1) by (simp_all add: vol_ok_def)
  have boot: "FAT_ReadBootSector (floppy_read di) (g0, fails) = (True, ?g, 0)"
    using assms(3) m(1) by (simp add: FAT_ReadBootSector_def read_image_any vol_boot_def)
  have checks: "bs_BytesPerSector ?g = 512" "bs_SectorsPerCluster ?g \<noteq> 0"
    using assms(1) by (simp_all add: vol_ok_def bs_BytesPerSector_def bs_SectorsPerCluster_def)
  have res: "unat (ucast (ucast (bs_ReservedSectors ?g) :: u32) :: u16) = vol_reserved di"
    by (simp add: bs_ReservedSectors_def vol_reserved_def narrow16)
  have fat: "FAT_ReadFat (floppy_read di) (?g, 0) = (True, ?g\<lparr>g_Fat := blit (vol_fat di) (g_Fat g0)\<rparr>, 0)"
    using read_sectors [of 0 "ucast (bs_SectorsPerFat ?g)" di "ucast (bs_ReservedSectors ?g)" "g_Fat g0"] v(1)
    by (simp only: FAT_ReadFat_def w(1) res vol_fat_def [symmetric]) simp
  have root: "floppy_read di (of_nat (vol_root_lba di)) 1 (fd_Buffer (fat_RootDirectory g0)) 0 =
      (True, image16 di (of_nat (vol_root_lba di)), 0)"
    using m(2) by (simp add: read_image_any image16_def)
  define root where "root = (fat_RootDirectory g0)
    \<lparr>fd_Handle := ROOT_DIRECTORY_HANDLE, fd_IsDirectory := True, fd_Position := 0,
     fd_Size := of_nat (32 * vol_entries di), fd_Opened := True,
     fd_FirstCluster := of_nat (vol_root_lba di), fd_CurrentCluster := of_nat (vol_root_lba di),
     fd_CurrentSectorInCluster := 0, fd_Buffer := image16 di (of_nat (vol_root_lba di))\<rparr>"
  define g where "g = ?g2\<lparr>fat_RootDirectory := root,
     g_DataSectionLba := of_nat (vol_root_lba di) + of_nat ((32 * vol_entries di + 511) div 512),
     fat_OpenedFiles := map (\<lambda>fd. fd\<lparr>fd_Opened := False\<rparr>) (fat_OpenedFiles g0)\<rparr>"
  have "FAT_Initialize sz (floppy_read di) (g0, fails) = (True, g, 0)"
    unfolding FAT_Initialize_def boot using checks w(2)
    by (simp add: fat Let_def w2(3,4) root del: of_nat_mult)
       (use w2(5) in \<open>simp add: g_def root_def bs_DirEntryCount_def bs_BytesPerSector_def del: of_nat_mult\<close>)
  moreover have "mounted di g"
    using m vol_fat_length [of di]
    by (simp add: mounted_def g_def root_def blit_def vol_data_lba_def root_at_def dir_ok_def)
  ultimately show ?thesis by blast
qed

end
