(* ===== verification/FatOpen.thy ===== *)
theory FatOpen
  imports FatMount
begin

text \<open>
  Opening and reading a file of the root directory on a mounted volume: the file is described by
  the slots of the directory and the chains of the image alone.
\<close>

unbundle bit_operations_syntax

section \<open>Files of an image\<close>

text \<open>The constants of the volume in a driver state of their own, for the chain functions.\<close>

definition vol_view :: "u8 list \<Rightarrow> fat_data" where
  "vol_view di = \<lparr>fat_BootSectorBytes = vol_boot di, fat_RootDirectory = fat_closed, fat_OpenedFiles = [],
     g_Fat = vol_fat di, g_DataSectionLba = of_nat (vol_data_lba di)\<rparr>"

definition vol_slot :: "u8 list \<Rightarrow> nat \<Rightarrow> fat_dir_entry" where
  "vol_slot di k = dir_entry_of (root_slot (image16 di) (of_nat (vol_root_lba di)) k)"

definition entry_first :: "fat_dir_entry \<Rightarrow> u32" where
  "entry_first e = ucast (de_FirstClusterLow e) + push_bit 16 (ucast (de_FirstClusterHigh e))"

text \<open>The first slot with a name, the bytes of a chain, and a chain that is long enough.\<close>

definition first_in_root :: "u8 list \<Rightarrow> u8 list \<Rightarrow> nat \<Rightarrow> bool" where
  "first_in_root di nm k \<longleftrightarrow> k < vol_entries di \<and> de_Name (vol_slot di k) = nm \<and>
     (\<forall>j<k. de_Name (vol_slot di j) \<noteq> nm)"

definition vol_bytes :: "u8 list \<Rightarrow> u32 \<Rightarrow> nat \<Rightarrow> u8 list" where
  "vol_bytes di first n = map (file_byte (image16 di) (vol_view di) first) [0..<n]"

definition vol_chain :: "u8 list \<Rightarrow> u32 \<Rightarrow> nat \<Rightarrow> bool" where
  "vol_chain di first n \<longleftrightarrow> chain_at (vol_view di) first (n div 512) \<noteq> None \<and>
     (\<forall>i. 0 < i \<and> i * 512 < n \<longrightarrow> chain_ok (\<lambda>_. True) (vol_view di) first i)"

definition same_volume :: "u8 list \<Rightarrow> fat_data \<Rightarrow> bool" where
  "same_volume di g \<longleftrightarrow> fat_BootSectorBytes g = vol_boot di \<and> take (512 * vol_spf di) (g_Fat g) = vol_fat di \<and>
     g_DataSectionLba g = of_nat (vol_data_lba di)"

lemma same_volume_set [simp]: "same_volume di (set_fd h fd g) \<longleftrightarrow> same_volume di g"
  by (simp add: same_volume_def set_fd_def)

lemma next_cluster_prefix:
  "FAT_NextCluster tbl c = Some v \<Longrightarrow> FAT_NextCluster (tbl @ rest) c = Some v"
  by (auto simp: FAT_NextCluster_def Let_def nth_append split: if_splits)

lemma volume_lba:
  assumes "same_volume di g"
  shows "FAT_ClusterToLba g = FAT_ClusterToLba (vol_view di)" "chain_lba g = chain_lba (vol_view di)"
  using assms
  by (simp_all add: fun_eq_iff chain_lba_def FAT_ClusterToLba_def same_volume_def vol_view_def bs_SectorsPerCluster_def)

lemma volume_chain:
  assumes "same_volume di g"
  shows "chain_at (vol_view di) first n = Some p \<Longrightarrow> chain_at g first n = Some p"
proof (induction n arbitrary: p)
  case (Suc n)
  then obtain q where q: "chain_at (vol_view di) first n = Some q" "chain_next (vol_view di) q = Some p"
    by (auto split: option.splits)
  have fat: "g_Fat g = vol_fat di @ drop (512 * vol_spf di) (g_Fat g)"
    using assms by (metis append_take_drop_id same_volume_def)
  have "bs_SectorsPerCluster g = bs_SectorsPerCluster (vol_view di)"
    using assms by (simp add: same_volume_def vol_view_def bs_SectorsPerCluster_def)
  moreover have "g_Fat (vol_view di) = vol_fat di" by (simp add: vol_view_def)
  ultimately have "chain_next g q = Some p"
    using q(2) next_cluster_prefix [of "vol_fat di" "fst q" _ "drop (512 * vol_spf di) (g_Fat g)"] fat
    by (auto simp: chain_next_def split: if_splits)
  with Suc.IH [OF q(1)] show ?case by simp
qed simp

lemma volume_file:
  assumes "same_volume di g" "vol_chain di first n"
  shows "chain_at g first (n div 512) \<noteq> None" "0 < i \<Longrightarrow> i * 512 < n \<Longrightarrow> chain_ok (\<lambda>_. True) g first i"
    "map (file_byte (image16 di) g first) [0..<n] = vol_bytes di first n"
proof -
  have some: "\<exists>p. chain_at (vol_view di) first i = Some p \<and> chain_at g first i = Some p" if "i * 512 < n \<or> i = n div 512" for i
  proof (cases i)
    case 0
    then show ?thesis by simp
  next
    case (Suc j)
    have "chain_at (vol_view di) first i \<noteq> None" if "i * 512 < n"
    proof -
      have "chain_ok (\<lambda>_. True) (vol_view di) first i" using assms(2) Suc that by (simp add: vol_chain_def)
      then show ?thesis by (auto simp: chain_ok_def split: option.splits)
    qed
    moreover have "chain_at (vol_view di) first (n div 512) \<noteq> None"
      using assms(2) by (simp add: vol_chain_def)
    ultimately have "chain_at (vol_view di) first i \<noteq> None" using that by blast
    then show ?thesis using volume_chain [OF assms(1)] by blast
  qed
  show "chain_at g first (n div 512) \<noteq> None" using some [of "n div 512"] by auto
  show "chain_ok (\<lambda>_. True) g first i" if "0 < i" "i * 512 < n"
  proof -
    have "chain_ok (\<lambda>_. True) (vol_view di) first i" using assms(2) that by (simp add: vol_chain_def)
    then show ?thesis using some [of i] that(2) by (auto simp: chain_ok_def split: option.splits)
  qed
  have "file_byte (image16 di) g first j = file_byte (image16 di) (vol_view di) first j" if "j < n" for j
  proof -
    have "(j div 512) * 512 < n" using that div_mult_mod_eq [of j 512] by linarith
    then obtain p where "chain_at (vol_view di) first (j div 512) = Some p" "chain_at g first (j div 512) = Some p"
      using some by blast
    then show ?thesis using volume_lba [OF assms(1)] by (simp add: file_byte_def sector_lba_def)
  qed
  then show "map (file_byte (image16 di) g first) [0..<n] = vol_bytes di first n"
    by (simp add: vol_bytes_def)
qed

section \<open>Opening\<close>

text \<open>The file just opened from a directory entry: at its start, in handle 0.\<close>

definition opened :: "u8 list \<Rightarrow> fat_dir_entry \<Rightarrow> fat_data \<Rightarrow> bool" where
  "opened di e g \<longleftrightarrow> same_volume di g \<and> file_at (image16 di) 0 g \<and> fd_Position (get_fd 0 g) = 0 \<and>
     fd_Size (get_fd 0 g) = de_Size e \<and> fd_FirstCluster (get_fd 0 g) = entry_first e \<and>
     fd_IsDirectory (get_fd 0 g) = (de_Attributes e AND FAT_ATTRIBUTE_DIRECTORY \<noteq> 0) \<and>
     length (fat_OpenedFiles g) = MAX_FILE_HANDLES"

lemma open_entry:
  assumes "same_volume di g" "length (fat_OpenedFiles g) = MAX_FILE_HANDLES"
    "\<forall>fd \<in> set (fat_OpenedFiles g). length (fd_Buffer fd) = 512 \<and> \<not> fd_Opened fd" "fails < 3"
  shows "\<exists>g'. FAT_OpenEntry (floppy_read di) e (g, fails) = (Some 0, g', 0) \<and> opened di e g'"
proof -
  have m: "MAX_FILE_HANDLES = 10" "0 < length (fat_OpenedFiles g)"
    using assms(2) by (simp_all add: MAX_FILE_HANDLES_def)
  then have "fat_OpenedFiles g ! 0 \<in> set (fat_OpenedFiles g)" by (intro nth_mem)
  then have fd0: "\<not> fd_Opened (fat_OpenedFiles g ! 0)" "length (fd_Buffer (fat_OpenedFiles g ! 0)) = 512"
    using assms(3) by auto
  have find: "find (\<lambda>i. \<not> fd_Opened (fat_OpenedFiles g ! i)) [0..<MAX_FILE_HANDLES] = Some 0"
    using fd0(1) by (simp add: m(1) upt_conv_Cons)
  define fd where "fd = (fat_OpenedFiles g ! 0)
    \<lparr>fd_Handle := 0, fd_IsDirectory := (de_Attributes e AND FAT_ATTRIBUTE_DIRECTORY \<noteq> 0),
     fd_Position := 0, fd_Size := de_Size e, fd_FirstCluster := entry_first e,
     fd_CurrentCluster := entry_first e, fd_CurrentSectorInCluster := 0,
     fd_Buffer := image16 di (FAT_ClusterToLba g (entry_first e)), fd_Opened := True\<rparr>"
  have "FAT_OpenEntry (floppy_read di) e (g, fails) = (Some 0, set_fd 0 fd g, 0)"
    using fd0(2) assms(4)
    by (simp add: FAT_OpenEntry_def find Let_def read_image_any entry_first_def [symmetric] fd_def image16_def)
  moreover have "opened di e (set_fd 0 fd g)"
    using assms(1,2) m(2)
    by (simp add: opened_def file_at_def sector_lba_def fd_def chain_lba_def)
  ultimately show ?thesis by blast
qed

lemma mounted_volume: "mounted di g \<Longrightarrow> same_volume di g"
  by (simp add: mounted_def same_volume_def)

lemma open_in_root:
  assumes "mounted di g" "fails < 3" "vol_entries di < 2048" "first_in_root di (fat_name nm) k"
  shows "\<exists>fd fails'. FAT_FindFile (floppy_read di) ROOT_DIRECTORY_HANDLE nm (g, fails) =
      Some (Inr (Some (vol_slot di k), set_fd ROOT_DIRECTORY_HANDLE fd g, fails')) \<and>
    fd_Handle fd = ROOT_DIRECTORY_HANDLE \<and> fails' < 3"
proof -
  have m: "root_at (image16 di) 0 g" "unat (fd_Size (fat_RootDirectory g)) = 32 * vol_entries di"
    "fd_FirstCluster (fat_RootDirectory g) = of_nat (vol_root_lba di)"
    using assms(1,3) by (simp_all add: mounted_def unat_of_nat_word del: of_nat_mult)
  have f: "k < vol_entries di" "de_Name (vol_slot di k) = fat_name nm"
    "\<forall>j<k. de_Name (vol_slot di j) \<noteq> fat_name nm"
    using assms(4) by (simp_all add: first_in_root_def)
  have "32 * k < unat (fd_Size (fat_RootDirectory g))" "unat (fd_Size (fat_RootDirectory g)) < 65536"
    using f(1) m(2) assms(3) by simp_all
  from image16.find_in_root [OF m(1) assms(2) this m(3) [symmetric], of "fat_name nm"] f(2,3)
  show ?thesis by (simp add: FAT_FindFile_def vol_slot_def)
qed

text \<open>
  Opening a file by name: on a mounted volume the path \<open>/name\<close> (or \<open>name\<close>) of a file in the root
  directory opens the entry of its first slot, whatever the path buffer held before.
\<close>

theorem fat_open_root_file:
  assumes "mounted di g" "fails < 3" "vol_entries di < 2048"
    "path \<noteq> []" "47 \<notin> set path" "length path < MAX_PATH_SIZE"
    "first_in_root di (fat_name (blit (path @ [0]) name)) k"
  shows "\<exists>g'. FAT_Open (floppy_read di) (47 # path) name (g, fails) = Some (Inr (Some 0, g', 0)) \<and>
    opened di (vol_slot di k) g'"
proof -
  from open_in_root [OF assms(1,2,3,7)] obtain fd fails' where
    found: "FAT_FindFile (floppy_read di) ROOT_DIRECTORY_HANDLE (blit (path @ [0]) name) (g, fails) =
      Some (Inr (Some (vol_slot di k), set_fd ROOT_DIRECTORY_HANDLE fd g, fails'))" and
    fd: "fd_Handle fd = ROOT_DIRECTORY_HANDLE" "fails' < 3" by blast
  let ?g1 = "FAT_Close ROOT_DIRECTORY_HANDLE (set_fd ROOT_DIRECTORY_HANDLE fd g)"
  have files: "fat_OpenedFiles ?g1 = fat_OpenedFiles g" and vol: "same_volume di ?g1"
    using fd(1) mounted_volume [OF assms(1)]
    by (simp_all add: FAT_Close_def set_fd_def same_volume_def)
  have "length (fat_OpenedFiles ?g1) = MAX_FILE_HANDLES"
    "\<forall>fd \<in> set (fat_OpenedFiles ?g1). length (fd_Buffer fd) = 512 \<and> \<not> fd_Opened fd"
    using assms(1) by (simp_all add: files mounted_def)
  from open_entry [OF vol this fd(2), of "vol_slot di k"] obtain g' where
    g': "FAT_OpenEntry (floppy_read di) (vol_slot di k) (?g1, fails') = (Some 0, g', 0)"
    "opened di (vol_slot di k) g'" by blast
  have all: "takeWhile (\<lambda>c. c \<noteq> 47) path = path" using assms(5) by (auto simp: takeWhile_eq_all_conv)
  with assms(4-6) found g'(1) have "FAT_Open (floppy_read di) (47 # path) name (g, fails) = Some (Inr (Some 0, g', 0))"
    by (simp add: FAT_Open_def Let_def all)
  with g'(2) show ?thesis by blast
qed

section \<open>Reading the whole file\<close>

lemma read_opened:
  assumes "opened di e g" "fails < 3" "unat (de_Size e) < 32768" "de_Attributes e AND FAT_ATTRIBUTE_DIRECTORY = 0"
    "vol_chain di (entry_first e) (unat (de_Size e))"
  shows "\<exists>fd fails'. FAT_ReadImpl (floppy_read di) 0 (de_Size e) (g, fails) =
      Some (Inr (de_Size e, vol_bytes di (entry_first e) (unat (de_Size e)), set_fd 0 fd g, fails')) \<and>
    fd_Size fd = de_Size e \<and> fd_Handle fd = 0"
proof -
  have o: "same_volume di g" "file_at (image16 di) 0 g" "fd_Position (get_fd 0 g) = 0"
    "fd_Size (get_fd 0 g) = de_Size e" "entry_first e = fd_FirstCluster (get_fd 0 g)" "\<not> fd_IsDirectory (get_fd 0 g)"
    using assms(1,4) by (simp_all add: opened_def)
  let ?n = "unat (de_Size e)"
  note chain = volume_file [OF o(1) assms(5)]
  have pre: "fd_Position (get_fd 0 g) \<le> fd_Size (get_fd 0 g)"
    "unat (fd_Size (get_fd 0 g)) - unat (fd_Position (get_fd 0 g)) < 32768"
    "0 = unat (fd_Position (get_fd 0 g))" "?n = read_count (de_Size e) (get_fd 0 g)"
    using assms(3) o(3,4) by (simp_all add: read_count_def)
  have "chain_at g (entry_first e) ((0 + ?n) div 512) \<noteq> None"
    "\<forall>i. 0 div 512 < i \<and> i * 512 < 0 + ?n \<longrightarrow> chain_ok (\<lambda>_. True) g (entry_first e) i"
    using chain(1,2) by simp_all
  from image16.read_file [OF o(2) assms(2) o(6) pre(1) assms(3) pre(2,3,4) o(5) this] obtain fd fails' where
    "FAT_ReadImpl (floppy_read di) 0 (de_Size e) (g, fails) =
      Some (Inr (of_nat ?n, map (file_byte (image16 di) g (entry_first e)) [0..<0 + ?n], set_fd 0 fd g, fails'))"
    "fd_Handle fd = 0" "fd_Size fd = fd_Size (get_fd 0 g) \<or> unat (fd_Size fd) = 0 + ?n" by blast
  then show ?thesis using chain(3) o(4)
    by (intro exI [of _ fd] exI [of _ fails']) (auto simp: word_unat_eq_iff)
qed

end
