(* ===== verification/Stage2Stdio.thy ===== *)
theory Stage2Stdio
  imports BootInfo
begin

text \<open>
  Console output of the second stage (bootloader/stage2/stdio.c): the incremental UTF-8 decoder, the
  conversion to code page 437, and printf with its state machine. The BIOS teletype is a log of the
  bytes sent; \<open>int\<close> has 16 bits, \<open>long\<close> 32 and \<open>long long\<close> 64, as in the 16-bit compilation of this
  stage. The 64-bit division of x86.asm is the division of words.
\<close>

unbundle bit_operations_syntax

section \<open>Characters\<close>

record stdio =
  g_Utf32State :: u32
  g_Utf32Char :: u32
  tty :: "u8 list"

definition putc :: "u8 \<Rightarrow> stdio \<Rightarrow> stdio" where
  "putc c s = s\<lparr>tty := tty s @ [c]\<rparr>"

definition cp437_table :: "(u16 \<times> u8) list" where
  "cp437_table =
    [(0x00C4, 0x8E), (0x00C5, 0x8F), (0x00C7, 0x80), (0x00C9, 0x90), (0x00D1, 0xA5), (0x00D6, 0x99),
     (0x00DC, 0x9A), (0x00E1, 0xA0), (0x00E0, 0x85), (0x00E2, 0x83), (0x00E4, 0x84), (0x00E3, 0x84),
     (0x00E5, 0x86), (0x00E7, 0x87), (0x00E9, 0x82), (0x00E8, 0x8A), (0x00EA, 0x88), (0x00EB, 0x89),
     (0x00ED, 0xA1), (0x00EC, 0x8D), (0x00EE, 0x8C), (0x00EF, 0x8B), (0x00F1, 0xA4), (0x00F3, 0xA2),
     (0x00F2, 0x95), (0x00F4, 0x93), (0x00F6, 0x94), (0x00FA, 0xA3), (0x00F9, 0x97), (0x00FB, 0x96),
     (0x00FC, 0x81), (0x00F5, 0x94), (0x00C3, 0x8E), (0x00D5, 0x99)]"

definition putwc :: "u16 \<Rightarrow> stdio \<Rightarrow> stdio" where
  "putwc c s =
     (if c < 0x80 then putc (ucast c) s
      else (case map_of cp437_table c of Some b \<Rightarrow> putc b s | None \<Rightarrow> putc 63 s))"

definition putc_utf8 :: "u8 \<Rightarrow> stdio \<Rightarrow> stdio" where
  "putc_utf8 b s =
     (if b < 0x80 then putc b (s\<lparr>g_Utf32State := 0\<rparr>)
      else if g_Utf32State s = 0 then
        (if b AND 0xE0 = 0xC0 then s\<lparr>g_Utf32Char := ucast (b AND 0x1F), g_Utf32State := 1\<rparr>
         else if b AND 0xF0 = 0xE0 then s\<lparr>g_Utf32Char := ucast (b AND 0x0F), g_Utf32State := 2\<rparr>
         else if b AND 0xF8 = 0xF0 then s\<lparr>g_Utf32Char := ucast (b AND 0x07), g_Utf32State := 3\<rparr>
         else s)
      else
        (let s = s\<lparr>g_Utf32Char := push_bit 6 (g_Utf32Char s) OR ucast (b AND 0x3F),
                   g_Utf32State := g_Utf32State s - 1\<rparr>
         in if g_Utf32State s = 0 then putwc (ucast (g_Utf32Char s)) s else s))"

text \<open>Strings; reading past the end of the object is \<open>None\<close>. Near and far pointers differ only in how
  they are passed.\<close>

fun puts :: "u8 list \<Rightarrow> stdio \<Rightarrow> stdio option" where
  "puts [] s = None"
| "puts (c # str) s = (if c \<noteq> 0 then puts str (putc_utf8 c s) else Some s)"

definition puts_f :: "u8 list \<Rightarrow> stdio \<Rightarrow> stdio option" where
  "puts_f str s = puts str s"

fun putws :: "u16 list \<Rightarrow> stdio \<Rightarrow> stdio option" where
  "putws [] s = None"
| "putws (c # str) s = (if c \<noteq> 0 then putws str (putwc c s) else Some s)"

section \<open>Numbers\<close>

datatype plength =
  PRINTF_LENGTH_DEFAULT | PRINTF_LENGTH_SHORT_SHORT | PRINTF_LENGTH_SHORT | PRINTF_LENGTH_LONG
  | PRINTF_LENGTH_LONG_LONG

definition g_HexChars :: "u8 list" where "g_HexChars = bytes ''0123456789abcdef''"

text \<open>The variable arguments are words of the stack; a number takes one, two or four of them.\<close>

definition words_of :: "plength \<Rightarrow> nat" where
  "words_of len =
     (case len of PRINTF_LENGTH_LONG \<Rightarrow> 2 | PRINTF_LENGTH_LONG_LONG \<Rightarrow> 4 | _ \<Rightarrow> 1)"

definition arg32 :: "u16 list \<Rightarrow> u32" where
  "arg32 argp = ucast (argp ! 0) OR push_bit 16 (ucast (argp ! 1))"

definition arg64 :: "u16 list \<Rightarrow> u64" where
  "arg64 argp = ucast (arg32 argp) OR push_bit 32 (ucast (arg32 (drop 2 argp)))"

text \<open>The switch that fetches the number: whether a minus sign is due, and the magnitude.\<close>

definition fetch_number :: "u16 list \<Rightarrow> plength \<Rightarrow> bool \<Rightarrow> bool \<times> u64" where
  "fetch_number argp len sign =
     (case len of
        PRINTF_LENGTH_LONG \<Rightarrow>
          (let n = arg32 argp in
           if sign then (if n <s 0 then (True, scast (- n)) else (False, scast n)) else (False, ucast n))
      | PRINTF_LENGTH_LONG_LONG \<Rightarrow>
          (let n = arg64 argp in if sign \<and> n <s 0 then (True, - n) else (False, n))
      | _ \<Rightarrow>
          (let n = argp ! 0 in
           if sign then (if n <s 0 then (True, scast (- n)) else (False, scast n)) else (False, ucast n)))"

text \<open>The loop that fills the buffer, least significant digit first.\<close>

function number_digits :: "u64 \<Rightarrow> u64 \<Rightarrow> u8 list" where
  "number_digits radix n =
     (if radix < 2 then []
      else
        (let d = g_HexChars ! unat (n mod radix); q = n div radix in
         if q > 0 then d # number_digits radix q else [d]))"
  by pat_completeness auto
termination
proof (relation "measure (\<lambda>(radix, n). unat n)")
  fix radix n d q :: u64 and x
  assume "\<not> radix < 2" "q = n div radix" "0 < q"
  then have "2 \<le> unat radix" "unat q = unat n div unat radix" "0 < unat q"
    by (auto simp: word_less_nat_alt unat_div unat_gt_0)
  then have "unat q < unat n" by (metis div_less_dividend less_le_trans one_less_numeral_iff semiring_norm(76) div_0 gr0I less_irrefl)
  then show "((radix, q), radix, n) \<in> measure (\<lambda>(radix, n). unat n)" by simp
qed auto

definition printf_number :: "u16 list \<Rightarrow> plength \<Rightarrow> bool \<Rightarrow> u64 \<Rightarrow> stdio \<Rightarrow> (u16 list \<times> stdio) option" where
  "printf_number argp len sign radix s =
     (if length argp < words_of len then None
      else
        (let (neg, number) = fetch_number argp len sign;
             buffer = number_digits radix number;
             buffer = (if sign \<and> neg then buffer @ [45] else buffer)
         in Some (drop (words_of len) argp, fold putc_utf8 (rev buffer) s)))"

section \<open>Formats\<close>

datatype pstate =
  PRINTF_STATE_NORMAL | PRINTF_STATE_LENGTH | PRINTF_STATE_LENGTH_SHORT | PRINTF_STATE_LENGTH_LONG
  | PRINTF_STATE_SPEC

text \<open>What the pointers among the arguments point to: near and far byte strings, near wide strings.\<close>

record strings =
  near_str :: "u16 \<Rightarrow> u8 list"
  far_str :: "u32 \<Rightarrow> u8 list"
  wide_str :: "u16 \<Rightarrow> u16 list"

definition printf_spec :: "strings \<Rightarrow> u8 \<Rightarrow> plength \<Rightarrow> u16 list \<Rightarrow> stdio \<Rightarrow> (u16 list \<times> stdio) option" where
  "printf_spec env c len argp s =
     (if c = 99 then
        (case argp of [] \<Rightarrow> None | a # as \<Rightarrow> Some (as, putc_utf8 (ucast a) s))
      else if c = 67 then
        (case argp of [] \<Rightarrow> None | a # as \<Rightarrow> Some (as, putwc a s))
      else if c = 115 then
        (if len = PRINTF_LENGTH_LONG \<or> len = PRINTF_LENGTH_LONG_LONG then
           (if length argp < 2 then None
            else map_option (Pair (drop 2 argp)) (puts_f (far_str env (arg32 argp)) s))
         else
           (case argp of [] \<Rightarrow> None | a # as \<Rightarrow> map_option (Pair as) (puts (near_str env a) s)))
      else if c = 83 then
        (case argp of [] \<Rightarrow> None | a # as \<Rightarrow> map_option (Pair as) (putws (wide_str env a) s))
      else if c = 37 then Some (argp, putc_utf8 37 s)
      else if c = 100 \<or> c = 105 then printf_number argp len True 10 s
      else if c = 117 then printf_number argp len False 10 s
      else if c = 88 \<or> c = 120 \<or> c = 112 then printf_number argp len False 16 s
      else if c = 111 then printf_number argp len False 8 s
      else Some (argp, s))"

text \<open>The loop over the format, one character in one state; \<open>len\<close> is the length modifier so far.\<close>

primrec printf_loop ::
  "strings \<Rightarrow> u8 list \<Rightarrow> pstate \<Rightarrow> plength \<Rightarrow> u16 list \<Rightarrow> stdio \<Rightarrow> stdio option" where
  "printf_loop env [] st len argp s = None"
| "printf_loop env (c # fmt) st len argp s =
     (let spec = (case printf_spec env c len argp s of
            None \<Rightarrow> None
          | Some (argp, s) \<Rightarrow> printf_loop env fmt PRINTF_STATE_NORMAL PRINTF_LENGTH_DEFAULT argp s) in
      if c = 0 then Some s
      else
        (case st of
           PRINTF_STATE_NORMAL \<Rightarrow>
             if c = 37 then printf_loop env fmt PRINTF_STATE_LENGTH len argp s
             else printf_loop env fmt PRINTF_STATE_NORMAL len argp (putc_utf8 c s)
         | PRINTF_STATE_LENGTH \<Rightarrow>
             if c = 104 then printf_loop env fmt PRINTF_STATE_LENGTH_SHORT PRINTF_LENGTH_SHORT argp s
             else if c = 108 then printf_loop env fmt PRINTF_STATE_LENGTH_LONG PRINTF_LENGTH_LONG argp s
             else spec
         | PRINTF_STATE_LENGTH_SHORT \<Rightarrow>
             if c = 104 then printf_loop env fmt PRINTF_STATE_SPEC PRINTF_LENGTH_SHORT_SHORT argp s else spec
         | PRINTF_STATE_LENGTH_LONG \<Rightarrow>
             if c = 108 then printf_loop env fmt PRINTF_STATE_SPEC PRINTF_LENGTH_LONG_LONG argp s else spec
         | PRINTF_STATE_SPEC \<Rightarrow> spec))"

definition printf :: "strings \<Rightarrow> u8 list \<Rightarrow> u16 list \<Rightarrow> stdio \<Rightarrow> stdio option" where
  "printf env fmt argp s = printf_loop env fmt PRINTF_STATE_NORMAL PRINTF_LENGTH_DEFAULT argp s"

end
