(* ===== verification/Stage2Main.thy ===== *)
theory Stage2Main
  imports FatOpen BootMemory Stage2Stdio
begin

text \<open>
  The main program of stage 2 (bootloader/stage2/main.c) with the addresses of memdefs.h: disk and
  file system, memory map, heap, boot information block, and the transfer to the kernel.
\<close>

unbundle bit_operations_syntax

section \<open>Addresses\<close>

text \<open>Far pointers are segment and offset in one word.\<close>

definition MEMORY_KERNEL_ADDR :: u32 where "MEMORY_KERNEL_ADDR = 0x12000000"
definition MEMORY_KERNEL_SEGMENT :: u16 where "MEMORY_KERNEL_SEGMENT = 0x1200"
definition MEMORY_KERNEL_OFFSET :: u16 where "MEMORY_KERNEL_OFFSET = 0x0000"
definition MEMORY_BOOT_INFO_ADDR :: u32 where "MEMORY_BOOT_INFO_ADDR = 0x60000000"
definition MEMORY_E820_MAP_ADDR :: u32 where "MEMORY_E820_MAP_ADDR = 0x61000000"
definition MEMORY_E820_MAP_CAPACITY :: u16 where "MEMORY_E820_MAP_CAPACITY = 32"
definition MEMORY_IO_BUFFER_ADDR :: u32 where "MEMORY_IO_BUFFER_ADDR = 0x62000000"
definition MEMORY_IO_BUFFER_SIZE :: u32 where "MEMORY_IO_BUFFER_SIZE = 0x00002000"
definition MEMORY_KERNEL_HEAP_SIZE :: u32 where "MEMORY_KERNEL_HEAP_SIZE = 0x00020000"
definition MEMORY_HEAP_MIN_PHYSICAL :: u32 where "MEMORY_HEAP_MIN_PHYSICAL = 0x00078000"
definition MEMORY_TEXT_FRAMEBUFFER_ADDR :: u32 where "MEMORY_TEXT_FRAMEBUFFER_ADDR = 0xB8000000"
definition MEMORY_TEXT_FRAMEBUFFER_WIDTH :: u16 where "MEMORY_TEXT_FRAMEBUFFER_WIDTH = 80"
definition MEMORY_TEXT_FRAMEBUFFER_HEIGHT :: u16 where "MEMORY_TEXT_FRAMEBUFFER_HEIGHT = 25"
definition MEMORY_TEXT_FRAMEBUFFER_PITCH :: u16 where "MEMORY_TEXT_FRAMEBUFFER_PITCH = 160"
definition MEMORY_TEXT_FRAMEBUFFER_BPP :: u8 where "MEMORY_TEXT_FRAMEBUFFER_BPP = 16"
definition MEMORY_VIDEO_MODE_TEXT :: u8 where "MEMORY_VIDEO_MODE_TEXT = 0"

definition BOOT_KERNEL_PATH :: "u8 list" where "BOOT_KERNEL_PATH = bytes ''/kernel.bin''"

section \<open>The machine\<close>

text \<open>
  What stage 2 finds: the BIOS, the size of the driver's data, the strings that pointers refer to,
  and whether the compiler reads \<open>kernel->Size\<close> after the call that it is compared with. The data
  of the FAT driver is a part of its own; \<open>s2_name\<close> is the path buffer on the stack.
\<close>

record 'b stage2_env =
  se_bios :: "'b bios"
  se_map :: "u32 \<Rightarrow> u16 \<Rightarrow> memory \<Rightarrow> bool \<times> u16 \<times> memory"
  se_sz :: u16
  se_strings :: strings
  se_late :: bool

record 'b stage2 =
  s2_bios :: 'b
  s2_mem :: memory
  s2_disk :: disk
  s2_fat :: fat_data
  s2_name :: "u8 list"
  s2_stdio :: stdio

text \<open>How stage 2 ends: it stops with a message, or jumps to a segment and an offset.\<close>

datatype boot_outcome = Boot_failed string | Far_jump u16 u16

type_synonym 'b boot_result = "(fat_error + boot_outcome \<times> 'b stage2) option"

section \<open>Operations\<close>

text \<open>Bytes stored one after another behind a far pointer.\<close>

definition far_write :: "u32 \<Rightarrow> u8 list \<Rightarrow> memory \<Rightarrow> memory" where
  "far_write dst bs mem =
     fold (\<lambda>i m. m(far_to_flat (far_add dst (of_nat i)) := bs ! i)) [0..<length bs] mem"

definition boot_fail :: "'b stage2_env \<Rightarrow> string \<Rightarrow> 'b stage2 \<Rightarrow> 'b boot_result" where
  "boot_fail env message m =
     map_option (\<lambda>s. Inr (Boot_failed message, m\<lparr>s2_stdio := s\<rparr>))
       (printf ((se_strings env)\<lparr>near_str := (\<lambda>p. bytes message @ [0])\<rparr>) (bytes ''%s'' @ [13, 10, 0]) [0]
         (s2_stdio m))"

text \<open>The end of \<open>cstart\<close>: the kernel is opened, read to its address, closed and entered.\<close>

definition cstart_kernel :: "'b stage2_env \<Rightarrow> 'b stage2 \<Rightarrow> 'b boot_result" where
  "cstart_kernel env m =
     (let rd = DISK_ReadSectors (se_bios env) (s2_disk m) in
      case FAT_Open rd BOOT_KERNEL_PATH (s2_name m) (s2_fat m, s2_bios m) of
        None \<Rightarrow> None
      | Some (Inl e) \<Rightarrow> Some (Inl e)
      | Some (Inr (None, g, st)) \<Rightarrow>
          boot_fail env ''kernel.bin not found'' (m\<lparr>s2_fat := g, s2_bios := st\<rparr>)
      | Some (Inr (Some kernelFile, g, st)) \<Rightarrow>
          (case FAT_ReadImpl rd kernelFile (fd_Size (get_fd kernelFile g)) (g, st) of
             None \<Rightarrow> None
           | Some (Inl e) \<Rightarrow> Some (Inl e)
           | Some (Inr (n, data, g', st)) \<Rightarrow>
               (let expected = fd_Size (get_fd kernelFile (if se_late env then g' else g));
                    m = m\<lparr>s2_mem := far_write MEMORY_KERNEL_ADDR data (s2_mem m),
                          s2_fat := FAT_Close kernelFile g', s2_bios := st\<rparr> in
                if n \<noteq> expected then boot_fail env ''Kernel load error'' m
                else Some (Inr (Far_jump MEMORY_KERNEL_SEGMENT MEMORY_KERNEL_OFFSET, m)))))"

text \<open>The middle: memory map, heap and boot information block.\<close>

definition cstart_memory :: "'b stage2_env \<Rightarrow> u16 \<Rightarrow> 'b stage2 \<Rightarrow> 'b boot_result" where
  "cstart_memory env bootDrive m =
     (let (memoryMap, mem) = MEMORY_Map_Init MEMORY_E820_MAP_ADDR MEMORY_E820_MAP_CAPACITY (s2_mem m);
          (ok, memoryMap, mem) = MEMORY_Map_Collect (se_map env) memoryMap mem;
          m = m\<lparr>s2_mem := mem\<rparr> in
      if \<not> ok then boot_fail env ''Memory map error'' m
      else
        (case MEMORY_Allocator_InitFromMap mem memoryMap MEMORY_HEAP_MIN_PHYSICAL MEMORY_KERNEL_HEAP_SIZE of
           None \<Rightarrow> boot_fail env ''Kernel heap error'' m
         | Some kernelAllocator \<Rightarrow>
             (let info = MEMORY_BootInfo_Init MEMORY_BOOT_INFO_ADDR (ucast bootDrive)
                    MEMORY_VIDEO_MODE_TEXT (Some memoryMap) (Some kernelAllocator)
                    MEMORY_IO_BUFFER_ADDR MEMORY_IO_BUFFER_SIZE MEMORY_TEXT_FRAMEBUFFER_ADDR
                    MEMORY_TEXT_FRAMEBUFFER_WIDTH MEMORY_TEXT_FRAMEBUFFER_HEIGHT
                    MEMORY_TEXT_FRAMEBUFFER_PITCH MEMORY_TEXT_FRAMEBUFFER_BPP 0;
                  m = m\<lparr>s2_mem := (case info of None \<Rightarrow> mem
                    | Some b \<Rightarrow> write_bytes mem (far_to_flat MEMORY_BOOT_INFO_ADDR) (boot_info_image b))\<rparr>;
                  base = al_BasePhysical kernelAllocator;
                  capacity = al_Capacity kernelAllocator in
              case printf (se_strings env)
                  (bytes ''Memory map: %u entries, heap=%lx size=%lu'' @ [13, 10, 0])
                  [mm_EntryCount memoryMap, ucast base, ucast (drop_bit 16 base),
                   ucast capacity, ucast (drop_bit 16 capacity)] (s2_stdio m) of
                None \<Rightarrow> None
              | Some s \<Rightarrow> cstart_kernel env (m\<lparr>s2_stdio := s\<rparr>))))"

definition cstart :: "'b stage2_env \<Rightarrow> u16 \<Rightarrow> 'b stage2 \<Rightarrow> 'b boot_result" where
  "cstart env bootDrive m =
     (let (ok, d, st) = DISK_Initialize (se_bios env) (ucast bootDrive) (s2_disk m) (s2_bios m);
          m = m\<lparr>s2_disk := d, s2_bios := st\<rparr> in
      if \<not> ok then boot_fail env ''Disk init error'' m
      else
        (let (ok, g, st) = FAT_Initialize (se_sz env) (DISK_ReadSectors (se_bios env) d) (s2_fat m, s2_bios m);
             m = m\<lparr>s2_fat := g, s2_bios := st\<rparr> in
         if \<not> ok then boot_fail env ''FAT init error'' m
         else cstart_memory env bootDrive m))"

end
