(* ===== verification/Stage2Print.thy ===== *)
theory Stage2Print
  imports Stage2Stdio
begin

text \<open>
  What the console output of the second stage promises: UTF-8 text is decoded, numbers are printed in
  their radix within the buffer, and formats are rendered piece by piece.
\<close>

unbundle bit_operations_syntax

section \<open>UTF-8\<close>

text \<open>The encoding of a code point in one to four bytes.\<close>

definition utf8 :: "u32 \<Rightarrow> u8 list" where
  "utf8 w =
     (if w < 0x80 then [ucast w]
      else if w < 0x800 then [0xC0 OR ucast (drop_bit 6 w), 0x80 OR ucast (w AND 0x3F)]
      else if w < 0x10000 then
        [0xE0 OR ucast (drop_bit 12 w), 0x80 OR ucast (drop_bit 6 w AND 0x3F), 0x80 OR ucast (w AND 0x3F)]
      else
        [0xF0 OR ucast (drop_bit 18 w), 0x80 OR ucast (drop_bit 12 w AND 0x3F),
         0x80 OR ucast (drop_bit 6 w AND 0x3F), 0x80 OR ucast (w AND 0x3F)])"

text \<open>The bytes of an encoding, for every value of their payload.\<close>

definition lead_ok :: "u8 \<Rightarrow> bool" where
  "lead_ok x \<longleftrightarrow>
     (x < 32 \<longrightarrow> \<not> 0xC0 OR x < 0x80 \<and> (0xC0 OR x) AND 0xE0 = 0xC0 \<and> (0xC0 OR x) AND 0x1F = x) \<and>
     (x < 16 \<longrightarrow> \<not> 0xE0 OR x < 0x80 \<and> (0xE0 OR x) AND 0xE0 \<noteq> 0xC0 \<and> (0xE0 OR x) AND 0xF0 = 0xE0 \<and>
        (0xE0 OR x) AND 0x0F = x) \<and>
     (x < 8 \<longrightarrow> \<not> 0xF0 OR x < 0x80 \<and> (0xF0 OR x) AND 0xE0 \<noteq> 0xC0 \<and> (0xF0 OR x) AND 0xF0 \<noteq> 0xE0 \<and>
        (0xF0 OR x) AND 0xF8 = 0xF0 \<and> (0xF0 OR x) AND 0x07 = x) \<and>
     (x < 64 \<longrightarrow> \<not> 0x80 OR x < 0x80 \<and> (0x80 OR x) AND 0x3F = x)"

lemma lead_bytes: "lead_ok x"
proof (rule all_u8)
  show "list_all lead_ok all_bytes" by code_simp
qed

lemma putc_lead:
  assumes "g_Utf32State s = 0"
  shows "x < 32 \<Longrightarrow> putc_utf8 (0xC0 OR x) s = s\<lparr>g_Utf32Char := ucast x, g_Utf32State := 1\<rparr>"
    "x < 16 \<Longrightarrow> putc_utf8 (0xE0 OR x) s = s\<lparr>g_Utf32Char := ucast x, g_Utf32State := 2\<rparr>"
    "x < 8 \<Longrightarrow> putc_utf8 (0xF0 OR x) s = s\<lparr>g_Utf32Char := ucast x, g_Utf32State := 3\<rparr>"
  using assms lead_bytes [of x] by (simp_all add: putc_utf8_def lead_ok_def)

lemma putc_more:
  assumes "g_Utf32State s \<noteq> 0" "x < 64"
  shows "putc_utf8 (0x80 OR x) s =
    (let s = s\<lparr>g_Utf32Char := push_bit 6 (g_Utf32Char s) OR ucast x, g_Utf32State := g_Utf32State s - 1\<rparr>
     in if g_Utf32State s = 0 then putwc (ucast (g_Utf32Char s)) s else s)"
  using assms lead_bytes [of x] by (simp add: putc_utf8_def lead_ok_def)

lemma take_bit_less: "n < LENGTH('a) \<Longrightarrow> take_bit n w = w \<longleftrightarrow> w < 2 ^ n" for w :: "'a::len word"
proof -
  assume n: "n < LENGTH('a)"
  then have p: "unat (2 ^ n :: 'a word) = 2 ^ n" using unat_of_nat_word [of "2 ^ n", where 'a = 'a] by simp
  have "take_bit n w = w \<longleftrightarrow> take_bit n (unat w) = unat w"
    by (simp add: word_unat_eq_iff unsigned_take_bit_eq)
  also have "\<dots> \<longleftrightarrow> unat w < 2 ^ n" by (simp add: take_bit_nat_eq_self_iff)
  finally show ?thesis using p by (simp add: word_less_nat_alt)
qed

lemma small_bits: "w < 2 ^ k \<Longrightarrow> k < 32 \<Longrightarrow> bit w n \<Longrightarrow> n < k" for w :: u32
proof -
  assume w: "w < 2 ^ k" "k < 32" and b: "bit w n"
  then have "take_bit k w = w" by (simp add: take_bit_less)
  with b show "n < k" by (metis bit_take_bit_iff)
qed

lemma mask6: "(0x3F :: u32) = mask 6"
  by (simp add: mask_eq_exp_minus_1)

lemma six_bits: "(ucast (w AND 0x3F) :: u8) < 64" for w :: u32
proof -
  have "(ucast (w AND mask 6) :: u8) = take_bit 6 (ucast w)"
    by (rule bit_word_eqI) (auto simp: bit_simps)
  then show ?thesis using take_bit_less [of 6 "take_bit 6 (ucast w :: u8)"] by (simp add: mask6)
qed

lemma top_bits_less:
  fixes w :: u32
  assumes "w < 2 ^ (n + m)" "m \<le> 8" "n + m < 32"
  shows "take_bit m (ucast (drop_bit n w) :: u8) = ucast (drop_bit n w)"
proof -
  show ?thesis
    by (rule bit_word_eqI) (use small_bits [OF assms(1,3)] in \<open>fastforce simp: bit_simps\<close>)
qed

lemma lead_less:
  fixes w :: u32
  shows "w < 0x800 \<Longrightarrow> (ucast (drop_bit 6 w) :: u8) < 32"
    "w < 0x10000 \<Longrightarrow> (ucast (drop_bit 12 w) :: u8) < 16"
    "w < 0x200000 \<Longrightarrow> (ucast (drop_bit 18 w) :: u8) < 8"
  using top_bits_less [of w 6 5] top_bits_less [of w 12 4] top_bits_less [of w 18 3]
  by (simp_all add: take_bit_less)

lemma join_step: "push_bit 6 (drop_bit 6 u) OR ucast (ucast (u AND 0x3F) :: u8) = u" for u :: u32
proof (rule bit_word_eqI)
  fix n assume "n < LENGTH(32)"
  then show "bit (push_bit 6 (drop_bit 6 u) OR ucast (ucast (u AND 0x3F) :: u8)) n = bit u n"
    by (cases "6 \<le> n") (auto simp: mask6 bit_simps)
qed

lemma narrow8: "v < 256 \<Longrightarrow> ucast (ucast v :: u8) = v" for v :: u32
proof -
  assume "v < 256"
  then have "v < 2 ^ 8" by simp
  then show ?thesis
    by (intro bit_word_eqI) (use small_bits [of v 8] in \<open>auto simp: bit_simps\<close>)
qed

lemma drop_small: "w < 2 ^ (n + 8) \<Longrightarrow> n + 8 < 32 \<Longrightarrow> drop_bit n w < 256" for w :: u32
proof -
  assume w: "w < 2 ^ (n + 8)" "n + 8 < 32"
  have "take_bit 8 (drop_bit n w) = drop_bit n w"
    by (rule bit_word_eqI) (use small_bits [OF w] in \<open>fastforce simp: bit_simps\<close>)
  then show ?thesis by (simp add: take_bit_less)
qed

lemma drop_more: "drop_bit 6 (drop_bit 6 w) = drop_bit 12 w" "drop_bit 6 (drop_bit 12 w) = drop_bit 18 w" for w :: u32
  by simp_all

text \<open>One encoded code point: the decoder returns to its initial state with the character put out.\<close>

lemma utf8_one:
  assumes "w < 0x200000" "g_Utf32State s = 0"
  shows "\<exists>c. fold putc_utf8 (utf8 w) s = (putwc (ucast w) s)\<lparr>g_Utf32Char := c\<rparr>"
proof -
  have fin: "(putwc x (t\<lparr>g_Utf32Char := c, g_Utf32State := 0\<rparr>)) = (putwc x s)\<lparr>g_Utf32Char := c\<rparr>"
    if "t = s\<lparr>g_Utf32Char := g_Utf32Char t, g_Utf32State := g_Utf32State t\<rparr>" for x c t
    by (subst that) (simp add: putwc_def putc_def assms(2) split: option.split)
  consider "w < 0x80" | "\<not> w < 0x80" "w < 0x800" | "\<not> w < 0x80" "\<not> w < 0x800" "w < 0x10000"
    | "\<not> w < 0x80" "\<not> w < 0x800" "\<not> w < 0x10000" by blast
  then show ?thesis
  proof cases
    case 1
    then have "unat w < 128" by (simp add: word_less_nat_alt)
    then have "(ucast w :: u8) < 0x80" "(ucast w :: u16) < 0x80" "(ucast (ucast w :: u16) :: u8) = ucast w"
      by (simp_all add: word_less_nat_alt unsigned_ucast_eq take_bit_nat_eq_self) (rule bit_word_eqI, auto simp: bit_simps)
    with 1 assms(2) show ?thesis
      by (intro exI [of _ "g_Utf32Char s"]) (simp add: utf8_def putc_utf8_def putwc_def putc_def)
  next
    case 2
    have "drop_bit 6 w < 256" using drop_small [of w 6] 2 by (simp add: word_less_nat_alt)
    then have j: "push_bit 6 (ucast (ucast (drop_bit 6 w) :: u8)) OR ucast (ucast (w AND 0x3F) :: u8) = w"
      using narrow8 [of "drop_bit 6 w"] join_step [of w] by simp
    show ?thesis
      using 2 lead_less(1) [of w] six_bits [of w] assms(2) j
      by (intro exI [of _ w]) (simp add: utf8_def putc_lead putc_more Let_def fin)
  next
    case 3
    have "drop_bit 12 w < 256" using drop_small [of w 12] 3 by (simp add: word_less_nat_alt)
    then have j: "push_bit 6 (push_bit 6 (ucast (ucast (drop_bit 12 w) :: u8)) OR
        ucast (ucast (drop_bit 6 w AND 0x3F) :: u8)) OR ucast (ucast (w AND 0x3F) :: u8) = w"
      using narrow8 [of "drop_bit 12 w"] join_step [of w] join_step [of "drop_bit 6 w"] by simp
    show ?thesis
      using 3 lead_less(2) [of w] six_bits [of w] six_bits [of "drop_bit 6 w"] assms(2) j
      by (intro exI [of _ w]) (simp add: utf8_def putc_lead putc_more Let_def fin)
  next
    case 4
    have "drop_bit 18 w < 256" using drop_small [of w 18] assms(1) by (simp add: word_less_nat_alt)
    then have j: "push_bit 6 (push_bit 6 (push_bit 6 (ucast (ucast (drop_bit 18 w) :: u8)) OR
        ucast (ucast (drop_bit 12 w AND 0x3F) :: u8)) OR ucast (ucast (drop_bit 6 w AND 0x3F) :: u8)) OR
        ucast (ucast (w AND 0x3F) :: u8) = w"
      using narrow8 [of "drop_bit 18 w"] join_step [of w] join_step [of "drop_bit 6 w"]
        join_step [of "drop_bit 12 w"] by simp
    show ?thesis
      using 4 lead_less(3) [of w] six_bits [of w] six_bits [of "drop_bit 6 w"] six_bits [of "drop_bit 12 w"] assms j
      by (intro exI [of _ w]) (simp add: utf8_def putc_lead putc_more Let_def fin)
  qed
qed

lemma putwc_char: "g_Utf32State (putwc x s) = g_Utf32State s" "tty (putwc x (s\<lparr>g_Utf32Char := c\<rparr>)) = tty (putwc x s)"
  by (simp_all add: putwc_def putc_def split: option.split)

text \<open>The bytes sent for a wide character.\<close>

definition cp437 :: "u16 \<Rightarrow> u8" where
  "cp437 c = (if c < 0x80 then ucast c else case map_of cp437_table c of Some b \<Rightarrow> b | None \<Rightarrow> 63)"

lemma putwc_tty: "tty (putwc c s) = tty s @ [cp437 c]"
  by (simp add: putwc_def putc_def cp437_def split: option.split)

lemma utf8_many:
  "\<forall>w \<in> set ws. w < 0x200000 \<Longrightarrow> g_Utf32State s = 0 \<Longrightarrow>
     \<exists>s'. fold putc_utf8 (concat (map utf8 ws)) s = s' \<and> g_Utf32State s' = 0 \<and>
       tty s' = tty s @ map (\<lambda>w. cp437 (ucast w)) ws"
proof (induction ws arbitrary: s)
  case (Cons w ws)
  obtain c where c: "fold putc_utf8 (utf8 w) s = (putwc (ucast w) s)\<lparr>g_Utf32Char := c\<rparr>"
    using utf8_one [of w s] Cons.prems by auto
  let ?s1 = "(putwc (ucast w) s)\<lparr>g_Utf32Char := c\<rparr>"
  have "g_Utf32State ?s1 = 0" "tty ?s1 = tty s @ [cp437 (ucast w)]"
    using Cons.prems by (simp_all add: putwc_char putwc_tty)
  with Cons.IH [of ?s1] Cons.prems c show ?case by simp
qed simp

lemma puts_fold: "0 \<notin> set cs \<Longrightarrow> puts (cs @ 0 # junk) s = Some (fold putc_utf8 cs s)"
  by (induction cs arbitrary: s) auto

lemma utf8_nonzero: "w \<noteq> 0 \<Longrightarrow> w < 0x200000 \<Longrightarrow> 0 \<notin> set (utf8 w)"
proof -
  assume w: "w \<noteq> 0" "w < 0x200000"
  have nz: "0xC0 OR x \<noteq> 0" "0xE0 OR x \<noteq> 0" "0xF0 OR x \<noteq> 0" "0x80 OR x \<noteq> 0" for x :: u8
    by (simp_all add: or_eq_0_iff)
  have "(ucast w :: u8) \<noteq> 0" if "w < 0x80"
  proof -
    have "w < 256" using that by (simp add: word_less_nat_alt)
    from narrow8 [OF this] w(1) show ?thesis by auto
  qed
  then show ?thesis using nz by (auto simp: utf8_def)
qed

text \<open>
  C28: A string of UTF-8 text, every code point of the encoding included, is put on the screen as
  one byte of code page 437 per code point, chosen by its low 16 bits, and the decoder is back in
  its initial state for the next string.
\<close>

theorem puts_decodes_utf8:
  assumes "\<forall>w \<in> set ws. w \<noteq> 0 \<and> w < 0x200000" "g_Utf32State s = 0"
  shows "\<exists>s'. puts (concat (map utf8 ws) @ 0 # junk) s = Some s' \<and> g_Utf32State s' = 0 \<and>
    tty s' = tty s @ map (\<lambda>w. cp437 (ucast w)) ws"
proof -
  have "0 \<notin> set (concat (map utf8 ws))" using assms(1) utf8_nonzero by fastforce
  with utf8_many [of ws s] assms show ?thesis by (simp add: puts_fold)
qed

lemma puts_decodes_utf8_witness:
  "\<exists>s'. puts ([0xC3, 0xA1, 0x21, 0xF0, 0x90, 0x83, 0xA1] @ [0]) \<lparr>g_Utf32State = 0, g_Utf32Char = 0, tty = []\<rparr> = Some s' \<and>
     tty s' = [0xA0, 0x21, 0xA0]"
proof -
  have "concat (map utf8 [0xE1, 0x21, 0x100E1]) = [0xC3, 0xA1, 0x21, 0xF0, 0x90, 0x83, 0xA1]"
    "map (\<lambda>w. cp437 (ucast (w :: u32))) [0xE1, 0x21, 0x100E1] = [0xA0, 0x21, 0xA0]"
    by (simp_all add: utf8_def cp437_def cp437_table_def)
  then show ?thesis
    using puts_decodes_utf8 [of "[0xE1, 0x21, 0x100E1]" "\<lparr>g_Utf32State = 0, g_Utf32Char = 0, tty = []\<rparr>" "[]"]
    by auto
qed

end
