(* ===== verification/Stage2Printf.thy ===== *)
theory Stage2Printf
  imports Stage2Print
begin

text \<open>
  What the second stage's printf promises: the numbers it prints and the rendering of a format.
\<close>

unbundle bit_operations_syntax

section \<open>Digits\<close>

definition hex_value :: "u8 \<Rightarrow> nat" where
  "hex_value c = (if c < 58 then unat c - 48 else unat c - 87)"

definition lsb_number :: "nat \<Rightarrow> u8 list \<Rightarrow> nat" where
  "lsb_number r ds = foldr (\<lambda>d n. hex_value d + r * n) ds 0"

lemma hex_char:
  assumes "d < 16"
  shows "hex_value (g_HexChars ! d) = d \<and> g_HexChars ! d < 0x80 \<and> g_HexChars ! d \<noteq> 45 \<and> (d \<noteq> 0 \<longrightarrow> g_HexChars ! d \<noteq> 48)"
proof -
  have "list_all (\<lambda>d. hex_value (g_HexChars ! d) = d \<and> g_HexChars ! d < 0x80 \<and> g_HexChars ! d \<noteq> 45 \<and> (d \<noteq> 0 \<longrightarrow> g_HexChars ! d \<noteq> 48)) [0..<16]"
    by (simp add: upt_rec g_HexChars_def bytes_def hex_value_def)
  with assms show ?thesis by (simp add: list_all_iff)
qed

declare number_digits.simps [simp del]

lemma number_digits_step:
  assumes "2 \<le> unat radix"
  shows "number_digits radix n = (if unat n div unat radix = 0 then [g_HexChars ! unat n]
    else g_HexChars ! (unat n mod unat radix) # number_digits radix (n div radix))"
proof -
  have r: "\<not> radix < 2" using assms by (simp add: word_less_nat_alt)
  have "0 < n div radix \<longleftrightarrow> unat n div unat radix \<noteq> 0" by (simp add: word_less_nat_alt unat_div)
  moreover have "unat n div unat radix = 0 \<Longrightarrow> unat n mod unat radix = unat n"
    using assms by (simp add: div_eq_0_iff)
  ultimately show ?thesis using r
    by (subst number_digits.simps) (simp add: Let_def unat_mod)
qed

text \<open>Value, form and length of the digits; \<open>k\<close> bounds the number of digits.\<close>

lemma number_digits_ok:
  assumes "2 \<le> unat radix" "unat radix \<le> 16"
  shows "lsb_number (unat radix) (number_digits radix n) = unat n \<and> list_all (\<lambda>d. d < 0x80 \<and> d \<noteq> 45) (number_digits radix n) \<and>
    number_digits radix n \<noteq> [] \<and> (last (number_digits radix n) = 48 \<longrightarrow> number_digits radix n = [48])"
proof (induction "unat n" arbitrary: n rule: less_induct)
  case less
  let ?r = "unat radix"
  show ?case
  proof (cases "unat n div ?r = 0")
    case True
    then have "unat n < 16" using assms by (auto simp: div_eq_0_iff)
    with True hex_char [of "unat n"] show ?thesis
      using hex_char [of 0] by (auto simp: number_digits_step [OF assms(1)] lsb_number_def g_HexChars_def bytes_def)
  next
    case False
    have q: "unat (n div radix) = unat n div ?r" by (simp add: unat_div)
    have "unat n div ?r < unat n" using assms(1) False by (intro div_less_dividend) (auto intro: gr0I)
    note IH = less [of "n div radix", unfolded q, OF this]
    have "unat n mod ?r < ?r" using assms(1) by (intro mod_less_divisor) simp
    with assms(2) have m: "unat n mod ?r < 16" by simp
    have nz: "number_digits radix (n div radix) \<noteq> [48]"
    proof
      assume "number_digits radix (n div radix) = [48]"
      with IH have "unat n div ?r = 0" by (simp add: lsb_number_def hex_value_def)
      with False show False by simp
    qed
    show ?thesis
      using False IH nz hex_char [OF m] by (auto simp: number_digits_step [OF assms(1), of n] lsb_number_def)
  qed
qed

lemma number_digits_length:
  assumes "2 \<le> unat radix"
  shows "unat n < unat radix ^ Suc k \<Longrightarrow> length (number_digits radix n) \<le> Suc k"
proof (induction k arbitrary: n)
  case 0
  then show ?case by (simp add: number_digits_step [OF assms] div_eq_0_iff)
next
  case (Suc k)
  have "unat (n div radix) < unat radix ^ Suc k"
    using Suc.prems assms by (simp add: unat_div less_mult_imp_div_less mult.commute)
  with Suc.IH [of "n div radix"] show ?case by (simp add: number_digits_step [OF assms, of n])
qed


section \<open>The number that is printed\<close>

text \<open>The value of an argument, and the least value of its width.\<close>

definition arg_value :: "plength \<Rightarrow> bool \<Rightarrow> u16 list \<Rightarrow> int" where
  "arg_value len sign argp =
     (case len of
        PRINTF_LENGTH_LONG \<Rightarrow> if sign then sint (arg32 argp) else uint (arg32 argp)
      | PRINTF_LENGTH_LONG_LONG \<Rightarrow> if sign then sint (arg64 argp) else uint (arg64 argp)
      | _ \<Rightarrow> if sign then sint (argp ! 0) else uint (argp ! 0))"

definition least_value :: "plength \<Rightarrow> int" where
  "least_value len =
     (case len of PRINTF_LENGTH_LONG \<Rightarrow> - (2 ^ 31) | PRINTF_LENGTH_LONG_LONG \<Rightarrow> - (2 ^ 63) | _ \<Rightarrow> - (2 ^ 15))"

text \<open>A number as text: an optional minus sign and digits.\<close>

definition text_value :: "nat \<Rightarrow> u8 list \<Rightarrow> int" where
  "text_value r ds =
     (case ds of
        [] \<Rightarrow> 0
      | c # cs \<Rightarrow> if c = 45 then - int (lsb_number r (rev cs)) else int (lsb_number r (rev ds)))"

lemma sint_neg: "- (2 ^ (LENGTH('a) - 1)) < sint n \<Longrightarrow> sint (- n) = - sint n" for n :: "'a::len word"
  using sint_less [of n] by (simp add: sint_word_ariths signed_take_bit_int_eq_self)

lemma uint_scast64: "LENGTH('a) \<le> 64 \<Longrightarrow> 0 \<le> sint n \<Longrightarrow> uint (scast n :: u64) = sint n" for n :: "'a::len word"
proof -
  assume l: "LENGTH('a) \<le> 64" and n: "0 \<le> sint n"
  have "sint n < 2 ^ (LENGTH('a) - 1)" using sint_less [of n] by simp
  also have "\<dots> \<le> (2 :: int) ^ 64" using l by (intro power_increasing) simp_all
  finally have "take_bit 64 (sint n) = sint n" using n by (simp add: take_bit_int_eq_self)
  moreover have "(scast n :: u64) = word_of_int (sint n)" by (rule scast_eq)
  ultimately show ?thesis by (simp only: uint_word_of_int) (simp add: take_bit_eq_mod)
qed

lemma fetch_signed:
  fixes n :: "'a::len word"
  assumes "LENGTH('a) \<le> 64"
  defines "r \<equiv> (if n <s 0 then (True, scast (- n) :: u64) else (False, scast n))"
  shows "- (2 ^ (LENGTH('a) - 1)) < sint n \<Longrightarrow> (if fst r then - uint (snd r) else uint (snd r)) = sint n"
    "sint n < 0 \<longleftrightarrow> fst r"
proof -
  show neg: "sint n < 0 \<longleftrightarrow> fst r" by (simp add: r_def word_sless_alt)
  assume "- (2 ^ (LENGTH('a) - 1)) < sint n"
  then show "(if fst r then - uint (snd r) else uint (snd r)) = sint n"
    using neg uint_scast64 [OF assms(1), of n] uint_scast64 [OF assms(1), of "- n"] sint_neg [of n]
    by (cases "n <s 0") (simp_all add: r_def word_sless_alt)
qed


text \<open>What is fetched is the value of the argument, but for the least signed value of 16 and 32 bits.\<close>

lemma fetch_number_value:
  assumes "fetch_number argp len sign = (neg, number)"
  shows "(if neg then - int (unat number) else int (unat number)) =
    (if sign \<and> words_of len < 4 \<and> arg_value len sign argp = least_value len
     then - (2 ^ 64) - arg_value len sign argp else arg_value len sign argp)"
    "neg \<longrightarrow> sign"
proof -
  have lo16: "- (2 ^ 15) \<le> sint (n :: u16)" and lo32: "- (2 ^ 31) \<le> sint (m :: u32)"
    and lo64: "- (2 ^ 63) \<le> sint (l :: u64)" for n m l
    using sint_greater_eq [of n] sint_greater_eq [of m] sint_greater_eq [of l] by simp_all
  have min16: "n = 0x8000" if "sint (n :: u16) = - (2 ^ 15)" for n
    by (rule signed_word_eqI) (use that in simp)
  have min32: "m = 0x80000000" if "sint (m :: u32) = - (2 ^ 31)" for m
    by (rule signed_word_eqI) (use that in simp)
  have u: "uint (ucast (n :: u16) :: u64) = uint n" "uint (ucast (m :: u32) :: u64) = uint m" for n m
    using unsigned_less [of n, where 'a = int] unsigned_less [of m, where 'a = int]
    by (simp_all add: unsigned_ucast_eq take_bit_int_eq_self)
  have short: "(if neg then - uint number else uint number) =
      (if sign \<and> arg_value len sign argp = least_value len
       then - (2 ^ 64) - arg_value len sign argp else arg_value len sign argp) \<and> (neg \<longrightarrow> sign)"
    if "words_of len = 1"
  proof -
    have len: "len = PRINTF_LENGTH_DEFAULT \<or> len = PRINTF_LENGTH_SHORT \<or> len = PRINTF_LENGTH_SHORT_SHORT"
      using that by (cases len) (auto simp: words_of_def)
    have f: "(neg, number) = (if sign then (if argp ! 0 <s 0 then (True, scast (- (argp ! 0)))
        else (False, scast (argp ! 0))) else (False, ucast (argp ! 0)))"
      using len assms by (auto simp: fetch_number_def Let_def)
    have v: "arg_value len sign argp = (if sign then sint (argp ! 0) else uint (argp ! 0))"
      "least_value len = - (2 ^ 15)"
      using len by (auto simp: arg_value_def least_value_def)
    show ?thesis
    proof (cases "sign \<and> sint (argp ! 0) = - (2 ^ 15)")
      case True
      with min16 [of "argp ! 0"] have "argp ! 0 = 0x8000" by simp
      with True f v show ?thesis by (simp add: word_sless_alt)
    next
      case False
      with f v u lo16 [of "argp ! 0"] fetch_signed [of "argp ! 0"] show ?thesis
        by (auto split: if_splits)
    qed
  qed
  have long: "(if neg then - uint number else uint number) =
      (if sign \<and> arg_value len sign argp = least_value len
       then - (2 ^ 64) - arg_value len sign argp else arg_value len sign argp) \<and> (neg \<longrightarrow> sign)"
    if "len = PRINTF_LENGTH_LONG"
  proof -
    have f: "(neg, number) = (if sign then (if arg32 argp <s 0 then (True, scast (- arg32 argp))
        else (False, scast (arg32 argp))) else (False, ucast (arg32 argp)))"
      using that assms by (auto simp: fetch_number_def Let_def)
    have v: "arg_value len sign argp = (if sign then sint (arg32 argp) else uint (arg32 argp))"
      "least_value len = - (2 ^ 31)"
      using that by (auto simp: arg_value_def least_value_def)
    show ?thesis
    proof (cases "sign \<and> sint (arg32 argp) = - (2 ^ 31)")
      case True
      with min32 [of "arg32 argp"] have "arg32 argp = 0x80000000" by simp
      with True f v show ?thesis by (simp add: word_sless_alt)
    next
      case False
      with f v u lo32 [of "arg32 argp"] fetch_signed [of "arg32 argp"] show ?thesis
        by (auto split: if_splits)
    qed
  qed
  have long_long: "(if neg then - uint number else uint number) = arg_value len sign argp \<and> (neg \<longrightarrow> sign)"
    if "len = PRINTF_LENGTH_LONG_LONG"
  proof -
    have f: "(neg, number) = (if sign \<and> arg64 argp <s 0 then (True, - arg64 argp) else (False, arg64 argp))"
      using that assms by (auto simp: fetch_number_def Let_def)
    have "uint (- n) = - sint n" if "sint n < 0" for n :: u64
    proof -
      have "uint (- n) = (- sint n) mod 2 ^ 64"
      proof -
        have "- n = word_of_int (- sint n)" by simp
        then show ?thesis by (simp only: uint_word_of_int) simp
      qed
      then show ?thesis using that lo64 [of n] by simp
    qed
    moreover have "sint n = uint n" if "\<not> sint n < 0" for n :: u64
      using that by (simp add: uint_scast64 [of n, symmetric])
    ultimately show ?thesis using f that by (auto simp: arg_value_def word_sless_alt split: if_splits)
  qed
  show "(if neg then - int (unat number) else int (unat number)) =
    (if sign \<and> words_of len < 4 \<and> arg_value len sign argp = least_value len
     then - (2 ^ 64) - arg_value len sign argp else arg_value len sign argp)"
    "neg \<longrightarrow> sign"
    using short long long_long by (cases len; auto simp: words_of_def)+
qed


lemma puts_ascii:
  "list_all (\<lambda>d. d < 0x80) ds \<Longrightarrow> ds \<noteq> [] \<Longrightarrow>
     fold putc_utf8 ds s = s\<lparr>g_Utf32State := 0, tty := tty s @ ds\<rparr>"
proof (induction ds arbitrary: s)
  case (Cons d ds)
  then show ?case by (cases "ds = []") (simp_all add: putc_utf8_def putc_def)
qed simp

lemma printf_number_text:
  assumes "words_of len \<le> length argp" "radix \<in> {8, 10, 16}"
  shows "\<exists>ds. printf_number argp len sign radix s =
      Some (drop (words_of len) argp, s\<lparr>g_Utf32State := 0, tty := tty s @ ds\<rparr>) \<and>
    length ds \<le> 32 \<and>
    text_value (unat radix) ds =
      (if sign \<and> words_of len < 4 \<and> arg_value len sign argp = least_value len
       then - (2 ^ 64) - arg_value len sign argp else arg_value len sign argp)"
proof -
  have r: "2 \<le> unat radix" "unat radix \<le> 16" "8 \<le> unat radix" using assms(2) by auto
  obtain neg number where f: "fetch_number argp len sign = (neg, number)" by fastforce
  note fetched = fetch_number_value [OF f]
  let ?ds = "number_digits radix number"
  note ok = number_digits_ok [OF r(1,2), of number]
  define ds where "ds = (if neg then [45] else []) @ rev ?ds"
  have "(2 :: nat) ^ 64 \<le> 8 ^ Suc 21" by simp
  also have "\<dots> \<le> unat radix ^ Suc 21" using r(3) by (intro power_mono) simp_all
  finally have "unat number < unat radix ^ Suc 21" using unsigned_less [of number, where 'a = nat] by simp
  from number_digits_length [OF r(1) this] have len: "length ds \<le> 32" by (simp add: ds_def)
  have "list_all (\<lambda>d. d < 0x80) ds" "ds \<noteq> []"
    using ok by (auto simp: ds_def list_all_iff)
  note out = puts_ascii [OF this, of s]
  have "rev (if sign \<and> neg then ?ds @ [45] else ?ds) = ds" using fetched(2) by (auto simp: ds_def)
  then have "printf_number argp len sign radix s = Some (drop (words_of len) argp, s\<lparr>g_Utf32State := 0, tty := tty s @ ds\<rparr>)"
    using assms(1) by (simp add: printf_number_def f Let_def out)
  moreover have "text_value (unat radix) ds = (if neg then - int (unat number) else int (unat number))"
  proof (cases neg)
    case True
    then show ?thesis using ok by (simp add: ds_def text_value_def)
  next
    case False
    obtain d es where d: "rev ?ds = d # es" using ok by (cases "rev ?ds") auto
    then have "d \<in> set ?ds" by (metis list.set_intros(1) set_rev)
    then have "d \<noteq> 45" using ok by (auto simp: list_all_iff)
    moreover have "rev (d # es) = ?ds" using d by (metis rev_rev_ident)
    ultimately show ?thesis using False ok by (simp add: ds_def d text_value_def)
  qed
  ultimately show ?thesis using len by (intro exI [of _ ds]) (simp add: fetched(1))
qed

text \<open>
  C29: Printing a number in base 8, 10 or 16 for each length modifier: the text fits in the buffer of
  32 bytes, consumes the words of the argument, and denotes the value of the argument; except that
  the least signed number of 16 or of 32 bits is printed as a number 2 to the 64 further down on the
  other side.
\<close>

theorem printf_number_prints:
  assumes "words_of len \<le> length argp" "radix \<in> {8, 10, 16}"
  shows "\<exists>ds. printf_number argp len sign radix s =
      Some (drop (words_of len) argp, s\<lparr>g_Utf32State := 0, tty := tty s @ ds\<rparr>) \<and>
    length ds \<le> 32 \<and>
    text_value (unat radix) ds =
      (if sign \<and> words_of len < 4 \<and> arg_value len sign argp = least_value len
       then - (2 ^ 64) - arg_value len sign argp else arg_value len sign argp)"
  by (rule printf_number_text [OF assms])

lemma printf_number_prints_witness:
  "\<exists>ds. printf_number [0x8000, 7] PRINTF_LENGTH_DEFAULT True 10 \<lparr>g_Utf32State = 0, g_Utf32Char = 0, tty = []\<rparr> =
      Some ([7], \<lparr>g_Utf32State = 0, g_Utf32Char = 0, tty = ds\<rparr>) \<and> text_value 10 ds = - 18446744073709518848"
  using printf_number_prints [of PRINTF_LENGTH_DEFAULT "[0x8000, 7]" 10 True
      "\<lparr>g_Utf32State = 0, g_Utf32Char = 0, tty = []\<rparr>"]
  by (auto simp: words_of_def arg_value_def least_value_def)

section \<open>Formats\<close>

text \<open>The pieces of a format: a byte of text, or a conversion with its length modifier.\<close>

datatype format_piece = PText u8 | PConv plength u8

fun piece_text :: "format_piece \<Rightarrow> u8 list" where
  "piece_text (PText c) = [c]"
| "piece_text (PConv PRINTF_LENGTH_DEFAULT c) = [37, c]"
| "piece_text (PConv PRINTF_LENGTH_SHORT c) = [37, 104, c]"
| "piece_text (PConv PRINTF_LENGTH_SHORT_SHORT c) = [37, 104, 104, c]"
| "piece_text (PConv PRINTF_LENGTH_LONG c) = [37, 108, c]"
| "piece_text (PConv PRINTF_LENGTH_LONG_LONG c) = [37, 108, 108, c]"

fun piece_proper :: "format_piece \<Rightarrow> bool" where
  "piece_proper (PText c) \<longleftrightarrow> c \<noteq> 0 \<and> c \<noteq> 37"
| "piece_proper (PConv len c) \<longleftrightarrow> c \<noteq> 0 \<and> c \<noteq> 104 \<and> c \<noteq> 108"

fun render_piece :: "strings \<Rightarrow> format_piece \<Rightarrow> u16 list \<times> stdio \<Rightarrow> (u16 list \<times> stdio) option" where
  "render_piece env (PText c) (argp, s) = Some (argp, putc_utf8 c s)"
| "render_piece env (PConv len c) (argp, s) = printf_spec env c len argp s"

fun render_pieces :: "strings \<Rightarrow> format_piece list \<Rightarrow> u16 list \<times> stdio \<Rightarrow> (u16 list \<times> stdio) option" where
  "render_pieces env [] st = Some st"
| "render_pieces env (p # ps) st = Option.bind (render_piece env p st) (render_pieces env ps)"

lemma printf_piece:
  assumes "piece_proper p"
  shows "printf_loop env (piece_text p @ fmt) PRINTF_STATE_NORMAL PRINTF_LENGTH_DEFAULT argp s =
    (case render_piece env p (argp, s) of
       None \<Rightarrow> None
     | Some (argp, s) \<Rightarrow> printf_loop env fmt PRINTF_STATE_NORMAL PRINTF_LENGTH_DEFAULT argp s)"
proof (cases p)
  case (PText c)
  with assms show ?thesis by simp
next
  case (PConv len c)
  with assms show ?thesis by (cases len) simp_all
qed

text \<open>
  C30: Printing with a format: the pieces of the format are rendered from left to right, each
  conversion with the length modifier that stands before it and with the next argument words.
\<close>

theorem printf_renders:
  assumes "list_all piece_proper ps"
  shows "printf env (concat (map piece_text ps) @ 0 # junk) argp s = map_option snd (render_pieces env ps (argp, s))"
  using assms unfolding printf_def
proof (induction ps arbitrary: argp s)
  case (Cons p ps)
  then show ?case
    by (simp add: printf_piece) (auto split: option.split)
qed simp

lemma printf_renders_witness:
  "\<exists>s. printf \<lparr>near_str = (\<lambda>p. []), far_str = (\<lambda>p. []), wide_str = (\<lambda>p. [])\<rparr> (bytes ''n=%d%%'' @ [0]) [42]
      \<lparr>g_Utf32State = 0, g_Utf32Char = 0, tty = []\<rparr> = Some s"
proof -
  let ?ps = "[PText 110, PText 61, PConv PRINTF_LENGTH_DEFAULT 100, PConv PRINTF_LENGTH_DEFAULT 37]"
  have fmt: "concat (map piece_text ?ps) = bytes ''n=%d%%''" by (simp add: bytes_def)
  have "list_all piece_proper ?ps" by simp
  from printf_renders [OF this, unfolded fmt, of "\<lparr>near_str = (\<lambda>p. []), far_str = (\<lambda>p. []), wide_str = (\<lambda>p. [])\<rparr>"
      "[]" "[42]" "\<lparr>g_Utf32State = 0, g_Utf32Char = 0, tty = []\<rparr>"]
  show ?thesis
    by (auto simp: printf_spec_def printf_number_def words_of_def Let_def split: prod.splits)
qed

end
