(* ===== verification/BootFloppy.thy ===== *)
theory BootFloppy
  imports FatOpen
begin

text \<open>
  Floppy images for the witnesses: a boot sector, one FAT sector, a directory of one sector with the
  kernel in it, and data sectors.
\<close>

unbundle bit_operations_syntax

definition padded :: "u8 list \<Rightarrow> u8 list" where
  "padded bs = bs @ replicate (512 - length bs) 0"

lemma image_sector_concat:
  assumes "\<forall>s \<in> set ss. length s = 512" "n < length ss"
  shows "image_sector (concat ss) n = ss ! n"
proof -
  have "drop (512 * n) (concat ss) = concat (drop n ss) \<and> length (concat ss) = 512 * length ss"
    using assms
  proof (induction ss arbitrary: n)
    case (Cons s ss)
    then have "length (concat ss) = 512 * length ss" by (cases ss) auto
    with Cons show ?case by (cases n) simp_all
  qed simp
  then have d: "drop (512 * n) (concat ss) = ss ! n @ concat (drop (Suc n) ss)" "512 * n + 512 \<le> length (concat ss)"
    using assms(2) by (simp_all add: Cons_nth_drop_Suc [symmetric])
  have l: "length (ss ! n) = 512" using assms by simp
  show ?thesis
  proof (rule nth_equalityI)
    fix i assume "i < length (image_sector (concat ss) n)"
    then have i: "i < 512" by simp
    then have "concat ss ! (512 * n + i) = (drop (512 * n) (concat ss)) ! i" using d(2) by simp
    then show "image_sector (concat ss) n ! i = ss ! n ! i"
      using i l d by (simp add: image_sector_def nth_append)
  qed (simp add: l)
qed

section \<open>A volume with one file\<close>

text \<open>
  Sectors per cluster, the low bytes of the file size, and the data; the file has the clusters 2
  and 3.
\<close>

definition sample_parts :: "u8 \<Rightarrow> u8 \<Rightarrow> u8 \<Rightarrow> u8 list list \<Rightarrow> u8 list list" where
  "sample_parts spc lo hi datas =
     [replicate 11 0 @ [0, 2, spc, 1, 0, 1, 16, 0, 0, 0, 0, 1, 0],
      fat12_pack [0xFF0, 0xFFF, 3, 0xFFF],
      bytes ''KERNEL  BIN'' @ [0x20] @ replicate 14 0 @ [2, 0, lo, hi, 0, 0]] @ datas"

definition sample_floppy :: "u8 \<Rightarrow> u8 \<Rightarrow> u8 \<Rightarrow> u8 list list \<Rightarrow> u8 list" where
  "sample_floppy spc lo hi datas = concat (map padded (sample_parts spc lo hi datas))"

lemma padded_length: "length bs \<le> 512 \<Longrightarrow> length (padded bs) = 512"
  by (simp add: padded_def)

lemma sample_parts_length: "\<forall>d \<in> set datas. length d \<le> 512 \<Longrightarrow> s \<in> set (sample_parts spc lo hi datas) \<Longrightarrow> length s \<le> 512"
  by (auto simp: sample_parts_def bytes_def)

lemma sample_length:
  assumes "\<forall>d \<in> set datas. length d \<le> 512"
  shows "length (sample_floppy spc lo hi datas) = 512 * (3 + length datas)"
proof -
  have "length (concat (map padded ss)) = 512 * length ss" if "\<forall>s \<in> set ss. length s \<le> 512" for ss
    using that by (induction ss) (simp_all add: padded_length)
  moreover have "length (sample_parts spc lo hi datas) = 3 + length datas" by (simp add: sample_parts_def)
  ultimately show ?thesis
    unfolding sample_floppy_def using sample_parts_length [OF assms] by metis
qed

lemma sample_sector:
  assumes "\<forall>d \<in> set datas. length d \<le> 512" "n < 3 + length datas"
  shows "image_sector (sample_floppy spc lo hi datas) n = padded (sample_parts spc lo hi datas ! n)"
proof -
  have "\<forall>s \<in> set (map padded (sample_parts spc lo hi datas)). length s = 512"
    using sample_parts_length [OF assms(1)] padded_length by auto
  moreover have "length (sample_parts spc lo hi datas) = 3 + length datas" by (simp add: sample_parts_def)
  ultimately show ?thesis
    using image_sector_concat [of "map padded (sample_parts spc lo hi datas)" n] assms(2)
    by (simp add: sample_floppy_def)
qed

lemma sample_boot:
  fixes spc lo hi :: u8
  assumes "\<forall>d \<in> set datas. length d \<le> 512"
  defines "di \<equiv> sample_floppy spc lo hi datas"
  shows "get16 (vol_boot di) 11 = 512" "vol_boot di ! 13 = spc" "vol_boot di ! 16 = 1"
    "vol_reserved di = 1" "vol_spf di = 1" "vol_entries di = 16"
    "vol_root_lba di = 2" "vol_data_lba di = 3" "spc \<noteq> 0 \<Longrightarrow> vol_ok 6500 di"
    "vol_fat di = fat12_pack [0xFF0, 0xFFF, 3, 0xFFF] @ replicate 506 0"
proof -
  note sec = sample_sector [OF assms(1), of _ spc lo hi, folded di_def]
  show f: "get16 (vol_boot di) 11 = 512" "vol_boot di ! 13 = spc" "vol_boot di ! 16 = 1"
    "vol_reserved di = 1" "vol_spf di = 1" "vol_entries di = 16"
    by (simp_all add: vol_boot_def vol_reserved_def vol_spf_def vol_entries_def sec padded_def
        sample_parts_def get16_def nth_append)
  show r: "vol_root_lba di = 2" "vol_data_lba di = 3"
    by (simp_all add: f vol_root_lba_def vol_data_lba_def)
  show "spc \<noteq> 0 \<Longrightarrow> vol_ok 6500 di" by (simp add: vol_ok_def f r)
  show "vol_fat di = fat12_pack [0xFF0, 0xFFF, 3, 0xFFF] @ replicate 506 0"
    by (simp add: vol_fat_def f sec padded_def sample_parts_def)
qed

lemma sample_slot:
  assumes "\<forall>d \<in> set datas. length d \<le> 512"
  shows "vol_slot (sample_floppy spc lo hi datas) 0 =
    \<lparr>de_Name = bytes ''KERNEL  BIN'', de_Attributes = 0x20, de_Reserved = 0,
     de_CreatedTimeTenths = 0, de_CreatedTime = 0, de_CreatedDate = 0, de_AccessedDate = 0,
     de_FirstClusterHigh = 0, de_ModifiedTime = 0, de_ModifiedDate = 0, de_FirstClusterLow = 2,
     de_Size = ucast (ucast lo OR push_bit 8 (ucast hi) :: u16)\<rparr>"
  using sample_sector [OF assms, of 2 spc lo hi]
  by (simp add: vol_slot_def root_slot_def image16_def sample_boot [OF assms] padded_def sample_parts_def
      dir_entry_of_def bytes_def get16_def get32_def nth_append)

section \<open>A bootable floppy\<close>

text \<open>A kernel of 600 bytes, with a descriptor table and its pseudo descriptor at offset 72.\<close>

definition table_bytes :: "u8 list" where
  "table_bytes =
     [0, 0, 0, 0, 0, 0, 0, 0, 0xFF, 0xFF, 0, 0, 0, 0x9A, 0xCF, 0, 0xFF, 0xFF, 0, 0, 0, 0x92, 0xCF, 0,
      0xFF, 0xFF, 0, 0, 0, 0x9A, 0, 0, 0xFF, 0xFF, 0, 0, 0, 0x92, 0, 0, 39, 0, 0x48, 0x20, 0x01, 0]"

definition boot_data :: "u8 list list" where
  "boot_data = [replicate 72 0x90 @ table_bytes, replicate 88 0xF4]"

definition boot_floppy :: "u8 list" where
  "boot_floppy = sample_floppy 1 88 2 boot_data"

lemma boot_data_length: "\<forall>d \<in> set boot_data. length d \<le> 512"
  by (simp add: boot_data_def table_bytes_def)

lemmas boot_floppy_boot = sample_boot(1-6,10) [OF boot_data_length, of 1 88 2, folded boot_floppy_def]

lemma boot_floppy_ok: "vol_ok 6500 boot_floppy" "vol_root_lba boot_floppy = 2" "vol_data_lba boot_floppy = 3"
  using sample_boot(7-9) [OF boot_data_length, of 1 88 2] by (simp_all add: boot_floppy_def)

lemma boot_floppy_slot:
  "vol_slot boot_floppy 0 = \<lparr>de_Name = bytes ''KERNEL  BIN'', de_Attributes = 0x20, de_Reserved = 0,
     de_CreatedTimeTenths = 0, de_CreatedTime = 0, de_CreatedDate = 0, de_AccessedDate = 0,
     de_FirstClusterHigh = 0, de_ModifiedTime = 0, de_ModifiedDate = 0, de_FirstClusterLow = 2, de_Size = 600\<rparr>"
  using sample_slot [OF boot_data_length, of 1 88 2] by (simp add: boot_floppy_def)

lemma boot_floppy_next:
  "chain_at (vol_view boot_floppy) 2 1 = Some (3, 0)" "chain_at (vol_view boot_floppy) 2 2 = Some (0xFFF, 0)"
proof -
  let ?es = "[0xFF0, 0xFFF, 3, 0xFFF] :: u16 list"
  have n: "FAT_NextCluster (vol_fat boot_floppy) (of_nat i) = Some (ucast (take_bit 12 (?es ! i)))" if "i < 4" for i
    using that next_cluster_nat [of i "fat12_pack ?es @ replicate 506 0"] fat12_entry [of i ?es "replicate 506 0"]
    by (simp add: boot_floppy_boot(7))
  have step: "chain_next (vol_view boot_floppy) (c, 0) = map_option (\<lambda>c. (c, 0)) (FAT_NextCluster (vol_fat boot_floppy) c)" for c
    by (simp add: chain_next_def vol_view_def bs_SectorsPerCluster_def boot_floppy_boot)
  have "FAT_NextCluster (vol_fat boot_floppy) 2 = Some 3" "FAT_NextCluster (vol_fat boot_floppy) 3 = Some 0xFFF"
    using n [of 2] n [of 3] by simp_all
  then show at: "chain_at (vol_view boot_floppy) 2 1 = Some (3, 0)" "chain_at (vol_view boot_floppy) 2 2 = Some (0xFFF, 0)"
    by (simp_all add: step numeral_2_eq_2)
qed

lemma boot_floppy_chain: "vol_chain boot_floppy 2 600"
proof -
  note at = boot_floppy_next(1)
  have "chain_ok (\<lambda>_. True) (vol_view boot_floppy) 2 i" if "0 < i" "i * 512 < 600" for i
  proof -
    have "i = 1" using that by simp
    then show ?thesis using at by (simp add: chain_ok_def del: chain_at.simps)
  qed
  moreover have "600 div 512 = (1 :: nat)" by simp
  ultimately show ?thesis unfolding vol_chain_def using at by (simp only:) simp
qed

lemma boot_floppy_table: "take 46 (drop 72 (vol_bytes boot_floppy 2 600)) = table_bytes"
proof -
  have lba: "sector_lba (vol_view boot_floppy) 2 0 = 3"
    by (simp add: sector_lba_def chain_lba_def FAT_ClusterToLba_def vol_view_def boot_floppy_ok(3) bs_SectorsPerCluster_def
        boot_floppy_boot)
  have sec: "image_sector boot_floppy 3 = padded (replicate 72 0x90 @ table_bytes)"
    using sample_sector [OF boot_data_length, of 3 1 88 2]
    by (simp add: boot_floppy_def sample_parts_def boot_data_def nth_Cons' numeral_eq_Suc)
  have l: "length table_bytes = 46" by (simp add: table_bytes_def)
  have b: "file_byte (image16 boot_floppy) (vol_view boot_floppy) 2 (72 + i) = table_bytes ! i" if "i < 46" for i
    using that l by (simp add: file_byte_def lba image16_def sec padded_def nth_append)
  show ?thesis
    by (rule nth_equalityI) (simp_all add: vol_bytes_def l b)
qed

text \<open>A floppy with a boot sector and nothing else.\<close>

definition boot_only :: "u8 list" where
  "boot_only = replicate 11 0 @ [0, 2, 1, 1, 0, 1, 16, 0, 0, 0, 0, 1, 0]"

definition empty_floppy :: "u8 list" where
  "empty_floppy = padded (boot_only)"

lemma empty_floppy_sector: "image_sector empty_floppy n = (if n = 0 then padded (boot_only) else replicate 512 0)"
proof (cases n)
  case 0
  then show ?thesis
    using image_sector_concat [of "[empty_floppy]" 0] by (simp add: empty_floppy_def padded_def boot_only_def)
next
  case (Suc k)
  then show ?thesis
    by (simp add: image_sector_def empty_floppy_def padded_def boot_only_def map_replicate_const)
qed

lemma empty_floppy_ok: "vol_ok 6500 empty_floppy"
  by (simp add: vol_ok_def vol_boot_def vol_spf_def vol_root_lba_def vol_reserved_def vol_entries_def
      empty_floppy_sector padded_def boot_only_def get16_def nth_append)

lemma empty_floppy_nothing: "not_on_disk empty_floppy (bytes ''KERNEL  BIN'')"
  unfolding not_on_disk_def
proof (intro allI impI notI)
  fix n s :: nat
  assume "s < 16" and eq: "take 11 (drop (32 * s) (image_sector empty_floppy n)) = bytes ''KERNEL  BIN''"
  have "image_sector empty_floppy n ! (32 * s) = take 11 (drop (32 * s) (image_sector empty_floppy n)) ! 0"
    using \<open>s < 16\<close> by simp
  also have "\<dots> = 75" unfolding eq by (simp add: bytes_def)
  finally have "image_sector empty_floppy n ! (32 * s) = 75" .
  moreover have "image_sector empty_floppy n ! (32 * s) = 0"
    using \<open>s < 16\<close> by (cases s) (auto simp: empty_floppy_sector padded_def boot_only_def nth_append nth_Cons')
  ultimately show False by simp
qed

section \<open>Clusters of four sectors\<close>

text \<open>A file of ten bytes in a cluster of 2048.\<close>

definition cluster_floppy :: "u8 list" where
  "cluster_floppy = sample_floppy 4 10 0 (replicate 4 [0xCC])"

lemma cluster_data_length: "\<forall>d \<in> set (replicate 4 [0xCC :: u8]). length d \<le> 512"
  by simp

lemmas cluster_floppy_boot = sample_boot(1-6) [OF cluster_data_length, of 4 10 0, folded cluster_floppy_def]

lemma cluster_floppy_ok: "vol_ok 6500 cluster_floppy" "vol_root_lba cluster_floppy = 2" "vol_data_lba cluster_floppy = 3"
  using sample_boot(7-9) [OF cluster_data_length, of 4 10 0] by (simp_all add: cluster_floppy_def)

lemma cluster_floppy_slot:
  "de_Name (vol_slot cluster_floppy 0) = bytes ''KERNEL  BIN''" "de_FirstClusterLow (vol_slot cluster_floppy 0) = 2"
  "de_Size (vol_slot cluster_floppy 0) = 10"
  using sample_slot [OF cluster_data_length, of 4 10 0] by (simp_all add: cluster_floppy_def)

end
