(* ===== verification/Stage2Boot.thy ===== *)
theory Stage2Boot
  imports Stage2Main Stage2Printf BootFloppy
begin

text \<open>
  Stage 2 from its start to the jump: on a well-formed floppy the kernel is loaded and entered with
  the boot information block in place; without a kernel the search for it never ends.
\<close>

unbundle bit_operations_syntax

section \<open>Writing behind a far pointer\<close>

lemma fold_update_outside:
  "x \<notin> f ` {..<n} \<Longrightarrow> fold (\<lambda>i m. m(f i := v i)) [0..<n] mem x = mem x"
  by (induction n) (auto simp: lessThan_Suc)

lemma fold_update_inside:
  "inj_on f {..<n} \<Longrightarrow> i < n \<Longrightarrow> fold (\<lambda>i m. m(f i := v i)) [0..<n] mem (f i) = v i"
proof (induction n)
  case (Suc n)
  then have "inj_on f {..<n}" by (auto intro: inj_on_subset)
  with Suc show ?case by (cases "i = n") (auto dest: inj_onD)
qed simp

lemma far_add_flat:
  fixes s :: u16
  assumes "i < 65536"
  shows "far_to_flat (far_add (push_bit 16 (ucast s)) (of_nat i)) = ucast s * 16 + of_nat i"
proof -
  have z: "(ucast (push_bit 16 (ucast s) :: u32) :: u16) = 0"
    by (rule bit_word_eqI) (auto simp: bit_simps)
  have "(ucast (drop_bit 16 (push_bit 16 (ucast s) :: u32)) :: u16) = s"
    by (rule bit_word_eqI) (auto simp: bit_simps dest: bit_imp_le_length)
  then have "far_add (push_bit 16 (ucast s)) (of_nat i) = push_bit 16 (ucast s) OR ucast (of_nat i :: u16)"
    by (simp add: far_add_def z)
  moreover have "ucast (of_nat i :: u16) = (of_nat i :: u32)"
    using assms by (intro word_of_unat) (simp add: unat_ucast_up16_32 unat_of_nat_word)
  ultimately show ?thesis using far_to_flat_parts [of s "of_nat i"] by simp
qed

lemma far_write_bytes:
  fixes s :: u16
  assumes "length bs \<le> 65536"
  defines "a \<equiv> (ucast s * 16 :: u32)"
  shows "far_write (push_bit 16 (ucast s)) bs mem = write_bytes mem a bs"
proof
  fix x
  let ?f = "\<lambda>i. far_to_flat (far_add (push_bit 16 (ucast s)) (of_nat i))"
  have f: "?f i = a + of_nat i" if "i < length bs" for i
    using far_add_flat [of i s] that assms(1) by (simp add: a_def)
  have u: "unat (of_nat i :: u32) = i" if "i < length bs" for i
    using that assms(1) by (simp add: unat_of_nat_word)
  have inj: "inj_on ?f {..<length bs}"
  proof (rule inj_onI)
    fix i j assume "i \<in> {..<length bs}" "j \<in> {..<length bs}" "?f i = ?f j"
    then have "(of_nat i :: u32) = of_nat j" "i < length bs" "j < length bs" using f by auto
    then show "i = j" using u by metis
  qed
  show "far_write (push_bit 16 (ucast s)) bs mem x = write_bytes mem a bs x"
  proof (cases "unat (x - a) < length bs")
    case True
    let ?i = "unat (x - a)"
    have "?f ?i = x" using f [OF True] by simp
    with fold_update_inside [OF inj True, of "\<lambda>i. bs ! i" mem] True show ?thesis
      by (simp add: far_write_def write_bytes_def)
  next
    case False
    have "x \<notin> ?f ` {..<length bs}"
    proof
      assume "x \<in> ?f ` {..<length bs}"
      then obtain i where "i < length bs" "x = a + of_nat i" using f by auto
      then have "unat (x - a) = i" using u by simp
      with \<open>i < length bs\<close> False show False by simp
    qed
    with fold_update_outside [of x ?f "length bs" "\<lambda>i. bs ! i" mem] False show ?thesis
      by (simp add: far_write_def write_bytes_def)
  qed
qed

section \<open>The messages\<close>

lemma printf_plain:
  assumes "list_all (\<lambda>c. c \<noteq> 0 \<and> c \<noteq> 37 \<and> c < 0x80) t" "t \<noteq> []"
  shows "printf_loop env (t @ fmt) PRINTF_STATE_NORMAL PRINTF_LENGTH_DEFAULT argp s =
    printf_loop env fmt PRINTF_STATE_NORMAL PRINTF_LENGTH_DEFAULT argp (s\<lparr>g_Utf32State := 0, tty := tty s @ t\<rparr>)"
proof -
  have "printf_loop env (t @ fmt) PRINTF_STATE_NORMAL PRINTF_LENGTH_DEFAULT argp s =
    printf_loop env fmt PRINTF_STATE_NORMAL PRINTF_LENGTH_DEFAULT argp (fold putc_utf8 t s)" for s
    using assms(1) by (induction t arbitrary: s) (simp_all add: Let_def)
  moreover have "list_all (\<lambda>c. c < 0x80) t" using assms(1) by (auto simp: list_all_iff)
  ultimately show ?thesis using puts_ascii [OF _ assms(2)] by simp
qed

lemma printf_conv:
  assumes "c \<noteq> 0" "c \<noteq> 104" "c \<noteq> 108"
  shows "printf_spec env c PRINTF_LENGTH_DEFAULT argp s = Some (argp', s') \<Longrightarrow>
      printf_loop env ([37, c] @ fmt) PRINTF_STATE_NORMAL PRINTF_LENGTH_DEFAULT argp s =
      printf_loop env fmt PRINTF_STATE_NORMAL PRINTF_LENGTH_DEFAULT argp' s'"
    "printf_spec env c PRINTF_LENGTH_LONG argp s = Some (argp', s') \<Longrightarrow>
      printf_loop env ([37, 108, c] @ fmt) PRINTF_STATE_NORMAL PRINTF_LENGTH_DEFAULT argp s =
      printf_loop env fmt PRINTF_STATE_NORMAL PRINTF_LENGTH_DEFAULT argp' s'"
  using printf_piece [of "PConv PRINTF_LENGTH_DEFAULT c" env fmt argp s]
    printf_piece [of "PConv PRINTF_LENGTH_LONG c" env fmt argp s] assms by simp_all

lemma printf_unsigned:
  fixes radix :: u64
  assumes "(c, radix) \<in> {(117, 10), (120, 16)}" "words_of len \<le> length argp"
  shows "\<exists>ds. printf_spec env c len argp s = Some (drop (words_of len) argp, s\<lparr>g_Utf32State := 0, tty := tty s @ ds\<rparr>) \<and>
    text_value (unat radix) ds = arg_value len False argp"
proof -
  from assms(1) have "radix \<in> {8, 10, 16}" by auto
  from printf_number_text [OF assms(2) this, of False s] assms(1) show ?thesis
    by (auto simp: printf_spec_def)
qed

lemma arg32_split: "arg32 (ucast w # ucast (drop_bit 16 w) # ws) = w" for w :: u32
  by (simp add: arg32_def) (rule bit_word_eqI, auto simp: bit_simps)

lemma printf_short_long:
  fixes radix :: u64 and w :: u32
  assumes "(c, radix) \<in> {(117, 10), (120, 16)}"
  shows "\<exists>ds. printf_spec env c PRINTF_LENGTH_DEFAULT (v # ws) s =
      Some (ws, s\<lparr>g_Utf32State := 0, tty := tty s @ ds\<rparr>) \<and> text_value (unat radix) ds = uint v"
    "\<exists>ds. printf_spec env c PRINTF_LENGTH_LONG (ucast w # ucast (drop_bit 16 w) # ws) s =
      Some (ws, s\<lparr>g_Utf32State := 0, tty := tty s @ ds\<rparr>) \<and> text_value (unat radix) ds = uint w"
  using printf_unsigned [OF assms, of PRINTF_LENGTH_DEFAULT "v # ws" env s]
    printf_unsigned [OF assms, of PRINTF_LENGTH_LONG "ucast w # ucast (drop_bit 16 w) # ws" env s]
  by (simp_all add: words_of_def arg_value_def arg32_split)

definition memory_message :: "u8 list \<Rightarrow> u8 list \<Rightarrow> u8 list \<Rightarrow> u8 list" where
  "memory_message n base sz =
     bytes ''Memory map: '' @ n @ bytes '' entries, heap='' @ base @ bytes '' size='' @ sz @ [13, 10]"

lemma printf_memory_map:
  fixes base sz :: u32
  shows "\<exists>s' n b c. printf env (bytes ''Memory map: %u entries, heap=%lx size=%lu'' @ [13, 10, 0])
      [count, ucast base, ucast (drop_bit 16 base), ucast sz, ucast (drop_bit 16 sz)] s = Some s' \<and>
    tty s' = tty s @ memory_message n b c \<and>
    text_value 10 n = uint count \<and> text_value 16 b = uint base \<and> text_value 10 c = uint sz"
proof -
  let ?args = "[count, ucast base, ucast (drop_bit 16 base), ucast sz, ucast (drop_bit 16 sz)]"
  let ?t1 = "bytes ''Memory map: ''" and ?t2 = "bytes '' entries, heap=''" and ?t3 = "bytes '' size=''"
  have fmt: "bytes ''Memory map: %u entries, heap=%lx size=%lu'' @ [13, 10, 0] =
      ?t1 @ [37, 117] @ ?t2 @ [37, 108, 120] @ ?t3 @ [37, 108, 117] @ [13, 10] @ [0]"
    by (simp add: bytes_def)
  have t: "list_all (\<lambda>c. c \<noteq> 0 \<and> c \<noteq> 37 \<and> c < 0x80) ?t1" "list_all (\<lambda>c. c \<noteq> 0 \<and> c \<noteq> 37 \<and> c < 0x80) ?t2"
    "list_all (\<lambda>c. c \<noteq> 0 \<and> c \<noteq> 37 \<and> c < 0x80) ?t3" "?t1 \<noteq> []" "?t2 \<noteq> []" "?t3 \<noteq> []"
    by (simp_all add: bytes_def)
  define s1 where "s1 = s\<lparr>g_Utf32State := 0, tty := tty s @ ?t1\<rparr>"
  from printf_short_long(1) [of 117 10 env count "tl ?args" s1] obtain n where
    n: "printf_spec env 117 PRINTF_LENGTH_DEFAULT ?args s1 = Some (tl ?args, s1\<lparr>g_Utf32State := 0, tty := tty s1 @ n\<rparr>)"
      "text_value 10 n = uint count" by auto
  define s2 where "s2 = s1\<lparr>g_Utf32State := 0, tty := tty s1 @ n @ ?t2\<rparr>"
  let ?rest = "[ucast sz, ucast (drop_bit 16 sz)]"
  from printf_short_long(2) [of 120 16 env base ?rest s2] obtain b where
    b: "printf_spec env 120 PRINTF_LENGTH_LONG (tl ?args) s2 = Some (?rest, s2\<lparr>g_Utf32State := 0, tty := tty s2 @ b\<rparr>)"
      "text_value 16 b = uint base" by auto
  define s3 where "s3 = s2\<lparr>g_Utf32State := 0, tty := tty s2 @ b @ ?t3\<rparr>"
  from printf_short_long(2) [of 117 10 env sz "[]" s3] obtain c where
    c: "printf_spec env 117 PRINTF_LENGTH_LONG ?rest s3 = Some ([], s3\<lparr>g_Utf32State := 0, tty := tty s3 @ c\<rparr>)"
      "text_value 10 c = uint sz" by auto
  let ?loop = "\<lambda>fmt. printf_loop env fmt PRINTF_STATE_NORMAL PRINTF_LENGTH_DEFAULT"
  let ?s4 = "s3\<lparr>g_Utf32State := 0, tty := tty s3 @ c @ [13, 10]\<rparr>"
  have "?loop (bytes ''Memory map: %u entries, heap=%lx size=%lu'' @ [13, 10, 0]) ?args s =
      ?loop ([37, 117] @ ?t2 @ [37, 108, 120] @ ?t3 @ [37, 108, 117] @ [13, 10] @ [0]) ?args s1"
    unfolding fmt printf_plain [OF t(1,4)] s1_def ..
  also have "\<dots> = ?loop ([37, 108, 120] @ ?t3 @ [37, 108, 117] @ [13, 10] @ [0]) (tl ?args) s2"
    using printf_conv(1) [OF _ _ _ n(1)] printf_plain [OF t(2,5)] by (simp add: s2_def)
  also have "\<dots> = ?loop ([37, 108, 117] @ [13, 10] @ [0]) ?rest s3"
    using printf_conv(2) [OF _ _ _ b(1)] printf_plain [OF t(3,6)] by (simp add: s3_def)
  also have "\<dots> = ?loop ([13, 10] @ [0]) [] (s3\<lparr>g_Utf32State := 0, tty := tty s3 @ c\<rparr>)"
    by (rule printf_conv(2) [OF _ _ _ c(1)]) simp_all
  also have "\<dots> = ?loop [0] [] ?s4"
    by (subst printf_plain) simp_all
  finally have "printf env (bytes ''Memory map: %u entries, heap=%lx size=%lu'' @ [13, 10, 0]) ?args s = Some ?s4"
    by (simp add: printf_def)
  moreover have "tty (s3\<lparr>g_Utf32State := 0, tty := tty s3 @ c @ [13, 10]\<rparr>) = tty s @ memory_message n b c"
    by (simp add: s3_def s2_def s1_def memory_message_def)
  ultimately show ?thesis using n(2) b(2) c(2) by blast
qed

section \<open>Memory after the boot\<close>

lemma read_bytes_apart:
  assumes "length bs \<le> d" "d + n \<le> 4294967296"
  shows "read_bytes (write_bytes mem b bs) (b + of_nat d) n = read_bytes mem (b + of_nat d) n"
proof -
  have "unat (b + of_nat d + of_nat i - b :: u32) = d + i" if "i < n" for i
    using that assms(2) by (simp add: unat_word_ariths unat_of_nat_word)
  then show ?thesis using assms(1) by (simp add: read_bytes_def write_bytes_def)
qed

text \<open>A BIOS that has a list of memory regions: it stores them in the buffer and tells their number.\<close>

definition e820_bios :: "e820_entry list \<Rightarrow> u32 \<Rightarrow> u16 \<Rightarrow> memory \<Rightarrow> bool \<times> u16 \<times> memory" where
  "e820_bios es entries capacity mem =
     (True, of_nat (length es), write_bytes mem (far_to_flat entries) (concat (map e820_image es)))"

text \<open>The memory that stage 2 leaves: regions, boot information and kernel.\<close>

definition boot_memory :: "memory \<Rightarrow> e820_entry list \<Rightarrow> u8 list \<Rightarrow> u8 list \<Rightarrow> memory" where
  "boot_memory mem es info krn =
     write_bytes (write_bytes (write_bytes mem 0x61000 (concat (map e820_image es))) 0x60000 info) 0x12000 krn"

lemma e820_written:
  assumes "i < length es" "length es \<le> 32"
  shows "read_bytes (write_bytes mem 0x61000 (concat (map e820_image es))) (0x61000 + of_nat (24 * i)) 24 =
    e820_image (es ! i)"
proof -
  have "24 * i + 24 \<le> 24 * length es" using assms(1) by linarith
  then show ?thesis
    using assms read_write_bytes [of "24 * i" 24 "concat (map e820_image es)" mem "0x61000"] e820_images_nth [OF assms(1)]
    by (simp add: e820_images_length)
qed

lemma boot_memory_read:
  assumes "length info = 44" "length krn < 32768" "length es \<le> 32" "mem' = boot_memory mem es info krn"
  shows "read_bytes mem' 0x12000 (length krn) = krn" "read_bytes mem' BOOT_INFO_ADDR 44 = info"
    "i < length es \<Longrightarrow> e820_at mem' 0x61000 i = es ! i"
proof -
  let ?m1 = "write_bytes mem 0x61000 (concat (map e820_image es))"
  let ?m2 = "write_bytes ?m1 0x60000 info"
  show "read_bytes mem' 0x12000 (length krn) = krn"
    using read_write_bytes [of 0 "length krn" krn ?m2 "0x12000"] assms(2) by (simp add: assms(4) boot_memory_def)
  have "read_bytes mem' (0x12000 + of_nat 0x4E000) 44 = read_bytes ?m2 (0x12000 + of_nat 0x4E000) 44"
    unfolding assms(4) boot_memory_def by (rule read_bytes_apart) (use assms(2) in simp_all)
  then show "read_bytes mem' BOOT_INFO_ADDR 44 = info"
    using read_write_bytes [of 0 44 info ?m1 "0x60000"] assms(1) by (simp add: BOOT_INFO_ADDR_def)
  show "e820_at mem' 0x61000 i = es ! i" if "i < length es"
  proof -
    have lt: "24 * i + 24 \<le> 24 * 32" using that assms(3) by linarith
    have "read_bytes mem' (0x12000 + of_nat (0x4F000 + 24 * i)) 24 = read_bytes ?m2 (0x12000 + of_nat (0x4F000 + 24 * i)) 24"
      unfolding assms(4) boot_memory_def by (rule read_bytes_apart) (use assms(2) lt in simp_all)
    moreover have "read_bytes ?m2 (0x60000 + of_nat (0x1000 + 24 * i)) 24 = read_bytes ?m1 (0x60000 + of_nat (0x1000 + 24 * i)) 24"
      by (rule read_bytes_apart) (use assms(1) lt in simp_all)
    ultimately show ?thesis
      using e820_written [OF that assms(3), of mem] by (simp add: e820_at_def e820_layout add.assoc)
  qed
qed

section \<open>The kernel is loaded and entered\<close>

lemma kernel_path_name: "fat_name (blit (bytes ''kernel.bin'' @ [0]) name) = bytes ''KERNEL  BIN''"
proof -
  have two: "replicate 2 (32 :: u8) = [32, 32]" by (simp add: numeral_2_eq_2)
  show ?thesis
    by (simp add: fat_name_def blit_def bytes_def strchr_def toupper_def islower_def upt_conv_Cons word_sle_eq two)
qed

lemma cstart_kernel_loads:
  assumes "se_bios env = image_bios floppy di" "s2_disk m = floppy" "mounted di (s2_fat m)" "s2_bios m < 3"
    "vol_entries di < 2048" "first_in_root di (bytes ''KERNEL  BIN'') k"
    "de_Attributes (vol_slot di k) AND FAT_ATTRIBUTE_DIRECTORY = 0" "unat (de_Size (vol_slot di k)) < 32768"
    "vol_chain di (entry_first (vol_slot di k)) (unat (de_Size (vol_slot di k)))"
  shows "\<exists>g st. cstart_kernel env m = Some (Inr (Far_jump 0x1200 0,
     m\<lparr>s2_mem := write_bytes (s2_mem m) 0x12000
         (vol_bytes di (entry_first (vol_slot di k)) (unat (de_Size (vol_slot di k)))),
       s2_fat := g, s2_bios := st\<rparr>))"
proof -
  let ?e = "vol_slot di k" and ?name = "bytes ''kernel.bin''"
  have path: "BOOT_KERNEL_PATH = 47 # ?name" "?name \<noteq> []" "47 \<notin> set ?name" "length ?name < MAX_PATH_SIZE"
    by (simp_all add: BOOT_KERNEL_PATH_def bytes_def MAX_PATH_SIZE_def)
  have "first_in_root di (fat_name (blit (?name @ [0]) (s2_name m))) k"
    using assms(6) by (simp only: kernel_path_name)
  from fat_open_root_file [OF assms(3,4,5) path(2-4) this] obtain g where
    g: "FAT_Open (floppy_read di) BOOT_KERNEL_PATH (s2_name m) (s2_fat m, s2_bios m) = Some (Inr (Some 0, g, 0))"
      "opened di ?e g" by (auto simp: path(1))
  from read_opened [OF g(2) _ assms(8,7,9), of 0] obtain fd st where
    r: "FAT_ReadImpl (floppy_read di) 0 (de_Size ?e) (g, 0) =
        Some (Inr (de_Size ?e, vol_bytes di (entry_first ?e) (unat (de_Size ?e)), set_fd 0 fd g, st))"
      "fd_Size fd = de_Size ?e" by auto
  have o: "fd_Size (get_fd 0 g) = de_Size ?e" "nat 0 < length (fat_OpenedFiles g)"
    using g(2) by (simp_all add: opened_def MAX_FILE_HANDLES_def)
  then have late: "fd_Size (get_fd 0 (if se_late env then set_fd 0 fd g else g)) = de_Size ?e"
    using r(2) by simp
  have "length (vol_bytes di (entry_first ?e) (unat (de_Size ?e))) \<le> 65536"
    using assms(8) by (simp add: vol_bytes_def)
  from far_write_bytes [OF this, of "0x1200" "s2_mem m"] have
    "far_write MEMORY_KERNEL_ADDR (vol_bytes di (entry_first ?e) (unat (de_Size ?e))) (s2_mem m) =
       write_bytes (s2_mem m) 0x12000 (vol_bytes di (entry_first ?e) (unat (de_Size ?e)))"
    by (simp add: MEMORY_KERNEL_ADDR_def)
  then show ?thesis
    using g(1) r(1) o(1) late
    by (intro exI [of _ "FAT_Close 0 (set_fd 0 fd g)"] exI [of _ st])
       (simp add: cstart_kernel_def assms(1,2) Let_def MEMORY_KERNEL_SEGMENT_def MEMORY_KERNEL_OFFSET_def)
qed

lemma e820_map_entry:
  assumes "i < length es" "length es \<le> 32"
  shows "map_entry (write_bytes mem 0x61000 (concat (map e820_image es)))
    \<lparr>mm_Entries = 0x61000000, mm_EntryCount = n, mm_Capacity = c\<rparr> i = es ! i"
proof -
  have "24 * i < 65536" using assms by linarith
  from far_add_flat [OF this, of "0x6100"] have "far_to_flat (far_add 0x61000000 (of_nat (24 * i))) = 0x61000 + of_nat (24 * i)"
    by simp
  then show ?thesis
    unfolding map_entry_def using e820_written [OF assms, of mem] by (simp add: e820_at_def e820_layout)
qed

definition boot_block :: "u16 \<Rightarrow> boot_info_raw" where
  "boot_block count =
     \<lparr>raw_boot_drive = 0, raw_video_mode = 0, raw_flags = 7, raw_mmap_entries_far = 0x61000000,
      raw_mmap_count = count, raw_mmap_capacity = 32, raw_heap_base = 0x78000,
      raw_heap_capacity = 0x20000, raw_heap_offset = 0, raw_io_buffer_far = 0x62000000,
      raw_io_buffer_size = 0x2000, raw_framebuffer_far = 0xB8000000, raw_fb_width = 80,
      raw_fb_height = 25, raw_fb_pitch = 160, raw_fb_bpp = 16, raw_fb_flags = 0\<rparr>"

lemma boot_heap:
  assumes "length es \<le> 32" "\<forall>r \<in> set es. unat (e_base r) + unat (e_length r) < 18446744073709551616"
    "\<exists>r \<in> set es. entry_covers r 0x78000 0x20000"
  shows "MEMORY_Allocator_InitFromMap (write_bytes mem 0x61000 (concat (map e820_image es)))
      \<lparr>mm_Entries = 0x61000000, mm_EntryCount = of_nat (length es), mm_Capacity = c\<rparr> 0x78000 0x20000 =
    Some \<lparr>al_BasePhysical = 0x78000, al_Capacity = 0x20000, al_Offset = 0\<rparr>"
proof -
  let ?mem = "write_bytes mem 0x61000 (concat (map e820_image es))"
  let ?m = "\<lparr>mm_Entries = 0x61000000, mm_EntryCount = of_nat (length es), mm_Capacity = c\<rparr>"
  have n: "unat (mm_EntryCount ?m) = length es" using assms(1) by (simp add: unat_of_nat_word)
  have e: "map_entry ?mem ?m i = es ! i" if "i < length es" for i
    by (rule e820_map_entry [OF that assms(1)])
  have "\<forall>i < unat (mm_EntryCount ?m). unat (e_base (map_entry ?mem ?m i)) + unat (e_length (map_entry ?mem ?m i))
       < 18446744073709551616"
    unfolding n using assms(2) e nth_mem by metis
  moreover have "\<exists>i < unat (mm_EntryCount ?m). entry_covers (map_entry ?mem ?m i) 0x78000 0x20000"
    unfolding n using assms(3) e by (metis in_set_conv_nth)
  ultimately show ?thesis
    using heap_from_map [of ?m "0x78000" "0x20000" ?mem] by (simp only: if_True memory_map.select_convs) simp
qed

text \<open>
  The situation in which stage 2 starts: a well-formed floppy \<open>di\<close>, a drive that may fail twice, and
  memory regions \<open>es\<close> of which one covers the heap.
\<close>

definition boot_ready :: "u8 list \<Rightarrow> e820_entry list \<Rightarrow> nat stage2_env \<Rightarrow> nat stage2 \<Rightarrow> bool" where
  "boot_ready di es env m \<longleftrightarrow> se_bios env = image_bios floppy di \<and> se_map env = e820_bios es \<and>
     vol_ok (se_sz env) di \<and> fat_memory (s2_fat m) \<and> s2_bios m < 3 \<and> length es \<le> 32 \<and>
     (\<forall>r \<in> set es. unat (e_base r) + unat (e_length r) < 18446744073709551616) \<and>
     (\<exists>r \<in> set es. entry_covers r 0x78000 0x20000)"

text \<open>Up to the opening of the kernel: the volume is mounted and the boot block stored.\<close>

lemma cstart_prepares:
  assumes "boot_ready di es env m"
  shows "\<exists>g mem info s' n b c. cstart env 0 m = cstart_kernel env (m\<lparr>s2_disk := floppy, s2_fat := g, s2_bios := 0,
       s2_mem := write_bytes (write_bytes mem 0x61000 (concat (map e820_image es))) 0x60000 (boot_info_image info),
       s2_stdio := s'\<rparr>) \<and>
    mounted di g \<and> boot_info_raw_of (boot_info_image info) = boot_block (of_nat (length es)) \<and>
    tty s' = tty (s2_stdio m) @ memory_message n b c \<and>
    text_value 10 n = int (length es) \<and> text_value 16 b = 0x78000 \<and> text_value 10 c = 0x20000"
proof -
  have r: "se_bios env = image_bios floppy di" "se_map env = e820_bios es" "length es \<le> 32"
    "\<forall>r \<in> set es. unat (e_base r) + unat (e_length r) < 18446744073709551616"
    "\<exists>r \<in> set es. entry_covers r 0x78000 0x20000"
    using assms by (simp_all add: boot_ready_def)
  obtain g where g: "FAT_Initialize (se_sz env) (floppy_read di) (s2_fat m, s2_bios m) = (True, g, 0)" "mounted di g"
    using fat_initialize_mounts [of "se_sz env" di "s2_fat m" "s2_bios m"] assms by (auto simp: boot_ready_def)
  have disk: "DISK_Initialize (image_bios floppy di) 0 (s2_disk m) (s2_bios m) = (True, floppy, s2_bios m)"
    by (cases "s2_disk m") (simp add: DISK_Initialize_def image_bios_def floppy_def)
  define mem0 where "mem0 = far_memset 0x61000000 0 (32 * 24) (far_memset 0x61000000 0 (32 * 24) (s2_mem m))"
  let ?mem1 = "write_bytes mem0 0x61000 (concat (map e820_image es))"
  let ?mm = "\<lparr>mm_Entries = 0x61000000, mm_EntryCount = of_nat (length es), mm_Capacity = 32\<rparr>"
  let ?al = "\<lparr>al_BasePhysical = 0x78000, al_Capacity = 0x20000, al_Offset = 0\<rparr>"
  have collect: "MEMORY_Map_Collect (e820_bios es) \<lparr>mm_Entries = 0x61000000, mm_EntryCount = 0, mm_Capacity = 32\<rparr>
      (far_memset 0x61000000 0 (32 * 24) (s2_mem m)) = (True, ?mm, ?mem1)"
    by (simp add: MEMORY_Map_Collect_def e820_bios_def mem0_def far_to_flat_def)
  note heap = boot_heap [OF r(3,4,5), of mem0 32]
  obtain info where info: "MEMORY_BootInfo_Init 0x60000000 0 0 (Some ?mm) (Some ?al) 0x62000000 0x2000
      0xB8000000 80 25 160 16 0 = Some info"
    by (auto simp: MEMORY_BootInfo_Init_def Let_def)
  obtain s' n b c where msg: "printf (se_strings env) (bytes ''Memory map: %u entries, heap=%lx size=%lu'' @ [13, 10, 0])
      [of_nat (length es), ucast (0x78000 :: u32), ucast (drop_bit 16 (0x78000 :: u32)),
       ucast (0x20000 :: u32), ucast (drop_bit 16 (0x20000 :: u32))] (s2_stdio m) = Some s'"
    "tty s' = tty (s2_stdio m) @ memory_message n b c"
    "text_value 10 n = uint (of_nat (length es) :: u16)" "text_value 16 b = uint (0x78000 :: u32)"
    "text_value 10 c = uint (0x20000 :: u32)"
    using printf_memory_map [of "se_strings env" "of_nat (length es)" "0x78000" "0x20000" "s2_stdio m"] by blast
  define m1 where "m1 = m\<lparr>s2_disk := floppy, s2_fat := g, s2_bios := 0,
     s2_mem := write_bytes ?mem1 0x60000 (boot_info_image info), s2_stdio := s'\<rparr>"
  have "cstart_memory env 0 (m\<lparr>s2_disk := floppy, s2_fat := g, s2_bios := 0\<rparr>) = cstart_kernel env m1"
    using r(2) collect heap info msg(1)
    by (simp add: cstart_memory_def MEMORY_Map_Init_def MEMORY_E820_MAP_ADDR_def MEMORY_E820_MAP_CAPACITY_def
        MEMORY_HEAP_MIN_PHYSICAL_def MEMORY_KERNEL_HEAP_SIZE_def MEMORY_BOOT_INFO_ADDR_def MEMORY_VIDEO_MODE_TEXT_def
        MEMORY_IO_BUFFER_ADDR_def MEMORY_IO_BUFFER_SIZE_def MEMORY_TEXT_FRAMEBUFFER_ADDR_def
        MEMORY_TEXT_FRAMEBUFFER_WIDTH_def MEMORY_TEXT_FRAMEBUFFER_HEIGHT_def MEMORY_TEXT_FRAMEBUFFER_PITCH_def
        MEMORY_TEXT_FRAMEBUFFER_BPP_def far_to_flat_def m1_def)
  then have start: "cstart env 0 m = cstart_kernel env m1"
    using disk g(1) r(1) by (simp add: cstart_def Let_def)
  have "0 < length es" using r(5) by (cases es) auto
  then have "unat (of_nat (length es) :: u16) \<noteq> 0" using r(3) by (simp add: unat_of_nat_word)
  then have "(of_nat (length es) :: u16) \<noteq> 0" by (metis unsigned_0)
  then have "bi_Flags info = 7"
    using info by (auto simp: MEMORY_BootInfo_Init_def Let_def MEMORY_BOOT_INFO_HAS_MEMORY_MAP_def
        MEMORY_BOOT_INFO_HAS_IO_BUFFER_def MEMORY_BOOT_INFO_HAS_FRAMEBUFFER_def)
  then have "boot_info_raw_of (boot_info_image info) = boot_block (of_nat (length es))"
    using info by (auto simp: boot_info_layout boot_block_def MEMORY_BootInfo_Init_def Let_def)
  moreover have "text_value 10 n = int (length es)" "text_value 16 b = 0x78000" "text_value 10 c = 0x20000"
    using msg(3-5) r(3) by (simp_all add: unsigned_of_nat take_bit_nat_eq_self)
  ultimately show ?thesis using start g(2) msg(2) unfolding m1_def by blast
qed

lemma stage2_boots:
  assumes "boot_ready di es env m" "first_in_root di (bytes ''KERNEL  BIN'') k" "e = vol_slot di k"
    "de_Attributes e AND FAT_ATTRIBUTE_DIRECTORY = 0" "unat (de_Size e) < 32768"
    "vol_chain di (entry_first e) (unat (de_Size e))"
  shows "\<exists>m' n b c. cstart env 0 m = Some (Inr (Far_jump 0x1200 0, m')) \<and>
    read_bytes (s2_mem m') 0x12000 (unat (de_Size e)) = vol_bytes di (entry_first e) (unat (de_Size e)) \<and>
    boot_info_get (s2_mem m') = boot_block (of_nat (length es)) \<and>
    (\<forall>i < length es. e820_at (s2_mem m') (boot_info_e820_entries (s2_mem m')) i = es ! i) \<and>
    tty (s2_stdio m') = tty (s2_stdio m) @ memory_message n b c \<and>
    text_value 10 n = int (length es) \<and> text_value 16 b = 0x78000 \<and> text_value 10 c = 0x20000"
proof -
  have r: "se_bios env = image_bios floppy di" "length es \<le> 32" "vol_entries di < 2048"
    using assms(1) by (simp_all add: boot_ready_def vol_ok_def)
  obtain g mem info s' n b c where p: "cstart env 0 m = cstart_kernel env (m\<lparr>s2_disk := floppy, s2_fat := g, s2_bios := 0,
       s2_mem := write_bytes (write_bytes mem 0x61000 (concat (map e820_image es))) 0x60000 (boot_info_image info),
       s2_stdio := s'\<rparr>)"
    "mounted di g" "boot_info_raw_of (boot_info_image info) = boot_block (of_nat (length es))"
    "tty s' = tty (s2_stdio m) @ memory_message n b c"
    "text_value 10 n = int (length es)" "text_value 16 b = 0x78000" "text_value 10 c = 0x20000"
    using cstart_prepares [OF assms(1)] by blast
  let ?krn = "vol_bytes di (entry_first e) (unat (de_Size e))"
  let ?mem = "boot_memory mem es (boot_info_image info) ?krn"
  from cstart_kernel_loads [OF r(1) _ _ _ r(3) assms(2), of "m\<lparr>s2_disk := floppy, s2_fat := g, s2_bios := 0,
       s2_mem := write_bytes (write_bytes mem 0x61000 (concat (map e820_image es))) 0x60000 (boot_info_image info),
       s2_stdio := s'\<rparr>"] p(1,2) assms(3-6)
  obtain g' st where jump: "cstart env 0 m = Some (Inr (Far_jump 0x1200 0, m\<lparr>s2_disk := floppy, s2_stdio := s',
      s2_mem := ?mem, s2_fat := g', s2_bios := st\<rparr>))"
    by (auto simp: boot_memory_def)
  have krn: "length ?krn = unat (de_Size e)" by (simp add: vol_bytes_def)
  have small: "length ?krn < 32768" using assms(5) by (simp add: krn)
  note final = boot_memory_read [OF boot_info_layout(1) [of info] small r(2), of ?mem mem, OF refl]
  have block: "boot_info_get ?mem = boot_block (of_nat (length es))"
    using final(2) p(3) by (simp add: boot_info_get_def)
  have "boot_info_e820_entries ?mem = 0x61000"
    by (simp add: boot_info_e820_entries_def block boot_block_def far_to_flat_def)
  then have "\<forall>i < length es. e820_at ?mem (boot_info_e820_entries ?mem) i = es ! i" using final(3) by simp
  moreover have "read_bytes ?mem 0x12000 (unat (de_Size e)) = ?krn" using final(1) krn by simp
  ultimately show ?thesis
    using jump p(4-7) block
    by (intro exI [of _ "m\<lparr>s2_disk := floppy, s2_stdio := s', s2_mem := ?mem, s2_fat := g', s2_bios := st\<rparr>"]
        exI [of _ n] exI [of _ b] exI [of _ c]) simp
qed

text \<open>
  C1: Stage 2 boots: from a well-formed floppy with the kernel in its root directory, on a BIOS that
  may fail the first two reads and that reports memory which covers the heap, the main program ends
  by jumping to the kernel. The file is then at 0x12000, byte for byte along its cluster chain; the
  kernel reads every field of the boot information block as stage 2 means it, and each memory region
  that the BIOS reported; and the console shows the line about the memory.
\<close>

theorem cstart_boots:
  assumes "boot_ready di es env m" "first_in_root di (bytes ''KERNEL  BIN'') k" "e = vol_slot di k"
    "de_Attributes e AND FAT_ATTRIBUTE_DIRECTORY = 0" "unat (de_Size e) < 32768"
    "vol_chain di (entry_first e) (unat (de_Size e))"
  shows "\<exists>m' n b c. cstart env 0 m = Some (Inr (Far_jump 0x1200 0, m')) \<and>
    read_bytes (s2_mem m') 0x12000 (unat (de_Size e)) = vol_bytes di (entry_first e) (unat (de_Size e)) \<and>
    boot_info_get (s2_mem m') = boot_block (of_nat (length es)) \<and>
    (\<forall>i < length es. e820_at (s2_mem m') (boot_info_e820_entries (s2_mem m')) i = es ! i) \<and>
    tty (s2_stdio m') = tty (s2_stdio m) @ memory_message n b c \<and>
    text_value 10 n = int (length es) \<and> text_value 16 b = 0x78000 \<and> text_value 10 c = 0x20000"
  by (rule stage2_boots [OF assms])

text \<open>
  C31: Without a kernel nothing is reported: if no directory slot of the disk carries the name of the
  kernel, the main program neither stops with a message nor jumps; it searches the root directory
  without end.
\<close>

theorem cstart_missing_kernel:
  assumes "boot_ready di es env m" "not_on_disk di (bytes ''KERNEL  BIN'')"
  shows "cstart env 0 m = None"
proof -
  obtain g mem info s' where p: "cstart env 0 m = cstart_kernel env (m\<lparr>s2_disk := floppy, s2_fat := g, s2_bios := 0,
       s2_mem := write_bytes (write_bytes mem 0x61000 (concat (map e820_image es))) 0x60000 (boot_info_image info),
       s2_stdio := s'\<rparr>)" "mounted di g"
    using cstart_prepares [OF assms(1)] by blast
  have "searching di (g, 0)"
    using p(2) by (auto simp: searching_def mounted_def root_at_def image16_def)
  from find_missing [OF this] assms(2)
  have "FAT_FindFile (floppy_read di) ROOT_DIRECTORY_HANDLE (blit (bytes ''kernel.bin'' @ [0]) (s2_name m)) (g, 0) = None"
    by (simp only: kernel_path_name)
  moreover have "takeWhile (\<lambda>c. c \<noteq> 47) (bytes ''kernel.bin'') = bytes ''kernel.bin''" "length (bytes ''kernel.bin'') < MAX_PATH_SIZE"
    by (simp_all add: bytes_def MAX_PATH_SIZE_def)
  ultimately have "FAT_Open (floppy_read di) (47 # bytes ''kernel.bin'') (s2_name m) (g, 0) = None"
    by (simp add: FAT_Open_def Let_def) (simp add: bytes_def)
  moreover have "BOOT_KERNEL_PATH = 47 # bytes ''kernel.bin''" by (simp add: BOOT_KERNEL_PATH_def bytes_def)
  ultimately show ?thesis
    using p(1) assms(1) by (simp add: cstart_kernel_def boot_ready_def)
qed

section \<open>Witnesses\<close>

definition boot_env :: "nat stage2_env" where
  "boot_env = \<lparr>se_bios = image_bios floppy boot_floppy, se_map = e820_bios [low_memory, e820_example], se_sz = 6500,
     se_strings = \<lparr>near_str = (\<lambda>p. []), far_str = (\<lambda>p. []), wide_str = (\<lambda>p. [])\<rparr>, se_late = True\<rparr>"

definition boot_start :: "nat stage2" where
  "boot_start = \<lparr>s2_bios = 2, s2_mem = (\<lambda>a. 0), s2_disk = \<lparr>d_id = 0, d_cylinders = 0, d_sectors = 0, d_heads = 0\<rparr>,
     s2_fat = (fat_small (replicate 512 0) 0)\<lparr>fat_BootSectorBytes := replicate 512 0\<rparr>, s2_name = replicate 256 0xAA,
     s2_stdio = \<lparr>g_Utf32State = 0, g_Utf32Char = 0, tty = []\<rparr>\<rparr>"

lemma boot_start_memory: "fat_memory (s2_fat boot_start)"
  by (simp add: fat_memory_def boot_start_def fat_small_def fat_closed_def MAX_FILE_HANDLES_def)

lemma boot_start_ready: "boot_ready boot_floppy [low_memory, e820_example] boot_env boot_start"
  using boot_floppy_ok(1) boot_start_memory
  by (simp add: boot_ready_def boot_env_def boot_start_def low_memory_def e820_example_def entry_covers_def)

lemma cstart_boots_witness:
  "\<exists>m'. cstart boot_env 0 boot_start = Some (Inr (Far_jump 0x1200 0, m')) \<and>
     boot_info_get (s2_mem m') = boot_block 2"
proof -
  have "first_in_root boot_floppy (bytes ''KERNEL  BIN'') 0"
    by (simp add: first_in_root_def boot_floppy_boot boot_floppy_slot)
  moreover have "entry_first (vol_slot boot_floppy 0) = 2" "unat (de_Size (vol_slot boot_floppy 0)) = 600"
    "de_Attributes (vol_slot boot_floppy 0) AND FAT_ATTRIBUTE_DIRECTORY = 0"
    by (simp_all add: boot_floppy_slot entry_first_def FAT_ATTRIBUTE_DIRECTORY_def)
  ultimately show ?thesis
    using cstart_boots [OF boot_start_ready, of 0 "vol_slot boot_floppy 0"] boot_floppy_chain by auto
qed

lemma cstart_missing_kernel_witness:
  "cstart (boot_env\<lparr>se_bios := image_bios floppy empty_floppy\<rparr>) 0 boot_start = None"
  by (rule cstart_missing_kernel [OF _ empty_floppy_nothing, where es = "[low_memory, e820_example]"])
     (use boot_start_memory empty_floppy_ok in
       \<open>simp add: boot_ready_def boot_env_def boot_start_def low_memory_def e820_example_def entry_covers_def\<close>)

end
