(* ===== verification/X86Boot.thy ===== *)
theory X86Boot
  imports X86Map Stage2Boot
begin

text \<open>
  The main program of stage 2 on a BIOS that is described by the registers of INT 15h.
\<close>

lemma env_map_select:
  "se_bios (env\<lparr>se_map := f\<rparr>) = se_bios env" "se_sz (env\<lparr>se_map := f\<rparr>) = se_sz env"
  "se_strings (env\<lparr>se_map := f\<rparr>) = se_strings env" "se_late (env\<lparr>se_map := f\<rparr>) = se_late env"
  "se_map (env\<lparr>se_map := f\<rparr>) = f"
  by simp_all

lemma boot_fail_map [simp]: "boot_fail (env\<lparr>se_map := f\<rparr>) msg m = boot_fail env msg m"
  by (simp add: boot_fail_def)

lemma cstart_kernel_map [simp]: "cstart_kernel (env\<lparr>se_map := f\<rparr>) m = cstart_kernel env m"
  unfolding cstart_kernel_def boot_fail_map env_map_select by (rule refl)

lemma cstart_map_cong:
  assumes "\<And>mem. f MEMORY_E820_MAP_ADDR MEMORY_E820_MAP_CAPACITY mem = se_map env MEMORY_E820_MAP_ADDR MEMORY_E820_MAP_CAPACITY mem"
  shows "cstart (env\<lparr>se_map := f\<rparr>) drive m = cstart env drive m"
proof -
  have "MEMORY_Map_Collect f \<lparr>mm_Entries = MEMORY_E820_MAP_ADDR, mm_EntryCount = 0, mm_Capacity = MEMORY_E820_MAP_CAPACITY\<rparr> =
      MEMORY_Map_Collect (se_map env) \<lparr>mm_Entries = MEMORY_E820_MAP_ADDR, mm_EntryCount = 0, mm_Capacity = MEMORY_E820_MAP_CAPACITY\<rparr>"
    by (simp add: fun_eq_iff MEMORY_Map_Collect_def assms)
  then have mem: "cstart_memory (env\<lparr>se_map := f\<rparr>) d m' = cstart_memory env d m'" for d m'
    unfolding cstart_memory_def boot_fail_map cstart_kernel_map env_map_select MEMORY_Map_Init_def by simp
  show ?thesis unfolding cstart_def boot_fail_map env_map_select mem by (rule refl)
qed

lemma map_room: "unat (ucast MEMORY_E820_MAP_ADDR :: u16) = 0" "unat MEMORY_E820_MAP_CAPACITY = 32"
  by (simp_all add: MEMORY_E820_MAP_ADDR_def MEMORY_E820_MAP_CAPACITY_def)

lemma boot_over_registers:
  assumes "boot_ready di es env m"
  shows "cstart (env\<lparr>se_map := stub_map (int15_e820 es) c\<rparr>) drive m = cstart env drive m"
proof (rule cstart_map_cong)
  have es: "es \<noteq> []" "length es \<le> 32" "se_map env = e820_bios es"
    using assms by (auto simp: boot_ready_def)
  fix mem
  show "stub_map (int15_e820 es) c MEMORY_E820_MAP_ADDR MEMORY_E820_MAP_CAPACITY mem =
      se_map env MEMORY_E820_MAP_ADDR MEMORY_E820_MAP_CAPACITY mem"
    using stub_map_e820(1) [of es MEMORY_E820_MAP_ADDR MEMORY_E820_MAP_CAPACITY c mem] es
    by (simp add: map_room e820_bios_def)
qed

text \<open>
  Stage 2 boots on a BIOS that is known by its registers: when INT 15h hands out its regions one
  by one under the continuation token in EBX, the routine in assembly collects them all, and the main
  program loads and enters the kernel with the boot information in place.
\<close>

theorem boot_over_int15:
  assumes "boot_ready di es env m" "first_in_root di (bytes ''KERNEL  BIN'') k" "e = vol_slot di k"
    "de_Attributes e AND FAT_ATTRIBUTE_DIRECTORY = 0" "unat (de_Size e) < 32768"
    "vol_chain di (entry_first e) (unat (de_Size e))"
  shows "\<exists>m'. cstart (env\<lparr>se_map := stub_map (int15_e820 es) c\<rparr>) 0 m = Some (Inr (Far_jump 0x1200 0, m')) \<and>
    read_bytes (s2_mem m') 0x12000 (unat (de_Size e)) = vol_bytes di (entry_first e) (unat (de_Size e)) \<and>
    boot_info_get (s2_mem m') = boot_block (of_nat (length es)) \<and>
    (\<forall>i < length es. e820_at (s2_mem m') (boot_info_e820_entries (s2_mem m')) i = es ! i)"
  using stage2_boots [OF assms] boot_over_registers [OF assms(1)] by (simp only:) blast

text \<open>The registers of stage 2 when it calls the BIOS: all segments at 0x2000, the stack below its end.\<close>

definition stage2_cpu :: cpu where
  "stage2_cpu = \<lparr>c_eax = 0x10, c_ebx = 1, c_ecx = 2, c_edx = 3, c_esi = 4, c_edi = 5, c_ebp = 0xFFF0, c_esp = 0xFFE0,
     c_eip = 0x100, c_cs = 0x2000, c_ds = 0x2000, c_es = 0x2000, c_fs = 0, c_gs = 0, c_ss = 0x2000, c_eflags = 0x202,
     c_cr0 = 0x10, c_gdtr = (39, 0x7C00), c_idtr = (0x3FF, 0)\<rparr>"

lemma boot_over_int15_witness:
  "\<exists>m'. cstart (boot_env\<lparr>se_map := stub_map (int15_e820 [low_memory, e820_example]) stage2_cpu\<rparr>) 0 boot_start =
     Some (Inr (Far_jump 0x1200 0, m')) \<and> boot_info_get (s2_mem m') = boot_block 2"
proof -
  have "first_in_root boot_floppy (bytes ''KERNEL  BIN'') 0"
    by (simp add: first_in_root_def boot_floppy_boot boot_floppy_slot)
  moreover have "entry_first (vol_slot boot_floppy 0) = 2" "unat (de_Size (vol_slot boot_floppy 0)) = 600"
    "de_Attributes (vol_slot boot_floppy 0) AND FAT_ATTRIBUTE_DIRECTORY = 0"
    by (simp_all add: boot_floppy_slot entry_first_def FAT_ATTRIBUTE_DIRECTORY_def)
  ultimately show ?thesis
    using boot_over_int15 [OF boot_start_ready, of 0 "vol_slot boot_floppy 0" stage2_cpu] boot_floppy_chain by auto
qed

section \<open>More regions than entries\<close>

lemma boot_fail_message:
  assumes "list_all (\<lambda>c. c \<noteq> 0 \<and> c < 0x80) (bytes msg)" "bytes msg \<noteq> []"
  shows "\<exists>s. boot_fail env msg m = Some (Inr (Boot_failed msg, m\<lparr>s2_stdio := s\<rparr>)) \<and>
    tty s = tty (s2_stdio m) @ bytes msg @ [13, 10]"
proof -
  let ?env = "(se_strings env)\<lparr>near_str := (\<lambda>p. bytes msg @ [0])\<rparr>" and ?s = "s2_stdio m"
  let ?s1 = "?s\<lparr>g_Utf32State := 0, tty := tty ?s @ bytes msg\<rparr>"
  have b: "0 \<notin> set (bytes msg)" "list_all (\<lambda>d. d < 0x80) (bytes msg)"
    using assms(1) by (auto simp: list_all_iff)
  have "puts (bytes msg @ [0]) ?s = Some ?s1"
    using puts_fold [OF b(1)] puts_ascii [OF b(2) assms(2)] by simp
  then have conv: "printf_spec ?env 115 PRINTF_LENGTH_DEFAULT [0] ?s = Some ([], ?s1)"
    by (simp add: printf_spec_def)
  have "printf ?env (bytes ''%s'' @ [13, 10, 0]) [0] ?s =
      printf_loop ?env ([37, 115] @ [13, 10] @ [0]) PRINTF_STATE_NORMAL PRINTF_LENGTH_DEFAULT [0] ?s"
    by (simp add: printf_def bytes_def)
  also have "\<dots> = printf_loop ?env ([13, 10] @ [0]) PRINTF_STATE_NORMAL PRINTF_LENGTH_DEFAULT [] ?s1"
    by (rule printf_conv(1) [OF _ _ _ conv]) simp_all
  also have "\<dots> = printf_loop ?env [0] PRINTF_STATE_NORMAL PRINTF_LENGTH_DEFAULT []
      (?s1\<lparr>g_Utf32State := 0, tty := tty ?s1 @ [13, 10]\<rparr>)"
    by (rule printf_plain) simp_all
  finally show ?thesis
    by (intro exI [of _ "?s1\<lparr>g_Utf32State := 0, tty := tty ?s1 @ [13, 10]\<rparr>"]) (simp add: boot_fail_def)
qed

text \<open>
  C39: A machine whose BIOS reports more than the 32 regions that the buffer holds does not boot: the
  memory map is given up as a whole, with a message, although one of the 32 may cover the heap.
\<close>

theorem boot_too_many_regions:
  assumes "se_bios env = image_bios floppy di" "se_map env = stub_map (int15_e820 es) c" "vol_ok (se_sz env) di"
    "fat_memory (s2_fat m)" "s2_bios m < 3" "32 < length es" "length es \<le> 2730"
  shows "\<exists>m'. cstart env 0 m = Some (Inr (Boot_failed ''Memory map error'', m')) \<and>
    tty (s2_stdio m') = tty (s2_stdio m) @ bytes ''Memory map error'' @ [13, 10]"
proof -
  obtain g where g: "FAT_Initialize (se_sz env) (floppy_read di) (s2_fat m, s2_bios m) = (True, g, 0)"
    using fat_initialize_mounts [of "se_sz env" di "s2_fat m" "s2_bios m"] assms(3-5) by auto
  have disk: "DISK_Initialize (image_bios floppy di) 0 (s2_disk m) (s2_bios m) = (True, floppy, s2_bios m)"
    by (cases "s2_disk m") (simp add: DISK_Initialize_def image_bios_def floppy_def)
  have es: "es \<noteq> []" "length es \<le> 2730" "\<not> length es \<le> 32" using assms(6,7) by auto
  then have full: "\<exists>mem'. stub_map (int15_e820 es) c MEMORY_E820_MAP_ADDR MEMORY_E820_MAP_CAPACITY mem = (False, 0, mem')" for mem
    using stub_map_e820(2) [of es MEMORY_E820_MAP_ADDR MEMORY_E820_MAP_CAPACITY c mem]
    by (simp add: map_room)
  let ?mm = "\<lparr>mm_Entries = MEMORY_E820_MAP_ADDR, mm_EntryCount = 0, mm_Capacity = MEMORY_E820_MAP_CAPACITY\<rparr>"
  have map_addr: "MEMORY_E820_MAP_ADDR \<noteq> 0" "MEMORY_E820_MAP_CAPACITY \<noteq> 0"
    by (simp_all add: MEMORY_E820_MAP_ADDR_def MEMORY_E820_MAP_CAPACITY_def)
  obtain mem' where "stub_map (int15_e820 es) c MEMORY_E820_MAP_ADDR MEMORY_E820_MAP_CAPACITY
      (far_memset MEMORY_E820_MAP_ADDR 0 (MEMORY_E820_MAP_CAPACITY * 24)
        (far_memset MEMORY_E820_MAP_ADDR 0 (MEMORY_E820_MAP_CAPACITY * 24) (s2_mem m))) = (False, 0, mem')"
    using full by blast
  then have collect: "MEMORY_Map_Collect (se_map env) ?mm
      (far_memset MEMORY_E820_MAP_ADDR 0 (MEMORY_E820_MAP_CAPACITY * 24) (s2_mem m)) = (False, ?mm, mem')"
    unfolding MEMORY_Map_Collect_def memory_map.select_convs assms(2) using map_addr by simp
  define m1 where "m1 = m\<lparr>s2_disk := floppy, s2_fat := g, s2_bios := 0, s2_mem := mem'\<rparr>"
  have "cstart env 0 m = boot_fail env ''Memory map error'' m1"
    using disk g collect assms(1) map_addr
    by (simp add: cstart_def cstart_memory_def MEMORY_Map_Init_def m1_def)
  then show ?thesis using boot_fail_message [of "''Memory map error''" env m1] by (auto simp: m1_def bytes_def)
qed

text \<open>Forty regions of usable memory.\<close>

lemma boot_too_many_regions_witness:
  "\<exists>m'. cstart (boot_env\<lparr>se_map := stub_map (int15_e820 (replicate 40 e820_example)) stage2_cpu\<rparr>) 0 boot_start =
     Some (Inr (Boot_failed ''Memory map error'', m'))"
proof -
  have "vol_ok 6500 boot_floppy" "s2_bios boot_start < 3"
    using boot_floppy_ok(1) by (simp_all add: boot_start_def)
  then show ?thesis
    using boot_too_many_regions [of "boot_env\<lparr>se_map := stub_map (int15_e820 (replicate 40 e820_example)) stage2_cpu\<rparr>"
        boot_floppy "replicate 40 e820_example" stage2_cpu boot_start] boot_start_memory
    by (auto simp: boot_env_def)
qed

end
