(* ===== verification/BootChain.thy ===== *)
theory BootChain
  imports KernelEntry X86Boot
begin

text \<open>
  The whole way from stage 2 to the C entry point of the kernel: cstart on a BIOS known by its
  registers, the far jump, and the kernel's first sector.
\<close>

unbundle bit_operations_syntax

lemma boot_info_cong:
  assumes "same_range 0x30000 4294967296 mem m'"
  shows "boot_info_get m' = boot_info_get mem" "boot_info_e820_entries m' = boot_info_e820_entries mem"
    "unat a + 24 * (i + 1) \<le> 4294967296 \<Longrightarrow> 0x30000 \<le> unat a \<Longrightarrow> e820_at m' a i = e820_at mem a i"
proof -
  show g: "boot_info_get m' = boot_info_get mem"
    using same_range_read [OF assms, of BOOT_INFO_ADDR] by (simp add: boot_info_get_def BOOT_INFO_ADDR_def)
  then show "boot_info_e820_entries m' = boot_info_e820_entries mem" by (simp add: boot_info_e820_entries_def)
  assume "unat a + 24 * (i + 1) \<le> 4294967296" "0x30000 \<le> unat a"
  moreover from this have "unat (a + of_nat (24 * i)) = unat a + 24 * i"
    by (simp add: unat_word_ariths unat_of_nat_word)
  ultimately show "e820_at m' a i = e820_at mem a i"
    using same_range_read [OF assms, of "a + of_nat (24 * i)" 24] by (simp add: e820_at_def)
qed

text \<open>A file that holds the table holds it in memory.\<close>

lemma table_in_memory:
  assumes "read_bytes mem 0x12000 n = bs" "take 46 (drop (unat g) bs) = gdt_table @ gdt_desc g" "unat g + 46 \<le> 512"
  shows "kernel_table_in g mem"
proof -
  have l: "length (gdt_table @ gdt_desc g) = 46" by (simp add: gdt_desc_def put16_def put32_def)
  then have n: "unat g + 46 \<le> n" "length bs = n"
    using arg_cong [OF assms(2), of length] arg_cong [OF assms(1), of length] by (auto simp: read_bytes_def)
  have "mem (0x12000 + ucast g + of_nat i) = (gdt_table @ gdt_desc g) ! i" if "i < 46" for i
  proof -
    have "(gdt_table @ gdt_desc g) ! i = bs ! (unat g + i)"
      using arg_cong [OF assms(2), of "\<lambda>l. l ! i"] that n by simp
    also have "\<dots> = mem (0x12000 + of_nat (unat g + i))"
      using arg_cong [OF assms(1), of "\<lambda>l. l ! (unat g + i)"] that n by (simp add: read_bytes_def)
    finally show ?thesis by (simp add: add.assoc)
  qed
  then have "read_bytes mem (0x12000 + ucast g) 46 = gdt_table @ gdt_desc g"
    using l by (intro nth_equalityI) (simp_all add: read_bytes_def)
  with assms(3) show ?thesis by (simp add: kernel_table_in_def)
qed

text \<open>The trampoline can be prepared on the table in place.\<close>

lemma trampoline_on_table:
  assumes "kernel_table_in g mem" "n \<noteq> 0" "unat n \<le> 0x400"
  shows "\<exists>s. realmode_init stub n (39, 0x12000 + ucast g) \<lparr>rm_mem = mem, rm_ready = False, rm_dev = d\<rparr> = (True, s) \<and>
    rm_ready s \<and> trampoline_ready (39, 0x12000 + ucast g) (rm_mem s) \<and>
    descriptor_at (rm_mem s) (0x12000 + ucast g + 0x18) = code16 0x30000 \<and>
    descriptor_at (rm_mem s) (0x12000 + ucast g + 0x20) = data16 0x30000"
proof -
  let ?s0 = "\<lparr>rm_mem = mem, rm_ready = False, rm_dev = d\<rparr>"
  have t: "read_bytes (rm_mem ?s0) (0x12000 + ucast g) 40 = gdt_table"
    using kernel_table_parts(1) [OF assms(1)] by simp
  have room: "unat (0x12000 + ucast g :: u32) + 40 \<le> 0x30000"
    using low_word [of 0 g] assms(1) by (simp add: kernel_table_in_def)
  obtain s where "realmode_init stub n (39, 0x12000 + ucast g) ?s0 = (True, s)" "rm_ready s"
    "trampoline_ready (39, 0x12000 + ucast g) (rm_mem s)" and b: "read_bytes (rm_mem s) (0x12000 + ucast g) 40 = gdt_with_base 3"
    by (rule realmode_init_descriptors [OF t room assms(2,3)])
  then show ?thesis using table_descriptors(3,4) [OF b] by simp
qed

text \<open>
  C3: From stage 2 to the C entry point of the kernel, through all the assembly between them. On a
  floppy whose kernel begins with its boot sector (the descriptor table at some \<open>g\<close> in it) stage 2
  collects the map through the registers of INT 15h, loads the kernel and jumps; the kernel's first
  instructions open the gate A20 without ever asking for a reset, and reach the C entry point in
  protected mode with interrupts off, the kernel's stack, and segments that are flat, 32-bit and
  4 GiB. Then kernel and boot information are still whole, and the trampoline can be prepared on
  the descriptor table in place, which gives its two 16-bit segments the base that real mode uses.
\<close>

theorem boot_to_protected_mode:
  assumes "boot_ready di es env m" "first_in_root di (bytes ''KERNEL  BIN'') k" "e = vol_slot di k"
    "de_Attributes e AND FAT_ATTRIBUTE_DIRECTORY = 0" "unat (de_Size e) < 32768"
    "vol_chain di (entry_first e) (unat (de_Size e))"
    "unat g + 46 \<le> 512" "take 46 (drop (unat g) (vol_bytes di (entry_first e) (unat (de_Size e)))) = gdt_table @ gdt_desc g"
    "c_ss c = 0x2000" "8 \<le> unat (low16 (c_esp c))" "inb hw 0x92 d = (v, d1)"
  shows "\<exists>m' c1 m1 c2 m2. cstart (env\<lparr>se_map := stub_map (int15_e820 es) r\<rparr>) 0 m = Some (Inr (Far_jump 0x1200 0, m')) \<and>
    x86_FarJump_asm 0x1200 0 (c, s2_mem m') = (c1, m1) \<and> c_cs c1 = 0x1200 \<and> c_eip c1 = 0 \<and>
    kernel_start hw g ((c1, m1), d) = Some ((c2, m2), if bit v 1 then d1 else outb hw 0x92 (a20_value v) d1) \<and>
    kernel_cpu c2 \<and> c_eip c2 = 0x12200 \<and> \<not> bit (c_eflags c2) 9 \<and>
    descriptor_at m2 (snd (c_gdtr c2) + ucast (c_cs c2)) = flat_code \<and>
    descriptor_at m2 (snd (c_gdtr c2) + ucast (c_ss c2)) = flat_data \<and>
    read_bytes m2 0x12000 (unat (de_Size e)) = vol_bytes di (entry_first e) (unat (de_Size e)) \<and>
    boot_info_get m2 = boot_block (of_nat (length es)) \<and>
    (\<forall>i < length es. e820_at m2 (boot_info_e820_entries m2) i = es ! i) \<and>
    (\<forall>stub n. n \<noteq> 0 \<and> unat n \<le> 0x400 \<longrightarrow>
      (\<exists>s. realmode_init stub n (c_gdtr c2) \<lparr>rm_mem = m2, rm_ready = False, rm_dev = d2\<rparr> = (True, s) \<and>
        rm_ready s \<and> trampoline_ready (c_gdtr c2) (rm_mem s) \<and>
        descriptor_at (rm_mem s) (snd (c_gdtr c2) + 0x18) = code16 0x30000 \<and>
        descriptor_at (rm_mem s) (snd (c_gdtr c2) + 0x20) = data16 0x30000))"
proof -
  obtain m' where m': "cstart (env\<lparr>se_map := stub_map (int15_e820 es) r\<rparr>) 0 m = Some (Inr (Far_jump 0x1200 0, m'))"
    "read_bytes (s2_mem m') 0x12000 (unat (de_Size e)) = vol_bytes di (entry_first e) (unat (de_Size e))"
    "boot_info_get (s2_mem m') = boot_block (of_nat (length es))"
    "\<forall>i < length es. e820_at (s2_mem m') (boot_info_e820_entries (s2_mem m')) i = es ! i"
    using boot_over_int15 [OF assms(1-6), of r] by blast
  obtain c1 m1 where j: "x86_FarJump_asm 0x1200 0 (c, s2_mem m') = (c1, m1)" "c_cs c1 = 0x1200" "c_eip c1 = ucast (0 :: u16)"
    "c_ss c1 = 0x2000" "low16 (c_esp c1) = low16 (c_esp c) - 2"
    "same_range 0 0x20000 (s2_mem m') m1" "same_range 0x30000 4294967296 (s2_mem m') m1"
    by (rule far_jump_entry [OF assms(9,10)])
  have sp: "2 \<le> unat (low16 (c_esp c1))" using j(5) assms(10) by (simp add: unat_sub_if')
  have "kernel_table_in g m1"
    using kernel_table_cong [OF j(6) table_in_memory [OF m'(2) assms(8,7)]] .
  then obtain c2 m2 where st: "kernel_start hw g ((c1, m1), d) = Some ((c2, m2), if bit v 1 then d1 else outb hw 0x92 (a20_value v) d1)"
    "kernel_cpu c2" "c_eip c2 = 0x12200" "c_esp c2 = 0x78000" "\<not> bit (c_eflags c2) 9"
    "c_gdtr c2 = (39, 0x12000 + ucast g)" "kernel_table_in g m2" "same_range 0 0x20000 m1 m2"
    "same_range 0x30000 4294967296 m1 m2"
    by (rule kernel_start_protected [OF j(2,4) sp _ assms(11)])
  note low = same_range_trans [OF j(6) st(8)] and high = same_range_trans [OF j(7) st(9)]
  have kernel: "read_bytes m2 0x12000 (unat (de_Size e)) = vol_bytes di (entry_first e) (unat (de_Size e))"
    using same_range_read [OF low, of "0x12000" "unat (de_Size e)"] m'(2) assms(5) by simp
  have info: "boot_info_get m2 = boot_block (of_nat (length es))" "boot_info_e820_entries m2 = 0x61000"
    "boot_info_e820_entries (s2_mem m') = 0x61000"
    using boot_info_cong(1,2) [OF high] m'(3) by (simp_all add: boot_info_e820_entries_def boot_block_def far_to_flat_def)
  have "length es \<le> 32" using assms(1) by (simp add: boot_ready_def)
  then have entries: "\<forall>i < length es. e820_at m2 (boot_info_e820_entries m2) i = es ! i"
    using boot_info_cong(3) [OF high, of "0x61000"] m'(4) info by simp
  note table = kernel_table_parts(1) [OF st(7)]
  have sel: "c_cs c2 = 0x08" "c_ss c2 = 0x10" using st(2) by (simp_all add: kernel_cpu_def)
  have flat: "descriptor_at m2 (snd (c_gdtr c2) + ucast (c_cs c2)) = flat_code"
    "descriptor_at m2 (snd (c_gdtr c2) + ucast (c_ss c2)) = flat_data"
    using table_descriptors(1,2) [OF table [folded gdt_with_base_0]] st(6) sel by simp_all
  have "\<exists>s. realmode_init stub n (c_gdtr c2) \<lparr>rm_mem = m2, rm_ready = False, rm_dev = d2\<rparr> = (True, s) \<and>
      rm_ready s \<and> trampoline_ready (c_gdtr c2) (rm_mem s) \<and>
      descriptor_at (rm_mem s) (snd (c_gdtr c2) + 0x18) = code16 0x30000 \<and>
      descriptor_at (rm_mem s) (snd (c_gdtr c2) + 0x20) = data16 0x30000" if n: "n \<noteq> 0" "unat n \<le> 0x400" for stub n
    using trampoline_on_table [OF st(7) n] by (simp only: st(6) snd_conv)
  then show ?thesis using m'(1) j(1-3) st(1-3,5) flat kernel info(1) entries by (simp only: unsigned_0) blast
qed

text \<open>A control port that is a latch, closed at first.\<close>

definition control_port :: "u8 hw" where
  "control_port = \<lparr>hw_in = (\<lambda>d port. (d, d)), hw_out = (\<lambda>d port v. v)\<rparr>"

lemma boot_to_protected_mode_witness:
  "\<exists>m' c1 m1 c2 m2. cstart (boot_env\<lparr>se_map := stub_map (int15_e820 [low_memory, e820_example]) stage2_cpu\<rparr>) 0 boot_start =
       Some (Inr (Far_jump 0x1200 0, m')) \<and>
     x86_FarJump_asm 0x1200 0 (stage2_cpu, s2_mem m') = (c1, m1) \<and>
     kernel_start control_port 0x48 ((c1, m1), 0) = Some ((c2, m2), 2) \<and> c_eip c2 = 0x12200 \<and>
     boot_info_get m2 = boot_block 2"
proof -
  have f: "first_in_root boot_floppy (bytes ''KERNEL  BIN'') 0"
    by (simp add: first_in_root_def boot_floppy_boot boot_floppy_slot)
  have e: "entry_first (vol_slot boot_floppy 0) = 2" "unat (de_Size (vol_slot boot_floppy 0)) = 600"
    "de_Attributes (vol_slot boot_floppy 0) AND FAT_ATTRIBUTE_DIRECTORY = 0"
    by (simp_all add: boot_floppy_slot entry_first_def FAT_ATTRIBUTE_DIRECTORY_def)
  have t: "gdt_table @ gdt_desc 0x48 = table_bytes"
    by (simp add: gdt_table_nth gdt_desc_def table_bytes_def put16_def put32_def KERNEL_PHYS_BASE_def)
  have c: "c_ss stage2_cpu = 0x2000" "8 \<le> unat (low16 (c_esp stage2_cpu))"
    by (simp_all add: stage2_cpu_def low16_def)
  have d: "inb control_port 0x92 0 = (0, 0)" by (simp add: control_port_def inb_def)
  have "outb control_port 0x92 (a20_value 0) 0 = 2" by (simp add: control_port_def outb_def a20_value_def)
  moreover note boot_to_protected_mode [OF boot_start_ready f refl e(3) _ _ _ _ c d, of "0x48", unfolded e, where r = stage2_cpu]
  ultimately show ?thesis using boot_floppy_chain boot_floppy_table t by fastforce
qed

end
