(* ===== verification/X86.thy ===== *)
theory X86
  imports Cpu Disk
begin

text \<open>
  The assembly routines of stage 2 (bootloader/stage2/x86.asm) for long arithmetic and for the disk:
  what they put into the registers for INT 13h and what they take from them. The BIOS behind the
  interrupt is a parameter. The routines are shown to provide the disk services that disk.c calls.
\<close>

unbundle bit_operations_syntax

section \<open>Long arithmetic\<close>

text \<open>The compiler's helpers take and leave 32-bit numbers in pairs of 16-bit registers.\<close>

definition U4M :: "cpu \<Rightarrow> cpu" where
  "U4M c =
     (let c = c\<lparr>c_edx := push_bit 16 (c_edx c)\<rparr>;
          c = c\<lparr>c_edx := set_low16 (low16 (c_eax c)) (c_edx c)\<rparr>;
          c = c\<lparr>c_eax := c_edx c\<rparr>;
          c = c\<lparr>c_ecx := push_bit 16 (c_ecx c)\<rparr>;
          c = c\<lparr>c_ecx := set_low16 (low16 (c_ebx c)) (c_ecx c)\<rparr>;
          p = (ucast (c_eax c) * ucast (c_ecx c) :: u64);
          c = c\<lparr>c_eax := ucast p, c_edx := ucast (drop_bit 32 p)\<rparr>;
          c = c\<lparr>c_edx := c_eax c\<rparr>
      in c\<lparr>c_edx := drop_bit 16 (c_edx c)\<rparr>)"

definition U4D :: "cpu \<Rightarrow> cpu option" where
  "U4D c =
     (let c = c\<lparr>c_edx := push_bit 16 (c_edx c)\<rparr>;
          c = c\<lparr>c_edx := set_low16 (low16 (c_eax c)) (c_edx c)\<rparr>;
          c = c\<lparr>c_eax := c_edx c\<rparr>;
          c = c\<lparr>c_ecx := push_bit 16 (c_ecx c)\<rparr>;
          c = c\<lparr>c_ecx := set_low16 (low16 (c_ebx c)) (c_ecx c)\<rparr>;
          c = c\<lparr>c_edx := 0\<rparr> in
      case div32 (c_edx c) (c_eax c) (c_ecx c) of
        None \<Rightarrow> None
      | Some (q, r) \<Rightarrow>
          (let c = c\<lparr>c_eax := q, c_edx := r\<rparr>;
               c = c\<lparr>c_ecx := c_edx c, c_ebx := c_edx c\<rparr>;
               c = c\<lparr>c_ecx := drop_bit 16 (c_ecx c)\<rparr>;
               c = c\<lparr>c_edx := c_eax c\<rparr>
           in Some (c\<lparr>c_edx := drop_bit 16 (c_edx c)\<rparr>)))"

text \<open>\<open>x86_div64_32\<close>: the upper half first, its remainder in front of the lower half.\<close>

definition x86_div64_32 :: "u64 \<Rightarrow> u32 \<Rightarrow> (u64 \<times> u32) option" where
  "x86_div64_32 dividend divisor =
     (case div32 0 (ucast (drop_bit 32 dividend)) divisor of
        None \<Rightarrow> None
      | Some (hi, edx) \<Rightarrow>
          (case div32 edx (ucast dividend) divisor of
             None \<Rightarrow> None
           | Some (lo, edx) \<Rightarrow> Some (push_bit 32 (ucast hi) OR ucast lo, edx)))"

section \<open>Disk services\<close>

text \<open>
  INT 13h takes the registers and returns them, with the bytes that it stored at ES:BX. The other
  arguments of a routine are its parameters on the stack; the compiler's registers are \<open>c\<close>.
\<close>

type_synonym 'b int13 = "cpu \<Rightarrow> 'b \<Rightarrow> cpu \<times> u8 list \<times> 'b"

text \<open>
  The part that the three routines share: \<open>stc\<close>, the interrupt, and the carry flag turned into AX,
  which is 1 for success. The registers come back as the BIOS left them, AX apart.
\<close>

definition call_int13 :: "'b int13 \<Rightarrow> cpu \<Rightarrow> 'b \<Rightarrow> cpu \<times> u8 list \<times> 'b" where
  "call_int13 int13 c st =
     (let (c, data, st) = int13 (stc c) st;
          c = c\<lparr>c_eax := set_low16 1 (c_eax c)\<rparr>
      in (sbb_ax_0 c, data, st))"

definition x86_Disk_Reset_asm :: "'b int13 \<Rightarrow> cpu \<Rightarrow> u8 \<Rightarrow> 'b \<Rightarrow> u16 \<times> 'b" where
  "x86_Disk_Reset_asm int13 c drive st =
     (let c = c\<lparr>c_eax := set_high8 0 (c_eax c)\<rparr>;
          c = c\<lparr>c_edx := set_low8 drive (c_edx c)\<rparr>;
          (c, data, st) = call_int13 int13 c st
      in (low16 (c_eax c), st))"

text \<open>The registers of a read, instruction by instruction.\<close>

definition disk_read_registers :: "u32 \<Rightarrow> u8 \<Rightarrow> u16 \<Rightarrow> u16 \<Rightarrow> u16 \<Rightarrow> u8 \<Rightarrow> cpu \<Rightarrow> cpu" where
  "disk_read_registers dataOut drive cylinder sector head count c =
     (let c = c\<lparr>c_edx := set_low8 drive (c_edx c)\<rparr>;
          c = c\<lparr>c_ecx := set_high8 (ucast cylinder) (c_ecx c)\<rparr>;
          c = c\<lparr>c_ecx := set_low8 (ucast (drop_bit 8 cylinder)) (c_ecx c)\<rparr>;
          c = c\<lparr>c_ecx := set_low8 (push_bit 6 (low8 (c_ecx c))) (c_ecx c)\<rparr>;
          c = c\<lparr>c_eax := set_low8 (ucast sector) (c_eax c)\<rparr>;
          c = c\<lparr>c_eax := set_low8 (low8 (c_eax c) AND 0x3F) (c_eax c)\<rparr>;
          c = c\<lparr>c_ecx := set_low8 (low8 (c_ecx c) OR low8 (c_eax c)) (c_ecx c)\<rparr>;
          c = c\<lparr>c_edx := set_high8 (ucast head) (c_edx c)\<rparr>;
          c = c\<lparr>c_eax := set_low8 count (c_eax c)\<rparr>;
          c = c\<lparr>c_ebx := set_low16 (ucast (drop_bit 16 dataOut)) (c_ebx c)\<rparr>;
          c = c\<lparr>c_es := low16 (c_ebx c)\<rparr>;
          c = c\<lparr>c_ebx := set_low16 (ucast dataOut) (c_ebx c)\<rparr>
      in c\<lparr>c_eax := set_high8 0x02 (c_eax c)\<rparr>)"

definition x86_Disk_Read_asm ::
  "'b int13 \<Rightarrow> cpu \<Rightarrow> u32 \<Rightarrow> u8 \<Rightarrow> u16 \<Rightarrow> u16 \<Rightarrow> u16 \<Rightarrow> u8 \<Rightarrow> 'b \<Rightarrow> u16 \<times> u8 list \<times> 'b" where
  "x86_Disk_Read_asm int13 c dataOut drive cylinder sector head count st =
     (let (c, data, st) = call_int13 int13 (disk_read_registers dataOut drive cylinder sector head count c) st
      in (low16 (c_eax c), data, st))"

text \<open>
  The outputs of the geometry call, taken from the registers; they are stored whether or not the
  call succeeded.
\<close>

definition geometry_registers :: "cpu \<Rightarrow> u8 \<times> u16 \<times> u16 \<times> u16" where
  "geometry_registers c =
     (let driveType = low8 (c_ebx c);
          c = c\<lparr>c_ebx := set_low8 (high8 (c_ecx c)) (c_ebx c)\<rparr>;
          c = c\<lparr>c_ebx := set_high8 (low8 (c_ecx c)) (c_ebx c)\<rparr>;
          c = c\<lparr>c_ebx := set_high8 (drop_bit 6 (high8 (c_ebx c))) (c_ebx c)\<rparr>;
          cylinders = low16 (c_ebx c);
          c = c\<lparr>c_ecx := set_high8 0 (c_ecx c)\<rparr>;
          c = c\<lparr>c_ecx := set_low8 (low8 (c_ecx c) AND 0x3F) (c_ecx c)\<rparr>;
          sectors = low16 (c_ecx c);
          c = c\<lparr>c_ecx := set_low8 (high8 (c_edx c)) (c_ecx c)\<rparr>;
          heads = low16 (c_ecx c)
      in (driveType, cylinders, sectors, heads))"

definition x86_Disk_GetDriveParams_asm ::
  "'b int13 \<Rightarrow> cpu \<Rightarrow> u8 \<Rightarrow> 'b \<Rightarrow> u16 \<times> (u8 \<times> u16 \<times> u16 \<times> u16) \<times> 'b" where
  "x86_Disk_GetDriveParams_asm int13 c drive st =
     (let c = c\<lparr>c_edx := set_low8 drive (c_edx c)\<rparr>;
          c = c\<lparr>c_eax := set_high8 0x08 (c_eax c)\<rparr>;
          c = c\<lparr>c_edi := set_low16 0 (c_edi c)\<rparr>;
          c = c\<lparr>c_es := low16 (c_edi c)\<rparr>;
          (c, data, st) = call_int13 int13 c st
      in (low16 (c_eax c), geometry_registers c, st))"

text \<open>
  The services as C sees them. The result is a byte, AL; the buffer is at \<open>dataOut\<close>; and the
  callers leave the outputs alone when the result is false.
\<close>

definition stub_bios :: "'b int13 \<Rightarrow> cpu \<Rightarrow> u32 \<Rightarrow> 'b bios" where
  "stub_bios int13 c dataOut = \<lparr>
     x86_Disk_Read = (\<lambda>drive cylinder sector head count st.
       case x86_Disk_Read_asm int13 c dataOut drive cylinder sector head count st of
         (ax, data, st) \<Rightarrow> ((ucast ax :: u8) \<noteq> 0, data, st)),
     x86_Disk_Reset = (\<lambda>drive st. snd (x86_Disk_Reset_asm int13 c drive st)),
     x86_Disk_GetDriveParams = (\<lambda>drive st.
       case x86_Disk_GetDriveParams_asm int13 c drive st of
         (ax, out, st) \<Rightarrow> (if (ucast ax :: u8) \<noteq> 0 then Some out else None, st))\<rparr>"

section \<open>Teletype\<close>

text \<open>INT 10h with function 0Eh: the character in AL, the page in BH.\<close>

definition x86_Video_WriteCharTeletype_asm :: "(cpu \<Rightarrow> 'b \<Rightarrow> cpu \<times> 'b) \<Rightarrow> cpu \<Rightarrow> u8 \<Rightarrow> u8 \<Rightarrow> 'b \<Rightarrow> 'b" where
  "x86_Video_WriteCharTeletype_asm int10 c ch page st =
     (let c = c\<lparr>c_eax := set_high8 0x0E (c_eax c)\<rparr>;
          c = c\<lparr>c_eax := set_low8 ch (c_eax c)\<rparr>;
          c = c\<lparr>c_ebx := set_high8 page (c_ebx c)\<rparr>
      in snd (int10 c st))"

text \<open>A teletype that logs what it prints on page 0, as the console output of stage 2 assumes.\<close>

definition int10_log :: "cpu \<Rightarrow> u8 list \<Rightarrow> cpu \<times> u8 list" where
  "int10_log c log = (c, if high8 (c_eax c) = 0x0E \<and> high8 (c_ebx c) = 0 then log @ [low8 (c_eax c)] else log)"

lemma teletype_logs: "x86_Video_WriteCharTeletype_asm int10_log c ch 0 log = log @ [ch]"
  by (simp add: x86_Video_WriteCharTeletype_asm_def int10_log_def Let_def)

section \<open>Arithmetic is correct\<close>

definition pair16 :: "u32 \<Rightarrow> u32 \<Rightarrow> u32" where
  "pair16 hi lo = push_bit 16 (ucast (low16 hi)) OR ucast (low16 lo)"

lemma shl16_join: "set_low16 (low16 lo) (push_bit 16 hi) = pair16 hi lo"
  unfolding pair16_def set_low16_def low16_def low16_mask
  by (rule bit_word_eqI) (auto simp: bit_simps)

lemma pair16_split: "pair16 (drop_bit 16 x) x = x"
  unfolding pair16_def low16_def by (rule bit_word_eqI) (auto simp: bit_simps)

text \<open>The helpers multiply and divide the 32-bit numbers in the register pairs.\<close>

lemma U4M_correct:
  "pair16 (c_edx (U4M c)) (c_eax (U4M c)) =
     pair16 (c_edx c) (c_eax c) * pair16 (c_ecx c) (c_ebx c)"
proof -
  let ?a = "pair16 (c_edx c) (c_eax c)" and ?b = "pair16 (c_ecx c) (c_ebx c)"
  have "(ucast (ucast ?a * ucast ?b :: u64) :: u32) = ?a * ?b"
    using uint_u32_less [of ?a] uint_u32_less [of ?b]
    by (intro word_uint_eqI) (simp add: unsigned_ucast_eq uint_word_ariths take_bit_eq_mod mod_mod_cancel)
  then show ?thesis by (simp add: U4M_def Let_def shl16_join pair16_split)
qed

lemma take_bit64_u32 [simp]: "take_bit 64 (unat (x :: u32)) = unat x"
  using unat_u32_less [of x] by (simp add: take_bit_nat_eq_self)

lemma div32_small:
  assumes "d \<noteq> 0"
  shows "div32 0 x d = Some (x div d, x mod d)"
proof -
  have "0 < d" using assms by (simp add: word_neq_0_conv)
  from div32_nat [OF this] have "div32 0 x d = Some (ucast ((ucast x :: u64) div ucast d), ucast ((ucast x :: u64) mod ucast d))"
    by simp
  moreover have "unat x div unat d < 4294967296" "unat x mod unat d < 4294967296"
    using unat_u32_less [of x] by (meson div_le_dividend mod_less_eq_dividend le_less_trans)+
  then have "(ucast ((ucast x :: u64) div ucast d) :: u32) = x div d" "(ucast ((ucast x :: u64) mod ucast d) :: u32) = x mod d"
    by (simp_all add: word_unat_eq_iff unsigned_ucast_eq unat_div_distrib unat_mod_distrib unat_ucast_up32_64
        take_bit_nat_eq_self)
  ultimately show ?thesis by simp
qed

lemma U4D_correct:
  assumes "pair16 (c_ecx c) (c_ebx c) \<noteq> 0"
  shows "\<exists>c'. U4D c = Some c' \<and>
    pair16 (c_edx c') (c_eax c') = pair16 (c_edx c) (c_eax c) div pair16 (c_ecx c) (c_ebx c) \<and>
    pair16 (c_ecx c') (c_ebx c') = pair16 (c_edx c) (c_eax c) mod pair16 (c_ecx c) (c_ebx c)"
  using assms by (simp add: U4D_def Let_def shl16_join div32_small pair16_split)

lemma unat_join64: "unat (push_bit 32 (ucast hi) OR (ucast lo :: u64)) = unat (hi :: u32) * 4294967296 + unat (lo :: u32)"
proof -
  have "push_bit 32 (ucast hi) OR (ucast lo :: u64) = push_bit 32 (ucast hi) + ucast lo"
    by (rule disjunctive_add [symmetric]) (auto simp: bit_simps dest: bit_imp_le_length)
  moreover have "unat (push_bit 32 (ucast hi) :: u64) = unat hi * 4294967296"
    using unat_u32_less [of hi] by (simp add: push_bit_eq_mult unat_word_ariths unat_ucast_up32_64)
  moreover have "unat hi * 4294967296 + unat lo < 18446744073709551616"
    using unat_u32_less [of hi] unat_u32_less [of lo] by linarith
  ultimately show ?thesis by (simp add: unat_word_ariths unat_ucast_up32_64)
qed

lemma halves64: "push_bit 32 (ucast (ucast (drop_bit 32 n) :: u32)) OR (ucast (ucast n :: u32) :: u64) = n" for n :: u64
  by (rule bit_word_eqI) (auto simp: bit_simps)

text \<open>The two-step division is the division of 64-bit numbers that the number conversion relies on.\<close>

lemma x86_div64_32_correct:
  assumes "d \<noteq> 0"
  shows "x86_div64_32 n d = Some (n div ucast d, ucast (n mod ucast d))"
proof -
  let ?h = "ucast (drop_bit 32 n) :: u32" and ?l = "ucast n :: u32"
  define m where "m = push_bit 32 (ucast (?h mod d)) OR (ucast ?l :: u64)"
  have d: "0 < unat d" using assms by (simp add: unat_gt_0)
  then have "?h mod d < d" by (simp add: word_less_nat_alt unat_mod_distrib)
  note lo = div32_nat [OF this, of ?l, folded m_def]
  have m: "unat m = unat ?h mod unat d * 4294967296 + unat ?l"
    by (simp only: m_def unat_join64) (simp add: unat_mod_distrib)
  have n: "unat n = unat ?h * 4294967296 + unat ?l"
    using unat_join64 [of ?h ?l] by (simp only: halves64)
  have split: "unat n = unat m + unat ?h div unat d * 4294967296 * unat d"
  proof -
    have "unat ?h * 4294967296 = (unat ?h div unat d * unat d + unat ?h mod unat d) * 4294967296"
      by simp
    then show ?thesis unfolding n m by (simp only: algebra_simps)
  qed
  have "m mod ucast d = n mod ucast d"
    unfolding word_unat_eq_iff unat_mod_distrib unat_ucast_up32_64 by (simp add: split)
  moreover have "push_bit 32 (ucast (?h div d)) OR (ucast (ucast (m div ucast d) :: u32) :: u64) = n div ucast d"
  proof -
    have "unat (ucast (m div ucast d) :: u32) = unat m div unat d"
      using lo(2) by (simp add: unsigned_ucast_eq take_bit_nat_eq_self unat_div_distrib unat_ucast_up32_64)
    moreover have "unat n div unat d = unat m div unat d + unat ?h div unat d * 4294967296"
      using d by (simp add: split)
    ultimately show ?thesis unfolding word_unat_eq_iff unat_join64 by (simp add: unat_div_distrib unat_ucast_up32_64)
  qed
  ultimately show ?thesis
    by (simp add: x86_div64_32_def div32_small [OF assms] lo(1))
qed

end
