(* ===== verification/X86Disk.thy ===== *)
theory X86Disk
  imports X86 FatRead
begin

text \<open>
  The disk layer of stage 2 over its own assembly and a BIOS that is described by its registers: the
  packing of cylinder, head and sector into CX and DX and its unpacking lose nothing, so that disk.c
  reads the sectors it means to.
\<close>

unbundle bit_operations_syntax

section \<open>A BIOS with a floppy image\<close>

text \<open>
  INT 13h by its registers: AH is the function (2 reads, 8 asks for the geometry, 0 resets), CH and
  the two upper bits of CL are the cylinder, the rest of CL the sector, DH the head, AL the number of
  sectors; the carry flag reports failure. The drive may fail a number of reads first.
\<close>

definition packed_cylinder :: "u8 \<Rightarrow> u8 \<Rightarrow> u16" where
  "packed_cylinder ch cl = ucast ch OR push_bit 8 (ucast (drop_bit 6 cl))"

definition int13_image :: "disk \<Rightarrow> u8 list \<Rightarrow> nat int13" where
  "int13_image d di = (\<lambda>c fails.
     let ah = high8 (c_eax c); al = low8 (c_eax c); ch = high8 (c_ecx c); cl = low8 (c_ecx c) in
     if ah = 2 then
       (if 0 < fails then (stc c, [0xFF], fails - 1)
        else (clc c, concat (map (\<lambda>i. image_sector di (chs_lba d (packed_cylinder ch cl,
                 ucast (cl AND 0x3F), ucast (high8 (c_edx c))) + i)) [0..<unat al]), 0))
     else if ah = 8 then
       (let last = d_cylinders d - 1; hi = (ucast (drop_bit 8 last) :: u8) in
        (clc (c\<lparr>c_ecx := set_high8 (ucast last) (set_low8 (push_bit 6 hi OR ucast (d_sectors d)) (c_ecx c)),
                c_edx := set_high8 (ucast (d_heads d - 1)) (c_edx c),
                c_ebx := set_low8 4 (c_ebx c)\<rparr>), [], fails))
     else (clc c, [], fails))"

section \<open>The registers\<close>

lemma flags_registers [simp]:
  "c_eax (stc c) = c_eax c" "c_ebx (stc c) = c_ebx c" "c_ecx (stc c) = c_ecx c" "c_edx (stc c) = c_edx c"
  "c_eax (clc c) = c_eax c" "c_ebx (clc c) = c_ebx c" "c_ecx (clc c) = c_ecx c" "c_edx (clc c) = c_edx c"
  by (simp_all add: stc_def clc_def)

lemma masks8: "(0x3F :: u8) = mask 6" "(0x3F :: u16) = mask 6" "(0x3FF :: u16) = mask 10" "(0xFF :: u16) = mask 8"
  by (simp_all add: mask_eq_exp_minus_1)

lemma packed:
  fixes cylinder sector head :: u16
  defines "cl \<equiv> push_bit 6 (ucast (drop_bit 8 cylinder)) OR (ucast sector AND 0x3F) :: u8"
  shows "packed_cylinder (ucast cylinder) cl = cylinder AND 0x3FF"
    "(ucast (cl AND 0x3F) :: u16) = sector AND 0x3F" "(ucast (ucast head :: u8) :: u16) = head AND 0xFF"
  unfolding cl_def packed_cylinder_def masks8
  by (rule bit_word_eqI; auto simp: bit_simps)+

lemma mask_small: "unat x < 2 ^ n \<Longrightarrow> x AND mask n = x" for x :: u16
proof -
  assume "unat x < 2 ^ n"
  moreover have "unat (x AND mask n) = take_bit n (unat x)"
    by (simp only: take_bit_eq_mask [symmetric] unsigned_take_bit_eq)
  ultimately show ?thesis by (simp add: word_unat_eq_iff take_bit_nat_eq_self)
qed

text \<open>
  What reaches the BIOS, for any numbers: ten bits of the cylinder, six of the sector, eight of the
  head.
\<close>

lemma call_int13_result:
  "call_int13 int13 c st = (case int13 (stc c) st of (c', data, st') \<Rightarrow>
     (sbb_ax_0 (c'\<lparr>c_eax := set_low16 1 (c_eax c')\<rparr>), data, st'))"
  by (simp add: call_int13_def Let_def split: prod.split)

lemma sbb_ax_0_other [simp]:
  "c_ebx (sbb_ax_0 c) = c_ebx c" "c_ecx (sbb_ax_0 c) = c_ecx c" "c_edx (sbb_ax_0 c) = c_edx c"
  by (simp_all add: sbb_ax_0_def)

lemma disk_read_registers_parts:
  fixes dataOut drive cylinder sector head count c
  defines "r \<equiv> disk_read_registers dataOut drive cylinder sector head count c"
  shows "high8 (c_eax r) = 2" "low8 (c_eax r) = count" "high8 (c_ecx r) = ucast cylinder"
    "low8 (c_ecx r) = push_bit 6 (ucast (drop_bit 8 cylinder)) OR (ucast sector AND 0x3F)"
    "high8 (c_edx r) = ucast head" "low8 (c_edx r) = drive"
    "c_es r = ucast (drop_bit 16 dataOut)" "low16 (c_ebx r) = ucast dataOut"
  by (simp_all add: r_def disk_read_registers_def Let_def)

lemma stub_read:
  "x86_Disk_Read (stub_bios (int13_image d di) c out) drive cylinder sector head count fails =
   x86_Disk_Read (image_bios d di) drive (cylinder AND 0x3FF) (sector AND 0x3F) (head AND 0xFF) count fails"
proof -
  define r where "r = disk_read_registers out drive cylinder sector head count c"
  note parts = disk_read_registers_parts [of out drive cylinder sector head count c, folded r_def]
  have "int13_image d di (stc r) fails =
      (if 0 < fails then (stc (stc r), [0xFF], fails - 1)
       else (clc (stc r), concat (map (\<lambda>i. image_sector di (chs_lba d (cylinder AND 0x3FF, sector AND 0x3F, head AND 0xFF) + i))
              [0..<unat count]), 0))"
    unfolding int13_image_def Let_def flags_registers parts packed by (simp only: if_True refl)
  then show ?thesis
    unfolding stub_bios_def bios.simps x86_Disk_Read_asm_def r_def [symmetric] call_int13_result
    by (simp add: image_bios_def sbb_ax_0_result)
qed

lemma stub_reset: "x86_Disk_Reset (stub_bios (int13_image d di) c out) drive fails = fails"
  by (simp add: stub_bios_def x86_Disk_Reset_asm_def call_int13_result int13_image_def Let_def)

lemma geometry_registers_parts:
  "geometry_registers c =
     (low8 (c_ebx c), packed_cylinder (high8 (c_ecx c)) (low8 (c_ecx c)), ucast (low8 (c_ecx c) AND 0x3F),
      ucast (high8 (c_edx c)))"
  by (simp add: geometry_registers_def Let_def low16_parts packed_cylinder_def)

lemma small_word:
  "unat x < 64 \<Longrightarrow> x AND 0x3F = x" "unat x < 1024 \<Longrightarrow> x AND 0x3FF = x" "unat x < 256 \<Longrightarrow> x AND 0xFF = x" for x :: u16
  unfolding masks8 by (simp_all add: mask_small)

lemma stub_geometry:
  assumes "unat (d_cylinders d - 1) < 1024" "unat (d_sectors d) < 64" "unat (d_heads d - 1) < 256"
  shows "x86_Disk_GetDriveParams (stub_bios (int13_image d di) c out) drive fails =
    (Some (4, d_cylinders d - 1, d_sectors d, d_heads d - 1), fails)"
proof -
  let ?last = "d_cylinders d - 1"
  let ?cl = "push_bit 6 (ucast (drop_bit 8 ?last)) OR (ucast (d_sectors d) AND 0x3F) :: u8"
  have "(ucast (d_sectors d) :: u8) = ucast (d_sectors d AND 0x3F)"
    using small_word(1) [OF assms(2)] by simp
  also have "\<dots> = ucast (d_sectors d) AND 0x3F"
    unfolding masks8 by (rule bit_word_eqI) (auto simp: bit_simps)
  finally have s: "(ucast (d_sectors d) :: u8) = ucast (d_sectors d) AND 0x3F" .
  define r where "r = stc (c\<lparr>c_edx := set_low8 drive (c_edx c), c_eax := set_high8 0x08 (c_eax c),
     c_edi := set_low16 0 (c_edi c), c_es := 0\<rparr>)"
  have r: "high8 (c_eax r) = 8" by (simp add: r_def)
  define c' where "c' = fst (int13_image d di r fails)"
  have c': "int13_image d di r fails = (c', [], fails)" "\<not> carry c'" "low8 (c_ebx c') = 4" "high8 (c_ecx c') = ucast ?last"
    "low8 (c_ecx c') = ?cl" "high8 (c_edx c') = ucast (d_heads d - 1)"
    using r s [symmetric] by (simp_all add: c'_def int13_image_def Let_def)
  have "x86_Disk_GetDriveParams_asm (int13_image d di) c drive fails =
      (1, geometry_registers c', fails)"
    using c'(1,2) by (simp add: x86_Disk_GetDriveParams_asm_def Let_def call_int13_result r_def [symmetric]
        sbb_ax_0_result geometry_registers_parts)
  moreover have "geometry_registers c' = (4, ?last, d_sectors d, d_heads d - 1)"
    unfolding geometry_registers_parts c'(3-6) packed
    using assms by (simp add: small_word)
  ultimately show ?thesis by (simp add: stub_bios_def)
qed

section \<open>The disk layer over the assembly\<close>

text \<open>The geometries that fit the registers: up to 1024 cylinders, 63 sectors and 256 heads.\<close>

definition chs_geometry :: "disk \<Rightarrow> bool" where
  "chs_geometry d \<longleftrightarrow> 1 \<le> unat (d_cylinders d) \<and> unat (d_cylinders d) \<le> 1024 \<and>
     1 \<le> unat (d_sectors d) \<and> unat (d_sectors d) \<le> 63 \<and> 1 \<le> unat (d_heads d) \<and> unat (d_heads d) \<le> 256"

definition disk_size :: "disk \<Rightarrow> nat" where
  "disk_size d = unat (d_cylinders d) * unat (d_heads d) * unat (d_sectors d)"

lemma attempts_registers:
  "read_attempts n (stub_bios (int13_image d di) c out) e (cyl, sec, head) k buf fails =
   read_attempts n (image_bios d di) e (cyl AND 0x3FF, sec AND 0x3F, head AND 0xFF) k buf fails"
  by (induction n arbitrary: buf fails)
     (simp_all add: stub_read stub_reset Let_def split: prod.split, simp add: image_bios_def)

text \<open>On the disk the translation gives numbers that fit.\<close>

lemma chs_fits:
  assumes "chs_geometry d" "unat lba < 65536" "unat lba < disk_size d" "DISK_LBA2CHS d lba = (cyl, sec, head)"
  shows "cyl AND 0x3FF = cyl" "sec AND 0x3F = sec" "head AND 0xFF = head"
proof -
  have g: "0 < unat (d_sectors d)" "0 < unat (d_heads d)" "d_sectors d \<noteq> 0" "d_heads d \<noteq> 0"
    using assms(1) by (auto simp: chs_geometry_def)
  note b = chs_bounds [OF g(3,4) unat_u16_less, of lba, unfolded assms(4) fst_conv snd_conv unat_low16 [OF assms(2)]]
  have "unat lba mod unat (d_sectors d) < unat (d_sectors d)" using g(1) by simp
  then have "unat sec < 64" using b(1) assms(1) by (simp add: chs_geometry_def)
  moreover have "unat lba div unat (d_sectors d) mod unat (d_heads d) < unat (d_heads d)" using g(2) by simp
  then have "unat head < 256" using b(2) assms(1) by (simp add: chs_geometry_def)
  moreover have "unat lba < unat (d_cylinders d) * (unat (d_heads d) * unat (d_sectors d))"
    using assms(3) by (simp add: disk_size_def mult.assoc)
  then have "unat lba div (unat (d_heads d) * unat (d_sectors d)) < unat (d_cylinders d)"
    by (simp add: less_mult_imp_div_less)
  then have "unat cyl < 1024" using b(3) assms(1)
    by (simp add: chs_geometry_def div_mult2_eq [symmetric] mult.commute)
  ultimately show "cyl AND 0x3FF = cyl" "sec AND 0x3F = sec" "head AND 0xFF = head"
    by (simp_all add: small_word)
qed

lemma read_registers:
  assumes "chs_geometry d" "unat lba < 65536" "unat lba < disk_size d"
  shows "DISK_ReadSectors (stub_bios (int13_image d di) c out) d lba k buf fails =
    DISK_ReadSectors (image_bios d di) d lba k buf fails"
proof -
  obtain cyl sec head where chs: "DISK_LBA2CHS d lba = (cyl, sec, head)" by (metis prod_cases3)
  from chs_fits [OF assms chs] show ?thesis
    by (simp add: DISK_ReadSectors_def chs attempts_registers)
qed

lemma read_sector_registers:
  assumes "chs_geometry d" "unat lba < 65536" "unat lba < disk_size d" "fails < 3" "length buf = 512"
  shows "DISK_ReadSectors (stub_bios (int13_image d di) c out) d lba 1 buf fails = (True, image_sector di (unat lba), 0)"
proof -
  have "d_sectors d \<noteq> 0" "d_heads d \<noteq> 0" using assms(1) by (auto simp: chs_geometry_def)
  from read_image [OF this assms(2,4,5)] show ?thesis using read_registers [OF assms(1-3)] by simp
qed

lemma floppy_geometry: "chs_geometry floppy" "disk_size floppy = 2880"
  by (simp_all add: chs_geometry_def disk_size_def floppy_def)

text \<open>The assembly over a floppy drive is a third disk for the file system.\<close>

interpretation registers: sector_source "DISK_ReadSectors (stub_bios (int13_image floppy di) c out) floppy"
  "\<lambda>lba. image_sector di (unat lba)" "\<lambda>lba. unat lba < 2880" "\<lambda>fails. fails < 3"
  for di :: "u8 list" and c :: cpu and out :: u32
  by unfold_locales (simp_all add: read_sector_registers floppy_geometry)

text \<open>
  C34: The disk layer over its assembly: the geometry comes out of the registers as it is, and every
  sector of the disk is read with the cylinder, head and sector that the BIOS decodes from CX and DX,
  through up to two failures of the drive.
\<close>

theorem disk_over_registers:
  assumes "chs_geometry d" "fails < 3" "length buf = 512" "unat lba < 65536" "unat lba < disk_size d"
  shows "DISK_Initialize (stub_bios (int13_image d di) c out) drive d0 n = (True, d\<lparr>d_id := drive\<rparr>, n) \<and>
    DISK_ReadSectors (stub_bios (int13_image d di) c out) d lba 1 buf fails = (True, image_sector di (unat lba), 0)"
proof -
  have g: "1 \<le> unat (d_cylinders d)" "1 \<le> unat (d_heads d)" using assms(1) by (simp_all add: chs_geometry_def)
  then have "1 \<le> d_cylinders d" "1 \<le> d_heads d" by (simp_all add: word_le_nat_alt)
  then have "unat (d_cylinders d - 1) < 1024" "unat (d_sectors d) < 64" "unat (d_heads d - 1) < 256"
    using assms(1) by (auto simp: chs_geometry_def unat_word_sub)
  from stub_geometry [OF this, of di c out drive n]
  have "DISK_Initialize (stub_bios (int13_image d di) c out) drive d0 n = (True, d\<lparr>d_id := drive\<rparr>, n)"
    by (cases d; cases d0) (simp add: DISK_Initialize_def Let_def)
  with read_sector_registers [OF assms(1,4,5,2,3)] show ?thesis by simp
qed

definition some_cpu :: cpu where
  "some_cpu = \<lparr>c_eax = 0, c_ebx = 0, c_ecx = 0, c_edx = 0, c_esi = 0, c_edi = 0, c_ebp = 0, c_esp = 0,
     c_eip = 0, c_cs = 0x2000, c_ds = 0x2000, c_es = 0x2000, c_fs = 0, c_gs = 0, c_ss = 0x2000, c_eflags = 0x202,
     c_cr0 = 0, c_gdtr = (0, 0), c_idtr = (0x3FF, 0)\<rparr>"

lemma disk_over_registers_witness:
  "DISK_Initialize (stub_bios (int13_image floppy [7]) some_cpu 0x20001000) 0 floppy 0 = (True, floppy, 0) \<and>
   DISK_ReadSectors (stub_bios (int13_image floppy [7]) some_cpu 0x20001000) floppy 2879 1 (replicate 512 0) 2 =
     (True, image_sector [7] 2879, 0)"
  using disk_over_registers [OF floppy_geometry(1), of 2 "replicate 512 0" 2879 "[7]" some_cpu "0x20001000" 0 floppy 0]
  by (simp add: floppy_geometry) (simp add: floppy_def)

text \<open>
  Reading a file through the registers: on a floppy, the bytes of the file along its chain, whatever
  the registers held before.
\<close>

theorem fat_read_over_registers:
  assumes "file_at (\<lambda>lba. image_sector di (unat lba)) h g" "fails < 3"
    "\<not> fd_IsDirectory (get_fd h g)" "fd_Position (get_fd h g) = 0"
    "unat byteCount < 32768" "unat (fd_Size (get_fd h g)) < 32768"
    "n = min (unat byteCount) (unat (fd_Size (get_fd h g)))"
    "first = fd_FirstCluster (get_fd h g)" "chain_at g first (n div 512) \<noteq> None"
    "\<forall>i. 0 < i \<and> i * 512 < n \<longrightarrow> chain_ok (\<lambda>lba. unat lba < 2880) g first i"
  shows "\<exists>fd' fails'. FAT_ReadImpl (DISK_ReadSectors (stub_bios (int13_image floppy di) c out) floppy) h byteCount (g, fails) =
      Some (Inr (of_nat n, map (file_byte (\<lambda>lba. image_sector di (unat lba)) g first) [0..<n], set_fd h fd' g, fails'))"
proof -
  have "n = read_count byteCount (get_fd h g)" using assms(4,7) by (simp add: read_count_def)
  with registers.read_file [OF assms(1,2,3) _ assms(5), where p = 0 and n = n and first = first] assms(4,6,8-10)
  show ?thesis by fastforce
qed

end
