(* ===== verification/Stage1.thy ===== *)
theory Stage1
  imports X86Disk FatOpen RealmodeStub
begin

text \<open>
  The boot sector (bootloader/stage1/boot.asm): from the BIOS to stage 2. The variables of the sector,
  its parameter block included, are the fields of a record; the buffer behind it and the place of
  stage 2 are in memory. The BIOS is a parameter, as for the routines of stage 2.
\<close>

unbundle bit_operations_syntax

section \<open>Variables, messages and results\<close>

record 'b stage1 =
  bdb_bytes_per_sector :: u16
  bdb_reserved_sectors :: u16
  bdb_fat_count :: u8
  bdb_dir_entries_count :: u16
  bdb_sectors_per_fat :: u16
  bdb_sectors_per_track :: u16
  bdb_heads :: u16
  ebr_drive_number :: u8
  stage2_cluster :: u16
  s1_mem :: memory
  s1_tty :: "u8 list"
  s1_bios :: 'b

text \<open>The values that the file is assembled with.\<close>

definition stage1_image :: "memory \<Rightarrow> 'b \<Rightarrow> 'b stage1" where
  "stage1_image mem st =
     \<lparr>bdb_bytes_per_sector = 512, bdb_reserved_sectors = 1, bdb_fat_count = 2, bdb_dir_entries_count = 224,
      bdb_sectors_per_fat = 9, bdb_sectors_per_track = 18, bdb_heads = 2, ebr_drive_number = 0,
      stage2_cluster = 0, s1_mem = mem, s1_tty = [], s1_bios = st\<rparr>"

definition ENDL :: "u8 list" where "ENDL = [0x0D, 0x0A]"
definition msg_boot :: "u8 list" where "msg_boot = bytes ''AlmaOS Bootloader...'' @ ENDL"
definition msg_read_failed :: "u8 list" where "msg_read_failed = bytes ''Error reading disk!'' @ ENDL"
definition msg_stage2_not_found :: "u8 list" where "msg_stage2_not_found = bytes ''STAGE2.BIN not found!'' @ ENDL"
definition file_stage2_bin :: "u8 list" where "file_stage2_bin = bytes ''STAGE2  BIN''"
definition STAGE2_LOAD_SEGMENT :: u16 where "STAGE2_LOAD_SEGMENT = 0x2000"
definition STAGE2_LOAD_OFFSET :: u16 where "STAGE2_LOAD_OFFSET = 0"

text \<open>The buffer is behind the 512 bytes of the sector.\<close>

definition s1_buffer :: u16 where "s1_buffer = 0x7E00"

text \<open>
  A step goes on, or ends the program: a restart of the machine after a message, the jump into
  another segment, or an exception of the processor, for which there is no handler of the program's.
\<close>

datatype stage1_end = Restart | Enter u16 u16 | Divide_error

datatype 'b s1_result = Go cpu "'b stage1" | Stop stage1_end cpu "'b stage1"

fun s1_then :: "'b s1_result \<Rightarrow> (cpu \<Rightarrow> 'b stage1 \<Rightarrow> 'b s1_result) \<Rightarrow> 'b s1_result" where
  "s1_then (Go c s) f = f c s"
| "s1_then (Stop e c s) f = Stop e c s"

section \<open>Instructions\<close>

text \<open>\<open>div r/m16\<close>: DX:AX by the operand, quotient in AX, remainder in DX.\<close>

definition div16 :: "u16 \<Rightarrow> cpu \<Rightarrow> cpu option" where
  "div16 d c =
     (let n = push_bit 16 (ucast (low16 (c_edx c))) OR (ucast (low16 (c_eax c)) :: u32) in
      if d = 0 \<or> n div ucast d > 0xFFFF then None
      else Some (c\<lparr>c_eax := set_low16 (ucast (n div ucast d)) (c_eax c),
                   c_edx := set_low16 (ucast (n mod ucast d)) (c_edx c)\<rparr>))"

text \<open>\<open>mul r8\<close> and \<open>mul r16\<close>: AL into AX, AX into DX:AX.\<close>

definition mul8 :: "u8 \<Rightarrow> cpu \<Rightarrow> cpu" where
  "mul8 v c = c\<lparr>c_eax := set_low16 (ucast (low8 (c_eax c)) * ucast v) (c_eax c)\<rparr>"

definition mul16 :: "u16 \<Rightarrow> cpu \<Rightarrow> cpu" where
  "mul16 v c =
     (let p = (ucast (low16 (c_eax c)) * ucast v :: u32)
      in c\<lparr>c_eax := set_low16 (ucast p) (c_eax c), c_edx := set_low16 (ucast (drop_bit 16 p)) (c_edx c)\<rparr>)"

text \<open>\<open>popa\<close> of what \<open>pusha\<close> saved: the 16-bit parts of all general registers but SP.\<close>

definition popa :: "cpu \<Rightarrow> cpu \<Rightarrow> cpu" where
  "popa saved c = c\<lparr>c_eax := set_low16 (low16 (c_eax saved)) (c_eax c), c_ebx := set_low16 (low16 (c_ebx saved)) (c_ebx c),
     c_ecx := set_low16 (low16 (c_ecx saved)) (c_ecx c), c_edx := set_low16 (low16 (c_edx saved)) (c_edx c),
     c_esi := set_low16 (low16 (c_esi saved)) (c_esi c), c_edi := set_low16 (low16 (c_edi saved)) (c_edi c),
     c_ebp := set_low16 (low16 (c_ebp saved)) (c_ebp c)\<rparr>"

text \<open>The pops at the end of disk_read: DI, DX, CX, BX and AX.\<close>

definition pop5 :: "cpu \<Rightarrow> cpu \<Rightarrow> cpu" where
  "pop5 saved c = c\<lparr>c_edi := set_low16 (low16 (c_edi saved)) (c_edi c), c_edx := set_low16 (low16 (c_edx saved)) (c_edx c),
     c_ecx := set_low16 (low16 (c_ecx saved)) (c_ecx c), c_ebx := set_low16 (low16 (c_ebx saved)) (c_ebx c),
     c_eax := set_low16 (low16 (c_eax saved)) (c_eax c)\<rparr>"

section \<open>Messages\<close>

text \<open>The routine prints a string up to its terminator; BH keeps the page number 0.\<close>

definition s1_puts :: "u8 list \<Rightarrow> cpu \<times> 'b stage1 \<Rightarrow> cpu \<times> 'b stage1" where
  "s1_puts msg cs = (case cs of (c, s) \<Rightarrow> (c\<lparr>c_ebx := set_high8 0 (c_ebx c)\<rparr>, s\<lparr>s1_tty := s1_tty s @ msg\<rparr>))"

definition floppy_error :: "cpu \<times> 'b stage1 \<Rightarrow> 'b s1_result" where
  "floppy_error cs = (case s1_puts msg_read_failed cs of (c, s) \<Rightarrow> Stop Restart c s)"

definition stage2_not_found_error :: "cpu \<times> 'b stage1 \<Rightarrow> 'b s1_result" where
  "stage2_not_found_error cs = (case s1_puts msg_stage2_not_found cs of (c, s) \<Rightarrow> Stop Restart c s)"

section \<open>Disk\<close>

text \<open>The bytes that INT 13h returns are at ES:BX.\<close>

definition s1_int13 :: "'b int13 \<Rightarrow> cpu \<times> 'b stage1 \<Rightarrow> cpu \<times> 'b stage1" where
  "s1_int13 int13 cs =
     (case cs of (c, s) \<Rightarrow>
        (case int13 c (s1_bios s) of
           (c', data, st) \<Rightarrow>
             (c', s\<lparr>s1_bios := st, s1_mem := write_bytes (s1_mem s) (rm_flat (c_es c) (low16 (c_ebx c))) data\<rparr>)))"

definition lba_to_chs :: "u16 \<Rightarrow> u16 \<Rightarrow> cpu \<Rightarrow> cpu option" where
  "lba_to_chs sectors_per_track heads c0 =
     (let c = c0\<lparr>c_edx := set_low16 0 (c_edx c0)\<rparr> in
      case div16 sectors_per_track c of
        None \<Rightarrow> None
      | Some c \<Rightarrow>
          (let c = c\<lparr>c_edx := set_low16 (low16 (c_edx c) + 1) (c_edx c)\<rparr>;
               c = c\<lparr>c_ecx := set_low16 (low16 (c_edx c)) (c_ecx c)\<rparr>;
               c = c\<lparr>c_edx := set_low16 0 (c_edx c)\<rparr> in
           case div16 heads c of
             None \<Rightarrow> None
           | Some c \<Rightarrow>
               (let c = c\<lparr>c_edx := set_high8 (low8 (c_edx c)) (c_edx c)\<rparr>;
                    c = c\<lparr>c_ecx := set_high8 (low8 (c_eax c)) (c_ecx c)\<rparr>;
                    c = c\<lparr>c_eax := set_high8 (push_bit 6 (high8 (c_eax c))) (c_eax c)\<rparr>;
                    c = c\<lparr>c_ecx := set_low8 (low8 (c_ecx c) OR high8 (c_eax c)) (c_ecx c)\<rparr>
                in Some (c\<lparr>c_eax := set_low16 (low16 (c_eax c0)) (c_eax c)\<rparr>))))"

definition disk_reset :: "'b int13 \<Rightarrow> cpu \<Rightarrow> 'b stage1 \<Rightarrow> 'b s1_result" where
  "disk_reset int13 c0 s =
     (let c = c0\<lparr>c_eax := set_high8 0 (c_eax c0)\<rparr>;
          c = stc c;
          (c, s) = s1_int13 int13 (c, s)
      in if carry c then floppy_error (c, s) else Go (popa c0 c) s)"

text \<open>The attempts that are left, the counter in DI.\<close>

primrec disk_read_retry :: "'b int13 \<Rightarrow> nat \<Rightarrow> cpu \<Rightarrow> 'b stage1 \<Rightarrow> 'b s1_result" where
  "disk_read_retry int13 0 c0 s = floppy_error (c0, s)"
| "disk_read_retry int13 (Suc n) c0 s =
     (let (c, s) = s1_int13 int13 (c0, s) in
      if \<not> carry c then Go (popa c0 c) s
      else s1_then (disk_reset int13 (popa c0 c) s) (\<lambda>c s.
        disk_read_retry int13 n (c\<lparr>c_edi := set_low16 (low16 (c_edi c) - 1) (c_edi c)\<rparr>) s))"

definition disk_read :: "'b int13 \<Rightarrow> cpu \<Rightarrow> 'b stage1 \<Rightarrow> 'b s1_result" where
  "disk_read int13 c0 s =
     (case lba_to_chs (bdb_sectors_per_track s) (bdb_heads s) c0 of
        None \<Rightarrow> Stop Divide_error c0 s
      | Some c \<Rightarrow>
          (let c = c\<lparr>c_eax := set_low16 (low16 (c_ecx c0)) (c_eax c)\<rparr>;
               c = c\<lparr>c_eax := set_high8 0x02 (c_eax c)\<rparr>;
               c = c\<lparr>c_edx := set_low8 (ebr_drive_number s) (c_edx c)\<rparr>;
               c = c\<lparr>c_edi := set_low16 3 (c_edi c)\<rparr>
           in s1_then (disk_read_retry int13 3 c s) (\<lambda>c s. Go (pop5 c0 c) s)))"

section \<open>The program\<close>

text \<open>Segments, stack, the drive from DL, the greeting, and the geometry of the drive.\<close>

definition s1_main_start :: "'b int13 \<Rightarrow> cpu \<Rightarrow> 'b stage1 \<Rightarrow> 'b s1_result" where
  "s1_main_start int13 c s =
     (let c = c\<lparr>c_eax := set_low16 0 (c_eax c)\<rparr>;
          c = c\<lparr>c_ds := low16 (c_eax c), c_es := low16 (c_eax c), c_ss := low16 (c_eax c)\<rparr>;
          c = c\<lparr>c_esp := set_low16 0x7C00 (c_esp c)\<rparr>;
          c = c\<lparr>c_cs := c_es c\<rparr>;
          s = s\<lparr>ebr_drive_number := low8 (c_edx c)\<rparr>;
          (c, s) = s1_puts msg_boot (c, s);
          es = c_es c;
          c = c\<lparr>c_eax := set_high8 0x08 (c_eax c)\<rparr>;
          (c, s) = s1_int13 int13 (c, s) in
      if carry c then floppy_error (c, s)
      else
        (let c = c\<lparr>c_es := es\<rparr>;
             c = c\<lparr>c_ecx := set_low8 (low8 (c_ecx c) AND 0x3F) (c_ecx c)\<rparr>;
             c = c\<lparr>c_ecx := set_high8 0 (c_ecx c)\<rparr>;
             s = s\<lparr>bdb_sectors_per_track := low16 (c_ecx c)\<rparr>;
             c = c\<lparr>c_edx := set_high8 (high8 (c_edx c) + 1) (c_edx c)\<rparr>;
             c = c\<lparr>c_eax := set_low16 (ucast (high8 (c_edx c))) (c_eax c)\<rparr>;
             s = s\<lparr>bdb_heads := low16 (c_eax c)\<rparr>
         in Go c s))"

text \<open>The root directory: its first sector behind the tables, and its size, rounded up.\<close>

definition s1_read_root :: "'b int13 \<Rightarrow> cpu \<Rightarrow> 'b stage1 \<Rightarrow> 'b s1_result" where
  "s1_read_root int13 c s =
     (let c = c\<lparr>c_eax := set_low16 (bdb_sectors_per_fat s) (c_eax c)\<rparr>;
          c = c\<lparr>c_ebx := set_low8 (bdb_fat_count s) (c_ebx c)\<rparr>;
          c = mul8 (low8 (c_ebx c)) c;
          c = c\<lparr>c_eax := set_low16 (low16 (c_eax c) + bdb_reserved_sectors s) (c_eax c)\<rparr>;
          root = low16 (c_eax c);
          c = c\<lparr>c_eax := set_low16 (bdb_dir_entries_count s) (c_eax c)\<rparr>;
          c = c\<lparr>c_eax := set_low16 (push_bit 5 (low16 (c_eax c))) (c_eax c)\<rparr>;
          c = c\<lparr>c_edx := set_low16 0 (c_edx c)\<rparr> in
      case div16 (bdb_bytes_per_sector s) c of
        None \<Rightarrow> Stop Divide_error c s
      | Some c \<Rightarrow>
          (let c = (if low16 (c_edx c) = 0 then c
                    else c\<lparr>c_eax := set_low16 (low16 (c_eax c) + 1) (c_eax c)\<rparr>);
               c = c\<lparr>c_ecx := set_low8 (low8 (c_eax c)) (c_ecx c)\<rparr>;
               c = c\<lparr>c_eax := set_low16 root (c_eax c)\<rparr>;
               c = c\<lparr>c_edx := set_low8 (ebr_drive_number s) (c_edx c)\<rparr>;
               c = c\<lparr>c_ebx := set_low16 s1_buffer (c_ebx c)\<rparr>
           in disk_read int13 c s))"

text \<open>\<open>repe cmpsb\<close> over eleven bytes, DS:SI against ES:DI.\<close>

definition name_at :: "memory \<Rightarrow> u16 \<Rightarrow> u16 \<Rightarrow> bool" where
  "name_at mem seg off \<longleftrightarrow> map (\<lambda>i. mem (rm_flat seg (off + of_nat i))) [0..<11] = file_stage2_bin"

text \<open>
  The search, BX counting the entries and DI going through the buffer; the comparison with the number
  of entries is signed. What the comparison leaves in CX and SI is not read again.
\<close>

lemma search_measure: "bx + 1 <s n \<Longrightarrow> unat (n - bx - 2) < unat (n - bx - 1)" for bx n :: u16
proof -
  assume "bx + 1 <s n"
  then have ne: "n - bx - 1 \<noteq> 0" by (auto simp: algebra_simps)
  have e: "n - bx - 2 = (n - bx - 1) - 1" by simp
  show ?thesis unfolding e unat_minus_one [OF ne] using ne by (simp add: unat_gt_0)
qed

function (sequential) search_stage2 :: "cpu \<Rightarrow> 'b stage1 \<Rightarrow> 'b s1_result" where
  "search_stage2 c s =
     (if name_at (s1_mem s) (c_es c) (low16 (c_edi c)) then Go c s
      else
        (let c = c\<lparr>c_edi := set_low16 (low16 (c_edi c) + 32) (c_edi c)\<rparr>;
             c = c\<lparr>c_ebx := set_low16 (low16 (c_ebx c) + 1) (c_ebx c)\<rparr>
         in if low16 (c_ebx c) <s bdb_dir_entries_count s then search_stage2 c s
            else stage2_not_found_error (c, s)))"
  by pat_completeness auto

termination
  by (relation "measure (\<lambda>(c, s). unat (bdb_dir_entries_count s - low16 (c_ebx c) - 1))") (simp_all add: search_measure)

declare search_stage2.simps [simp del]

definition s1_find :: "cpu \<Rightarrow> 'b stage1 \<Rightarrow> 'b s1_result" where
  "s1_find c s =
     (let c = c\<lparr>c_ebx := set_low16 0 (c_ebx c)\<rparr>;
          c = c\<lparr>c_edi := set_low16 s1_buffer (c_edi c)\<rparr>
      in search_stage2 c s)"

text \<open>The first cluster from the entry, and the first table into the buffer.\<close>

definition s1_read_fat :: "'b int13 \<Rightarrow> cpu \<Rightarrow> 'b stage1 \<Rightarrow> 'b s1_result" where
  "s1_read_fat int13 c s =
     (let c = c\<lparr>c_eax := set_low16 (mem_get16 (s1_mem s) (rm_flat (c_ds c) (low16 (c_edi c) + 26))) (c_eax c)\<rparr>;
          s = s\<lparr>stage2_cluster := low16 (c_eax c)\<rparr>;
          c = c\<lparr>c_eax := set_low16 (bdb_reserved_sectors s) (c_eax c)\<rparr>;
          c = c\<lparr>c_ebx := set_low16 s1_buffer (c_ebx c)\<rparr>;
          c = c\<lparr>c_ecx := set_low8 (ucast (bdb_sectors_per_fat s)) (c_ecx c)\<rparr>;
          c = c\<lparr>c_edx := set_low8 (ebr_drive_number s) (c_edx c)\<rparr>
      in disk_read int13 c s)"

text \<open>One cluster to ES:BX, then the next entry of the chain.\<close>

definition load_cluster :: "'b int13 \<Rightarrow> cpu \<Rightarrow> 'b stage1 \<Rightarrow> 'b s1_result" where
  "load_cluster int13 c s =
     (let c = c\<lparr>c_eax := set_low16 (stage2_cluster s) (c_eax c)\<rparr>;
          c = c\<lparr>c_eax := set_low16 (low16 (c_eax c) + 31) (c_eax c)\<rparr>;
          c = c\<lparr>c_ecx := set_low8 1 (c_ecx c)\<rparr>;
          c = c\<lparr>c_edx := set_low8 (ebr_drive_number s) (c_edx c)\<rparr>
      in disk_read int13 c s)"

definition next_entry :: "cpu \<Rightarrow> 'b stage1 \<Rightarrow> 'b s1_result" where
  "next_entry c s =
     (let c = c\<lparr>c_ebx := set_low16 (low16 (c_ebx c) + bdb_bytes_per_sector s) (c_ebx c)\<rparr>;
          c = c\<lparr>c_eax := set_low16 (stage2_cluster s) (c_eax c)\<rparr>;
          c = c\<lparr>c_ecx := set_low16 3 (c_ecx c)\<rparr>;
          c = mul16 (low16 (c_ecx c)) c;
          c = c\<lparr>c_ecx := set_low16 2 (c_ecx c)\<rparr> in
      case div16 (low16 (c_ecx c)) c of
        None \<Rightarrow> Stop Divide_error c s
      | Some c \<Rightarrow>
          (let c = c\<lparr>c_esi := set_low16 s1_buffer (c_esi c)\<rparr>;
               c = c\<lparr>c_esi := set_low16 (low16 (c_esi c) + low16 (c_eax c)) (c_esi c)\<rparr>;
               c = c\<lparr>c_eax := set_low16 (mem_get16 (s1_mem s) (rm_flat (c_ds c) (low16 (c_esi c)))) (c_eax c)\<rparr>;
               c = (if low16 (c_edx c) = 0 then c\<lparr>c_eax := set_low16 (low16 (c_eax c) AND 0x0FFF) (c_eax c)\<rparr>
                    else c\<lparr>c_eax := set_low16 (drop_bit 4 (low16 (c_eax c))) (c_eax c)\<rparr>)
           in Go c s))"

text \<open>
  The loop over the chain. It does not count, so a chain that returns to itself is followed for
  ever; that the loop does not return is \<open>None\<close>.
\<close>

partial_function (option) load_stage2_loop :: "'b int13 \<Rightarrow> cpu \<Rightarrow> 'b stage1 \<Rightarrow> 'b s1_result option" where
  "load_stage2_loop int13 c s =
     (case s1_then (load_cluster int13 c s) next_entry of
        Stop e c s \<Rightarrow> Some (Stop e c s)
      | Go c s \<Rightarrow>
          (if low16 (c_eax c) \<ge> 0x0FF8 then Some (Go c s)
           else load_stage2_loop int13 c (s\<lparr>stage2_cluster := low16 (c_eax c)\<rparr>)))"

definition s1_load :: "'b int13 \<Rightarrow> cpu \<Rightarrow> 'b stage1 \<Rightarrow> 'b s1_result option" where
  "s1_load int13 c s =
     (let c = c\<lparr>c_ebx := set_low16 STAGE2_LOAD_SEGMENT (c_ebx c)\<rparr>;
          c = c\<lparr>c_es := low16 (c_ebx c)\<rparr>;
          c = c\<lparr>c_ebx := set_low16 STAGE2_LOAD_OFFSET (c_ebx c)\<rparr>
      in load_stage2_loop int13 c s)"

text \<open>The drive in DL and the segments for stage 2, and the jump.\<close>

definition read_finish :: "cpu \<Rightarrow> 'b stage1 \<Rightarrow> 'b s1_result" where
  "read_finish c s =
     (let c = c\<lparr>c_edx := set_low8 (ebr_drive_number s) (c_edx c)\<rparr>;
          c = c\<lparr>c_eax := set_low16 STAGE2_LOAD_SEGMENT (c_eax c)\<rparr>;
          c = c\<lparr>c_ds := low16 (c_eax c), c_es := low16 (c_eax c)\<rparr>;
          c = c\<lparr>c_cs := STAGE2_LOAD_SEGMENT, c_eip := ucast STAGE2_LOAD_OFFSET\<rparr>
      in Stop (Enter STAGE2_LOAD_SEGMENT STAGE2_LOAD_OFFSET) c s)"

definition stage1_main :: "'b int13 \<Rightarrow> cpu \<Rightarrow> 'b stage1 \<Rightarrow> 'b s1_result option" where
  "stage1_main int13 c s =
     (case s1_then (s1_then (s1_then (s1_main_start int13 c s) (s1_read_root int13)) s1_find) (s1_read_fat int13) of
        Stop e c s \<Rightarrow> Some (Stop e c s)
      | Go c s \<Rightarrow> map_option (\<lambda>r. s1_then r read_finish) (s1_load int13 c s))"

text \<open>The entry of stage 2 (bootloader/stage2/main.asm): its stack, and the drive as the argument of cstart.\<close>

definition stage2_entry :: "cpu \<Rightarrow> cpu \<times> u16" where
  "stage2_entry c =
     (let c = cli c;
          c = c\<lparr>c_eax := set_low16 (c_ds c) (c_eax c)\<rparr>;
          c = c\<lparr>c_ss := low16 (c_eax c)\<rparr>;
          c = c\<lparr>c_esp := set_low16 0xFFF0 (c_esp c)\<rparr>;
          c = c\<lparr>c_ebp := set_low16 (low16 (c_esp c)) (c_ebp c)\<rparr>;
          c = c\<lparr>c_eflags := c_eflags c OR 0x200\<rparr>;
          c = c\<lparr>c_edx := set_high8 0 (c_edx c)\<rparr>
      in (c, low16 (c_edx c)))"

end
