(* ===== verification/Stage1Load.thy ===== *)
theory Stage1Load
  imports Stage1 X86Map BootFloppy
begin

text \<open>
  What the boot sector achieves on a floppy of the shape that it is assembled for: stage 2 in memory,
  cluster by cluster, and the drive in DL; or a message.
\<close>

unbundle bit_operations_syntax

section \<open>Registers\<close>

lemma parts_low16: "low8 r = ucast (low16 r)" "high8 r = ucast (drop_bit 8 (low16 r))"
  unfolding low8_def high8_def low16_def
  by (rule bit_word_eqI; auto simp: bit_simps)+

lemma low16_set_parts [simp]:
  "low16 (set_low8 b r) = (low16 r AND 0xFF00) OR ucast b"
  "low16 (set_high8 b r) = (low16 r AND 0xFF) OR push_bit 8 (ucast b)"
proof -
  have m: "(0xFF00 :: u16) = push_bit 8 (mask 8)" "(0xFF :: u16) = mask 8" by (simp_all add: mask_eq_exp_minus_1)
  show "low16 (set_low8 b r) = (low16 r AND 0xFF00) OR ucast b"
    "low16 (set_high8 b r) = (low16 r AND 0xFF) OR push_bit 8 (ucast b)"
    unfolding low16_def set_low8_def set_high8_def low16_mask m
    by (rule bit_word_eqI; auto simp: bit_simps dest: bit_imp_le_length)+
qed

text \<open>The 16-bit view of two processors is the same.\<close>

definition same16 :: "cpu \<Rightarrow> cpu \<Rightarrow> bool" where
  "same16 c c' \<longleftrightarrow> low16 (c_eax c') = low16 (c_eax c) \<and> low16 (c_ebx c') = low16 (c_ebx c) \<and>
     low16 (c_ecx c') = low16 (c_ecx c) \<and> low16 (c_edx c') = low16 (c_edx c) \<and> low16 (c_esi c') = low16 (c_esi c) \<and>
     low16 (c_ebp c') = low16 (c_ebp c) \<and> low16 (c_esp c') = low16 (c_esp c) \<and>
     c_cs c' = c_cs c \<and> c_ds c' = c_ds c \<and> c_es c' = c_es c \<and> c_ss c' = c_ss c"

lemma same16_refl [simp]: "same16 c c"
  by (simp add: same16_def)

lemma same16_trans: "same16 c c' \<Longrightarrow> same16 c' c'' \<Longrightarrow> same16 c c''"
  by (simp add: same16_def)

lemma div16_short:
  assumes "low16 (c_edx c) = 0" "d \<noteq> 0"
  shows "div16 d c = Some (c\<lparr>c_eax := set_low16 (low16 (c_eax c) div d) (c_eax c),
    c_edx := set_low16 (low16 (c_eax c) mod d) (c_edx c)\<rparr>)"
proof -
  let ?x = "low16 (c_eax c)"
  have q: "(ucast ?x :: u32) div ucast d = ucast (?x div d)" "(ucast ?x :: u32) mod ucast d = ucast (?x mod d)"
    by (simp_all add: word_unat_eq_iff unat_div_distrib unat_mod_distrib unat_ucast_up16_32)
  have "unat (ucast (?x div d) :: u32) \<le> unat (0xFFFF :: u32)"
    using unat_u16_less [of "?x div d"] by (simp add: unat_ucast_up16_32)
  then have "\<not> 0xFFFF < (ucast (?x div d) :: u32)" by (simp add: word_le_nat_alt not_less)
  moreover have "(ucast (ucast y :: u32) :: u16) = y" for y by (rule bit_word_eqI) (simp add: bit_simps)
  ultimately show ?thesis using assms by (simp add: div16_def Let_def q)
qed

section \<open>Sectors\<close>

text \<open>What a read returns, by the registers of the call.\<close>

definition read_data :: "u8 list \<Rightarrow> cpu \<Rightarrow> u8 list" where
  "read_data di c =
     concat (map (\<lambda>i. image_sector di (chs_lba floppy (packed_cylinder (high8 (c_ecx c)) (low8 (c_ecx c)),
       ucast (low8 (c_ecx c) AND 0x3F), ucast (high8 (c_edx c))) + i)) [0..<unat (low8 (c_eax c))])"

definition read_place :: "cpu \<Rightarrow> u32" where
  "read_place c = rm_flat (c_es c) (low16 (c_ebx c))"

lemma read_cong: "same16 c c' \<Longrightarrow> read_data di c' = read_data di c" "same16 c c' \<Longrightarrow> read_place c' = read_place c"
  by (simp_all add: same16_def read_data_def read_place_def parts_low16)

lemma s1_read:
  assumes "high8 (c_eax c) = 2"
  shows "s1_int13 (int13_image floppy di) (c, s) =
    (if 0 < s1_bios s then (stc c, s\<lparr>s1_bios := s1_bios s - 1, s1_mem := write_bytes (s1_mem s) (read_place c) [0xFF]\<rparr>)
     else (clc c, s\<lparr>s1_bios := 0, s1_mem := write_bytes (s1_mem s) (read_place c) (read_data di c)\<rparr>))"
  using assms by (simp add: s1_int13_def int13_image_def Let_def read_data_def read_place_def)

lemma s1_reset:
  "\<exists>c'. disk_reset (int13_image floppy di) c s = Go c' s \<and> same16 c c' \<and> low16 (c_edi c') = low16 (c_edi c)"
  by (auto simp: disk_reset_def Let_def s1_int13_def int13_image_def write_bytes_def popa_def same16_def stc_def clc_def
      carry_def bit_simps)

lemma write_over:
  assumes "bs \<noteq> []"
  shows "write_bytes (write_bytes m a [x]) a bs = write_bytes m a bs"
  using assms by (auto simp: write_bytes_def fun_eq_iff)

lemma read_retry:
  assumes "s1_bios s < n" "high8 (c_eax c) = 2" "read_data di c \<noteq> []"
  shows "\<exists>c'. disk_read_retry (int13_image floppy di) n c s =
      Go c' (s\<lparr>s1_bios := 0, s1_mem := write_bytes (s1_mem s) (read_place c) (read_data di c)\<rparr>) \<and> same16 c c'"
  using assms
proof (induction n arbitrary: c s)
  case (Suc n)
  have keep: "same16 c (popa c (stc c))" "same16 c (popa c (clc c))"
    by (simp_all add: same16_def popa_def stc_def clc_def)
  show ?case
  proof (cases "0 < s1_bios s")
    case False
    then show ?thesis using Suc.prems keep(2) by (simp add: s1_read)
  next
    case True
    let ?s = "s\<lparr>s1_bios := s1_bios s - 1, s1_mem := write_bytes (s1_mem s) (read_place c) [0xFF]\<rparr>"
    obtain c1 where c1: "disk_reset (int13_image floppy di) (popa c (stc c)) ?s = Go c1 ?s" "same16 (popa c (stc c)) c1"
      using s1_reset by blast
    let ?c2 = "c1\<lparr>c_edi := set_low16 (low16 (c_edi c1) - 1) (c_edi c1)\<rparr>"
    have c2: "same16 c ?c2" using same16_trans [OF keep(1) c1(2)] by (simp add: same16_def)
    then have "high8 (c_eax ?c2) = 2" "read_data di ?c2 = read_data di c" "read_place ?c2 = read_place c"
      using Suc.prems(2) read_cong [OF c2] by (simp_all add: same16_def parts_low16)
    moreover have "s1_bios ?s < n" using Suc.prems(1) True by simp
    ultimately obtain c3 where
      "disk_read_retry (int13_image floppy di) n ?c2 ?s =
         Go c3 (?s\<lparr>s1_bios := 0, s1_mem := write_bytes (s1_mem ?s) (read_place c) (read_data di c)\<rparr>)" "same16 ?c2 c3"
      using Suc.IH [of ?s ?c2] Suc.prems(3) by auto
    then show ?thesis
      using Suc.prems True c1(1) same16_trans [OF c2] by (auto simp: s1_read write_over)
  qed
qed simp

text \<open>A drive that keeps failing ends the program with a message.\<close>

lemma read_retry_fails:
  assumes "n \<le> s1_bios s" "high8 (c_eax c) = 2"
  shows "\<exists>c' s'. disk_read_retry (int13_image floppy di) n c s = Stop Restart c' s' \<and> s1_tty s' = s1_tty s @ msg_read_failed"
  using assms
proof (induction n arbitrary: c s)
  case 0
  then show ?case by (simp add: floppy_error_def s1_puts_def)
next
  case (Suc n)
  let ?s = "s\<lparr>s1_bios := s1_bios s - 1, s1_mem := write_bytes (s1_mem s) (read_place c) [0xFF]\<rparr>"
  have keep: "same16 c (popa c (stc c))" by (simp add: same16_def popa_def stc_def)
  obtain c1 where c1: "disk_reset (int13_image floppy di) (popa c (stc c)) ?s = Go c1 ?s" "same16 (popa c (stc c)) c1"
    using s1_reset by blast
  let ?c2 = "c1\<lparr>c_edi := set_low16 (low16 (c_edi c1) - 1) (c_edi c1)\<rparr>"
  have "same16 c ?c2" using same16_trans [OF keep c1(2)] by (simp add: same16_def)
  then have "high8 (c_eax ?c2) = 2" using Suc.prems(2) by (simp add: same16_def parts_low16)
  moreover have "n \<le> s1_bios ?s" using Suc.prems(1) by simp
  ultimately obtain c3 s3 where "disk_read_retry (int13_image floppy di) n ?c2 ?s = Stop Restart c3 s3"
    "s1_tty s3 = s1_tty ?s @ msg_read_failed"
    using Suc.IH [of ?s ?c2] by blast
  then show ?case using Suc.prems c1(1) by (simp add: s1_read)
qed

text \<open>The translation of a sector number on the floppy, in the registers.\<close>

lemma unat_byte: "unat w < 256 \<Longrightarrow> unat (ucast w :: u8) = unat w" for w :: u16
  by (simp add: unsigned_ucast_eq take_bit_eq_mod)

lemma drop_bit_small: "unat w < 2 ^ k \<Longrightarrow> drop_bit k w = 0" for w :: "'a::len word"
proof -
  assume "unat w < 2 ^ k"
  then have "unat (drop_bit k w) = unat (0 :: 'a word)" unfolding unat_drop_bit_eq by (simp add: drop_bit_eq_div)
  then show ?thesis by (simp only: word_unat_eq_iff)
qed

lemma packed_small:
  fixes cyl sec head :: u16
  assumes "unat cyl < 256" "unat sec < 64" "unat head < 256"
  shows "packed_cylinder (ucast cyl) (ucast sec) = cyl" "ucast ((ucast sec :: u8) AND 0x3F) = sec"
    "ucast (ucast head :: u8) = head"
proof -
  have us: "unat (ucast sec :: u8) = unat sec" using assms(2) by (intro unat_byte) simp
  then have d: "drop_bit 6 (ucast sec :: u8) = 0"
    using assms(2) by (intro drop_bit_small) simp
  have b: "ucast (ucast w :: u8) = w" if "unat w < 256" for w :: u16
    using that by (simp only: word_unat_eq_iff unat_ucast_up8_16 unat_byte)
  have m: "(ucast sec :: u8) AND 0x3F = ucast sec"
  proof -
    have "(0x3F :: u8) = mask 6" by (simp add: mask_eq_exp_minus_1)
    moreover have "take_bit 6 (ucast sec :: u8) = ucast sec"
      using assms(2) us unfolding word_unat_eq_iff unsigned_take_bit_eq by (simp add: take_bit_eq_mod)
    ultimately show ?thesis by (simp add: take_bit_eq_mask)
  qed
  show "packed_cylinder (ucast cyl) (ucast sec) = cyl" using b [OF assms(1)] by (simp add: packed_cylinder_def d)
  show "ucast ((ucast sec :: u8) AND 0x3F) = sec" using b [of sec] assms(2) by (simp add: m)
  show "ucast (ucast head :: u8) = head" by (rule b [OF assms(3)])
qed

lemma chs_registers:
  assumes "unat (low16 (c_eax c)) < 2880"
  obtains c' where "lba_to_chs 18 2 c = Some c'" "low16 (c_eax c') = low16 (c_eax c)"
    "c' = c\<lparr>c_eax := c_eax c', c_ecx := c_ecx c', c_edx := c_edx c'\<rparr>"
    "chs_lba floppy (packed_cylinder (high8 (c_ecx c')) (low8 (c_ecx c')), ucast (low8 (c_ecx c') AND 0x3F),
       ucast (high8 (c_edx c'))) = unat (low16 (c_eax c))"
proof -
  let ?x = "low16 (c_eax c)"
  let ?q = "?x div 18" and ?r = "?x mod 18"
  have u: "unat ?q = unat ?x div 18" "unat ?r = unat ?x mod 18" "unat (?q div 2) = unat ?x div 36" "unat (?q mod 2) = unat ?x div 18 mod 2"
    by (simp_all add: unat_div_distrib unat_mod_distrib div_mult2_eq [symmetric])
  have l: "unat (?q div 2) < 80" "unat ?r < 18" "unat (?q mod 2) < 2" using assms by (simp_all add: u)
  then have r1: "unat (?r + 1) = unat ?r + 1" by (simp add: unat_word_ariths)
  have "drop_bit 8 (?q div 2) = 0"
    using l(1) by (intro drop_bit_small) simp
  then obtain c' where c': "lba_to_chs 18 2 c = Some c'" "low16 (c_eax c') = low16 (c_eax c)"
    "c' = c\<lparr>c_eax := c_eax c', c_ecx := c_ecx c', c_edx := c_edx c'\<rparr>"
    "high8 (c_ecx c') = ucast (?q div 2)" "low8 (c_ecx c') = ucast (?r + 1)" "high8 (c_edx c') = ucast (?q mod 2)"
    by (simp add: lba_to_chs_def Let_def div16_short)
  have p: "packed_cylinder (ucast (?q div 2)) (ucast (?r + 1)) = ?q div 2" "ucast ((ucast (?r + 1) :: u8) AND 0x3F) = ?r + 1"
    "ucast (ucast (?q mod 2) :: u8) = ?q mod 2"
    using packed_small [of "?q div 2" "?r + 1" "?q mod 2"] l r1 by simp_all
  have "chs_lba floppy (?q div 2, ?r + 1, ?q mod 2) = (unat ?x div 36 * 2 + unat ?x div 18 mod 2) * 18 + unat ?x mod 18"
    by (simp only: chs_lba_def fst_conv snd_conv u r1) (simp add: floppy_def)
  also have "unat ?x div 36 * 2 + unat ?x div 18 mod 2 = unat ?x div 18"
    using div_mult_mod_eq [of "unat ?x div 18" 2] by (simp add: div_mult2_eq [symmetric])
  finally have "chs_lba floppy (?q div 2, ?r + 1, ?q mod 2) = unat ?x" by simp
  with that c' p show ?thesis by simp
qed

text \<open>Consecutive sectors, and a read of them.\<close>

definition sectors_at :: "u8 list \<Rightarrow> nat \<Rightarrow> nat \<Rightarrow> u8 list" where
  "sectors_at di l n = concat (map (\<lambda>i. image_sector di (l + i)) [0..<n])"

lemma sectors_at_length [simp]: "length (sectors_at di l n) = 512 * n"
  by (induction n) (simp_all add: sectors_at_def)

lemma blocks_nth:
  assumes "\<And>i. length (f i) = 512" "a < n" "b < 512"
  shows "concat (map f [0..<n]) ! (512 * a + b) = f a ! b"
  using assms(2)
proof (induction n)
  case (Suc n)
  have l: "length (concat (map f [0..<n])) = 512 * n" by (induction n) (simp_all add: assms(1))
  have e: "concat (map f [0..<Suc n]) = concat (map f [0..<n]) @ f n" by simp
  show ?case
  proof (cases "a = n")
    case True
    then show ?thesis unfolding e using l by (simp add: nth_append)
  next
    case False
    then have "a < n" using Suc.prems by simp
    then have "512 * a + b < 512 * n" using assms(3) by simp
    with Suc.IH [OF \<open>a < n\<close>] show ?thesis unfolding e using l by (simp add: nth_append)
  qed
qed simp

lemma sectors_at_nth: "a < n \<Longrightarrow> b < 512 \<Longrightarrow> sectors_at di l n ! (512 * a + b) = image_sector di (l + a) ! b"
  unfolding sectors_at_def by (rule blocks_nth) simp_all

lemma s1_disk_read:
  assumes "bdb_sectors_per_track s = 18" "bdb_heads s = 2" "unat (low16 (c_eax c)) < 2880" "s1_bios s < 3"
    "low8 (c_ecx c) \<noteq> 0"
  obtains c' where "disk_read (int13_image floppy di) c s = Go c' (s\<lparr>s1_bios := 0,
      s1_mem := write_bytes (s1_mem s) (rm_flat (c_es c) (low16 (c_ebx c)))
        (sectors_at di (unat (low16 (c_eax c))) (unat (low8 (c_ecx c))))\<rparr>)"
    "same16 c c'" "low16 (c_edi c') = low16 (c_edi c)"
proof -
  obtain c1 where c1: "lba_to_chs 18 2 c = Some c1" "low16 (c_eax c1) = low16 (c_eax c)"
    "c1 = c\<lparr>c_eax := c_eax c1, c_ecx := c_ecx c1, c_edx := c_edx c1\<rparr>"
    "chs_lba floppy (packed_cylinder (high8 (c_ecx c1)) (low8 (c_ecx c1)), ucast (low8 (c_ecx c1) AND 0x3F),
       ucast (high8 (c_edx c1))) = unat (low16 (c_eax c))"
    by (rule chs_registers [OF assms(3)])
  define c2 where "c2 = c1\<lparr>c_eax := set_high8 0x02 (set_low16 (low16 (c_ecx c)) (c_eax c1)),
      c_edx := set_low8 (ebr_drive_number s) (c_edx c1), c_edi := set_low16 3 (c_edi c1)\<rparr>"
  have d: "read_data di c2 = sectors_at di (unat (low16 (c_eax c))) (unat (low8 (c_ecx c)))"
    using c1(4) by (simp add: read_data_def c2_def sectors_at_def parts_low16(1) [of "c_ecx c"])
  have "0 < unat (low8 (c_ecx c))" using assms(5) by (simp add: unat_gt_0)
  then have ne: "read_data di c2 \<noteq> []" unfolding d length_greater_0_conv [symmetric] sectors_at_length by simp
  have h: "high8 (c_eax c2) = 2" by (simp add: c2_def)
  have c1_fields: "c_ebx c1 = c_ebx c" "c_esi c1 = c_esi c" "c_ebp c1 = c_ebp c" "c_esp c1 = c_esp c" "c_cs c1 = c_cs c"
    "c_ds c1 = c_ds c" "c_es c1 = c_es c" "c_ss c1 = c_ss c"
    by (subst c1(3), simp)+
  obtain c3 where c3: "disk_read_retry (int13_image floppy di) 3 c2 s =
      Go c3 (s\<lparr>s1_bios := 0, s1_mem := write_bytes (s1_mem s) (read_place c2) (read_data di c2)\<rparr>)" "same16 c2 c3"
    using read_retry [OF assms(4) h ne] by blast
  have p: "read_place c2 = rm_flat (c_es c) (low16 (c_ebx c))" by (simp add: read_place_def c2_def c1_fields)
  have "disk_read (int13_image floppy di) c s =
      s1_then (disk_read_retry (int13_image floppy di) 3 c2 s) (\<lambda>c' s. Go (pop5 c c') s)"
    by (simp add: disk_read_def assms(1,2) c1(1) Let_def c2_def del: disk_read_retry.simps)
  then have "disk_read (int13_image floppy di) c s = Go (pop5 c c3) (s\<lparr>s1_bios := 0,
      s1_mem := write_bytes (s1_mem s) (rm_flat (c_es c) (low16 (c_ebx c)))
        (sectors_at di (unat (low16 (c_eax c))) (unat (low8 (c_ecx c))))\<rparr>)"
    by (simp add: c3(1) p d del: disk_read_retry.simps)
  moreover have "same16 c (pop5 c c3)" using c3(2) by (simp add: same16_def pop5_def c2_def c1_fields)
  moreover have "low16 (c_edi (pop5 c c3)) = low16 (c_edi c)" by (simp add: pop5_def)
  ultimately show ?thesis by (rule that)
qed

lemma s1_disk_read_fails:
  assumes "bdb_sectors_per_track s = 18" "bdb_heads s = 2" "unat (low16 (c_eax c)) < 2880" "3 \<le> s1_bios s"
  shows "\<exists>c' s'. disk_read (int13_image floppy di) c s = Stop Restart c' s' \<and> s1_tty s' = s1_tty s @ msg_read_failed"
proof -
  obtain c1 where c1: "lba_to_chs 18 2 c = Some c1"
    by (rule chs_registers [OF assms(3)])
  define c2 where "c2 = c1\<lparr>c_eax := set_high8 0x02 (set_low16 (low16 (c_ecx c)) (c_eax c1)),
      c_edx := set_low8 (ebr_drive_number s) (c_edx c1), c_edi := set_low16 3 (c_edi c1)\<rparr>"
  have "high8 (c_eax c2) = 2" by (simp add: c2_def)
  then obtain c' s' where r: "disk_read_retry (int13_image floppy di) 3 c2 s = Stop Restart c' s'"
    "s1_tty s' = s1_tty s @ msg_read_failed"
    using read_retry_fails [OF assms(4)] by blast
  have "disk_read (int13_image floppy di) c s =
      s1_then (disk_read_retry (int13_image floppy di) 3 c2 s) (\<lambda>c' s. Go (pop5 c c') s)"
    by (simp add: disk_read_def assms(1,2) c1(1) Let_def c2_def del: disk_read_retry.simps)
  with r show ?thesis by simp
qed

section \<open>The steps of the program\<close>

lemma main_start:
  "\<exists>c'. s1_main_start (int13_image floppy di) c s = Go c' (s\<lparr>ebr_drive_number := low8 (c_edx c),
      s1_tty := s1_tty s @ msg_boot, bdb_sectors_per_track := 18, bdb_heads := 2\<rparr>) \<and>
    c_ds c' = 0 \<and> c_es c' = 0 \<and> c_ss c' = 0"
proof -
  have w: "write_bytes m a [] = m" for m a by (simp add: write_bytes_def)
  show ?thesis
    by (simp add: s1_main_start_def s1_puts_def s1_int13_def int13_image_def Let_def w floppy_def low16_parts)
       (simp add: clc_def)
qed

text \<open>The constants of the sector once the geometry is known.\<close>

definition s1_geometry :: "'b stage1 \<Rightarrow> bool" where
  "s1_geometry s \<longleftrightarrow> bdb_bytes_per_sector s = 512 \<and> bdb_reserved_sectors s = 1 \<and> bdb_fat_count s = 2 \<and>
     bdb_dir_entries_count s = 224 \<and> bdb_sectors_per_fat s = 9 \<and> bdb_sectors_per_track s = 18 \<and> bdb_heads s = 2"

lemma read_root_call:
  assumes "s1_geometry s" "c_es c = 0" "c_ds c = 0"
  obtains c3 where "s1_read_root int13 c s = disk_read int13 c3 s"
    "low16 (c_eax c3) = 19" "low8 (c_ecx c3) = 14" "low16 (c_ebx c3) = 0x7E00" "c_es c3 = 0" "c_ds c3 = 0"
  using assms
  by (simp add: s1_read_root_def s1_geometry_def Let_def div16_short mul8_def s1_buffer_def del: low16_set_parts)

lemma read_root:
  assumes "s1_geometry s" "c_es c = 0" "c_ds c = 0" "s1_bios s < 3"
  obtains c' where "s1_read_root (int13_image floppy di) c s =
      Go c' (s\<lparr>s1_bios := 0, s1_mem := write_bytes (s1_mem s) 0x7E00 (sectors_at di 19 14)\<rparr>)" "c_es c' = 0" "c_ds c' = 0"
proof -
  obtain c3 where r: "s1_read_root (int13_image floppy di) c s = disk_read (int13_image floppy di) c3 s"
    "low16 (c_eax c3) = 19" "low8 (c_ecx c3) = 14" "low16 (c_ebx c3) = 0x7E00" "c_es c3 = 0" "c_ds c3 = 0"
    by (rule read_root_call [OF assms(1-3)])
  obtain c' where "disk_read (int13_image floppy di) c3 s = Go c' (s\<lparr>s1_bios := 0,
      s1_mem := write_bytes (s1_mem s) (rm_flat (c_es c3) (low16 (c_ebx c3)))
        (sectors_at di (unat (low16 (c_eax c3))) (unat (low8 (c_ecx c3))))\<rparr>)" "same16 c3 c'"
    by (rule s1_disk_read [of s c3 di]) (use assms r in \<open>simp_all add: s1_geometry_def\<close>)
  then show ?thesis using that r by (simp add: same16_def rm_flat_def)
qed

text \<open>The entries of the root directory in the buffer.\<close>

lemma flat_low: "rm_flat 0 off = ucast off"
  by (simp add: rm_flat_def)

lemma buffer_offset:
  assumes "n < 0x8000"
  shows "(ucast (0x7E00 + of_nat n :: u16) :: u32) = 0x7E00 + of_nat n"
  using assms by (simp add: word_unat_eq_iff unat_word_ariths unat_ucast_up16_32 unat_of_nat_word)

lemma buffer_slot:
  assumes "read_bytes mem 0x7E00 (512 * 14) = sectors_at di 19 14" "k < 224" "i < 32"
  shows "mem (0x7E00 + of_nat (32 * k + i)) = root_slot (image16 di) 19 k ! i"
proof -
  have b: "512 * (k div 16) + (32 * (k mod 16) + i) = 32 * k + i"
    using div_mult_mod_eq [of k 16] by linarith
  have l: "32 * (k mod 16) + i < 512" "k div 16 < 14" using assms(2,3) mod_less_divisor [of 16 k] by simp_all
  have "mem (0x7E00 + of_nat (32 * k + i)) = sectors_at di 19 14 ! (32 * k + i)"
    using arg_cong [OF assms(1), of "\<lambda>l. l ! (32 * k + i)"] assms(2,3) by (simp add: read_bytes_def)
  also have "\<dots> = image_sector di (19 + k div 16) ! (32 * (k mod 16) + i)"
    using sectors_at_nth [OF l(2,1), of di 19] b by simp
  also have "\<dots> = root_slot (image16 di) 19 k ! i"
  proof -
    have "unat (ucast (19 + of_nat (k div 16) :: u32) :: u16) = 19 + k div 16"
      using l(2) by (simp add: unsigned_ucast_eq unat_word_ariths unat_of_nat_word take_bit_eq_mod)
    then show ?thesis using assms(3) l(1) by (simp add: root_slot_def image16_def)
  qed
  finally show ?thesis .
qed

lemma root_slot_length: "length (root_slot (image16 di) l k) = 32"
  using mod_less_divisor [of 16 k] by (simp add: root_slot_def)

lemma name_in_buffer:
  assumes "read_bytes mem 0x7E00 (512 * 14) = sectors_at di 19 14" "vol_root_lba di = 19" "k < 224"
  shows "name_at mem 0 (0x7E00 + of_nat (32 * k)) \<longleftrightarrow> de_Name (vol_slot di k) = file_stage2_bin"
proof -
  have "mem (rm_flat 0 (0x7E00 + of_nat (32 * k) + of_nat i)) = root_slot (image16 di) 19 k ! i" if "i < 11" for i
  proof -
    have "(0x7E00 + of_nat (32 * k) + of_nat i :: u16) = 0x7E00 + of_nat (32 * k + i)" by (simp add: add.assoc)
    then show ?thesis
      using buffer_slot [OF assms(1,3), of i] buffer_offset [of "32 * k + i"] assms(3) that by (simp add: flat_low add.assoc)
  qed
  then have "map (\<lambda>i. mem (rm_flat 0 (0x7E00 + of_nat (32 * k) + of_nat i))) [0..<11] =
      map (\<lambda>i. root_slot (image16 di) 19 k ! i) [0..<11]"
    by (intro map_cong) simp_all
  also have "\<dots> = take 11 (root_slot (image16 di) 19 k)"
    by (rule nth_equalityI) (simp_all add: root_slot_length)
  finally show ?thesis
    by (simp add: name_at_def vol_slot_def dir_entry_of_def assms(2))
qed

lemma sint_short: "n < 32768 \<Longrightarrow> sint (of_nat n :: u16) = int n"
proof -
  assume n: "n < 32768"
  then have "signed_take_bit 15 (int n) = int n" by (intro signed_take_bit_int_eq_self) simp_all
  then show ?thesis by (simp add: signed_of_nat)
qed

text \<open>The search finds the first entry with the name, or reports that there is none.\<close>

lemma search_runs:
  assumes "s1_geometry s" "c_es c = 0" "low16 (c_ebx c) = of_nat j" "low16 (c_edi c) = 0x7E00 + of_nat (32 * j)"
    "read_bytes (s1_mem s) 0x7E00 (512 * 14) = sectors_at di 19 14" "vol_root_lba di = 19" "j \<le> k" "k < 224"
    "\<forall>i. j \<le> i \<and> i < k \<longrightarrow> de_Name (vol_slot di i) \<noteq> file_stage2_bin"
  shows "\<exists>c'. search_stage2 c s = search_stage2 c' s \<and> c_es c' = 0 \<and> c_ds c' = c_ds c \<and>
    low16 (c_ebx c') = of_nat k \<and> low16 (c_edi c') = 0x7E00 + of_nat (32 * k)"
  using assms(2-4,7,9)
proof (induction "k - j" arbitrary: j c)
  case 0
  then have "j = k" by simp
  then show ?case using 0 by blast
next
  case (Suc m)
  then have j: "j < k" "de_Name (vol_slot di j) \<noteq> file_stage2_bin" by auto
  have nn: "\<not> name_at (s1_mem s) (c_es c) (low16 (c_edi c))"
    using name_in_buffer [OF assms(5,6), of j] j Suc.prems assms(8) by simp
  let ?c = "c\<lparr>c_edi := set_low16 (low16 (c_edi c) + 32) (c_edi c), c_ebx := set_low16 (low16 (c_ebx c) + 1) (c_ebx c)\<rparr>"
  have lt: "(of_nat (Suc j) :: u16) <s 224"
    using j assms(8) sint_short [of "Suc j"] by (simp add: word_sless_alt del: of_nat_Suc)
  have step: "search_stage2 c s = search_stage2 ?c s"
    using nn lt assms(1) Suc.prems(2) by (subst search_stage2.simps) (simp add: Let_def s1_geometry_def add.commute)
  have "\<exists>c'. search_stage2 ?c s = search_stage2 c' s \<and> c_es c' = 0 \<and> c_ds c' = c_ds ?c \<and>
      low16 (c_ebx c') = of_nat k \<and> low16 (c_edi c') = 0x7E00 + of_nat (32 * k)"
    using Suc.hyps(2) Suc.prems j by (intro Suc.hyps(1) [of "Suc j" ?c]) (simp_all add: algebra_simps)
  then show ?case unfolding step by simp
qed

lemma search_finds:
  assumes "s1_geometry s" "c_es c = 0" "read_bytes (s1_mem s) 0x7E00 (512 * 14) = sectors_at di 19 14"
    "vol_root_lba di = 19" "k < 224" "de_Name (vol_slot di k) = file_stage2_bin" "\<forall>i<k. de_Name (vol_slot di i) \<noteq> file_stage2_bin"
  shows "\<exists>c'. s1_find c s = Go c' s \<and> c_es c' = 0 \<and> c_ds c' = c_ds c \<and> low16 (c_edi c') = 0x7E00 + of_nat (32 * k)"
proof -
  let ?c = "c\<lparr>c_ebx := set_low16 0 (c_ebx c), c_edi := set_low16 s1_buffer (c_edi c)\<rparr>"
  obtain c' where c': "search_stage2 ?c s = search_stage2 c' s" "c_es c' = 0" "c_ds c' = c_ds c"
    "low16 (c_edi c') = 0x7E00 + of_nat (32 * k)"
    using search_runs [OF assms(1), of ?c 0 di k] assms(2-5,7) by (auto simp: s1_buffer_def)
  then have "name_at (s1_mem s) (c_es c') (low16 (c_edi c'))"
    using name_in_buffer [OF assms(3-5)] assms(6) by simp
  then have "search_stage2 c' s = Go c' s" by (subst search_stage2.simps) simp
  then show ?thesis using c' by (simp add: s1_find_def)
qed

lemma search_misses:
  assumes "s1_geometry s" "c_es c = 0" "read_bytes (s1_mem s) 0x7E00 (512 * 14) = sectors_at di 19 14"
    "vol_root_lba di = 19" "\<forall>i<224. de_Name (vol_slot di i) \<noteq> file_stage2_bin"
  shows "\<exists>c'. s1_find c s = Stop Restart c' (s\<lparr>s1_tty := s1_tty s @ msg_stage2_not_found\<rparr>)"
proof -
  let ?c = "c\<lparr>c_ebx := set_low16 0 (c_ebx c), c_edi := set_low16 s1_buffer (c_edi c)\<rparr>"
  obtain c' where c': "search_stage2 ?c s = search_stage2 c' s" "c_es c' = 0" "low16 (c_ebx c') = of_nat 223"
    "low16 (c_edi c') = 0x7E00 + of_nat (32 * 223)"
    using search_runs [OF assms(1), of ?c 0 di 223] assms(2-5) by (auto simp: s1_buffer_def)
  have "\<not> name_at (s1_mem s) (c_es c') (low16 (c_edi c'))"
    using name_in_buffer [OF assms(3,4), of 223] assms(5) c' by simp
  moreover have "\<not> (224 :: u16) <s 224" by simp
  ultimately have "search_stage2 c' s = stage2_not_found_error
      (c'\<lparr>c_edi := set_low16 (low16 (c_edi c') + 32) (c_edi c'), c_ebx := set_low16 (low16 (c_ebx c') + 1) (c_ebx c')\<rparr>, s)"
    using c'(3) assms(1) by (subst search_stage2.simps) (simp add: Let_def s1_geometry_def)
  then show ?thesis using c'(1) by (simp add: s1_find_def stage2_not_found_error_def s1_puts_def)
qed

lemma read_fat:
  assumes "s1_geometry s" "c_es c = 0" "c_ds c = 0" "s1_bios s < 3" "low16 (c_edi c) = 0x7E00 + of_nat (32 * k)" "k < 224"
    "read_bytes (s1_mem s) 0x7E00 (512 * 14) = sectors_at di 19 14" "vol_root_lba di = 19"
  obtains c' where "s1_read_fat (int13_image floppy di) c s = Go c' (s\<lparr>stage2_cluster := de_FirstClusterLow (vol_slot di k),
      s1_bios := 0, s1_mem := write_bytes (s1_mem s) 0x7E00 (sectors_at di 1 9)\<rparr>)" "c_ds c' = 0"
proof -
  have off: "(0x7E00 + of_nat (32 * k) + 26 :: u16) = 0x7E00 + of_nat (32 * k + 26)" by (simp add: add.assoc)
  have a: "rm_flat 0 (0x7E00 + of_nat (32 * k) + 26) = 0x7E00 + of_nat (32 * k + 26)"
    unfolding off flat_low by (rule buffer_offset) (use assms(6) in simp)
  have b: "s1_mem s (0x7E00 + of_nat (32 * k + 26)) = root_slot (image16 di) 19 k ! 26"
    "s1_mem s (0x7E00 + of_nat (32 * k + 26) + 1) = root_slot (image16 di) 19 k ! 27"
    using buffer_slot [OF assms(7,6), of 26] buffer_slot [OF assms(7,6), of 27] by (simp_all add: add.assoc)
  have cl: "mem_get16 (s1_mem s) (rm_flat 0 (0x7E00 + of_nat (32 * k) + 26)) = de_FirstClusterLow (vol_slot di k)"
    unfolding a using b
    by (simp add: mem_get16_def read_bytes_def get16_def upt_conv_Cons vol_slot_def dir_entry_of_def assms(8) del: of_nat_add)
  define c3 where "c3 = c\<lparr>c_eax := set_low16 1 (set_low16 (de_FirstClusterLow (vol_slot di k)) (c_eax c)),
      c_ebx := set_low16 0x7E00 (c_ebx c), c_ecx := set_low8 9 (c_ecx c), c_edx := set_low8 (ebr_drive_number s) (c_edx c)\<rparr>"
  let ?s = "s\<lparr>stage2_cluster := de_FirstClusterLow (vol_slot di k)\<rparr>"
  have r: "s1_read_fat (int13_image floppy di) c s = disk_read (int13_image floppy di) c3 ?s"
    using assms(1,3,5) cl by (simp add: s1_read_fat_def Let_def s1_geometry_def s1_buffer_def c3_def)
  have f: "low16 (c_eax c3) = 1" "low16 (c_ebx c3) = 0x7E00" "low8 (c_ecx c3) = 9" "c_es c3 = 0" "c_ds c3 = 0"
    using assms(2,3) by (simp_all add: c3_def)
  obtain c' where "disk_read (int13_image floppy di) c3 ?s = Go c' (?s\<lparr>s1_bios := 0,
      s1_mem := write_bytes (s1_mem ?s) (rm_flat (c_es c3) (low16 (c_ebx c3)))
        (sectors_at di (unat (low16 (c_eax c3))) (unat (low8 (c_ecx c3))))\<rparr>)" "same16 c3 c'"
    by (rule s1_disk_read [of ?s c3 di]) (use assms f in \<open>simp_all add: s1_geometry_def\<close>)
  then show ?thesis using that r f by (simp add: same16_def rm_flat_def)
qed

section \<open>The chain\<close>

lemma next_entry_step:
  assumes "s1_geometry s" "c_ds c = 0" "read_bytes (s1_mem s) 0x7E00 4608 = tbl" "unat (stage2_cluster s) < 3072"
  obtains c' where "next_entry c s = Go c' s" "low16 (c_eax c') = fat12_val tbl (unat (stage2_cluster s))"
    "low16 (c_ebx c') = low16 (c_ebx c) + 512" "c_ds c' = 0" "c_es c' = c_es c"
proof -
  let ?x = "stage2_cluster s"
  have p: "unat (?x * 3) = unat ?x * 3" using assms(4) by (simp add: unat_word_ariths)
  have hi: "drop_bit 16 (ucast ?x * 3 :: u32) = 0"
    using assms(4) by (intro drop_bit_small) (simp add: unat_word_ariths unat_ucast_up16_32)
  have lo: "ucast (ucast ?x * 3 :: u32) = ?x * 3"
    using assms(4) p by (simp add: word_unat_eq_iff unsigned_ucast_eq unat_word_ariths unat_ucast_up16_32 take_bit_eq_mod)
  have h: "unat (?x * 3 div 2) = unat ?x * 3 div 2" by (simp add: unat_div_distrib p)
  have par: "?x * 3 mod 2 = 0 \<longleftrightarrow> even (unat ?x)"
    by (simp add: word_unat_eq_iff unat_mod_distrib p) presburger
  let ?i = "unat ?x * 3 div 2"
  have i: "?i + 1 < 4608" using assms(4) by simp
  have tb: "s1_mem s (0x7E00 + of_nat j) = tbl ! j" if "j < 4608" for j
    using arg_cong [OF assms(3), of "\<lambda>l. l ! j"] that by (simp add: read_bytes_def)
  have e: "0x7E00 + ?x * 3 div 2 = (0x7E00 + of_nat ?i :: u16)"
    using h by (simp add: word_unat_eq_iff unat_word_ariths unat_of_nat_word)
  have "mem_get16 (s1_mem s) (rm_flat 0 (0x7E00 + ?x * 3 div 2)) =
      ucast (tbl ! ?i) OR push_bit 8 (ucast (tbl ! (?i + 1)))"
    unfolding e flat_low using buffer_offset [of ?i] tb [of ?i] tb [of "?i + 1"] i
    by (simp add: mem_get16_def read_bytes_def get16_def upt_conv_Cons add.assoc)
  then have v: "(if ?x * 3 mod 2 = 0 then mem_get16 (s1_mem s) (rm_flat 0 (0x7E00 + ?x * 3 div 2)) AND 0x0FFF
      else drop_bit 4 (mem_get16 (s1_mem s) (rm_flat 0 (0x7E00 + ?x * 3 div 2)))) = fat12_val tbl (unat ?x)"
    by (simp add: fat12_val_def Let_def par)
  obtain c' where "next_entry c s = Go c' s" "low16 (c_ebx c') = low16 (c_ebx c) + 512" "c_ds c' = 0" "c_es c' = c_es c"
    "low16 (c_eax c') = (if ?x * 3 mod 2 = 0 then mem_get16 (s1_mem s) (rm_flat 0 (0x7E00 + ?x * 3 div 2)) AND 0x0FFF
      else drop_bit 4 (mem_get16 (s1_mem s) (rm_flat 0 (0x7E00 + ?x * 3 div 2))))"
    using assms(1,2) hi lo
    by (cases "?x * 3 mod 2 = 0") (simp_all add: next_entry_def Let_def mul16_def div16_short s1_geometry_def s1_buffer_def)
  with that v show ?thesis by simp
qed

lemma load_step:
  assumes "s1_geometry s" "c_es c = 0x2000" "c_ds c = 0" "s1_bios s < 3" "unat (stage2_cluster s) + 31 < 2880"
  obtains c' where "load_cluster (int13_image floppy di) c s = Go c' (s\<lparr>s1_bios := 0,
      s1_mem := write_bytes (s1_mem s) (rm_flat 0x2000 (low16 (c_ebx c))) (image_sector di (unat (stage2_cluster s) + 31))\<rparr>)"
    "c_es c' = 0x2000" "c_ds c' = 0" "low16 (c_ebx c') = low16 (c_ebx c)"
proof -
  define c3 where "c3 = c\<lparr>c_eax := set_low16 (stage2_cluster s + 31) (set_low16 (stage2_cluster s) (c_eax c)),
      c_ecx := set_low8 1 (c_ecx c), c_edx := set_low8 (ebr_drive_number s) (c_edx c)\<rparr>"
  have u: "unat (stage2_cluster s + 31) = unat (stage2_cluster s) + 31" using assms(5) by (simp add: unat_word_ariths)
  have f: "low16 (c_eax c3) = stage2_cluster s + 31" "low8 (c_ecx c3) = 1" "low16 (c_ebx c3) = low16 (c_ebx c)"
    "c_es c3 = 0x2000" "c_ds c3 = 0"
    using assms(2,3) by (simp_all add: c3_def)
  have r: "load_cluster (int13_image floppy di) c s = disk_read (int13_image floppy di) c3 s"
    by (simp add: load_cluster_def Let_def c3_def)
  obtain c' where "disk_read (int13_image floppy di) c3 s = Go c' (s\<lparr>s1_bios := 0,
      s1_mem := write_bytes (s1_mem s) (rm_flat (c_es c3) (low16 (c_ebx c3)))
        (sectors_at di (unat (low16 (c_eax c3))) (unat (low8 (c_ecx c3))))\<rparr>)" "same16 c3 c'"
    by (rule s1_disk_read [of s c3 di]) (use assms f u in \<open>simp_all add: s1_geometry_def\<close>)
  then have "load_cluster (int13_image floppy di) c s = Go c' (s\<lparr>s1_bios := 0,
      s1_mem := write_bytes (s1_mem s) (rm_flat 0x2000 (low16 (c_ebx c))) (image_sector di (unat (stage2_cluster s) + 31))\<rparr>)"
    "same16 c3 c'"
    unfolding r f u by (simp_all add: sectors_at_def)
  then show ?thesis using that f(3-5) by (simp add: same16_def)
qed

text \<open>The clusters so far, behind one another from 0x20000.\<close>

definition loaded :: "u8 list \<Rightarrow> (nat \<Rightarrow> u16) \<Rightarrow> memory \<Rightarrow> nat \<Rightarrow> memory" where
  "loaded di cl m n = write_bytes m 0x20000 (concat (map (\<lambda>i. image_sector di (unat (cl i) + 31)) [0..<n]))"

lemma loaded_length: "length (concat (map (\<lambda>i. image_sector di (f i)) [0..<n])) = 512 * n"
  by (induction n) simp_all

lemma loaded_Suc:
  assumes "i < 128"
  shows "write_bytes (loaded di cl m i) (rm_flat 0x2000 (of_nat (512 * i))) (image_sector di (unat (cl i) + 31)) = loaded di cl m (Suc i)"
proof -
  have "ucast (of_nat (512 * i) :: u16) = (of_nat (512 * i) :: u32)"
    using assms by (simp add: word_unat_eq_iff unat_ucast_up16_32 unat_of_nat_word del: of_nat_mult)
  then have a: "rm_flat 0x2000 (of_nat (512 * i)) = 0x20000 + of_nat (512 * i)"
    by (simp add: rm_flat_def del: of_nat_mult)
  show ?thesis
    using write_bytes_append [of "concat (map (\<lambda>i. image_sector di (unat (cl i) + 31)) [0..<i])" "image_sector di (unat (cl i) + 31)" m "0x20000"]
      assms
    unfolding loaded_def a by (simp add: loaded_length del: of_nat_mult)
qed

lemma loaded_table: "n \<le> 128 \<Longrightarrow> read_bytes (loaded di cl m n) 0x7E00 4608 = read_bytes m 0x7E00 4608"
  unfolding loaded_def by (rule same_range_read [of 0 "0x20000"], rule same_range_steps(3)) (simp_all add: loaded_length)

lemma load_loop:
  assumes "s1_geometry s" "read_bytes m 0x7E00 4608 = tbl" "n \<le> 128" "s1_bios s < 3" "c_es c = 0x2000" "c_ds c = 0"
    "low16 (c_ebx c) = of_nat (512 * i)" "i < n"
    "\<forall>j<n. unat (cl j) + 31 < 2880 \<and> cl (Suc j) = fat12_val tbl (unat (cl j))" "\<forall>j<n. cl j < 0xFF8" "0xFF8 \<le> cl n"
  shows "\<exists>c'. load_stage2_loop (int13_image floppy di) c (s\<lparr>stage2_cluster := cl i, s1_mem := loaded di cl m i\<rparr>) =
    Some (Go c' (s\<lparr>stage2_cluster := cl (n - 1), s1_bios := 0, s1_mem := loaded di cl m n\<rparr>))"
  using assms(1,4-8)
proof (induction "n - Suc i" arbitrary: i c s)
  case (0 i c s)
  then have i: "n = Suc i" by simp
  have cl: "unat (cl i) + 31 < 2880" "unat (cl i) < 3072" "cl (Suc i) = fat12_val tbl (unat (cl i))"
    using assms(9) i by auto
  let ?s = "s\<lparr>stage2_cluster := cl i, s1_mem := loaded di cl m i\<rparr>" and ?s1 = "s\<lparr>stage2_cluster := cl i, s1_bios := 0, s1_mem := loaded di cl m n\<rparr>"
  obtain c1 where c1: "load_cluster (int13_image floppy di) c ?s = Go c1 ?s1" "c_es c1 = 0x2000" "c_ds c1 = 0"
    using load_step [of ?s c di] 0 assms(3) cl loaded_Suc [of i di cl m] i by (auto simp: s1_geometry_def)
  obtain c2 where "next_entry c1 ?s1 = Go c2 ?s1" "low16 (c_eax c2) = cl n"
    using next_entry_step [of ?s1 c1 tbl] 0 assms(2,3) cl c1 loaded_table [of n di cl m] i by (auto simp: s1_geometry_def)
  then show ?case using c1 assms(11) i by (subst load_stage2_loop.simps) simp
next
  case (Suc k i c s)
  then have i: "Suc i < n" by simp
  have cl: "unat (cl i) + 31 < 2880" "unat (cl i) < 3072" "cl (Suc i) = fat12_val tbl (unat (cl i))"
    using assms(9) i by (auto dest: spec [of _ i])
  let ?s = "s\<lparr>stage2_cluster := cl i, s1_mem := loaded di cl m i\<rparr>" and ?s1 = "s\<lparr>stage2_cluster := cl i, s1_bios := 0, s1_mem := loaded di cl m (Suc i)\<rparr>"
  obtain c1 where c1: "load_cluster (int13_image floppy di) c ?s = Go c1 ?s1" "c_es c1 = 0x2000" "c_ds c1 = 0"
    "low16 (c_ebx c1) = of_nat (512 * i)"
    using load_step [of ?s c di] Suc.prems assms(3) cl loaded_Suc [of i di cl m] i by (auto simp: s1_geometry_def)
  obtain c2 where c2: "next_entry c1 ?s1 = Go c2 ?s1" "low16 (c_eax c2) = cl (Suc i)" "c_ds c2 = 0" "c_es c2 = 0x2000"
    "low16 (c_ebx c2) = of_nat (512 * Suc i)"
    using next_entry_step [of ?s1 c1 tbl] Suc.prems assms(2,3) cl c1 loaded_table [of "Suc i" di cl m] i
    by (auto simp: s1_geometry_def algebra_simps)
  let ?t = "s\<lparr>s1_bios := 0\<rparr>"
  have "\<exists>c'. load_stage2_loop (int13_image floppy di) c2 (?t\<lparr>stage2_cluster := cl (Suc i), s1_mem := loaded di cl m (Suc i)\<rparr>) =
      Some (Go c' (?t\<lparr>stage2_cluster := cl (n - 1), s1_bios := 0, s1_mem := loaded di cl m n\<rparr>))"
    using Suc.hyps(2) Suc.prems(1) i c2 by (intro Suc.hyps(1)) (simp_all add: s1_geometry_def)
  moreover have "?t\<lparr>stage2_cluster := cl (Suc i), s1_mem := loaded di cl m (Suc i)\<rparr> = ?s1\<lparr>stage2_cluster := cl (Suc i)\<rparr>"
    by simp
  moreover have "\<not> 0xFF8 \<le> cl (Suc i)" using assms(10) i by (simp add: not_le)
  ultimately show ?case using c1(1) c2(1,2) by (subst load_stage2_loop.simps) (simp only: s1_then.simps s1_result.case if_False, simp)
qed

section \<open>Volumes that the sector is made for\<close>

text \<open>The parameter block of the volume is the one that the sector is assembled with.\<close>

definition stage1_volume :: "u8 list \<Rightarrow> bool" where
  "stage1_volume di \<longleftrightarrow> get16 (vol_boot di) 11 = 512 \<and> vol_boot di ! 13 = 1 \<and> vol_reserved di = 1 \<and>
     vol_boot di ! 16 = 2 \<and> vol_entries di = 224 \<and> vol_spf di = 9"

text \<open>A chain of \<open>n\<close> clusters on the disk, up to 64 KiB, behind which there is an end mark.\<close>

definition stage1_chain :: "u8 list \<Rightarrow> u32 \<Rightarrow> nat \<Rightarrow> bool" where
  "stage1_chain di first n \<longleftrightarrow> 1 \<le> n \<and> n \<le> 128 \<and>
     (\<forall>i<n. \<exists>c. chain_at (vol_view di) first i = Some (c, 0) \<and> c < 0xFF8 \<and> unat c + 31 < 2880) \<and>
     (\<exists>c. chain_at (vol_view di) first n = Some (c, 0) \<and> 0xFF8 \<le> c)"

lemma stage1_volume_facts:
  assumes "stage1_volume di"
  shows "vol_root_lba di = 19" "vol_data_lba di = 33" "vol_fat di = sectors_at di 1 9"
    "bs_SectorsPerCluster (vol_view di) = 1"
  using assms by (simp_all add: stage1_volume_def vol_root_lba_def vol_data_lba_def vol_fat_def sectors_at_def
      bs_SectorsPerCluster_def vol_view_def)

text \<open>The clusters of the chain as numbers of 16 bits.\<close>

definition chain_cluster :: "u8 list \<Rightarrow> u32 \<Rightarrow> nat \<Rightarrow> u16" where
  "chain_cluster di first i = ucast (fst (the (chain_at (vol_view di) first i)))"

lemma chain_clusters:
  assumes "stage1_volume di" "stage1_chain di first n"
  shows "\<forall>j<n. unat (chain_cluster di first j) + 31 < 2880 \<and>
      chain_cluster di first (Suc j) = fat12_val (sectors_at di 1 9) (unat (chain_cluster di first j))"
    "\<forall>j<n. chain_cluster di first j < 0xFF8" "0xFF8 \<le> chain_cluster di first n"
    "\<forall>j<n. unat (sector_lba (vol_view di) first j) = unat (chain_cluster di first j) + 31"
proof -
  note vol = stage1_volume_facts [OF assms(1)]
  have c: "\<exists>c. chain_at (vol_view di) first j = Some (c, 0) \<and> c < 0xFF8 \<and> unat c + 31 < 2880 \<and>
      unat (chain_cluster di first j) = unat c" if j: "j < n" for j
  proof -
    from assms(2) j obtain c where c: "chain_at (vol_view di) first j = Some (c, 0)" "c < 0xFF8" "unat c + 31 < 2880"
      by (auto simp: stage1_chain_def)
    moreover have "unat (ucast c :: u16) = unat c" using c(3) by (simp add: unsigned_ucast_eq take_bit_eq_mod)
    ultimately show ?thesis by (simp add: chain_cluster_def)
  qed
  have next_cl: "chain_at (vol_view di) first (Suc j) = Some (ucast (fat12_val (sectors_at di 1 9) (unat c)), 0)"
    if "chain_at (vol_view di) first j = Some (c, 0)" "unat c + 31 < 2880" for j c
  proof -
    have "g_Fat (vol_view di) = sectors_at di 1 9" by (simp add: vol_view_def vol(3))
    moreover have "FAT_NextCluster (sectors_at di 1 9) c = Some (ucast (fat12_val (sectors_at di 1 9) (unat c)))"
      using next_cluster_nat [of "unat c" "sectors_at di 1 9"] that(2) by simp
    ultimately show ?thesis using that(1) by (simp add: chain_next_def vol(4))
  qed
  have narrow: "ucast (ucast w :: u32) = w" for w :: u16 by (rule bit_word_eqI) (simp add: bit_simps)
  show "\<forall>j<n. unat (chain_cluster di first j) + 31 < 2880 \<and>
      chain_cluster di first (Suc j) = fat12_val (sectors_at di 1 9) (unat (chain_cluster di first j))"
  proof (intro allI impI)
    fix j assume "j < n"
    from c [OF this] obtain cc where cc: "chain_at (vol_view di) first j = Some (cc, 0)" "unat cc + 31 < 2880"
      "unat (chain_cluster di first j) = unat cc" by blast
    from next_cl [OF cc(1,2)] have "chain_cluster di first (Suc j) = fat12_val (sectors_at di 1 9) (unat cc)"
      by (simp add: chain_cluster_def narrow del: chain_at.simps)
    then show "unat (chain_cluster di first j) + 31 < 2880 \<and>
        chain_cluster di first (Suc j) = fat12_val (sectors_at di 1 9) (unat (chain_cluster di first j))"
      using cc by simp
  qed
  show "\<forall>j<n. chain_cluster di first j < 0xFF8"
    using c by (fastforce simp: word_less_nat_alt)
  obtain m where m: "n = Suc m" using assms(2) by (cases n) (auto simp: stage1_chain_def)
  from c [of m] m obtain cm where cm: "chain_at (vol_view di) first m = Some (cm, 0)" "unat cm + 31 < 2880" by blast
  have "chain_at (vol_view di) first n = Some (ucast (fat12_val (sectors_at di 1 9) (unat cm)), 0)"
    using next_cl [OF cm] m by simp
  moreover from assms(2) obtain ce where ce: "chain_at (vol_view di) first n = Some (ce, 0)" "0xFF8 \<le> ce"
    by (auto simp: stage1_chain_def)
  ultimately show "0xFF8 \<le> chain_cluster di first n"
    by (auto simp: chain_cluster_def narrow word_le_nat_alt unat_ucast_up16_32)
  show "\<forall>j<n. unat (sector_lba (vol_view di) first j) = unat (chain_cluster di first j) + 31"
  proof (intro allI impI)
    fix j assume "j < n"
    from c [OF this] obtain cc where cc: "chain_at (vol_view di) first j = Some (cc, 0)" "unat cc + 31 < 2880"
      "unat (chain_cluster di first j) = unat cc" by blast
    have "sector_lba (vol_view di) first j = cc + 31"
      by (simp add: sector_lba_def cc(1) chain_lba_def FAT_ClusterToLba_def vol(4)) (simp add: vol_view_def vol(2))
    then show "unat (sector_lba (vol_view di) first j) = unat (chain_cluster di first j) + 31"
      using cc by (simp add: unat_word_ariths)
  qed
qed

lemma loaded_bytes:
  assumes "stage1_volume di" "stage1_chain di first n"
  shows "read_bytes (loaded di (chain_cluster di first) m n) 0x20000 (512 * n) = vol_bytes di first (512 * n)"
proof -
  let ?f = "\<lambda>i. image_sector di (unat (chain_cluster di first i) + 31)"
  have "n \<le> 128" using assms(2) by (simp add: stage1_chain_def)
  then have "read_bytes (loaded di (chain_cluster di first) m n) 0x20000 (512 * n) = concat (map ?f [0..<n])"
    using read_write_bytes [of 0 "512 * n" "concat (map ?f [0..<n])" m "0x20000"] by (simp add: loaded_def loaded_length)
  also have "\<dots> = vol_bytes di first (512 * n)"
  proof (rule nth_equalityI)
    fix j assume "j < length (concat (map ?f [0..<n]))"
    then have j: "j < 512 * n" by (simp add: loaded_length)
    then have b: "j div 512 < n" "j mod 512 < 512" by (simp_all add: less_mult_imp_div_less mult.commute)
    have "concat (map ?f [0..<n]) ! (512 * (j div 512) + j mod 512) = ?f (j div 512) ! (j mod 512)"
      by (rule blocks_nth) (use b in simp_all)
    moreover have "image16 di (sector_lba (vol_view di) first (j div 512)) = ?f (j div 512)"
    proof -
      have "unat (sector_lba (vol_view di) first (j div 512)) = unat (chain_cluster di first (j div 512)) + 31"
        "unat (chain_cluster di first (j div 512)) + 31 < 2880"
        using chain_clusters(1,4) [OF assms] b(1) by blast+
      then show ?thesis by (simp add: image16_def unsigned_ucast_eq take_bit_eq_mod)
    qed
    ultimately show "concat (map ?f [0..<n]) ! j = vol_bytes di first (512 * n) ! j"
      using j by (simp add: vol_bytes_def file_byte_def)
  qed (simp add: loaded_length vol_bytes_def)
  finally show ?thesis .
qed

text \<open>What a volume holds in the buffer once the root directory, and then the table, is read.\<close>

lemma s1_to_root:
  assumes "stage1_volume di" "fails < 3"
  obtains c' m' where "s1_then (s1_main_start (int13_image floppy di) c (stage1_image mem fails)) (s1_read_root (int13_image floppy di)) =
      Go c' ((stage1_image m' 0)\<lparr>ebr_drive_number := low8 (c_edx c), s1_tty := msg_boot\<rparr>)" "c_es c' = 0" "c_ds c' = 0"
    "read_bytes m' 0x7E00 (512 * 14) = sectors_at di 19 14"
proof -
  let ?s = "(stage1_image mem fails)\<lparr>ebr_drive_number := low8 (c_edx c), s1_tty := msg_boot\<rparr>"
  obtain c1 where c1: "s1_main_start (int13_image floppy di) c (stage1_image mem fails) = Go c1 ?s" "c_ds c1 = 0" "c_es c1 = 0"
    using main_start [of di c "stage1_image mem fails"] by (auto simp: stage1_image_def)
  have g: "s1_geometry ?s" by (simp add: s1_geometry_def stage1_image_def)
  let ?m = "write_bytes mem 0x7E00 (sectors_at di 19 14)"
  obtain c2 where c2: "s1_read_root (int13_image floppy di) c1 ?s =
      Go c2 (?s\<lparr>s1_bios := 0, s1_mem := write_bytes (s1_mem ?s) 0x7E00 (sectors_at di 19 14)\<rparr>)" "c_es c2 = 0" "c_ds c2 = 0"
    by (rule read_root [OF g c1(3,2)]) (use assms(2) in \<open>simp add: stage1_image_def\<close>)
  moreover have "read_bytes ?m 0x7E00 (512 * 14) = sectors_at di 19 14"
    using read_write_bytes [of 0 "512 * 14" "sectors_at di 19 14" mem "0x7E00"] by simp
  ultimately show ?thesis using that [of c2 ?m] c1 by (simp add: stage1_image_def)
qed

text \<open>The loop over a whole chain, and the registers with which stage 2 is entered.\<close>

lemma load_chain:
  assumes "stage1_volume di" "stage1_chain di first n" "s1_geometry s" "s1_bios s = 0" "c_ds c = 0"
    "read_bytes m 0x7E00 4608 = sectors_at di 1 9"
  shows "\<exists>c'. s1_load (int13_image floppy di) c (s\<lparr>stage2_cluster := chain_cluster di first 0, s1_mem := loaded di (chain_cluster di first) m 0\<rparr>) =
    Some (Go c' (s\<lparr>stage2_cluster := chain_cluster di first (n - 1), s1_bios := 0, s1_mem := loaded di (chain_cluster di first) m n\<rparr>))"
proof -
  have "n \<le> 128" "0 < n" using assms(2) by (simp_all add: stage1_chain_def)
  from load_loop [OF assms(3,6) this(1) _ _ _ _ this(2) chain_clusters(1-3) [OF assms(1,2)],
      of "c\<lparr>c_es := 0x2000, c_ebx := set_low16 0 (set_low16 0x2000 (c_ebx c))\<rparr>"] assms(4,5)
  show ?thesis by (simp add: s1_load_def STAGE2_LOAD_SEGMENT_def STAGE2_LOAD_OFFSET_def)
qed

lemma enters_stage2:
  obtains c' where "read_finish c s = Stop (Enter 0x2000 0) c' s" "c_cs c' = 0x2000" "c_eip c' = 0" "c_ds c' = 0x2000"
    "snd (stage2_entry c') = ucast (ebr_drive_number s)" "c_ss (fst (stage2_entry c')) = 0x2000"
    "low16 (c_esp (fst (stage2_entry c'))) = 0xFFF0"
  by (simp add: read_finish_def STAGE2_LOAD_SEGMENT_def STAGE2_LOAD_OFFSET_def stage2_entry_def Let_def cli_def low16_parts
      del: low16_set_parts)

text \<open>
  C4: The boot sector loads stage 2. On a volume with the parameters that it is assembled with, and a
  drive that fails at most twice, it finds the first entry of the root directory with the name of
  stage 2, follows its chain through the table, and enters 0x2000:0 with the whole clusters of the
  file behind one another in memory, in the order of the chain; stage 2 then starts with its data
  segment as stack segment and passes to cstart the drive that the BIOS booted from.
\<close>

theorem stage1_loads_stage2:
  assumes "stage1_volume di" "first_in_root di (bytes ''STAGE2  BIN'') k"
    "first = ucast (de_FirstClusterLow (vol_slot di k))" "stage1_chain di first n" "fails < 3"
  shows "\<exists>c' s'. stage1_main (int13_image floppy di) c (stage1_image mem fails) = Some (Stop (Enter 0x2000 0) c' s') \<and>
    s1_tty s' = msg_boot \<and> read_bytes (s1_mem s') 0x20000 (512 * n) = vol_bytes di first (512 * n) \<and>
    c_cs c' = 0x2000 \<and> c_eip c' = 0 \<and> c_ds c' = 0x2000 \<and>
    snd (stage2_entry c') = ucast (low8 (c_edx c)) \<and> c_ss (fst (stage2_entry c')) = 0x2000 \<and>
    low16 (c_esp (fst (stage2_entry c'))) = 0xFFF0"
proof -
  note vol = stage1_volume_facts [OF assms(1)]
  have k: "k < 224" "de_Name (vol_slot di k) = file_stage2_bin" "\<forall>i<k. de_Name (vol_slot di i) \<noteq> file_stage2_bin"
    using assms(1,2) by (simp_all add: first_in_root_def stage1_volume_def file_stage2_bin_def)
  obtain c1 m1 where root: "s1_then (s1_main_start (int13_image floppy di) c (stage1_image mem fails)) (s1_read_root (int13_image floppy di)) =
      Go c1 ((stage1_image m1 0)\<lparr>ebr_drive_number := low8 (c_edx c), s1_tty := msg_boot\<rparr>)" "c_es c1 = 0" "c_ds c1 = 0"
    "read_bytes m1 0x7E00 (512 * 14) = sectors_at di 19 14"
    by (rule s1_to_root [OF assms(1,5)])
  let ?s1 = "(stage1_image m1 (0 :: nat))\<lparr>ebr_drive_number := low8 (c_edx c), s1_tty := msg_boot\<rparr>"
  have s1: "s1_geometry ?s1" "s1_mem ?s1 = m1" "s1_bios ?s1 < 3" by (simp_all add: s1_geometry_def stage1_image_def)
  obtain c2 where c2: "s1_find c1 ?s1 = Go c2 ?s1" "c_es c2 = 0" "c_ds c2 = 0" "low16 (c_edi c2) = 0x7E00 + of_nat (32 * k)"
    using search_finds [OF s1(1) root(2) _ vol(1) k] root(3,4) s1(2) by auto
  let ?m = "write_bytes m1 0x7E00 (sectors_at di 1 9)" and ?cl = "chain_cluster di first"
  obtain c3 where c3: "s1_read_fat (int13_image floppy di) c2 ?s1 = Go c3 (?s1\<lparr>stage2_cluster := de_FirstClusterLow (vol_slot di k),
      s1_bios := 0, s1_mem := write_bytes (s1_mem ?s1) 0x7E00 (sectors_at di 1 9)\<rparr>)" "c_ds c3 = 0"
    by (rule read_fat [OF s1(1) c2(2,3) s1(3) c2(4) k(1) _ vol(1)]) (use root(4) s1(2) in simp)
  define s3 where "s3 = ?s1\<lparr>stage2_cluster := ?cl 0, s1_bios := 0, s1_mem := loaded di ?cl ?m 0\<rparr>"
  have "?cl 0 = de_FirstClusterLow (vol_slot di k)"
    unfolding chain_cluster_def assms(3) by (simp, rule bit_word_eqI) (simp add: bit_simps)
  then have fat: "s1_read_fat (int13_image floppy di) c2 ?s1 = Go c3 s3"
    using c3(1) s1(2) by (simp add: s3_def loaded_def write_bytes_def)
  have tbl: "read_bytes ?m 0x7E00 4608 = sectors_at di 1 9"
    using read_write_bytes [of 0 4608 "sectors_at di 1 9" m1 "0x7E00"] by simp
  let ?s4 = "?s1\<lparr>stage2_cluster := ?cl (n - 1), s1_bios := 0, s1_mem := loaded di ?cl ?m n\<rparr>"
  obtain c4 where "s1_load (int13_image floppy di) c3 s3 = Some (Go c4 ?s4)"
    using load_chain [OF assms(1,4) _ _ c3(2) tbl, of "?s1\<lparr>s1_bios := 0\<rparr>"] by (auto simp: s3_def s1_geometry_def stage1_image_def)
  then have main: "stage1_main (int13_image floppy di) c (stage1_image mem fails) = Some (read_finish c4 ?s4)"
    by (simp add: stage1_main_def root(1) c2(1) fat)
  obtain c5 where fin: "read_finish c4 ?s4 = Stop (Enter 0x2000 0) c5 ?s4" "c_cs c5 = 0x2000" "c_eip c5 = 0" "c_ds c5 = 0x2000"
    "snd (stage2_entry c5) = ucast (ebr_drive_number ?s4)" "c_ss (fst (stage2_entry c5)) = 0x2000"
    "low16 (c_esp (fst (stage2_entry c5))) = 0xFFF0"
    by (rule enters_stage2)
  then show ?thesis using main loaded_bytes [OF assms(1,4), of ?m] by (auto simp: stage1_image_def)
qed

text \<open>
  C38: Where the boot sector gives up: after three failed attempts at a sector, and when no entry of
  the root directory has the name of stage 2, it prints the message for the case behind its greeting
  and restarts the machine; it neither enters stage 2 nor runs on.
\<close>

theorem stage1_stops:
  assumes "3 \<le> fails \<or> stage1_volume di \<and> (\<forall>i<224. de_Name (vol_slot di i) \<noteq> bytes ''STAGE2  BIN'')"
  shows "\<exists>c' s'. stage1_main (int13_image floppy di) c (stage1_image mem fails) = Some (Stop Restart c' s') \<and>
    s1_tty s' = msg_boot @ (if 3 \<le> fails then msg_read_failed else msg_stage2_not_found)"
proof (cases "3 \<le> fails")
  case True
  let ?s = "(stage1_image mem fails)\<lparr>ebr_drive_number := low8 (c_edx c), s1_tty := msg_boot\<rparr>"
  obtain c1 where c1: "s1_main_start (int13_image floppy di) c (stage1_image mem fails) = Go c1 ?s" "c_ds c1 = 0" "c_es c1 = 0"
    using main_start [of di c "stage1_image mem fails"] by (auto simp: stage1_image_def)
  have g: "s1_geometry ?s" by (simp add: s1_geometry_def stage1_image_def)
  obtain c3 where r: "s1_read_root (int13_image floppy di) c1 ?s = disk_read (int13_image floppy di) c3 ?s" "low16 (c_eax c3) = 19"
    by (rule read_root_call [OF g c1(3,2)])
  obtain c' s' where "disk_read (int13_image floppy di) c3 ?s = Stop Restart c' s'" "s1_tty s' = s1_tty ?s @ msg_read_failed"
    using s1_disk_read_fails [of ?s c3 di] True r(2) by (auto simp: stage1_image_def)
  then show ?thesis using True by (simp add: stage1_main_def c1(1) r(1))
next
  case False
  with assms have vol: "stage1_volume di" "\<forall>i<224. de_Name (vol_slot di i) \<noteq> file_stage2_bin" "fails < 3"
    by (auto simp: file_stage2_bin_def)
  obtain c1 m1 where root: "s1_then (s1_main_start (int13_image floppy di) c (stage1_image mem fails)) (s1_read_root (int13_image floppy di)) =
      Go c1 ((stage1_image m1 0)\<lparr>ebr_drive_number := low8 (c_edx c), s1_tty := msg_boot\<rparr>)" "c_es c1 = 0"
    "read_bytes m1 0x7E00 (512 * 14) = sectors_at di 19 14"
    by (rule s1_to_root [OF vol(1,3)])
  let ?s1 = "(stage1_image m1 (0 :: nat))\<lparr>ebr_drive_number := low8 (c_edx c), s1_tty := msg_boot\<rparr>"
  have s1: "s1_geometry ?s1" "s1_mem ?s1 = m1" by (simp_all add: s1_geometry_def stage1_image_def)
  obtain c2 where "s1_find c1 ?s1 = Stop Restart c2 (?s1\<lparr>s1_tty := s1_tty ?s1 @ msg_stage2_not_found\<rparr>)"
    using search_misses [OF s1(1) root(2) _ stage1_volume_facts(1) [OF vol(1)] vol(2)] root(3) s1(2) by auto
  then show ?thesis using False by (simp add: stage1_main_def root(1))
qed

section \<open>Floppies for the witnesses\<close>

text \<open>
  A volume with the parameters of the sector: the first table in its first sector, one entry in the
  first sector of the root directory, and two data sectors.
\<close>

definition stage1_block :: "u8 list" where
  "stage1_block = replicate 11 0 @ [0, 2, 1, 1, 0, 2, 224, 0, 0x40, 0x0B, 0xF0, 9, 0]"

definition stage1_parts :: "u8 list \<Rightarrow> u8 list list" where
  "stage1_parts entry =
     [stage1_block, fat12_pack [0xFF0, 0xFFF, 3, 0xFFF]] @ replicate 17 [] @ [entry] @ replicate 13 [] @
     [replicate 512 0xEB, replicate 88 0x90]"

definition stage1_floppy :: "u8 list \<Rightarrow> u8 list" where
  "stage1_floppy entry = concat (map padded (stage1_parts entry))"

definition stage2_file_entry :: "u8 list" where
  "stage2_file_entry = bytes ''STAGE2  BIN'' @ [0x20] @ replicate 14 0 @ [2, 0, 0x58, 2, 0, 0]"

lemma stage1_parts_length: "length (stage1_parts entry) = 35"
  by (simp add: stage1_parts_def)

lemma stage1_floppy_sector:
  assumes "length entry \<le> 512" "n < 35"
  shows "image_sector (stage1_floppy entry) n = padded (stage1_parts entry ! n)"
proof -
  have "length s \<le> 512" if "s \<in> set (stage1_parts entry)" for s
    using that assms(1) by (auto simp: stage1_parts_def stage1_block_def)
  then have "\<forall>s \<in> set (map padded (stage1_parts entry)). length s = 512" by (auto simp: padded_length)
  then show ?thesis
    using image_sector_concat [of "map padded (stage1_parts entry)" n] assms(2) stage1_parts_length [of entry]
    by (simp add: stage1_floppy_def)
qed

lemma stage1_floppy_volume: "length entry \<le> 512 \<Longrightarrow> stage1_volume (stage1_floppy entry)"
  using stage1_floppy_sector [of entry 0]
  by (simp add: stage1_volume_def vol_boot_def vol_reserved_def vol_spf_def vol_entries_def padded_def stage1_parts_def
      stage1_block_def get16_def nth_append)

lemma stage1_floppy_root:
  assumes "length entry \<le> 512" "k < 224"
  shows "root_slot (image16 (stage1_floppy entry)) 19 k =
    (if k < 16 then take 32 (drop (32 * k) (padded entry)) else replicate 32 0)"
proof -
  have l: "k div 16 < 14" using assms(2) by simp
  have "unat (ucast (19 + of_nat (k div 16) :: u32) :: u16) = 19 + k div 16"
    using l by (simp add: unsigned_ucast_eq unat_word_ariths unat_of_nat_word take_bit_eq_mod)
  then have i: "image16 (stage1_floppy entry) (19 + of_nat (k div 16)) = padded (stage1_parts entry ! (19 + k div 16))"
    using stage1_floppy_sector [OF assms(1), of "19 + k div 16"] l by (simp add: image16_def)
  show ?thesis
  proof (cases "k < 16")
    case True
    then show ?thesis using i by (simp add: root_slot_def stage1_parts_def nth_append)
  next
    case False
    then have "0 < k div 16" by (simp add: div_greater_zero_iff)
    then have "stage1_parts entry ! (19 + k div 16) = []"
      using l by (simp add: stage1_parts_def nth_append nth_Cons')
    moreover have "32 * (k mod 16) \<le> 480" using mod_less_divisor [of 16 k] by simp
    ultimately show ?thesis using False i by (simp add: root_slot_def padded_def)
  qed
qed

lemma stage2_file_slot:
  "vol_slot (stage1_floppy stage2_file_entry) 0 = dir_entry_of stage2_file_entry"
proof -
  have l: "length stage2_file_entry = 32" by (simp add: stage2_file_entry_def bytes_def)
  then have "take 32 (drop (32 * 0) (padded stage2_file_entry)) = stage2_file_entry" by (simp add: padded_def)
  then show ?thesis
    using stage1_floppy_root [of stage2_file_entry 0] stage1_volume_facts(1) [OF stage1_floppy_volume, of stage2_file_entry] l
    by (simp add: vol_slot_def)
qed

lemma stage2_file_chain: "stage1_chain (stage1_floppy stage2_file_entry) 2 2"
proof -
  let ?di = "stage1_floppy stage2_file_entry" and ?es = "[0xFF0, 0xFFF, 3, 0xFFF] :: u16 list"
  have l: "length stage2_file_entry \<le> 512" by (simp add: stage2_file_entry_def bytes_def)
  note vol = stage1_volume_facts [OF stage1_floppy_volume [OF l]]
  have "image_sector ?di 1 = fat12_pack ?es @ replicate 506 0"
    using stage1_floppy_sector [OF l, of 1] by (simp add: stage1_parts_def padded_def)
  moreover have "sectors_at ?di 1 9 = image_sector ?di 1 @ sectors_at ?di 2 8"
    by (simp add: sectors_at_def upt_rec [of 0 9] upt_conv_Cons map_Suc_upt [symmetric] del: upt_Suc)
  ultimately have f: "sectors_at ?di 1 9 = fat12_pack ?es @ (replicate 506 0 @ sectors_at ?di 2 8)" by simp
  have n: "FAT_NextCluster (sectors_at ?di 1 9) (of_nat i) = Some (ucast (take_bit 12 (?es ! i)))" if "i < 4" for i
  proof -
    have "i < length ?es" using that by simp
    from fat12_entry [OF this] have "fat12_val (sectors_at ?di 1 9) i = take_bit 12 (?es ! i)" unfolding f by blast
    then show ?thesis using that next_cluster_nat [of i "sectors_at ?di 1 9"] by simp
  qed
  have step: "chain_next (vol_view ?di) (c, 0) = map_option (\<lambda>c. (c, 0)) (FAT_NextCluster (sectors_at ?di 1 9) c)" for c
    by (simp add: chain_next_def vol(4)) (simp add: vol_view_def vol(3))
  have "FAT_NextCluster (sectors_at ?di 1 9) 2 = Some 3" "FAT_NextCluster (sectors_at ?di 1 9) 3 = Some 0xFFF"
    using n [of 2] n [of 3] by simp_all
  then have at: "chain_at (vol_view ?di) 2 1 = Some (3, 0)" "chain_at (vol_view ?di) 2 2 = Some (0xFFF, 0)"
    by (simp_all add: step numeral_2_eq_2)
  have "\<exists>c. chain_at (vol_view ?di) 2 i = Some (c, 0) \<and> c < 0xFF8 \<and> unat c + 31 < 2880" if "i < 2" for i
    using that at(1) by (cases i) (simp_all del: chain_at.simps(2) add: less_Suc_eq)
  then show ?thesis using at(2) by (simp add: stage1_chain_def del: chain_at.simps)
qed

lemma stage1_loads_stage2_witness:
  "\<exists>c' s'. stage1_main (int13_image floppy (stage1_floppy stage2_file_entry)) some_cpu (stage1_image (\<lambda>a. 0) 2) =
     Some (Stop (Enter 0x2000 0) c' s') \<and>
     read_bytes (s1_mem s') 0x20000 1024 = vol_bytes (stage1_floppy stage2_file_entry) 2 1024"
proof -
  let ?di = "stage1_floppy stage2_file_entry"
  have l: "length stage2_file_entry \<le> 512" by (simp add: stage2_file_entry_def bytes_def)
  note vol = stage1_floppy_volume [OF l]
  have "first_in_root ?di (bytes ''STAGE2  BIN'') 0"
    using vol by (simp add: first_in_root_def stage1_volume_def stage2_file_slot) (simp add: dir_entry_of_def stage2_file_entry_def bytes_def)
  moreover have "de_FirstClusterLow (vol_slot ?di 0) = 2"
    by (simp add: stage2_file_slot) (simp add: dir_entry_of_def stage2_file_entry_def bytes_def get16_def nth_append)
  ultimately show ?thesis
    using stage1_loads_stage2 [OF vol, of 0 2 2 2 some_cpu "\<lambda>a. 0"] stage2_file_chain by auto
qed

lemma stage1_stops_witness:
  "\<exists>c' s'. stage1_main (int13_image floppy (stage1_floppy [])) some_cpu (stage1_image (\<lambda>a. 0) 0) =
     Some (Stop Restart c' s') \<and> s1_tty s' = msg_boot @ msg_stage2_not_found"
proof -
  have vol: "stage1_volume (stage1_floppy [])" by (rule stage1_floppy_volume) simp
  have "de_Name (vol_slot (stage1_floppy []) i) \<noteq> bytes ''STAGE2  BIN''" if "i < 224" for i
  proof -
    have "root_slot (image16 (stage1_floppy [])) 19 i = replicate 32 0"
      using stage1_floppy_root [of "[]" i] that by (simp add: padded_def)
    then have "de_Name (vol_slot (stage1_floppy []) i) = replicate 11 0"
      by (simp add: vol_slot_def stage1_volume_facts(1) [OF vol] dir_entry_of_def)
    then have "hd (de_Name (vol_slot (stage1_floppy []) i)) = 0" by simp
    moreover have "hd (bytes ''STAGE2  BIN'') = 0x53" by (simp add: bytes_def)
    ultimately show ?thesis by auto
  qed
  then show ?thesis using stage1_stops [of 0 "stage1_floppy []" some_cpu "\<lambda>a. 0"] vol by simp
qed

end
