(* ===== verification/IrqService.thy ===== *)
theory IrqService
  imports IrqFlow
begin

text \<open>
  Interrupts in operation: sequences of timer and keyboard interrupts served through the
  dispatcher, and processor exceptions, which stop the machine with a report.
\<close>

unbundle bit_operations_syntax

section \<open>Controllers\<close>

text \<open>
  On initialised controllers, masking an interrupt line adds exactly that line to the set of
  masked lines, unmasking removes exactly it, for all sixteen lines; remapping moves the vectors of
  both chips and keeps the set of masked lines; and the end-of-interrupt command of a line that is
  the only one in service retires it, through the cascade for lines 8 to 15.
\<close>

theorem pic_controls:
  assumes "initialised b" "unat irq < 16" "pic_idle b"
  shows "irq_mask (pic_set_mask board_hw irq b) = irq_mask b OR push_bit (unat irq) 1 \<and>
    irq_mask (pic_clear_mask board_hw irq b) = irq_mask b AND NOT (push_bit (unat irq) 1) \<and>
    irq_mask (pic_remap board_hw m s b) = irq_mask b \<and>
    vbase (b_master (pic_remap board_hw m s b)) = m AND 0xF8 \<and>
    vbase (b_slave (pic_remap board_hw m s b)) = s AND 0xF8 \<and>
    pic_send_eoi board_hw irq (pic_accept (unat irq) b) = b"
  using irq_mask_update [OF assms(2,1)] eoi_board [OF assms(3,2)]
  by (simp add: remap_board [OF assms(1)] irq_mask_def)

definition cold_board :: board where
  "cold_board = \<lparr>b_master = \<lparr>imr = 0xFF, in_service = 0, vbase = 8, cascade = 4, icw = 0\<rparr>,
     b_slave = \<lparr>imr = 0xFF, in_service = 0, vbase = 0x70, cascade = 2, icw = 0\<rparr>, b_scan = 0\<rparr>"

lemma cold_board_facts: "initialised cold_board" "pic_idle cold_board"
  by (simp_all add: cold_board_def initialised_def pic_idle_def)

lemma pic_controls_witness:
  "irq_mask (pic_clear_mask board_hw 9 cold_board) = 0xFDFF \<and>
   vbase (b_master (pic_remap board_hw 0x20 0x28 cold_board)) = 0x20"
proof -
  have "irq_mask cold_board = 0xFFFF" by (simp add: cold_board_def irq_mask_def)
  then show ?thesis
    using pic_controls [of cold_board 9 "0x20" "0x28"] cold_board_facts by simp
qed

section \<open>Serving interrupts\<close>

datatype irq_event = Timer | Key u8

fun irq_line :: "irq_event \<Rightarrow> nat" where
  "irq_line Timer = 0"
| "irq_line (Key c) = 1"

fun irq_latch :: "irq_event \<Rightarrow> board \<Rightarrow> board" where
  "irq_latch Timer b = b"
| "irq_latch (Key c) b = b\<lparr>b_scan := c\<rparr>"

definition k_board :: "board kernel \<Rightarrow> board" where
  "k_board k = snd (con_uart (k_con k))"

text \<open>
  The board raises the line of an event: unless the line is masked, the controller accepts it and
  the processor enters the dispatcher with the vector of the line.
\<close>

definition deliver :: "interrupt_frame \<Rightarrow> irq_event \<Rightarrow> board kernel \<Rightarrow> isr_error + board isr_result" where
  "deliver f ev k =
     (if bit (irq_mask (k_board k)) (irq_line ev) then Inr (Returned k)
      else isr_dispatch board_hw
        (f\<lparr>fr_isr_num := ucast (vbase (b_master (k_board k))) + of_nat (irq_line ev)\<rparr>)
        (kernel_dev (\<lambda>b. pic_accept (irq_line ev) (irq_latch ev b)) k))"

fun deliver_all :: "interrupt_frame \<Rightarrow> irq_event list \<Rightarrow> board kernel \<Rightarrow> isr_error + board isr_result" where
  "deliver_all f [] k = Inr (Returned k)"
| "deliver_all f (ev # evs) k =
     bind_sum (deliver f ev k) (\<lambda>r.
       case r of Returned k' \<Rightarrow> deliver_all f evs k' | Halted k' \<Rightarrow> Inr (Halted k'))"

definition irq_ready :: "board kernel \<Rightarrow> bool" where
  "irq_ready k \<longleftrightarrow> length (k_handlers k) = 256 \<and> k_handlers k ! 0x20 = Some Irq0_handler \<and>
     k_handlers k ! 0x21 = Some Irq1_handler \<and> initialised (k_board k) \<and> pic_idle (k_board k) \<and>
     vbase (b_master (k_board k)) = 0x20 \<and> \<not> bit (irq_mask (k_board k)) 0 \<and> \<not> bit (irq_mask (k_board k)) 1"

lemma kernel_dev_simps [simp]:
  "k_board (kernel_dev g k) = g (k_board k)" "k_kb (kernel_dev g k) = k_kb k"
  "k_ticks (kernel_dev g k) = k_ticks k" "k_idt (kernel_dev g k) = k_idt k"
  "k_handlers (kernel_dev g k) = k_handlers k"
  "kernel_dev g (kernel_dev h k) = kernel_dev (g \<circ> h) k"
  "vga_mem (k_con (kernel_dev g k)) = vga_mem (k_con k)"
  by (simp_all add: kernel_dev_def k_board_def)

lemma k_board_update [simp]:
  "k_board (k\<lparr>k_ticks := t\<rparr>) = k_board k" "k_board (k\<lparr>k_kb := b\<rparr>) = k_board k"
  by (simp_all add: k_board_def)

lemma kernel_dev_id: "g (k_board k) = k_board k \<Longrightarrow> kernel_dev g k = k"
  by (cases "con_uart (k_con k)") (simp add: kernel_dev_def k_board_def)

lemma accept_scan [simp]: "b_scan (pic_accept irq b) = b_scan b"
  by (simp add: pic_accept_def)

text \<open>What one interrupt does.\<close>

lemma deliver_timer:
  assumes "irq_ready k"
  shows "deliver f Timer k = Inr (Returned (k\<lparr>k_ticks := k_ticks k + 1\<rparr>))"
proof -
  have eoi: "pic_send_eoi board_hw 0 (pic_accept 0 (k_board k)) = k_board k"
    using assms eoi_board [of "k_board k" 0] by (simp add: irq_ready_def)
  have "kernel_dev (\<lambda>b. pic_send_eoi board_hw 0 (pic_accept 0 b)) k = k"
    by (rule kernel_dev_id) (rule eoi)
  moreover have "irq0_handler board_hw (kernel_dev (pic_accept 0) k) =
      (kernel_dev (\<lambda>b. pic_send_eoi board_hw 0 (pic_accept 0 b)) k)\<lparr>k_ticks := k_ticks k + 1\<rparr>"
    by (simp add: irq0_handler_def pit_handler_def kernel_dev_def)
  ultimately show ?thesis using assms
    by (simp add: deliver_def irq_ready_def isr_dispatch_def)
qed

lemma deliver_key:
  assumes "irq_ready k"
  shows "deliver f (Key c) k =
    Inr (Returned (kernel_dev (\<lambda>b. b\<lparr>b_scan := c\<rparr>) (k\<lparr>k_kb := keyboard_scancode c (k_kb k)\<rparr>)))"
proof -
  let ?b = "(k_board k)\<lparr>b_scan := c\<rparr>"
  have "pic_idle ?b" using assms by (simp add: irq_ready_def pic_idle_def)
  then have eoi: "pic_send_eoi board_hw 1 (pic_accept 1 ?b) = ?b"
    using eoi_board [of ?b 1] by simp
  have "irq1_handler board_hw (kernel_dev (\<lambda>b. pic_accept 1 (b\<lparr>b_scan := c\<rparr>)) k) =
      kernel_dev (\<lambda>_. pic_send_eoi board_hw 1 (pic_accept 1 ?b)) (k\<lparr>k_kb := keyboard_scancode c (k_kb k)\<rparr>)"
    by (simp add: irq1_handler_def keyboard_handler_def board_in KB_DATA_PORT_def)
      (simp add: kernel_dev_def k_board_def)
  moreover have "kernel_dev (\<lambda>_. ?b) k' = kernel_dev (\<lambda>b. b\<lparr>b_scan := c\<rparr>) k'" if "k_board k' = k_board k" for k'
    using that by (simp add: kernel_dev_def k_board_def)
  ultimately show ?thesis using assms
    by (simp add: deliver_def irq_ready_def isr_dispatch_def eoi [simplified])
qed

definition timer_count :: "irq_event list \<Rightarrow> nat" where
  "timer_count evs = length (filter (\<lambda>ev. ev = Timer) evs)"

fun scancodes :: "irq_event list \<Rightarrow> u8 list" where
  "scancodes [] = []"
| "scancodes (Timer # evs) = scancodes evs"
| "scancodes (Key c # evs) = c # scancodes evs"

lemma interrupts_served:
  assumes "irq_ready k"
  shows "\<exists>k'. deliver_all f evs k = Inr (Returned k') \<and> irq_ready k' \<and>
    k_ticks k' = k_ticks k + of_nat (timer_count evs) \<and>
    k_kb k' = fold keyboard_scancode (scancodes evs) (k_kb k) \<and>
    vga_mem (k_con k') = vga_mem (k_con k)"
  using assms
proof (induction evs arbitrary: k)
  case (Cons ev evs)
  show ?case
  proof (cases ev)
    case Timer
    let ?k = "k\<lparr>k_ticks := k_ticks k + 1\<rparr>"
    have "irq_ready ?k" using Cons.prems by (simp add: irq_ready_def)
    from Cons.IH [OF this] deliver_timer [OF Cons.prems, of f] Timer show ?thesis
      by (auto simp: timer_count_def)
  next
    case (Key c)
    let ?k = "kernel_dev (\<lambda>b. b\<lparr>b_scan := c\<rparr>) (k\<lparr>k_kb := keyboard_scancode c (k_kb k)\<rparr>)"
    have "irq_ready ?k"
      using Cons.prems by (simp add: irq_ready_def initialised_def pic_idle_def irq_mask_def)
    from Cons.IH [OF this] deliver_key [OF Cons.prems, of f c] Key show ?thesis
      by (auto simp: timer_count_def)
  qed
qed (simp add: timer_count_def)

text \<open>
  C22: Any sequence of timer and keyboard interrupts, in any order, is served: the tick counter
  advances by the number of timer interrupts (modulo 2^32), the keyboard driver sees every scancode
  in order and nothing else, the screen is untouched, and each interrupt is acknowledged, so that
  the controllers are ready for the next one.
\<close>

theorem irq_history:
  assumes "irq_ready k"
  shows "\<exists>k'. deliver_all f evs k = Inr (Returned k') \<and> irq_ready k' \<and>
    k_ticks k' = k_ticks k + of_nat (timer_count evs) \<and>
    k_kb k' = fold keyboard_scancode (scancodes evs) (k_kb k) \<and>
    vga_mem (k_con k') = vga_mem (k_con k)"
  by (rule interrupts_served [OF assms])

definition served_kernel :: "board kernel" where
  "served_kernel = \<lparr>
     k_con = \<lparr>con_uart = (False, pic_clear_mask board_hw 1 (pic_clear_mask board_hw 0
         (pic_remap board_hw PIC_MASTER_OFFSET PIC_SLAVE_OFFSET cold_board))),
       vga_mem = (\<lambda>i. 0), vga_col = 0, vga_row = 0, vga_attr = 7\<rparr>,
     k_kb = \<lparr>kb_buffer = replicate 128 0, kb_head = 0, kb_tail = 0, kb_shift = False, kb_altgr = False,
       kb_caps = False, kb_ext = False, kb_map = Tab_us, kb_map_shift = Tab_shift_us, kb_map_altgr = Tab_altgr_us\<rparr>,
     k_ticks = 7, k_idt = [],
     k_handlers = (replicate 256 None)[0x20 := Some Irq0_handler, 0x21 := Some Irq1_handler]\<rparr>"

lemma served_kernel_ready: "irq_ready served_kernel"
proof -
  let ?r = "pic_remap board_hw PIC_MASTER_OFFSET PIC_SLAVE_OFFSET cold_board"
  have "pic_clear_mask board_hw 1 (pic_clear_mask board_hw 0 ?r) =
      \<lparr>b_master = \<lparr>imr = 0xFC, in_service = 0, vbase = 0x20, cascade = 4, icw = 0\<rparr>,
       b_slave = \<lparr>imr = 0xFF, in_service = 0, vbase = 0x28, cascade = 2, icw = 0\<rparr>, b_scan = 0\<rparr>"
    by (simp add: cold_board_def pic_ports clear_mask_board remap_board initialised_def)
  then show ?thesis
    by (simp add: irq_ready_def served_kernel_def k_board_def initialised_def pic_idle_def irq_mask_def)
qed

definition zero_frame :: interrupt_frame where
  "zero_frame = \<lparr>fr_gs = 0, fr_fs = 0, fr_es = 0, fr_ds = 0, fr_edi = 0, fr_esi = 0, fr_ebp = 0,
     fr_esp_dummy = 0, fr_ebx = 0, fr_edx = 0, fr_ecx = 0, fr_eax = 0, fr_isr_num = 0,
     fr_error_code = 0, fr_eip = 0, fr_cs = 0, fr_eflags = 0\<rparr>"

lemma irq_history_witness:
  "\<exists>k'. deliver_all zero_frame [Timer, Key 0x1E, Timer] served_kernel = Inr (Returned k') \<and> k_ticks k' = 9 \<and>
     k_kb k' = keyboard_scancode 0x1E (k_kb served_kernel)"
proof -
  have "k_ticks served_kernel = 7" by (simp add: served_kernel_def)
  then show ?thesis
    using irq_history [OF served_kernel_ready, of zero_frame "[Timer, Key 0x1E, Timer]"]
    by (auto simp: timer_count_def)
qed

section \<open>Exceptions\<close>

text \<open>The numbers of the report: eight or four hexadecimal digits, and a decimal number.\<close>

definition hex_text :: "nat \<Rightarrow> u32 \<Rightarrow> u8 list" where
  "hex_text width v = lpad width (of_char (CHR ''0'')) (numeral_text 16 (unat v))"

lemma print_hex: "width \<le> 12 \<Longrightarrow> print_uint v 16 width 48 = Inr (hex_text width v)"
  by (simp add: print_uint_correct hex_text_def)

lemma print_decimal_0: "print_uint v 10 0 pad = Inr (numeral_text 10 (unat v))"
  by (simp add: print_uint_correct lpad_def)

lemma vga_puts_append: "vga_puts hw (xs @ ys) con = vga_puts hw ys (vga_puts hw xs con)"
  by (simp add: vga_puts_def)

text \<open>What the report says: the name and number of the exception, its error code, and the registers.\<close>

definition exception_text :: "interrupt_frame \<Rightarrow> u8 list" where
  "exception_text f =
     [10] @ bytes ''*** EXCEPTION: '' @ bytes (exception_names ! unat (fr_isr_num f)) @
       bytes '' (#'' @ numeral_text 10 (unat (fr_isr_num f)) @ bytes '') ***'' @ [10] @
     bytes ''Error code: 0x'' @ hex_text 8 (fr_error_code f) @ [10] @
     bytes ''EIP: 0x'' @ hex_text 8 (fr_eip f) @ bytes ''  CS: 0x'' @ hex_text 4 (fr_cs f) @
       bytes ''  EFLAGS: 0x'' @ hex_text 8 (fr_eflags f) @ [10] @
     bytes ''EAX: 0x'' @ hex_text 8 (fr_eax f) @ bytes ''  EBX: 0x'' @ hex_text 8 (fr_ebx f) @
       bytes ''  ECX: 0x'' @ hex_text 8 (fr_ecx f) @ bytes ''  EDX: 0x'' @ hex_text 8 (fr_edx f) @ [10] @
     bytes ''ESI: 0x'' @ hex_text 8 (fr_esi f) @ bytes ''  EDI: 0x'' @ hex_text 8 (fr_edi f) @
       bytes ''  EBP: 0x'' @ hex_text 8 (fr_ebp f) @ [10]"

lemma fold_report:
  "list_all2 (\<lambda>(fmt, args) out. vga_vprintf fmt args = Inr out) lines outs \<Longrightarrow>
     fold (\<lambda>(fmt, args) r. bind_sum r (vga_printf hw fmt args)) lines (Inr con) = Inr (vga_puts hw (concat outs) con)"
proof (induction arbitrary: con rule: list_all2_induct)
  case Nil
  show ?case by (simp add: vga_puts_def)
next
  case (Cons line lines out outs)
  then show ?case by (cases line) (simp add: vga_printf_def vga_puts_append)
qed

lemma isr_report_text:
  "\<exists>outs. list_all2 (\<lambda>(fmt, args) out. vga_vprintf fmt args = Inr out) (isr_report f) outs \<and> concat outs = exception_text f"
  unfolding isr_report_def exception_text_def
  by (simp add: list_all2_Cons1 bytes_def fmt_head_def is_digit_def fmt_switch_def va_word_def va_str_def
      print_hex print_decimal_0)

text \<open>
  C24: A processor exception for which no handler is registered is reported and stops the machine:
  whatever the registers hold, the console gets, in white on red, the name and number of the exception,
  its error code, the place, and the registers as hexadecimal numbers; nothing else of the kernel
  changes, and the dispatcher does not return to the faulting code.
\<close>

theorem isr_exception_halts:
  assumes "fr_isr_num f < 32" "length (k_handlers k) = IDT_ENTRIES"
    "k_handlers k ! unat (fr_isr_num f) = None"
  shows "isr_dispatch hw f k =
    Inr (Halted (k\<lparr>k_con := vga_puts hw (exception_text f) (vga_set_color 15 4 (k_con k))\<rparr>))"
proof -
  have n: "unat (fr_isr_num f) < 32" using assms(1) by (simp add: word_less_nat_alt)
  obtain outs where "list_all2 (\<lambda>(fmt, args) out. vga_vprintf fmt args = Inr out) (isr_report f) outs"
    "concat outs = exception_text f"
    using isr_report_text by blast
  with fold_report [of "isr_report f" outs hw "vga_set_color 15 4 (k_con k)"] assms n show ?thesis
    by (simp add: isr_dispatch_def IDT_ENTRIES_def)
qed

lemma isr_exception_halts_witness:
  "isr_dispatch board_hw (zero_frame\<lparr>fr_isr_num := 14\<rparr>) served_kernel =
    Inr (Halted (served_kernel\<lparr>k_con := vga_puts board_hw (exception_text (zero_frame\<lparr>fr_isr_num := 14\<rparr>))
      (vga_set_color 15 4 (k_con served_kernel))\<rparr>))"
  by (rule isr_exception_halts) (simp_all add: served_kernel_def IDT_ENTRIES_def)

end
