(* ===== verification/IsrStub.thy ===== *)
theory IsrStub
  imports Stack32 IrqService
begin

text \<open>
  The interrupt stubs of the kernel (kernel/isr_stubs.asm): how the processor and the stub lay out the
  frame that isr_dispatch reads, and how the stub gives every register back.
\<close>

unbundle bit_operations_syntax

section \<open>The processor\<close>

text \<open>The exceptions for which the processor pushes an error code.\<close>

definition pushes_error :: "nat \<Rightarrow> bool" where
  "pushes_error n \<longleftrightarrow> n \<in> {8, 10, 11, 12, 13, 14, 17, 21}"

text \<open>
  Delivery through a 32-bit interrupt gate without a change of privilege: flags, code segment and
  instruction pointer are pushed, then the error code of the exceptions that have one; the interrupt
  flag is cleared and the gate is entered.
\<close>

definition cpu_deliver :: "nat \<Rightarrow> u32 \<Rightarrow> idt_entry \<Rightarrow> machine \<Rightarrow> machine" where
  "cpu_deliver n err g cm =
     (let r = fst cm;
          cm = push32 (c_eflags r) cm;
          cm = push32 (ucast (c_cs r)) cm;
          cm = push32 (c_eip r) cm;
          (c, mem) = (if pushes_error n then push32 err cm else cm)
      in ((cli c)\<lparr>c_cs := selector g,
                  c_eip := gate_offset g\<rparr>, mem))"

definition iret :: "machine \<Rightarrow> machine" where
  "iret cm =
     (let (v, c, mem) = pop32 cm; c = c\<lparr>c_eip := v\<rparr>;
          (v, c, mem) = pop32 (c, mem); c = c\<lparr>c_cs := ucast v\<rparr>;
          (v, c, mem) = pop32 (c, mem)
      in (c\<lparr>c_eflags := v\<rparr>, mem))"

section \<open>The stubs\<close>

text \<open>\<open>ISR_ERR\<close> for the exceptions with an error code, \<open>ISR_NOERR\<close> with a dummy for the others.\<close>

definition isr_err_stubs :: "nat list" where
  "isr_err_stubs = [8, 10, 11, 12, 13, 14, 17, 21]"

definition isr_entry :: "nat \<Rightarrow> machine \<Rightarrow> machine" where
  "isr_entry n cm =
     (if n \<in> set isr_err_stubs then push32 (of_nat n) cm
      else push32 (of_nat n) (push32 0 cm))"

text \<open>
  A segment register is pushed as 32 bits. The dispatcher is a parameter: it gets the address of the
  frame and may change registers and memory.
\<close>

definition isr_save :: "machine \<Rightarrow> machine" where
  "isr_save cm =
     (let cm = pushad cm;
          cm = push32 (ucast (c_ds (fst cm))) cm;
          cm = push32 (ucast (c_es (fst cm))) cm;
          cm = push32 (ucast (c_fs (fst cm))) cm;
          (c, mem) = push32 (ucast (c_gs (fst cm))) cm;
          c = c\<lparr>c_eax := set_low16 0x10 (c_eax c)\<rparr>
      in (c\<lparr>c_ds := low16 (c_eax c), c_es := low16 (c_eax c), c_fs := low16 (c_eax c),
            c_gs := low16 (c_eax c)\<rparr>, mem))"

definition isr_restore :: "machine \<Rightarrow> machine" where
  "isr_restore cm =
     (let (v, c, mem) = pop32 cm; c = c\<lparr>c_gs := ucast v\<rparr>;
          (v, c, mem) = pop32 (c, mem); c = c\<lparr>c_fs := ucast v\<rparr>;
          (v, c, mem) = pop32 (c, mem); c = c\<lparr>c_es := ucast v\<rparr>;
          (v, c, mem) = pop32 (c, mem); c = c\<lparr>c_ds := ucast v\<rparr>;
          (c, mem) = popad (c, mem)
      in iret (c\<lparr>c_esp := c_esp c + 8\<rparr>, mem))"

text \<open>
  The whole stub: the dispatcher is called with the address of the frame as its argument on the
  stack, above its return address, and returns to the instruction after the call.
\<close>

definition isr_common ::
  "u32 \<Rightarrow> (u32 \<Rightarrow> machine \<times> 'k \<Rightarrow> (machine \<times> 'k) option) \<Rightarrow> machine \<times> 'k \<Rightarrow> (machine \<times> 'k) option" where
  "isr_common return_address dispatch cmk =
     (let (cm, k) = cmk;
          cm = isr_save cm;
          frame = c_esp (fst cm);
          cm = push32 frame cm;
          cm = push32 return_address cm in
      case dispatch frame (cm, k) of
        None \<Rightarrow> None
      | Some ((c, mem), k) \<Rightarrow>
          (let c = c\<lparr>c_esp := c_esp c + 4\<rparr>;
               c = c\<lparr>c_esp := c_esp c + 4\<rparr>
           in Some (isr_restore (c, mem), k)))"

section \<open>The frame\<close>

text \<open>\<open>interrupt_frame_t\<close> at an address: the fields in order, 32 bits each.\<close>

definition frame_at :: "memory \<Rightarrow> u32 \<Rightarrow> interrupt_frame" where
  "frame_at mem a =
     \<lparr>fr_gs = mem_get32 mem a, fr_fs = mem_get32 mem (a + 4), fr_es = mem_get32 mem (a + 8),
      fr_ds = mem_get32 mem (a + 12), fr_edi = mem_get32 mem (a + 16), fr_esi = mem_get32 mem (a + 20),
      fr_ebp = mem_get32 mem (a + 24), fr_esp_dummy = mem_get32 mem (a + 28),
      fr_ebx = mem_get32 mem (a + 32), fr_edx = mem_get32 mem (a + 36), fr_ecx = mem_get32 mem (a + 40),
      fr_eax = mem_get32 mem (a + 44), fr_isr_num = mem_get32 mem (a + 48),
      fr_error_code = mem_get32 mem (a + 52), fr_eip = mem_get32 mem (a + 56), fr_cs = mem_get32 mem (a + 60),
      fr_eflags = mem_get32 mem (a + 64)\<rparr>"

text \<open>What the frame should say of an interrupted program.\<close>

definition frame_of :: "nat \<Rightarrow> u32 \<Rightarrow> cpu \<Rightarrow> interrupt_frame" where
  "frame_of n err c =
     \<lparr>fr_gs = ucast (c_gs c), fr_fs = ucast (c_fs c), fr_es = ucast (c_es c), fr_ds = ucast (c_ds c),
      fr_edi = c_edi c, fr_esi = c_esi c, fr_ebp = c_ebp c, fr_esp_dummy = c_esp c - 20,
      fr_ebx = c_ebx c, fr_edx = c_edx c, fr_ecx = c_ecx c, fr_eax = c_eax c, fr_isr_num = of_nat n,
      fr_error_code = (if pushes_error n then err else 0), fr_eip = c_eip c, fr_cs = ucast (c_cs c),
      fr_eflags = c_eflags c\<rparr>"

text \<open>The words that are on the stack when the dispatcher is called, the frame from its lowest address.\<close>

definition frame_words :: "interrupt_frame \<Rightarrow> u32 list" where
  "frame_words f =
     [fr_gs f, fr_fs f, fr_es f, fr_ds f, fr_edi f, fr_esi f, fr_ebp f, fr_esp_dummy f, fr_ebx f, fr_edx f,
      fr_ecx f, fr_eax f, fr_isr_num f, fr_error_code f, fr_eip f, fr_cs f, fr_eflags f]"

lemma frame_at_words: "stack_has mem a (frame_words f) \<Longrightarrow> frame_at mem a = f"
  by (cases f) (simp add: frame_words_def frame_at_def add.assoc)

lemma isr_save_frame:
  "\<exists>c' mem'. isr_save (isr_entry n (cpu_deliver n err g (c, mem))) = (c', mem') \<and>
     stack_has mem' (c_esp c - 68) (frame_words (frame_of n err c)) \<and>
     c_esp c' = c_esp c - 68 \<and> c_ss c' = c_ss c \<and> c_cr0 c' = c_cr0 c \<and> c_gdtr c' = c_gdtr c \<and> c_idtr c' = c_idtr c"
proof (cases "pushes_error n")
  case True
  then have "n \<in> set isr_err_stubs" by (auto simp: pushes_error_def isr_err_stubs_def)
  with True show ?thesis
    by (simp add: isr_save_def isr_entry_def cpu_deliver_def pushad_def Let_def cli_def frame_words_def frame_of_def
        del: stack_has.simps) ((rule stack_push | simp)+)
next
  case False
  then have "n \<notin> set isr_err_stubs" by (auto simp: pushes_error_def isr_err_stubs_def)
  with False show ?thesis
    by (simp add: isr_save_def isr_entry_def cpu_deliver_def pushad_def Let_def cli_def frame_words_def frame_of_def
        del: stack_has.simps) ((rule stack_push | simp)+)
qed

text \<open>The way back loads every register from the frame.\<close>

definition load_frame :: "interrupt_frame \<Rightarrow> cpu \<Rightarrow> cpu" where
  "load_frame f c = c\<lparr>c_eax := fr_eax f, c_ebx := fr_ebx f, c_ecx := fr_ecx f, c_edx := fr_edx f,
     c_esi := fr_esi f, c_edi := fr_edi f, c_ebp := fr_ebp f, c_esp := c_esp c + 68, c_eip := fr_eip f,
     c_cs := ucast (fr_cs f), c_ds := ucast (fr_ds f), c_es := ucast (fr_es f), c_fs := ucast (fr_fs f),
     c_gs := ucast (fr_gs f), c_eflags := fr_eflags f\<rparr>"

lemma isr_restore_frame:
  "stack_has mem (c_esp c) (frame_words f) \<Longrightarrow> isr_restore (c, mem) = (load_frame f c, mem)"
  by (simp add: isr_restore_def popad_def iret_def Let_def frame_words_def load_frame_def add.assoc)

lemma ucast_down_up [simp]: "(ucast (ucast (w :: u16) :: u32) :: u16) = w"
  by (rule bit_word_eqI) (auto simp: bit_simps)

lemma load_frame_of:
  assumes "c_esp c' = c_esp c - 68" "c_ss c' = c_ss c" "c_cr0 c' = c_cr0 c" "c_gdtr c' = c_gdtr c" "c_idtr c' = c_idtr c"
  shows "load_frame (frame_of n err c) c' = c"
  using assms by (cases c; cases c') (simp add: load_frame_def frame_of_def)

section \<open>The dispatcher\<close>

text \<open>
  The compiled dispatcher: the effect on the kernel is that of the model, on the frame that is in
  memory; \<open>junk\<close> is what the compiled code does to registers and memory besides, its locals and its
  own copy of the arguments. It returns with the stack pointer it got, leaves the registers that only
  the kernel's start sets, and does not write to the frame.
\<close>

definition compiled_dispatch ::
  "'d hw \<Rightarrow> (machine \<Rightarrow> machine) \<Rightarrow> u32 \<Rightarrow> machine \<times> 'd kernel \<Rightarrow> (machine \<times> 'd kernel) option" where
  "compiled_dispatch hw junk a cmk =
     (case isr_dispatch hw (frame_at (snd (fst cmk)) a) (snd cmk) of
        Inr (Returned k) \<Rightarrow> Some (junk (fst cmk), k)
      | _ \<Rightarrow> None)"

definition keeps_frame :: "(machine \<Rightarrow> machine) \<Rightarrow> bool" where
  "keeps_frame junk \<longleftrightarrow> (\<forall>c mem c' mem'. junk (c, mem) = (c', mem') \<longrightarrow>
     c_esp c' = c_esp c \<and> c_ss c' = c_ss c \<and> c_cr0 c' = c_cr0 c \<and> c_gdtr c' = c_gdtr c \<and> c_idtr c' = c_idtr c \<and>
     (\<forall>i<68. mem' (c_esp c + 8 + of_nat i) = mem (c_esp c + 8 + of_nat i)))"

text \<open>
  C23: An interrupt is transparent to the code it interrupts, and the dispatcher is told the truth: for
  every one of the 48 vectors, with an error code from the processor or without one, the frame that
  isr_dispatch reads names the vector and holds the registers of the interrupted code; when the
  dispatcher returns, the interrupted code goes on with every register as it was, stack pointer,
  flags and segments included; when it does not, neither does the stub. The kernel's state changes as
  the dispatcher says and the gate of the vector leads to its own stub.
\<close>

theorem interrupt_transparent:
  assumes "n < 48" "keeps_frame junk"
  shows "(\<exists>mem'. isr_common ret (compiled_dispatch hw junk)
      (isr_entry n (cpu_deliver n err (k_idt (idt_init stubs k0) ! n) (c, mem)), k) =
    (case isr_dispatch hw (frame_of n err c) k of Inr (Returned k') \<Rightarrow> Some ((c, mem'), k') | _ \<Rightarrow> None)) \<and>
    c_eip (fst (cpu_deliver n err (k_idt (idt_init stubs k0) ! n) (c, mem))) = stubs n"
proof
  let ?g = "k_idt (idt_init stubs k0) ! n"
  obtain c1 m1 where s: "isr_save (isr_entry n (cpu_deliver n err ?g (c, mem))) = (c1, m1)"
    "stack_has m1 (c_esp c - 68) (frame_words (frame_of n err c))"
    "c_esp c1 = c_esp c - 68" "c_ss c1 = c_ss c" "c_cr0 c1 = c_cr0 c" "c_gdtr c1 = c_gdtr c" "c_idtr c1 = c_idtr c"
    using isr_save_frame [of n err ?g c mem] by blast
  let ?m2 = "mem_put32 (c_esp c - 76) ret (mem_put32 (c_esp c - 72) (c_esp c - 68) m1)"
  have l: "length (frame_words f) = 17" for f by (simp add: frame_words_def)
  have "stack_has (mem_put32 (c_esp c - 72) (c_esp c - 68) m1) (c_esp c - 72) ((c_esp c - 68) # frame_words (frame_of n err c))"
    by (rule stack_push [OF s(2)]) (simp_all add: l)
  then have "stack_has ?m2 (c_esp c - 76) (ret # (c_esp c - 68) # frame_words (frame_of n err c))"
    by (rule stack_push) (simp_all add: l)
  then have f2: "stack_has ?m2 (c_esp c - 68) (frame_words (frame_of n err c))" by (simp add: add.assoc)
  obtain c3 m3 where j: "junk (c1\<lparr>c_esp := c_esp c - 76\<rparr>, ?m2) = (c3, m3)" by fastforce
  with assms(2) s(3-7) have c3: "c_esp c3 = c_esp c - 76" "c_ss c3 = c_ss c" "c_cr0 c3 = c_cr0 c"
    "c_gdtr c3 = c_gdtr c" "c_idtr c3 = c_idtr c"
    "\<forall>i<68. m3 (c_esp c - 68 + of_nat i) = ?m2 (c_esp c - 68 + of_nat i)"
    unfolding keeps_frame_def by fastforce+
  have "stack_has m3 (c_esp c - 68) (frame_words (frame_of n err c))"
    by (rule stack_has_cong [OF _ f2]) (use c3(6) in \<open>simp add: frame_words_def\<close>)
  from isr_restore_frame [of m3 "c3\<lparr>c_esp := c_esp c - 68\<rparr>", simplified, OF this]
    load_frame_of [of "c3\<lparr>c_esp := c_esp c - 68\<rparr>" c n err] c3(1-5)
  have restored: "isr_restore (c3\<lparr>c_esp := c_esp c - 68\<rparr>, m3) = (c, m3)" by simp
  show "\<exists>mem'. isr_common ret (compiled_dispatch hw junk) (isr_entry n (cpu_deliver n err ?g (c, mem)), k) =
    (case isr_dispatch hw (frame_of n err c) k of Inr (Returned k') \<Rightarrow> Some ((c, mem'), k') | _ \<Rightarrow> None)"
    using s(1,3) frame_at_words [OF f2] j restored c3(1)
    by (intro exI [of _ m3])
       (simp add: isr_common_def Let_def compiled_dispatch_def split: sum.split isr_result.split)
  show "c_eip (fst (cpu_deliver n err ?g (c, mem))) = stubs n"
    using assms(1) idt_init_gates [of stubs k0]
    by (simp add: cpu_deliver_def Let_def nth_append gate_offset_gate split: prod.split)
qed

text \<open>A key is pressed while a program runs with its registers full; the handler is the one of the kernel.\<close>

definition busy_cpu :: cpu where
  "busy_cpu = \<lparr>c_eax = 1, c_ebx = 2, c_ecx = 3, c_edx = 4, c_esi = 5, c_edi = 6, c_ebp = 7, c_esp = 0x77F00,
     c_eip = 0x12345, c_cs = 8, c_ds = 0x10, c_es = 0x10, c_fs = 0x10, c_gs = 0x10, c_ss = 0x10, c_eflags = 0x246,
     c_cr0 = 1, c_gdtr = (39, 0x12068), c_idtr = (2047, 0x20000)\<rparr>"

lemma interrupt_transparent_witness:
  "\<exists>mem'. isr_common 0x12300 (compiled_dispatch board_hw (\<lambda>m. m))
      (isr_entry 33 (cpu_deliver 33 0 (k_idt (idt_init (\<lambda>n. 0x15000 + of_nat n) served_kernel) ! 33) (busy_cpu, \<lambda>a. 0)), served_kernel) =
    Some ((busy_cpu, mem'), irq1_handler board_hw served_kernel)"
proof -
  have "isr_dispatch board_hw (frame_of 33 0 busy_cpu) served_kernel = Inr (Returned (irq1_handler board_hw served_kernel))"
    by (simp add: isr_dispatch_def frame_of_def served_kernel_def)
  moreover have "keeps_frame (\<lambda>m. m)" by (simp add: keeps_frame_def)
  ultimately show ?thesis
    using interrupt_transparent [of 33 "\<lambda>m. m" "0x12300" board_hw 0 "\<lambda>n. 0x15000 + of_nat n" served_kernel busy_cpu "\<lambda>a. 0" served_kernel]
    by simp
qed

end
