(* ===== verification/Fpu.thy ===== *)
theory Fpu
  imports Prelude
begin

text \<open>
  The set-up of the x87 FPU (kernel/fpu.c). The privileged instructions it consists of are a
  parameter; \<open>fnstsw\<close> stores nothing when no FPU answers.
\<close>

unbundle bit_operations_syntax

record 'c cpu =
  cpu_cr0 :: "'c \<Rightarrow> u32"
  cpu_set_cr0 :: "u32 \<Rightarrow> 'c \<Rightarrow> 'c"
  cpu_fninit :: "'c \<Rightarrow> 'c"
  cpu_fnstsw :: "'c \<Rightarrow> u16 option"

definition CR0_MP :: u32 where "CR0_MP = 0x00000002"
definition CR0_EM :: u32 where "CR0_EM = 0x00000004"
definition CR0_TS :: u32 where "CR0_TS = 0x00000008"

definition fpu_init :: "'c cpu \<Rightarrow> 'c \<Rightarrow> bool \<times> 'c" where
  "fpu_init cpu c =
     (let status = (0x5A5A :: u16);
          cr0 = cpu_cr0 cpu c;
          cr0 = cr0 AND NOT (CR0_EM OR CR0_TS);
          cr0 = cr0 OR CR0_MP;
          c = cpu_fninit cpu (cpu_set_cr0 cpu cr0 c);
          status = (case cpu_fnstsw cpu c of None \<Rightarrow> status | Some w \<Rightarrow> w)
      in (status = 0, c))"

text \<open>
  A processor as the manuals describe it: control register 0, whether an FPU is present, and its
  status word, which \<open>fninit\<close> clears.
\<close>

record x86_cpu =
  x_cr0 :: u32
  x_fpu :: bool
  x_status :: u16

definition x86 :: "x86_cpu cpu" where
  "x86 = \<lparr>cpu_cr0 = x_cr0, cpu_set_cr0 = (\<lambda>w c. c\<lparr>x_cr0 := w\<rparr>),
     cpu_fninit = (\<lambda>c. if x_fpu c then c\<lparr>x_status := 0\<rparr> else c),
     cpu_fnstsw = (\<lambda>c. if x_fpu c then Some (x_status c) else None)\<rparr>"

text \<open>
  The set-up succeeds exactly on a processor with an FPU; the emulation and task-switched bits are
  then clear, the monitor bit is set, and no other bit of the register has changed.
\<close>

lemma fpu_init_detects:
  "fst (fpu_init x86 c) = x_fpu c"
  "x_cr0 (snd (fpu_init x86 c)) = (x_cr0 c AND NOT 0xC) OR 2"
  by (simp_all add: fpu_init_def x86_def Let_def CR0_EM_def CR0_TS_def CR0_MP_def)

end
