(* ===== verification/Video.thy ===== *)
theory Video
  imports Realmode
begin

text \<open>
  Selection of the video mode through the BIOS (kernel/video.c): text mode, VGA mode 13h with its
  3-3-2 palette, and VBE modes with a linear framebuffer. \<open>bios\<close> is a call of the real-mode
  trampoline, \<open>realmode_int\<close> with a register block that is not null.
\<close>

unbundle bit_operations_syntax

section \<open>Constants\<close>

definition VGA_DAC_WRITE_INDEX :: u16 where "VGA_DAC_WRITE_INDEX = 0x3C8"
definition VGA_DAC_DATA :: u16 where "VGA_DAC_DATA = 0x3C9"
definition BIOS_VIDEO_INT :: u8 where "BIOS_VIDEO_INT = 0x10"
definition VBE_GET_CONTROLLER_INFO :: u16 where "VBE_GET_CONTROLLER_INFO = 0x4F00"
definition VBE_GET_MODE_INFO :: u16 where "VBE_GET_MODE_INFO = 0x4F01"
definition VBE_SET_MODE :: u16 where "VBE_SET_MODE = 0x4F02"
definition VBE_SUPPORTED :: u32 where "VBE_SUPPORTED = 0x004F"
definition VBE_MODE_LINEAR_FB :: u16 where "VBE_MODE_LINEAR_FB = 0x4000"
definition VBE_MODE_LIST_END :: u16 where "VBE_MODE_LIST_END = 0xFFFF"
definition VBE_INFO_VERSION :: u32 where "VBE_INFO_VERSION = 0x04"
definition VBE_INFO_MODE_PTR :: u32 where "VBE_INFO_MODE_PTR = 0x0E"
definition VBE_MODE_ATTRIBUTES :: u32 where "VBE_MODE_ATTRIBUTES = 0x00"
definition VBE_MODE_PITCH :: u32 where "VBE_MODE_PITCH = 0x10"
definition VBE_MODE_WIDTH :: u32 where "VBE_MODE_WIDTH = 0x12"
definition VBE_MODE_HEIGHT :: u32 where "VBE_MODE_HEIGHT = 0x14"
definition VBE_MODE_BPP :: u32 where "VBE_MODE_BPP = 0x19"
definition VBE_MODE_MEMORY_MODEL :: u32 where "VBE_MODE_MEMORY_MODEL = 0x1B"
definition VBE_MODE_RED_SIZE :: u32 where "VBE_MODE_RED_SIZE = 0x1F"
definition VBE_MODE_RED_POS :: u32 where "VBE_MODE_RED_POS = 0x20"
definition VBE_MODE_GREEN_SIZE :: u32 where "VBE_MODE_GREEN_SIZE = 0x21"
definition VBE_MODE_GREEN_POS :: u32 where "VBE_MODE_GREEN_POS = 0x22"
definition VBE_MODE_BLUE_SIZE :: u32 where "VBE_MODE_BLUE_SIZE = 0x23"
definition VBE_MODE_BLUE_POS :: u32 where "VBE_MODE_BLUE_POS = 0x24"
definition VBE_MODE_PHYS_BASE :: u32 where "VBE_MODE_PHYS_BASE = 0x28"
definition VBE_ATTR_SUPPORTED :: u16 where "VBE_ATTR_SUPPORTED = 0x0001"
definition VBE_ATTR_GRAPHICS :: u16 where "VBE_ATTR_GRAPHICS = 0x0010"
definition VBE_ATTR_LINEAR_FB :: u16 where "VBE_ATTR_LINEAR_FB = 0x0080"
definition VBE_MEMORY_PACKED :: u8 where "VBE_MEMORY_PACKED = 4"
definition VBE_MEMORY_DIRECT :: u8 where "VBE_MEMORY_DIRECT = 6"
definition VGA_TEXT_FRAMEBUFFER :: u32 where "VGA_TEXT_FRAMEBUFFER = 0x000B8000"
definition VGA13_FRAMEBUFFER :: u32 where "VGA13_FRAMEBUFFER = 0x000A0000"
definition VBE_MAX_MODES :: nat where "VBE_MAX_MODES = 128"

section \<open>State\<close>

datatype video_kind = VIDEO_KIND_TEXT | VIDEO_KIND_VGA13 | VIDEO_KIND_VBE_LFB

record video_mode_info =
  vm_kind :: video_kind
  vm_framebuffer :: u32
  vm_width :: u32
  vm_height :: u32
  vm_pitch :: u32
  vm_bpp :: u8
  vm_red_pos :: u8
  vm_red_size :: u8
  vm_green_pos :: u8
  vm_green_size :: u8
  vm_blue_pos :: u8
  vm_blue_size :: u8
  vm_vbe_mode :: u16

definition zero_mode :: video_mode_info where
  "zero_mode = \<lparr>vm_kind = VIDEO_KIND_TEXT, vm_framebuffer = 0, vm_width = 0, vm_height = 0,
     vm_pitch = 0, vm_bpp = 0, vm_red_pos = 0, vm_red_size = 0, vm_green_pos = 0,
     vm_green_size = 0, vm_blue_pos = 0, vm_blue_size = 0, vm_vbe_mode = 0\<rparr>"

record 'd video =
  v_rm :: "'d realmode"
  current_mode :: video_mode_info
  vbe_available :: bool
  vbe_version :: u16

type_synonym 'd bios_int = "u8 \<Rightarrow> realmode_regs \<Rightarrow> 'd realmode \<Rightarrow> bool \<times> realmode_regs \<times> 'd realmode"

text \<open>The trampoline as this module calls it.\<close>

definition rm_bios :: "'d hw \<Rightarrow> (memory \<times> 'd \<Rightarrow> memory \<times> 'd) \<Rightarrow> 'd bios_int" where
  "rm_bios hw stub vector r s =
     (case realmode_int hw stub vector (Some r) s of
        (ok, Some r', s') \<Rightarrow> (ok, r', s')
      | (ok, None, s') \<Rightarrow> (ok, r, s'))"

section \<open>The transfer buffer\<close>

definition far_ptr_to_linear :: "u32 \<Rightarrow> u32" where
  "far_ptr_to_linear far_ptr = (drop_bit 16 far_ptr AND 0xFFFF) * 16 + (far_ptr AND 0xFFFF)"

definition buffer_u8 :: "'d realmode \<Rightarrow> u32 \<Rightarrow> u8" where
  "buffer_u8 s offset = rm_mem s (REALMODE_BUFFER_ADDR + offset)"

definition buffer_u16 :: "'d realmode \<Rightarrow> u32 \<Rightarrow> u16" where
  "buffer_u16 s offset = ucast (buffer_u8 s offset) OR push_bit 8 (ucast (buffer_u8 s (offset + 1)))"

definition buffer_u32 :: "'d realmode \<Rightarrow> u32 \<Rightarrow> u32" where
  "buffer_u32 s offset = ucast (buffer_u16 s offset) OR push_bit 16 (ucast (buffer_u16 s (offset + 2)))"

definition buffer_vbe2 :: "'d realmode \<Rightarrow> 'd realmode" where
  "buffer_vbe2 s = s\<lparr>rm_mem := write_bytes (rm_mem s) REALMODE_BUFFER_ADDR (bytes ''VBE2'')\<rparr>"

section \<open>Legacy modes\<close>

definition video_text_mode :: video_mode_info where
  "video_text_mode = zero_mode\<lparr>vm_kind := VIDEO_KIND_TEXT, vm_framebuffer := VGA_TEXT_FRAMEBUFFER,
     vm_width := 80, vm_height := 25, vm_pitch := 160, vm_bpp := 16\<rparr>"

definition video_record_text_mode :: "'d video \<Rightarrow> 'd video" where
  "video_record_text_mode v = v\<lparr>current_mode := video_text_mode\<rparr>"

text \<open>One entry of the palette, and the loop over the 256 entries.\<close>

definition palette_entry :: "'d hw \<Rightarrow> u32 \<Rightarrow> 'd \<Rightarrow> 'd" where
  "palette_entry hw index d =
     (let red = drop_bit 5 index AND 0x07;
          green = drop_bit 2 index AND 0x07;
          blue = index AND 0x03;
          d = outb hw VGA_DAC_DATA (ucast (drop_bit 2 (red * 255 div 7))) d;
          d = outb hw VGA_DAC_DATA (ucast (drop_bit 2 (green * 255 div 7))) d
      in outb hw VGA_DAC_DATA (ucast (drop_bit 2 (blue * 255 div 3))) d)"

definition video_install_332_palette :: "'d hw \<Rightarrow> 'd \<Rightarrow> 'd" where
  "video_install_332_palette hw d =
     fold (\<lambda>i. palette_entry hw (of_nat i)) [0..<256] (outb hw VGA_DAC_WRITE_INDEX 0 d)"

definition video_set_text :: "'d bios_int \<Rightarrow> 'd video \<Rightarrow> bool \<times> 'd video" where
  "video_set_text bios v =
     (if \<not> realmode_is_ready (v_rm v) then (False, v)
      else
        (let (ok, regs, rm) = bios BIOS_VIDEO_INT (zero_regs\<lparr>r_eax := 0x0003\<rparr>) (v_rm v);
             v = v\<lparr>v_rm := rm\<rparr> in
         if \<not> ok then (False, v) else (True, video_record_text_mode v)))"

definition video_set_vga13 :: "'d hw \<Rightarrow> 'd bios_int \<Rightarrow> 'd video \<Rightarrow> bool \<times> 'd video" where
  "video_set_vga13 hw bios v =
     (if \<not> realmode_is_ready (v_rm v) then (False, v)
      else
        (let (ok, regs, rm) = bios BIOS_VIDEO_INT (zero_regs\<lparr>r_eax := 0x0013\<rparr>) (v_rm v);
             v = v\<lparr>v_rm := rm\<rparr> in
         if \<not> ok then (False, v)
         else
           (True, v\<lparr>v_rm := rm\<lparr>rm_dev := video_install_332_palette hw (rm_dev rm)\<rparr>,
              current_mode := zero_mode\<lparr>vm_kind := VIDEO_KIND_VGA13, vm_framebuffer := VGA13_FRAMEBUFFER,
                vm_width := 320, vm_height := 200, vm_pitch := 320, vm_bpp := 8\<rparr>\<rparr>)))"

section \<open>VBE\<close>

definition vbe_call :: "'d bios_int \<Rightarrow> u16 \<Rightarrow> u16 \<Rightarrow> 'd realmode \<Rightarrow> bool \<times> 'd realmode" where
  "vbe_call bios ax cx rm =
     (let (ok, regs, rm) = bios BIOS_VIDEO_INT
            (zero_regs\<lparr>r_eax := ucast ax, r_ecx := ucast cx, r_es := REALMODE_BUFFER_SEG, r_edi := 0\<rparr>) rm in
      if \<not> ok then (False, rm)
      else if r_eflags regs AND REALMODE_FLAG_CARRY \<noteq> 0 then (False, rm)
      else (r_eax regs AND 0xFFFF = VBE_SUPPORTED, rm))"

definition video_init :: "'d bios_int \<Rightarrow> 'd video \<Rightarrow> 'd video" where
  "video_init bios v =
     (let v = (video_record_text_mode v)\<lparr>vbe_available := False, vbe_version := 0\<rparr> in
      if \<not> realmode_is_ready (v_rm v) then v
      else
        (let (ok, rm) = vbe_call bios VBE_GET_CONTROLLER_INFO 0 (buffer_vbe2 (v_rm v));
             v = v\<lparr>v_rm := rm\<rparr> in
         if \<not> ok then v
         else if buffer_u8 rm 0 \<noteq> 86 \<or> buffer_u8 rm 1 \<noteq> 69 \<or> buffer_u8 rm 2 \<noteq> 83 \<or> buffer_u8 rm 3 \<noteq> 65
           then v
         else v\<lparr>vbe_version := buffer_u16 rm VBE_INFO_VERSION, vbe_available := True\<rparr>))"

text \<open>The loop that counts the listed modes, with the capacity that is left.\<close>

primrec vbe_list :: "'d realmode \<Rightarrow> u32 \<Rightarrow> nat \<Rightarrow> u16 list" where
  "vbe_list rm a 0 = []"
| "vbe_list rm a (Suc n) =
     (let m = mem_get16 (rm_mem rm) a in if m \<noteq> VBE_MODE_LIST_END then m # vbe_list rm (a + 2) n else [])"

definition vbe_collect_modes :: "'d bios_int \<Rightarrow> nat \<Rightarrow> 'd realmode \<Rightarrow> u16 list \<times> 'd realmode" where
  "vbe_collect_modes bios capacity rm =
     (let (ok, rm) = vbe_call bios VBE_GET_CONTROLLER_INFO 0 (buffer_vbe2 rm) in
      if \<not> ok then ([], rm)
      else
        (let lst = far_ptr_to_linear (buffer_u32 rm VBE_INFO_MODE_PTR) in
         if lst = 0 then ([], rm) else (vbe_list rm lst capacity, rm)))"

definition vbe_score_bpp :: "u8 \<Rightarrow> u8 \<Rightarrow> nat" where
  "vbe_score_bpp mode_bpp wanted_bpp =
     (if mode_bpp = wanted_bpp then 2
      else if mode_bpp = 32 \<or> mode_bpp = 24 \<or> mode_bpp = 16 \<or> mode_bpp = 15 then 1 else 0)"

text \<open>The candidate that the buffer describes.\<close>

definition vbe_candidate :: "'d realmode \<Rightarrow> u32 \<Rightarrow> u32 \<Rightarrow> u16 \<Rightarrow> video_mode_info" where
  "vbe_candidate rm width height mode =
     \<lparr>vm_kind = VIDEO_KIND_VBE_LFB, vm_framebuffer = buffer_u32 rm VBE_MODE_PHYS_BASE,
      vm_width = width, vm_height = height, vm_pitch = ucast (buffer_u16 rm VBE_MODE_PITCH),
      vm_bpp = buffer_u8 rm VBE_MODE_BPP,
      vm_red_pos = buffer_u8 rm VBE_MODE_RED_POS, vm_red_size = buffer_u8 rm VBE_MODE_RED_SIZE,
      vm_green_pos = buffer_u8 rm VBE_MODE_GREEN_POS, vm_green_size = buffer_u8 rm VBE_MODE_GREEN_SIZE,
      vm_blue_pos = buffer_u8 rm VBE_MODE_BLUE_POS, vm_blue_size = buffer_u8 rm VBE_MODE_BLUE_SIZE,
      vm_vbe_mode = mode\<rparr>"

text \<open>The tests of one mode, once its description is in the buffer, and the body of the loop.\<close>

definition vbe_acceptable :: "'d realmode \<Rightarrow> u32 \<Rightarrow> u32 \<Rightarrow> bool" where
  "vbe_acceptable rm width height \<longleftrightarrow>
     (let attributes = buffer_u16 rm VBE_MODE_ATTRIBUTES; memory_model = buffer_u8 rm VBE_MODE_MEMORY_MODEL in
      attributes AND VBE_ATTR_SUPPORTED \<noteq> 0 \<and> attributes AND VBE_ATTR_GRAPHICS \<noteq> 0 \<and>
      attributes AND VBE_ATTR_LINEAR_FB \<noteq> 0 \<and>
      (ucast (buffer_u16 rm VBE_MODE_WIDTH) :: u32) = width \<and>
      (ucast (buffer_u16 rm VBE_MODE_HEIGHT) :: u32) = height \<and>
      (memory_model = VBE_MEMORY_PACKED \<or> memory_model = VBE_MEMORY_DIRECT))"

definition vbe_consider ::
  "'d bios_int \<Rightarrow> u32 \<Rightarrow> u32 \<Rightarrow> u8 \<Rightarrow> u16 \<Rightarrow> nat \<times> u16 \<times> video_mode_info \<times> 'd realmode \<Rightarrow>
     nat \<times> u16 \<times> video_mode_info \<times> 'd realmode" where
  "vbe_consider bios width height bpp mode st =
     (let (best_score, best_mode, candidate, rm) = st;
          (ok, rm) = vbe_call bios VBE_GET_MODE_INFO mode rm in
      if \<not> ok then (best_score, best_mode, candidate, rm)
      else if \<not> vbe_acceptable rm width height then (best_score, best_mode, candidate, rm)
      else
        (let score = vbe_score_bpp (buffer_u8 rm VBE_MODE_BPP) bpp in
         if score \<le> best_score then (best_score, best_mode, candidate, rm)
         else (score, mode, vbe_candidate rm width height mode, rm)))"

definition video_set_vbe :: "'d bios_int \<Rightarrow> u32 \<Rightarrow> u32 \<Rightarrow> u8 \<Rightarrow> 'd video \<Rightarrow> bool \<times> 'd video" where
  "video_set_vbe bios width height bpp v =
     (if \<not> realmode_is_ready (v_rm v) \<or> \<not> vbe_available v then (False, v)
      else
        (let (modes, rm) = vbe_collect_modes bios VBE_MAX_MODES (v_rm v) in
         if modes = [] then (False, v\<lparr>v_rm := rm\<rparr>)
         else
           (let (best_score, best_mode, candidate, rm) =
                  fold (vbe_consider bios width height bpp) modes (0, 0, zero_mode, rm) in
            if best_score = 0 \<or> vm_framebuffer candidate = 0 then (False, v\<lparr>v_rm := rm\<rparr>)
            else
              (let (ok, regs, rm) = bios BIOS_VIDEO_INT
                     (zero_regs\<lparr>r_eax := ucast VBE_SET_MODE,
                                r_ebx := ucast (best_mode OR VBE_MODE_LINEAR_FB)\<rparr>) rm;
                   v = v\<lparr>v_rm := rm\<rparr> in
               if \<not> ok then (False, v)
               else if r_eax regs AND 0xFFFF \<noteq> VBE_SUPPORTED then (False, v)
               else (True, v\<lparr>current_mode := candidate\<rparr>)))))"

definition video_current :: "'d video \<Rightarrow> video_mode_info" where "video_current v = current_mode v"
definition video_vbe_available :: "'d video \<Rightarrow> bool" where "video_vbe_available v = vbe_available v"
definition video_vbe_version :: "'d video \<Rightarrow> u16" where "video_vbe_version v = vbe_version v"

end
