(* ===== verification/Kalloc.thy ===== *)
theory Kalloc
  imports Bump BootInfo
begin

text \<open>
  The kernel's page allocator (kernel/kalloc.c): the choice of its region from the E820 map, and
  the bump allocation of whole pages inside it.
\<close>

unbundle bit_operations_syntax

section \<open>Operations\<close>

definition KALLOC_PAGE_SIZE :: u32 where "KALLOC_PAGE_SIZE = 4096"
definition KALLOC_MIN_PHYSICAL :: u64 where "KALLOC_MIN_PHYSICAL = 0x00100000"
definition E820_TYPE_USABLE :: u32 where "E820_TYPE_USABLE = 1"

record kalloc_state =
  kalloc_region_base :: u32
  kalloc_region_capacity :: u32
  kalloc_region_offset :: u32

definition kalloc_align_up :: "u32 \<Rightarrow> u32" where
  "kalloc_align_up v =
     (if v > 0xFFFFFFFF - (KALLOC_PAGE_SIZE - 1) then 0
      else (v + KALLOC_PAGE_SIZE - 1) AND NOT (KALLOC_PAGE_SIZE - 1))"

text \<open>The body of the loop over the memory map.\<close>

definition kalloc_consider :: "e820_entry \<Rightarrow> kalloc_state \<Rightarrow> kalloc_state" where
  "kalloc_consider e s =
     (let base = e_base e; len = e_length e in
      if e_type e \<noteq> E820_TYPE_USABLE then s
      else if base < KALLOC_MIN_PHYSICAL then s
      else if base > 0xFFFFFFFF then s
      else
        (let stop = base + len;
             stop = (if stop > 0x100000000 then 0x100000000 else stop);
             usable_base = (ucast base :: u32);
             usable_size = (ucast (stop - base) :: u32);
             aligned_base = kalloc_align_up usable_base in
         if aligned_base = 0 \<or> aligned_base - usable_base \<ge> usable_size then s
         else
           (let usable_size = usable_size - (aligned_base - usable_base) in
            if usable_size > kalloc_region_capacity s
            then s\<lparr>kalloc_region_base := aligned_base,
                   kalloc_region_capacity := usable_size AND NOT (KALLOC_PAGE_SIZE - 1)\<rparr>
            else s)))"

definition kalloc_empty :: kalloc_state where
  "kalloc_empty = \<lparr>kalloc_region_base = 0, kalloc_region_capacity = 0, kalloc_region_offset = 0\<rparr>"

definition kalloc_scan :: "e820_entry list \<Rightarrow> kalloc_state" where
  "kalloc_scan es = fold kalloc_consider es kalloc_empty"

text \<open>
  The boot block is at a fixed nonzero address, so of the three early exits the null entry array
  and the empty map remain.
\<close>

definition kalloc_entries :: "memory \<Rightarrow> e820_entry list" where
  "kalloc_entries mem =
     map (e820_at mem (boot_info_e820_entries mem)) [0..<unat (raw_mmap_count (boot_info_get mem))]"

definition kalloc_init :: "memory \<Rightarrow> bool \<times> kalloc_state" where
  "kalloc_init mem =
     (if boot_info_e820_entries mem = 0 \<or> raw_mmap_count (boot_info_get mem) = 0
      then (False, kalloc_empty)
      else (let s = kalloc_scan (kalloc_entries mem) in (kalloc_region_capacity s > 0, s)))"

definition kalloc_pages :: "u32 \<Rightarrow> kalloc_state \<Rightarrow> u32 option \<times> kalloc_state" where
  "kalloc_pages sz s =
     (if kalloc_region_capacity s = 0 \<or> sz = 0 then (None, s)
      else (let aligned_size = kalloc_align_up sz in
        if aligned_size = 0 then (None, s)
        else if aligned_size > kalloc_region_capacity s - kalloc_region_offset s then (None, s)
        else (Some (kalloc_region_base s + kalloc_region_offset s),
              s\<lparr>kalloc_region_offset := kalloc_region_offset s + aligned_size\<rparr>)))"

definition kalloc_base :: "kalloc_state \<Rightarrow> u32" where "kalloc_base s = kalloc_region_base s"
definition kalloc_capacity :: "kalloc_state \<Rightarrow> u32" where "kalloc_capacity s = kalloc_region_capacity s"
definition kalloc_used :: "kalloc_state \<Rightarrow> u32" where "kalloc_used s = kalloc_region_offset s"

section \<open>Rounding\<close>

definition page_up :: "nat \<Rightarrow> nat" where "page_up n = (n + 4095) div 4096 * 4096"
definition page_down :: "nat \<Rightarrow> nat" where "page_down n = n div 4096 * 4096"

lemma page_up_props: "n \<le> page_up n" "page_up n < n + 4096" "4096 dvd page_up n"
  by (simp_all add: page_up_def)

lemma page_down_props: "page_down n \<le> n" "n < page_down n + 4096" "4096 dvd page_down n"
  by (simp_all add: page_down_def)

lemma page_mask: "KALLOC_PAGE_SIZE - 1 = mask 12"
  by (simp add: KALLOC_PAGE_SIZE_def mask_eq_exp_minus_1)

lemma unat_page_down: "unat (w AND NOT (KALLOC_PAGE_SIZE - 1)) = page_down (unat w)"
  unfolding page_mask by (simp add: unat_and_not_mask page_down_def)

lemma unat_align_up:
  "unat (kalloc_align_up v) = (if page_up (unat v) < 4294967296 then page_up (unat v) else 0)"
proof (cases "v > 0xFFFFFFFF - (KALLOC_PAGE_SIZE - 1)")
  case True
  then have "unat v > 4294963200" by (simp add: word_less_nat_alt KALLOC_PAGE_SIZE_def)
  then have "page_up (unat v) \<ge> 4294967296" by (simp add: page_up_def)
  with True show ?thesis by (simp add: kalloc_align_up_def)
next
  case False
  then have v: "unat v \<le> 4294963200" by (simp add: word_less_nat_alt KALLOC_PAGE_SIZE_def)
  have "unat (v + KALLOC_PAGE_SIZE - 1) = unat v + 4095"
    using v by (simp add: KALLOC_PAGE_SIZE_def unat_word_ariths)
  moreover have "page_up (unat v) < 4294967296" using v by (simp add: page_up_def)
  ultimately show ?thesis
    using False by (simp only: kalloc_align_up_def if_False unat_page_down) (simp add: page_up_def page_down_def)
qed

section \<open>The choice of the region\<close>

text \<open>What an entry offers: the bytes from its first page boundary to its end, below 4 GiB.\<close>

definition avail :: "e820_entry \<Rightarrow> nat" where
  "avail e =
     (let b = unat (e_base e); stop = min (b + unat (e_length e)) 4294967296 in
      if e_type e = 1 \<and> 1048576 \<le> b \<and> b < 4294967296 then stop - page_up b else 0)"

definition no_wrap :: "e820_entry \<Rightarrow> bool" where
  "no_wrap e \<longleftrightarrow> unat (e_base e) + unat (e_length e) < 18446744073709551616"

lemma kalloc_consider_eq:
  assumes "no_wrap e"
  shows "kalloc_consider e s =
    (if unat (kalloc_region_capacity s) < avail e
     then s\<lparr>kalloc_region_base := of_nat (page_up (unat (e_base e))),
            kalloc_region_capacity := of_nat (page_down (avail e))\<rparr>
     else s)"
proof (cases "e_type e = 1 \<and> 1048576 \<le> unat (e_base e) \<and> unat (e_base e) < 4294967296")
  case False
  then show ?thesis
    by (auto simp: kalloc_consider_def Let_def avail_def E820_TYPE_USABLE_def KALLOC_MIN_PHYSICAL_def
        word_less_nat_alt)
next
  case True
  let ?b = "unat (e_base e)" and ?l = "unat (e_length e)"
  define stop where "stop = (if e_base e + e_length e > 0x100000000 then 0x100000000 else e_base e + e_length e)"
  define size where "size = (ucast (stop - e_base e) :: u32)"
  define ub where "ub = (ucast (e_base e) :: u32)"
  define ab where "ab = kalloc_align_up ub"
  have "unat (e_base e + e_length e) = ?b + ?l"
    using assms by (simp add: unat_word_ariths no_wrap_def)
  then have stop: "unat stop = min (?b + ?l) 4294967296"
    by (auto simp: stop_def word_less_nat_alt)
  then have ge: "e_base e \<le> stop" using True by (simp add: word_le_nat_alt)
  have "unat (stop - e_base e) < 4294967296"
    using stop True unat_word_sub [OF ge] by linarith
  then have size: "unat size = unat stop - ?b"
    by (simp add: size_def unsigned_ucast_eq take_bit_nat_eq_self unat_word_sub [OF ge])
  have ub: "unat ub = ?b"
    using True by (simp add: ub_def unsigned_ucast_eq take_bit_nat_eq_self)
  have ab: "unat ab = (if page_up ?b < 4294967296 then page_up ?b else 0)"
    by (simp add: ab_def unat_align_up ub)
  have eq: "kalloc_consider e s =
      (if ab = 0 \<or> ab - ub \<ge> size then s
       else if size - (ab - ub) > kalloc_region_capacity s
         then s\<lparr>kalloc_region_base := ab,
           kalloc_region_capacity := (size - (ab - ub)) AND NOT (KALLOC_PAGE_SIZE - 1)\<rparr>
         else s)"
    using True
    by (simp add: kalloc_consider_def Let_def E820_TYPE_USABLE_def KALLOC_MIN_PHYSICAL_def
        word_less_nat_alt stop_def size_def ub_def ab_def)
  have av: "avail e = unat stop - page_up ?b" using True stop by (simp add: avail_def Let_def)
  show ?thesis
  proof (cases "page_up ?b < unat stop")
    case False
    then have "ab = 0 \<or> ab - ub \<ge> size"
    proof (cases "page_up ?b < 4294967296")
      case True
      then have "ub \<le> ab" using ab ub page_up_props(1) [of ?b] by (simp add: word_le_nat_alt)
      then have "unat (ab - ub) = page_up ?b - ?b" using True ab ub by (simp add: unat_word_sub)
      with False size have "unat size \<le> unat (ab - ub)" by linarith
      then show ?thesis by (simp add: word_le_nat_alt)
    next
      case False
      then show ?thesis using ab by (simp add: unat_eq_zero)
    qed
    with eq av False show ?thesis by simp
  next
    case True
    then have up: "page_up ?b < 4294967296" using stop by simp
    have le: "ub \<le> ab" using ab ub up page_up_props(1) [of ?b] by (simp add: word_le_nat_alt)
    then have d: "unat (ab - ub) = page_up ?b - ?b" using up ab ub by (simp add: unat_word_sub)
    have lt: "ab - ub < size"
      using True d size page_up_props(1) [of ?b] by (simp add: word_less_nat_alt)
    then have sz: "unat (size - (ab - ub)) = avail e"
      using d size av page_up_props(1) [of ?b] by (simp add: unat_word_sub order_less_imp_le)
    have "ab \<noteq> 0" using ab up \<open>e_type e = 1 \<and> _\<close> page_up_props(1) [of ?b] by auto
    moreover have "ab = of_nat (page_up ?b)" using ab up by (intro word_of_unat) simp
    moreover have "(size - (ab - ub)) AND NOT (KALLOC_PAGE_SIZE - 1) = of_nat (page_down (avail e))"
      using unat_page_down [of "size - (ab - ub)"] sz by (intro word_of_unat) simp
    ultimately show ?thesis
      using eq lt sz by (simp add: word_less_nat_alt linorder_not_le [symmetric] word_le_nat_alt)
  qed
qed

definition page_room :: "e820_entry \<Rightarrow> nat" where
  "page_room e = page_down (avail e)"

lemma avail_bounds:
  "0 < avail e \<Longrightarrow> e_type e = 1 \<and> 1048576 \<le> unat (e_base e) \<and>
     page_up (unat (e_base e)) + avail e \<le> unat (e_base e) + unat (e_length e) \<and>
     page_up (unat (e_base e)) + avail e \<le> 4294967296"
  by (auto simp: avail_def Let_def split: if_splits)

lemma page_down_mono: "a \<le> b \<Longrightarrow> page_down a \<le> page_down b"
  by (simp add: page_down_def div_le_mono)

lemma page_down_fix: "4096 dvd a \<Longrightarrow> page_down a = a"
  by (simp add: page_down_def)

lemma scan_step:
  assumes "no_wrap e" "4096 dvd unat (kalloc_region_capacity s)"
  shows "unat (kalloc_region_capacity (kalloc_consider e s)) =
      max (unat (kalloc_region_capacity s)) (page_room e)"
    "unat (kalloc_region_capacity s) < avail e \<Longrightarrow>
       unat (kalloc_region_base (kalloc_consider e s)) = page_up (unat (e_base e))"
    "\<not> unat (kalloc_region_capacity s) < avail e \<Longrightarrow> kalloc_consider e s = s"
    "kalloc_region_offset (kalloc_consider e s) = kalloc_region_offset s"
proof -
  have lt: "page_down (avail e) < 4294967296" "0 < avail e \<Longrightarrow> page_up (unat (e_base e)) < 4294967296"
    using avail_bounds [of e] page_down_props(1) [of "avail e"] page_up_props(1) [of "unat (e_base e)"]
    by (cases "0 < avail e"; simp)+
  show "unat (kalloc_region_capacity (kalloc_consider e s)) =
      max (unat (kalloc_region_capacity s)) (page_room e)"
  proof (cases "unat (kalloc_region_capacity s) < avail e")
    case True
    then have "unat (kalloc_region_capacity s) \<le> page_down (avail e)"
      using page_down_mono [of "unat (kalloc_region_capacity s)" "avail e"] page_down_fix [OF assms(2)]
      by simp
    with True lt(1) assms(1) show ?thesis
      by (simp add: kalloc_consider_eq page_room_def unat_of_nat_word max_def)
  next
    case False
    then have "page_down (avail e) \<le> unat (kalloc_region_capacity s)"
      using page_down_props(1) [of "avail e"] by simp
    with False assms(1) show ?thesis by (simp add: kalloc_consider_eq page_room_def)
  qed
  show "unat (kalloc_region_capacity s) < avail e \<Longrightarrow>
       unat (kalloc_region_base (kalloc_consider e s)) = page_up (unat (e_base e))"
    using lt(2) assms(1) by (simp add: kalloc_consider_eq unat_of_nat_word)
  show "\<not> unat (kalloc_region_capacity s) < avail e \<Longrightarrow> kalloc_consider e s = s"
    "kalloc_region_offset (kalloc_consider e s) = kalloc_region_offset s"
    using assms(1) by (simp_all add: kalloc_consider_eq)
qed

lemma page_room_dvd: "4096 dvd page_room e"
  by (simp add: page_room_def page_down_props)

text \<open>The scan as a whole: the largest offer, and the entry that it comes from.\<close>

lemma scan_region:
  assumes "\<forall>e \<in> set es. no_wrap e"
  shows "unat (kalloc_region_capacity (kalloc_scan es)) = fold (\<lambda>e m. max m (page_room e)) es 0 \<and>
    4096 dvd unat (kalloc_region_capacity (kalloc_scan es)) \<and>
    kalloc_region_offset (kalloc_scan es) = 0 \<and>
    (0 < unat (kalloc_region_capacity (kalloc_scan es)) \<longrightarrow>
      (\<exists>e \<in> set es. page_room e = unat (kalloc_region_capacity (kalloc_scan es)) \<and>
         unat (kalloc_region_base (kalloc_scan es)) = page_up (unat (e_base e))))"
  using assms
proof (induction es rule: rev_induct)
  case Nil
  then show ?case by (simp add: kalloc_scan_def kalloc_empty_def)
next
  case (snoc e es)
  let ?s = "kalloc_scan es"
  have last: "kalloc_scan (es @ [e]) = kalloc_consider e ?s" by (simp add: kalloc_scan_def)
  have e: "no_wrap e" and pre: "\<forall>e \<in> set es. no_wrap e" using snoc.prems by simp_all
  have IH: "unat (kalloc_region_capacity ?s) = fold (\<lambda>e m. max m (page_room e)) es 0"
    "4096 dvd unat (kalloc_region_capacity ?s)" "kalloc_region_offset ?s = 0"
    "0 < unat (kalloc_region_capacity ?s) \<Longrightarrow> \<exists>e \<in> set es. page_room e = unat (kalloc_region_capacity ?s) \<and>
         unat (kalloc_region_base ?s) = page_up (unat (e_base e))"
    using snoc.IH [OF pre] by blast+
  note step = scan_step [OF e IH(2)]
  show ?case
  proof (cases "unat (kalloc_region_capacity ?s) < avail e")
    case True
    then have "unat (kalloc_region_capacity ?s) \<le> page_room e"
      using page_down_mono [of "unat (kalloc_region_capacity ?s)" "avail e"] page_down_fix [OF IH(2)]
      by (simp add: page_room_def)
    with step(1,2,4) IH True page_room_dvd [of e] show ?thesis
      unfolding last by (simp add: max_def)
  next
    case False
    then have "page_room e \<le> unat (kalloc_region_capacity ?s)"
      using page_down_props(1) [of "avail e"] by (simp add: page_room_def)
    with step(3) [OF False] IH show ?thesis unfolding last by (auto simp: max_def)
  qed
qed

section \<open>Allocation\<close>

definition kalloc_inv :: "kalloc_state \<Rightarrow> bool" where
  "kalloc_inv s \<longleftrightarrow>
     unat (kalloc_region_base s) + unat (kalloc_region_capacity s) \<le> 4294967296 \<and>
     unat (kalloc_region_offset s) \<le> unat (kalloc_region_capacity s) \<and>
     4096 dvd unat (kalloc_region_base s) \<and> 4096 dvd unat (kalloc_region_capacity s) \<and>
     4096 dvd unat (kalloc_region_offset s)"

definition kalloc_block :: "u32 \<Rightarrow> kalloc_state \<Rightarrow> (nat \<times> kalloc_state) option" where
  "kalloc_block n s = (case kalloc_pages n s of (Some a, s') \<Rightarrow> Some (unat a, s') | (None, _) \<Rightarrow> None)"

definition kalloc_bytes :: "u32 \<Rightarrow> nat" where "kalloc_bytes n = page_up (unat n)"

lemma kalloc_block_Some:
  assumes "kalloc_inv s" "kalloc_block n s = Some (a, s')"
  shows "a = unat (kalloc_region_base s) + unat (kalloc_region_offset s)"
    "unat (kalloc_region_offset s') = unat (kalloc_region_offset s) + kalloc_bytes n"
    "kalloc_region_base s' = kalloc_region_base s" "kalloc_region_capacity s' = kalloc_region_capacity s"
    "unat (kalloc_region_offset s) + kalloc_bytes n \<le> unat (kalloc_region_capacity s)"
proof -
  let ?al = "kalloc_align_up n"
  have r: "?al \<noteq> 0" "\<not> ?al > kalloc_region_capacity s - kalloc_region_offset s"
    "a = unat (kalloc_region_base s + kalloc_region_offset s)"
    "s' = s\<lparr>kalloc_region_offset := kalloc_region_offset s + ?al\<rparr>"
    using assms(2)
    by (auto simp: kalloc_block_def kalloc_pages_def Let_def split: if_splits)
  have off: "kalloc_region_offset s \<le> kalloc_region_capacity s"
    using assms(1) by (simp add: kalloc_inv_def word_le_nat_alt)
  have al: "unat ?al = kalloc_bytes n"
  proof -
    have "unat ?al \<noteq> 0" using r(1) by (simp add: unat_eq_zero)
    then show ?thesis by (simp add: unat_align_up kalloc_bytes_def split: if_splits)
  qed
  have "unat ?al \<le> unat (kalloc_region_capacity s) - unat (kalloc_region_offset s)"
    using r(2) by (simp add: word_less_nat_alt unat_word_sub [OF off])
  then show le: "unat (kalloc_region_offset s) + kalloc_bytes n \<le> unat (kalloc_region_capacity s)"
    using al off by (simp add: word_le_nat_alt)
  have pos: "0 < kalloc_bytes n" using al r(1) by (metis gr0I unat_eq_zero)
  show "unat (kalloc_region_offset s') = unat (kalloc_region_offset s) + kalloc_bytes n"
    using le al unat_u32_less [of "kalloc_region_capacity s"] r(4) by (simp add: unat_word_ariths)
  show "a = unat (kalloc_region_base s) + unat (kalloc_region_offset s)"
    using le pos assms(1) r(3) by (simp add: unat_word_ariths kalloc_inv_def)
  show "kalloc_region_base s' = kalloc_region_base s" "kalloc_region_capacity s' = kalloc_region_capacity s"
    using r(4) by simp_all
qed

interpretation kalloc: page_alloc kalloc_block kalloc_bytes kalloc_inv
  "\<lambda>s. unat (kalloc_region_base s) + unat (kalloc_region_offset s)"
  "\<lambda>s. unat (kalloc_region_base s) + unat (kalloc_region_capacity s)" 4096
proof unfold_locales
  fix s n a s'
  assume a: "kalloc_inv s" "kalloc_block n s = Some (a, s')"
  note f = kalloc_block_Some [OF a]
  have "4096 dvd kalloc_bytes n" by (simp add: kalloc_bytes_def page_up_props)
  with f a(1) show "kalloc_inv s'" by (simp add: kalloc_inv_def)
  show "unat (kalloc_region_base s') + unat (kalloc_region_capacity s') =
      unat (kalloc_region_base s) + unat (kalloc_region_capacity s)"
    using f by simp
  show "unat (kalloc_region_base s) + unat (kalloc_region_offset s) \<le> a \<and>
      a + kalloc_bytes n \<le> unat (kalloc_region_base s') + unat (kalloc_region_offset s') \<and>
      unat (kalloc_region_base s') + unat (kalloc_region_offset s') \<le>
        unat (kalloc_region_base s') + unat (kalloc_region_capacity s')"
    using f by simp
  show "4096 dvd a" using f(1) a(1) by (simp add: kalloc_inv_def)
qed

lemma scan_inv:
  assumes "\<forall>e \<in> set es. no_wrap e"
  shows "kalloc_inv (kalloc_scan es)"
proof (cases "0 < unat (kalloc_region_capacity (kalloc_scan es))")
  case True
  with scan_region [OF assms] obtain e where e: "page_room e = unat (kalloc_region_capacity (kalloc_scan es))"
    "unat (kalloc_region_base (kalloc_scan es)) = page_up (unat (e_base e))"
    "kalloc_region_offset (kalloc_scan es) = 0" "4096 dvd unat (kalloc_region_capacity (kalloc_scan es))"
    by blast
  have "page_room e \<le> avail e" by (simp add: page_room_def page_down_props)
  with True e(1) avail_bounds [of e] show ?thesis
    using e by (simp add: kalloc_inv_def page_up_props)
next
  case False
  have "4096 dvd unat (kalloc_region_base (kalloc_scan es))"
    using assms
  proof (induction es rule: rev_induct)
    case Nil
    then show ?case by (simp add: kalloc_scan_def kalloc_empty_def)
  next
    case (snoc e es)
    then have d: "4096 dvd unat (kalloc_region_capacity (kalloc_scan es))"
      using conjunct1 [OF conjunct2 [OF scan_region [of es]]] by simp
    with snoc scan_step(2,3) [OF _ d, of e] show ?case
      by (cases "unat (kalloc_region_capacity (kalloc_scan es)) < avail e")
         (simp_all add: kalloc_scan_def page_up_props)
  qed
  with False scan_region [OF assms] show ?thesis
    using unat_u32_less [of "kalloc_region_base (kalloc_scan es)"] by (simp add: kalloc_inv_def)
qed

lemma init_best_region:
  assumes "boot_info_e820_entries mem \<noteq> 0" "\<forall>e \<in> set (kalloc_entries mem). no_wrap e"
  shows "\<exists>s. kalloc_init mem = (\<exists>e \<in> set (kalloc_entries mem). 0 < page_room e, s) \<and> kalloc_inv s \<and>
    unat (kalloc_capacity s) = fold (\<lambda>e m. max m (page_room e)) (kalloc_entries mem) 0 \<and>
    kalloc_used s = 0 \<and>
    (0 < kalloc_capacity s \<longrightarrow> (\<exists>e \<in> set (kalloc_entries mem).
        e_type e = 1 \<and> 1048576 \<le> unat (e_base e) \<and> unat (e_base e) \<le> unat (kalloc_base s) \<and>
        unat (kalloc_base s) + unat (kalloc_capacity s) \<le> unat (e_base e) + unat (e_length e)))"
proof -
  define es where "es = kalloc_entries mem"
  let ?s = "kalloc_scan es"
  have nw: "\<forall>e \<in> set es. no_wrap e" using assms(2) by (simp add: es_def)
  note reg = scan_region [OF nw]
  have max_pos: "0 < fold (\<lambda>e m. max m (page_room e)) xs n \<longleftrightarrow> 0 < n \<or> (\<exists>e \<in> set xs. 0 < page_room e)" for xs n
    by (induction xs arbitrary: n) auto
  have pos: "0 < kalloc_region_capacity ?s \<longleftrightarrow> (\<exists>e \<in> set es. 0 < page_room e)"
    using reg max_pos [of es 0] by (simp add: word_less_nat_alt)
  have init: "kalloc_init mem = (\<exists>e \<in> set es. 0 < page_room e, ?s)"
  proof (cases "raw_mmap_count (boot_info_get mem) = 0")
    case True
    then have "es = []" by (simp add: es_def kalloc_entries_def)
    with True show ?thesis by (simp add: kalloc_init_def kalloc_scan_def)
  next
    case False
    with assms(1) pos show ?thesis by (simp add: kalloc_init_def Let_def es_def)
  qed
  have inside: "\<exists>e \<in> set es. e_type e = 1 \<and> 1048576 \<le> unat (e_base e) \<and>
        unat (e_base e) \<le> unat (kalloc_region_base ?s) \<and>
        unat (kalloc_region_base ?s) + unat (kalloc_region_capacity ?s) \<le> unat (e_base e) + unat (e_length e)"
    if "0 < kalloc_region_capacity ?s"
  proof -
    have "0 < unat (kalloc_region_capacity ?s)" using that by (simp add: word_less_nat_alt)
    then obtain e where e: "e \<in> set es" "page_room e = unat (kalloc_region_capacity ?s)"
      "unat (kalloc_region_base ?s) = page_up (unat (e_base e))" using reg by blast
    have "page_room e \<le> avail e" by (simp add: page_room_def page_down_props)
    with e avail_bounds [of e] \<open>0 < unat (kalloc_region_capacity ?s)\<close> page_up_props(1) [of "unat (e_base e)"]
    show ?thesis by (intro bexI [of _ e]) auto
  qed
  show ?thesis
    unfolding es_def [symmetric]
    using init inside scan_inv [OF nw] reg
    by (intro exI [of _ ?s]) (simp add: kalloc_base_def kalloc_capacity_def kalloc_used_def)
qed

text \<open>
  Initialisation takes the best region that the memory map offers: its capacity is the
  largest whole-page room of any usable entry that starts between 1 MiB and 4 GiB, it lies inside
  such an entry and below 4 GiB, starts on a page, and nothing of it is in use; it succeeds
  exactly when such room exists.
\<close>

theorem kalloc_init_best_region:
  assumes "boot_info_e820_entries mem \<noteq> 0" "\<forall>e \<in> set (kalloc_entries mem). no_wrap e"
  shows "\<exists>s. kalloc_init mem = (\<exists>e \<in> set (kalloc_entries mem). 0 < page_room e, s) \<and> kalloc_inv s \<and>
    unat (kalloc_capacity s) = fold (\<lambda>e m. max m (page_room e)) (kalloc_entries mem) 0 \<and>
    kalloc_used s = 0 \<and>
    (0 < kalloc_capacity s \<longrightarrow> (\<exists>e \<in> set (kalloc_entries mem).
        e_type e = 1 \<and> 1048576 \<le> unat (e_base e) \<and> unat (e_base e) \<le> unat (kalloc_base s) \<and>
        unat (kalloc_base s) + unat (kalloc_capacity s) \<le> unat (e_base e) + unat (e_length e)))"
  by (rule init_best_region [OF assms])

text \<open>
  C27: Whatever sequence of requests is made, the blocks granted are page aligned, pairwise
  disjoint, large enough, and inside the region; and the invariant survives.
\<close>

theorem kalloc_blocks_disjoint:
  assumes "kalloc_inv s"
  shows "separate (fst (bump_run kalloc_block kalloc_bytes ns s)) \<and>
    (\<forall>b \<in> set (fst (bump_run kalloc_block kalloc_bytes ns s)).
       4096 dvd fst b \<and> unat (kalloc_base s) \<le> fst b \<and>
       fst b + snd b \<le> unat (kalloc_base s) + unat (kalloc_capacity s)) \<and>
    kalloc_inv (snd (bump_run kalloc_block kalloc_bytes ns s)) \<and> unat n \<le> kalloc_bytes n"
  using kalloc.run_separate [OF assms, of ns] kalloc.run_bounds [OF assms, of ns]
    kalloc.run_aligned [OF assms, of ns] page_up_props(1) [of "unat n"]
  by (fastforce simp: kalloc_base_def kalloc_capacity_def kalloc_bytes_def)

lemma kalloc_bytes_pos: "n \<noteq> 0 \<Longrightarrow> 0 < kalloc_bytes n"
proof -
  assume "n \<noteq> 0"
  then have "unat n \<noteq> 0" by (simp add: unat_eq_zero)
  with page_up_props(1) [of "unat n"] show ?thesis unfolding kalloc_bytes_def by linarith
qed

text \<open>
  A request is refused only for a reason: a size of zero, or fewer bytes left in the region
  than the size rounded up to pages; and a refusal changes nothing.
\<close>

theorem kalloc_pages_refuses:
  assumes "kalloc_inv s"
  shows "if n = 0 \<or> unat (kalloc_capacity s) < unat (kalloc_used s) + kalloc_bytes n
    then kalloc_pages n s = (None, s)
    else fst (kalloc_pages n s) = Some (kalloc_base s + kalloc_used s)"
proof (cases "n = 0 \<or> kalloc_region_capacity s = 0")
  case True
  with kalloc_bytes_pos [of n] show ?thesis
    by (auto simp: kalloc_pages_def kalloc_capacity_def)
next
  case False
  have off: "kalloc_region_offset s \<le> kalloc_region_capacity s"
    using assms by (simp add: kalloc_inv_def word_le_nat_alt)
  have pos: "0 < kalloc_bytes n"
    using False kalloc_bytes_pos by simp
  have al: "unat (kalloc_align_up n) = (if kalloc_bytes n < 4294967296 then kalloc_bytes n else 0)"
    by (simp add: unat_align_up kalloc_bytes_def)
  then have zero: "kalloc_align_up n = 0 \<longleftrightarrow> 4294967296 \<le> kalloc_bytes n"
    using pos by (metis linorder_not_le order_less_irrefl unat_eq_zero)
  have "kalloc_align_up n > kalloc_region_capacity s - kalloc_region_offset s \<longleftrightarrow>
      unat (kalloc_region_capacity s) < unat (kalloc_region_offset s) + unat (kalloc_align_up n)"
    using off by (auto simp: word_less_nat_alt word_le_nat_alt unat_word_sub)
  with al zero False unat_u32_less [of "kalloc_region_capacity s"] show ?thesis
    by (auto simp: kalloc_pages_def Let_def kalloc_capacity_def kalloc_used_def kalloc_base_def)
qed

section \<open>Witnesses\<close>

definition kalloc_example :: kalloc_state where
  "kalloc_example = \<lparr>kalloc_region_base = 0x100000, kalloc_region_capacity = 0x4000,
     kalloc_region_offset = 0\<rparr>"

lemma kalloc_example_inv: "kalloc_inv kalloc_example"
  by (simp add: kalloc_example_def kalloc_inv_def)

lemma kalloc_blocks_disjoint_witness:
  "fst (bump_run kalloc_block kalloc_bytes [5000, 1, 20000, 4096] kalloc_example) =
     [(0x100000, 8192), (0x102000, 4096), (0x103000, 4096)] \<and>
   separate (fst (bump_run kalloc_block kalloc_bytes [5000, 1, 20000, 4096] kalloc_example))"
proof
  show "fst (bump_run kalloc_block kalloc_bytes [5000, 1, 20000, 4096] kalloc_example) =
     [(0x100000, 8192), (0x102000, 4096), (0x103000, 4096)]"
    by (simp add: kalloc_block_def kalloc_pages_def kalloc_example_def kalloc_align_up_def
        KALLOC_PAGE_SIZE_def Let_def kalloc_bytes_def page_up_def)
  show "separate (fst (bump_run kalloc_block kalloc_bytes [5000, 1, 20000, 4096] kalloc_example))"
    using kalloc_blocks_disjoint [OF kalloc_example_inv, of "[5000, 1, 20000, 4096]" 0] by simp
qed

lemma kalloc_pages_refuses_witness: "kalloc_pages 0x4001 kalloc_example = (None, kalloc_example)"
  using kalloc_pages_refuses [OF kalloc_example_inv, of "0x4001"]
  by (simp add: kalloc_example_def kalloc_capacity_def kalloc_used_def kalloc_bytes_def page_up_def)

lemma map_example_entries:
  "boot_info_e820_entries handoff_example = 0x61000" "kalloc_entries handoff_example = [e820_example]"
proof -
  show ptr: "boot_info_e820_entries handoff_example = 0x61000"
    using far_roundtrip [of "0x61000"] by (simp add: boot_info_e820_entries_def handoff_example_map)
  have "\<forall>k < 24 * length [e820_example]. handoff_example (0x61000 + of_nat k) =
      concat (map e820_image [e820_example]) ! k"
    using handoff_example_entries by simp
  from e820_entries_read [OF _ handoff_example_map this, of 0]
  show "kalloc_entries handoff_example = [e820_example]"
    by (simp add: kalloc_entries_def handoff_example_count)
qed

lemma kalloc_init_best_region_witness: "fst (kalloc_init handoff_example)"
proof -
  have "no_wrap e820_example" "0 < page_room e820_example"
    by (simp_all add: no_wrap_def e820_example_def page_room_def avail_def page_up_def page_down_def)
  then show ?thesis
    using kalloc_init_best_region [of handoff_example] by (auto simp: map_example_entries)
qed

end
