(* ===== verification/GfxBridge.thy ===== *)
theory GfxBridge
  imports FlatBlocks Video Kalloc
begin

text \<open>
  The bridge between the rasteriser's back buffer and the hardware framebuffer (kernel/gfx_bridge.c),
  with the two buffer operations of the rasteriser that it relies on (third_party/gfx,
  gfx_framebuffer.c). Memory is the flat memory of the real-mode component, in which the back buffer,
  the depth buffer and the framebuffer of the card live.
\<close>

unbundle bit_operations_syntax

section \<open>The rasteriser's framebuffer\<close>

record framebuffer =
  fb_pixels :: u32
  fb_width :: u32
  fb_height :: u32
  fb_pitch :: u32

definition gfx_fb_set_pixel :: "framebuffer option \<Rightarrow> 32 word \<Rightarrow> 32 word \<Rightarrow> u32 \<Rightarrow> memory \<Rightarrow> memory" where
  "gfx_fb_set_pixel fbp x y rgba mem =
     (case fbp of
        None \<Rightarrow> mem
      | Some fb \<Rightarrow>
          if fb_pixels fb = 0 \<or> sint x < 0 \<or> sint y < 0 then mem
          else if fb_width fb = 0 \<or> fb_height fb = 0 \<or> x \<ge> fb_width fb \<or> y \<ge> fb_height fb then mem
          else if fb_pitch fb mod 4 \<noteq> 0 then mem
          else
            (let stride = fb_pitch fb div 4 in
             if stride < fb_width fb then mem
             else mem_put32 (fb_pixels fb + 4 * (y * stride + x)) rgba mem))"

text \<open>Storing the same word in \<open>n\<close> consecutive places.\<close>

definition fill32 :: "u32 \<Rightarrow> u32 \<Rightarrow> nat \<Rightarrow> memory \<Rightarrow> memory" where
  "fill32 a v n mem = fold (\<lambda>i. mem_put32 (a + 4 * of_nat i) v) [0..<n] mem"

definition gfx_fb_clear :: "framebuffer option \<Rightarrow> u32 \<Rightarrow> memory \<Rightarrow> memory" where
  "gfx_fb_clear fbp rgba mem =
     (case fbp of
        None \<Rightarrow> mem
      | Some fb \<Rightarrow>
          if fb_pixels fb = 0 \<or> fb_width fb = 0 \<or> fb_height fb = 0 then mem
          else if fb_pitch fb mod 4 \<noteq> 0 then mem
          else
            (let stride = fb_pitch fb div 4 in
             if stride < fb_width fb then mem
             else fill32 (fb_pixels fb) rgba (unat (stride * fb_height fb)) mem))"

section \<open>State\<close>

text \<open>The bit pattern of the float 1.0e30.\<close>

definition GFX_BRIDGE_DEPTH_FAR :: u32 where "GFX_BRIDGE_DEPTH_FAR = 0x7149F2CA"

record 'd bridge =
  b_video :: "'d video"
  b_kalloc :: kalloc_state
  bridge_framebuffer :: framebuffer
  bridge_depth :: u32
  bridge_ready :: bool
  bridge_mode :: video_mode_info

definition bridge_mem :: "'d bridge \<Rightarrow> memory" where
  "bridge_mem b = rm_mem (v_rm (b_video b))"

definition bridge_on_mem :: "(memory \<Rightarrow> memory) \<Rightarrow> 'd bridge \<Rightarrow> 'd bridge" where
  "bridge_on_mem f b =
     b\<lparr>b_video := (b_video b)\<lparr>v_rm := (v_rm (b_video b))\<lparr>rm_mem := f (rm_mem (v_rm (b_video b)))\<rparr>\<rparr>\<rparr>"

section \<open>Colours\<close>

definition channel_of :: "u32 \<Rightarrow> nat \<Rightarrow> u8" where
  "channel_of rgba shift = ucast (drop_bit shift rgba AND 0xFF)"

definition narrow_channel :: "u8 \<Rightarrow> u8 \<Rightarrow> u32" where
  "narrow_channel v sz =
     (if sz = 0 \<or> sz \<ge> 8 then ucast v else ucast (drop_bit (8 - unat sz) v))"

text \<open>The shift instruction of the 386 takes the count modulo 32.\<close>

definition shl32 :: "u32 \<Rightarrow> u8 \<Rightarrow> u32" where
  "shl32 v n = push_bit (unat n mod 32) v"

definition rgba_to_direct :: "video_mode_info \<Rightarrow> u32 \<Rightarrow> u32" where
  "rgba_to_direct mode rgba =
     (let red = narrow_channel (channel_of rgba 24) (vm_red_size mode);
          green = narrow_channel (channel_of rgba 16) (vm_green_size mode);
          blue = narrow_channel (channel_of rgba 8) (vm_blue_size mode)
      in shl32 red (vm_red_pos mode) OR shl32 green (vm_green_pos mode) OR shl32 blue (vm_blue_pos mode))"

definition rgba_to_332 :: "u32 \<Rightarrow> u8" where
  "rgba_to_332 rgba =
     (let red = drop_bit 5 (ucast (channel_of rgba 24) :: u32);
          green = drop_bit 5 (ucast (channel_of rgba 16) :: u32);
          blue = drop_bit 6 (ucast (channel_of rgba 8) :: u32)
      in ucast (push_bit 5 red OR push_bit 2 green OR blue))"

section \<open>Operations\<close>

definition zero_framebuffer :: framebuffer where
  "zero_framebuffer = \<lparr>fb_pixels = 0, fb_width = 0, fb_height = 0, fb_pitch = 0\<rparr>"

definition gfx_bridge_is_ready :: "'d bridge \<Rightarrow> bool" where
  "gfx_bridge_is_ready b = bridge_ready b"

text \<open>A null pointer is \<open>None\<close> and 0.\<close>

definition gfx_bridge_framebuffer :: "'d bridge \<Rightarrow> framebuffer option" where
  "gfx_bridge_framebuffer b = (if bridge_ready b then Some (bridge_framebuffer b) else None)"

definition gfx_bridge_depth_buffer :: "'d bridge \<Rightarrow> u32" where
  "gfx_bridge_depth_buffer b = (if bridge_ready b then bridge_depth b else 0)"

definition gfx_bridge_clear_depth :: "'d bridge \<Rightarrow> 'd bridge" where
  "gfx_bridge_clear_depth b =
     (if bridge_depth b = 0 then b
      else
        (let count = fb_width (bridge_framebuffer b) * fb_height (bridge_framebuffer b)
         in bridge_on_mem (fill32 (bridge_depth b) GFX_BRIDGE_DEPTH_FAR (unat count)) b))"

definition gfx_bridge_init :: "'d bridge \<Rightarrow> bool \<times> 'd bridge" where
  "gfx_bridge_init b0 =
     (let mode = video_current (b_video b0);
          b = b0\<lparr>bridge_ready := False, bridge_depth := 0, bridge_framebuffer := zero_framebuffer\<rparr> in
      if vm_kind mode = VIDEO_KIND_TEXT then (False, b)
      else if vm_framebuffer mode = 0 \<or> vm_width mode = 0 \<or> vm_height mode = 0 then (False, b)
      else
        (let pixel_count = vm_width mode * vm_height mode;
             color_bytes = pixel_count * 4;
             depth_bytes = pixel_count * 4;
             (color_memory, k) = kalloc_pages color_bytes (b_kalloc b);
             b = b\<lparr>b_kalloc := k\<rparr> in
         case color_memory of None \<Rightarrow> (False, b) | Some color \<Rightarrow>
         (let (depth_memory, k) = kalloc_pages depth_bytes (b_kalloc b);
              b = b\<lparr>b_kalloc := k\<rparr> in
          case depth_memory of None \<Rightarrow> (False, b) | Some depth \<Rightarrow>
          (let b = b\<lparr>bridge_mode := mode,
                     bridge_framebuffer := \<lparr>fb_pixels = color, fb_width = vm_width mode,
                       fb_height = vm_height mode, fb_pitch = vm_width mode * 4\<rparr>,
                     bridge_depth := depth\<rparr>;
               b = bridge_on_mem (gfx_fb_clear (Some (bridge_framebuffer b)) 0x000000FF) b;
               b = gfx_bridge_clear_depth b
           in (True, b\<lparr>bridge_ready := True\<rparr>)))))"

text \<open>The body of the inner loops of \<open>gfx_bridge_present\<close>, one case per depth.\<close>

definition present_pixel :: "video_mode_info \<Rightarrow> u32 \<Rightarrow> u32 \<Rightarrow> nat \<Rightarrow> memory \<Rightarrow> memory" where
  "present_pixel mode source_row destination_row x mem =
     (let rgba = mem_get32 mem (source_row + 4 * of_nat x) in
      if vm_bpp mode = 8 then mem(destination_row + of_nat x := rgba_to_332 rgba)
      else if vm_bpp mode = 15 \<or> vm_bpp mode = 16 then
        mem_put16 (destination_row + 2 * of_nat x) (ucast (rgba_to_direct mode rgba)) mem
      else if vm_bpp mode = 24 then
        (let packed = rgba_to_direct mode rgba in
         mem(destination_row + of_nat x * 3 + 0 := ucast (packed AND 0xFF),
             destination_row + of_nat x * 3 + 1 := ucast (drop_bit 8 packed AND 0xFF),
             destination_row + of_nat x * 3 + 2 := ucast (drop_bit 16 packed AND 0xFF)))
      else mem_put32 (destination_row + 4 * of_nat x) (rgba_to_direct mode rgba) mem)"

definition present_row :: "video_mode_info \<Rightarrow> u32 \<Rightarrow> nat \<Rightarrow> memory \<Rightarrow> memory" where
  "present_row mode source y mem =
     (let source_row = source + 4 * (of_nat y * vm_width mode);
          destination_row = vm_framebuffer mode + of_nat y * vm_pitch mode
      in fold (present_pixel mode source_row destination_row) [0..<unat (vm_width mode)] mem)"

text \<open>A depth that the switch does not know makes the first row return from the function.\<close>

definition gfx_bridge_present :: "'d bridge \<Rightarrow> 'd bridge" where
  "gfx_bridge_present b =
     (if \<not> bridge_ready b then b
      else if vm_bpp (bridge_mode b) \<notin> {8, 15, 16, 24, 32} then b
      else bridge_on_mem
        (fold (present_row (bridge_mode b) (fb_pixels (bridge_framebuffer b)))
          [0..<unat (vm_height (bridge_mode b))]) b)"

text \<open>Reading a pixel back from the framebuffer of the card (kernel/cmd_video.c).\<close>

definition read_hardware_pixel :: "memory \<Rightarrow> u32 \<Rightarrow> u32 \<Rightarrow> u8 \<Rightarrow> u32" where
  "read_hardware_pixel mem row x bpp =
     (if bpp = 8 then ucast (mem (row + x))
      else if bpp = 15 \<or> bpp = 16 then ucast (mem_get16 mem (row + 2 * x))
      else if bpp = 24 then
        ucast (mem (row + x * 3 + 0)) OR push_bit 8 (ucast (mem (row + x * 3 + 1))) OR
        push_bit 16 (ucast (mem (row + x * 3 + 2)))
      else if bpp = 32 then mem_get32 mem (row + 4 * x)
      else 0)"

section \<open>Geometry\<close>

text \<open>The two buffers, each of one word per pixel: addressable, apart, and packed row after row.\<close>

definition buffer_size :: "framebuffer \<Rightarrow> nat" where
  "buffer_size fb = 4 * (unat (fb_width fb) * unat (fb_height fb))"

definition buffers_fit :: "framebuffer \<Rightarrow> u32 \<Rightarrow> bool" where
  "buffers_fit fb zbuf \<longleftrightarrow> fb_pixels fb \<noteq> 0 \<and> zbuf \<noteq> 0 \<and> fb_width fb \<noteq> 0 \<and> fb_height fb \<noteq> 0 \<and>
     unat (fb_width fb) < 2 ^ 30 \<and> unat (fb_height fb) < 2 ^ 30 \<and> fb_pitch fb = 4 * fb_width fb \<and>
     unat (fb_pixels fb) + buffer_size fb \<le> 2 ^ 32 \<and> unat zbuf + buffer_size fb \<le> 2 ^ 32 \<and>
     (unat (fb_pixels fb) + buffer_size fb \<le> unat zbuf \<or> unat zbuf + buffer_size fb \<le> unat (fb_pixels fb))"

end
