(* ===== verification/GfxMath.thy ===== *)
theory GfxMath
  imports GfxBridge Complex_Main
begin

text \<open>
  The vector arithmetic of the rasteriser (third_party/gfx: gfx_math.h, core/gfx_math.c). Its numbers
  are the floats of the FPU, whose instructions are a parameter of the model: any type with any
  operations, so that what is proved holds whatever the rounding, and for infinities and NaN too.
  A comparison is the one of the instruction set, so that \<open>a < b\<close> and \<open>b \<le> a\<close> may both fail.
\<close>

unbundle bit_operations_syntax

section \<open>The floating-point unit\<close>

text \<open>
  \<open>f_lit p q\<close> is the literal with the value \<open>p / q\<close>; the conversions to integers truncate; \<open>f_bits\<close>
  and \<open>f_of_bits\<close> store and load the 32 bits of a float.
\<close>

record 'f fpu =
  f_add :: "'f \<Rightarrow> 'f \<Rightarrow> 'f"
  f_sub :: "'f \<Rightarrow> 'f \<Rightarrow> 'f"
  f_mul :: "'f \<Rightarrow> 'f \<Rightarrow> 'f"
  f_div :: "'f \<Rightarrow> 'f \<Rightarrow> 'f"
  f_neg :: "'f \<Rightarrow> 'f"
  f_sin :: "'f \<Rightarrow> 'f"
  f_cos :: "'f \<Rightarrow> 'f"
  f_lt :: "'f \<Rightarrow> 'f \<Rightarrow> bool"
  f_le :: "'f \<Rightarrow> 'f \<Rightarrow> bool"
  f_eq :: "'f \<Rightarrow> 'f \<Rightarrow> bool"
  f_lit :: "int \<Rightarrow> int \<Rightarrow> 'f"
  f_of_int :: "u32 \<Rightarrow> 'f"
  f_of_uint :: "u32 \<Rightarrow> 'f"
  f_to_int :: "'f \<Rightarrow> u32"
  f_to_u8 :: "'f \<Rightarrow> u8"
  f_bits :: "'f \<Rightarrow> u32"
  f_of_bits :: "u32 \<Rightarrow> 'f"

abbreviation f_zero :: "'f fpu \<Rightarrow> 'f" where "f_zero fp \<equiv> f_lit fp 0 1"
abbreviation f_one :: "'f fpu \<Rightarrow> 'f" where "f_one fp \<equiv> f_lit fp 1 1"

section \<open>Vectors\<close>

record 'f vec2 =
  v2_x :: 'f
  v2_y :: 'f

record 'f vec3 =
  v3_x :: 'f
  v3_y :: 'f
  v3_z :: 'f

record 'f vec4 =
  v4_x :: 'f
  v4_y :: 'f
  v4_z :: 'f
  v4_w :: 'f

text \<open>A matrix is the list of its four columns.\<close>

definition mat4_identity :: "'f fpu \<Rightarrow> 'f vec4 list" where
  "mat4_identity fp =
     (let i = f_one fp; o' = f_zero fp in
      [\<lparr>v4_x = i, v4_y = o', v4_z = o', v4_w = o'\<rparr>,
       \<lparr>v4_x = o', v4_y = i, v4_z = o', v4_w = o'\<rparr>,
       \<lparr>v4_x = o', v4_y = o', v4_z = i, v4_w = o'\<rparr>,
       \<lparr>v4_x = o', v4_y = o', v4_z = o', v4_w = i\<rparr>])"

definition gfx_min :: "u32 \<Rightarrow> u32 \<Rightarrow> u32" where
  "gfx_min a b = (if a <s b then a else b)"

definition gfx_max :: "u32 \<Rightarrow> u32 \<Rightarrow> u32" where
  "gfx_max a b = (if b <s a then a else b)"

definition gfx_float_signbit :: "'f fpu \<Rightarrow> 'f \<Rightarrow> bool" where
  "gfx_float_signbit fp a \<longleftrightarrow> drop_bit 31 (f_bits fp a) \<noteq> 0"

definition gfx_float_isnan :: "'f fpu \<Rightarrow> 'f \<Rightarrow> bool" where
  "gfx_float_isnan fp a \<longleftrightarrow> \<not> f_eq fp a a"

definition gfx_fminf :: "'f fpu \<Rightarrow> 'f \<Rightarrow> 'f \<Rightarrow> 'f" where
  "gfx_fminf fp a b =
     (if gfx_float_isnan fp a then b
      else if gfx_float_isnan fp b then a
      else if f_lt fp a b then a
      else if f_lt fp b a then b
      else if f_eq fp a (f_zero fp) \<and> f_eq fp b (f_zero fp) then
        (if gfx_float_signbit fp a \<or> gfx_float_signbit fp b then f_neg fp (f_zero fp) else f_zero fp)
      else a)"

definition gfx_fmaxf :: "'f fpu \<Rightarrow> 'f \<Rightarrow> 'f \<Rightarrow> 'f" where
  "gfx_fmaxf fp a b =
     (if gfx_float_isnan fp a then b
      else if gfx_float_isnan fp b then a
      else if f_lt fp b a then a
      else if f_lt fp a b then b
      else if f_eq fp a (f_zero fp) \<and> f_eq fp b (f_zero fp) then
        (if gfx_float_signbit fp a \<and> gfx_float_signbit fp b then f_neg fp (f_zero fp) else f_zero fp)
      else a)"

definition vec3_min :: "'f fpu \<Rightarrow> 'f vec3 \<Rightarrow> 'f vec3 \<Rightarrow> 'f vec3" where
  "vec3_min fp a b = \<lparr>v3_x = gfx_fminf fp (v3_x a) (v3_x b), v3_y = gfx_fminf fp (v3_y a) (v3_y b),
     v3_z = gfx_fminf fp (v3_z a) (v3_z b)\<rparr>"

definition vec3_max :: "'f fpu \<Rightarrow> 'f vec3 \<Rightarrow> 'f vec3 \<Rightarrow> 'f vec3" where
  "vec3_max fp a b = \<lparr>v3_x = gfx_fmaxf fp (v3_x a) (v3_x b), v3_y = gfx_fmaxf fp (v3_y a) (v3_y b),
     v3_z = gfx_fmaxf fp (v3_z a) (v3_z b)\<rparr>"

definition vec3_clamp :: "'f fpu \<Rightarrow> 'f vec3 \<Rightarrow> 'f \<Rightarrow> 'f \<Rightarrow> 'f vec3" where
  "vec3_clamp fp v lo hi =
     \<lparr>v3_x = gfx_fmaxf fp lo (gfx_fminf fp hi (v3_x v)), v3_y = gfx_fmaxf fp lo (gfx_fminf fp hi (v3_y v)),
      v3_z = gfx_fmaxf fp lo (gfx_fminf fp hi (v3_z v))\<rparr>"

definition gfx_edge2d :: "'f fpu \<Rightarrow> 'f vec4 \<Rightarrow> 'f vec4 \<Rightarrow> 'f vec4 \<Rightarrow> 'f" where
  "gfx_edge2d fp a b c =
     f_sub fp (f_mul fp (f_sub fp (v4_x b) (v4_x a)) (f_sub fp (v4_y c) (v4_y a)))
       (f_mul fp (f_sub fp (v4_y b) (v4_y a)) (f_sub fp (v4_x c) (v4_x a)))"

definition vec3_to_rgba :: "'f fpu \<Rightarrow> 'f vec3 \<Rightarrow> u32" where
  "vec3_to_rgba fp color =
     (let c = vec3_clamp fp color (f_zero fp) (f_one fp);
          r = f_to_u8 fp (f_mul fp (v3_x c) (f_of_int fp 255));
          g = f_to_u8 fp (f_mul fp (v3_y c) (f_of_int fp 255));
          b = f_to_u8 fp (f_mul fp (v3_z c) (f_of_int fp 255))
      in push_bit 24 (ucast r) OR push_bit 16 (ucast g) OR push_bit 8 (ucast b) OR 0xFF)"

section \<open>Exact arithmetic\<close>

text \<open>
  An instance: the rational numbers, on which the algorithms are exact. Sine and cosine are those of
  a quarter turn per unit, which are rational; a number is stored as its integer part.
\<close>

definition rat_trunc :: "rat \<Rightarrow> int" where
  "rat_trunc a = (if a < 0 then - \<lfloor>- a\<rfloor> else \<lfloor>a\<rfloor>)"

definition rat_fpu :: "rat fpu" where
  "rat_fpu = \<lparr>f_add = (+), f_sub = (-), f_mul = (*), f_div = (/), f_neg = uminus,
     f_sin = (\<lambda>a. [0, 1, 0, -1] ! nat (\<lfloor>a\<rfloor> mod 4)), f_cos = (\<lambda>a. [1, 0, -1, 0] ! nat (\<lfloor>a\<rfloor> mod 4)),
     f_lt = (<), f_le = (\<le>), f_eq = (=), f_lit = (\<lambda>p q. of_int p / of_int q),
     f_of_int = (\<lambda>n. of_int (sint n)), f_of_uint = (\<lambda>n. of_int (uint n)),
     f_to_int = (\<lambda>a. word_of_int (rat_trunc a)), f_to_u8 = (\<lambda>a. word_of_int (rat_trunc a)),
     f_bits = (\<lambda>a. word_of_int (rat_trunc a)), f_of_bits = (\<lambda>w. of_int (sint w))\<rparr>"

end
