(* ===== verification/GfxRaster.thy ===== *)
theory GfxRaster
  imports GfxMath
begin

text \<open>
  The triangle rasteriser (third_party/gfx/core/gfx_raster.c), over the floating-point unit of the
  vector arithmetic and the flat memory that holds the colour buffer and the depth buffer.
\<close>

unbundle bit_operations_syntax

section \<open>Helpers\<close>

definition gfx_floor_to_int :: "'f fpu \<Rightarrow> 'f \<Rightarrow> u32" where
  "gfx_floor_to_int fp a =
     (let truncated = f_to_int fp a in if f_lt fp a (f_of_int fp truncated) then truncated - 1 else truncated)"

definition gfx_ceil_to_int :: "'f fpu \<Rightarrow> 'f \<Rightarrow> u32" where
  "gfx_ceil_to_int fp a =
     (let truncated = f_to_int fp a in if f_lt fp (f_of_int fp truncated) a then truncated + 1 else truncated)"

definition gfx_edge_is_top_left :: "'f fpu \<Rightarrow> 'f vec4 \<Rightarrow> 'f vec4 \<Rightarrow> bool" where
  "gfx_edge_is_top_left fp a b =
     (if f_eq fp (v4_y a) (v4_y b) then f_lt fp (v4_x a) (v4_x b) else f_lt fp (v4_y b) (v4_y a))"

definition gfx_swap_vertex ::
  "('f vec4 \<times> 'f vec3) \<times> ('f vec4 \<times> 'f vec3) \<Rightarrow> ('f vec4 \<times> 'f vec3) \<times> ('f vec4 \<times> 'f vec3)" where
  "gfx_swap_vertex pq = (snd pq, fst pq)"

section \<open>One triangle\<close>

text \<open>What the loops over the pixels use: the normalised triangle and the values set up before.\<close>

record 'f triangle =
  t_p0 :: "'f vec4"
  t_p1 :: "'f vec4"
  t_p2 :: "'f vec4"
  t_c0 :: "'f vec3"
  t_c1 :: "'f vec3"
  t_c2 :: "'f vec3"
  t_area :: 'f

text \<open>The area test and the normalisation of the winding; \<open>None\<close> is the early return.\<close>

definition raster_normalise ::
  "'f fpu \<Rightarrow> 'f vec4 \<Rightarrow> 'f vec4 \<Rightarrow> 'f vec4 \<Rightarrow> 'f vec3 \<Rightarrow> 'f vec3 \<Rightarrow> 'f vec3 \<Rightarrow> 'f triangle option" where
  "raster_normalise fp p0 p1 p2 c0 c1 c2 =
     (let area = gfx_edge2d fp p0 p1 p2 in
      if f_eq fp area (f_zero fp) \<or> \<not> f_eq fp area area then None
      else
        (let negative = f_lt fp area (f_zero fp);
             ((p1, c1), (p2, c2)) = (if negative then gfx_swap_vertex ((p1, c1), (p2, c2)) else ((p1, c1), (p2, c2)));
             area = (if negative then f_neg fp area else area)
         in Some \<lparr>t_p0 = p0, t_p1 = p1, t_p2 = p2, t_c0 = c0, t_c1 = c1, t_c2 = c2, t_area = area\<rparr>))"

text \<open>The rectangle of pixels that is visited, \<open>(minx, maxx, miny, maxy)\<close>.\<close>

definition raster_bounds :: "'f fpu \<Rightarrow> u32 \<Rightarrow> u32 \<Rightarrow> 'f triangle \<Rightarrow> (u32 \<times> u32 \<times> u32 \<times> u32) option" where
  "raster_bounds fp width height t =
     (let xmin = gfx_fminf fp (gfx_fminf fp (v4_x (t_p0 t)) (v4_x (t_p1 t))) (v4_x (t_p2 t));
          xmax = gfx_fmaxf fp (gfx_fmaxf fp (v4_x (t_p0 t)) (v4_x (t_p1 t))) (v4_x (t_p2 t));
          ymin = gfx_fminf fp (gfx_fminf fp (v4_y (t_p0 t)) (v4_y (t_p1 t))) (v4_y (t_p2 t));
          ymax = gfx_fmaxf fp (gfx_fmaxf fp (v4_y (t_p0 t)) (v4_y (t_p1 t))) (v4_y (t_p2 t));
          minx = gfx_floor_to_int fp xmin; maxx = gfx_ceil_to_int fp xmax;
          miny = gfx_floor_to_int fp ymin; maxy = gfx_ceil_to_int fp ymax in
      if maxx <s 0 \<or> maxy <s 0 then None
      else if width \<le>s minx \<or> height \<le>s miny then None
      else Some
        (if minx <s 0 then 0 else minx, if width \<le>s maxx then width - 1 else maxx,
         if miny <s 0 then 0 else miny, if height \<le>s maxy then height - 1 else maxy))"

text \<open>The three edge values at a pixel centre, and whether the pixel belongs to the triangle.\<close>

definition pixel_centre :: "'f fpu \<Rightarrow> u32 \<Rightarrow> u32 \<Rightarrow> 'f vec4" where
  "pixel_centre fp x y =
     \<lparr>v4_x = f_add fp (f_of_int fp x) (f_lit fp 1 2), v4_y = f_add fp (f_of_int fp y) (f_lit fp 1 2),
      v4_z = f_zero fp, v4_w = f_zero fp\<rparr>"

definition pixel_covered :: "'f fpu \<Rightarrow> 'f triangle \<Rightarrow> 'f vec4 \<Rightarrow> bool" where
  "pixel_covered fp t p =
     (let e0 = gfx_edge2d fp (t_p1 t) (t_p2 t) p;
          e1 = gfx_edge2d fp (t_p2 t) (t_p0 t) p;
          e2 = gfx_edge2d fp (t_p0 t) (t_p1 t) p in
      if f_lt fp e0 (f_zero fp) \<or> f_lt fp e1 (f_zero fp) \<or> f_lt fp e2 (f_zero fp) then False
      else if f_eq fp e0 (f_zero fp) \<and> \<not> gfx_edge_is_top_left fp (t_p1 t) (t_p2 t) then False
      else if f_eq fp e1 (f_zero fp) \<and> \<not> gfx_edge_is_top_left fp (t_p2 t) (t_p0 t) then False
      else if f_eq fp e2 (f_zero fp) \<and> \<not> gfx_edge_is_top_left fp (t_p0 t) (t_p1 t) then False
      else True)"

text \<open>Depth and colour at a covered pixel; a vanishing sum of weights leaves the colour alone.\<close>

definition pixel_weights :: "'f fpu \<Rightarrow> 'f triangle \<Rightarrow> 'f vec4 \<Rightarrow> 'f \<times> 'f \<times> 'f" where
  "pixel_weights fp t p =
     (let inv_area = f_div fp (f_one fp) (t_area t)
      in (f_mul fp (gfx_edge2d fp (t_p1 t) (t_p2 t) p) inv_area,
          f_mul fp (gfx_edge2d fp (t_p2 t) (t_p0 t) p) inv_area,
          f_mul fp (gfx_edge2d fp (t_p0 t) (t_p1 t) p) inv_area))"

definition pixel_depth :: "'f fpu \<Rightarrow> 'f triangle \<Rightarrow> 'f vec4 \<Rightarrow> 'f" where
  "pixel_depth fp t p =
     (let (b0, b1, b2) = pixel_weights fp t p
      in f_add fp (f_add fp (f_mul fp b0 (v4_z (t_p0 t))) (f_mul fp b1 (v4_z (t_p1 t)))) (f_mul fp b2 (v4_z (t_p2 t))))"

definition pixel_color :: "'f fpu \<Rightarrow> 'f triangle \<Rightarrow> 'f vec4 \<Rightarrow> 'f vec3 option" where
  "pixel_color fp t p =
     (let (b0, b1, b2) = pixel_weights fp t p;
          perspective = (f_lt fp (f_zero fp) (v4_w (t_p0 t)) \<and> f_lt fp (f_zero fp) (v4_w (t_p1 t)) \<and>
            f_lt fp (f_zero fp) (v4_w (t_p2 t)));
          inv_w0 = (if perspective then f_div fp (f_one fp) (v4_w (t_p0 t)) else f_one fp);
          inv_w1 = (if perspective then f_div fp (f_one fp) (v4_w (t_p1 t)) else f_one fp);
          inv_w2 = (if perspective then f_div fp (f_one fp) (v4_w (t_p2 t)) else f_one fp);
          weight0 = f_mul fp b0 inv_w0;
          weight1 = f_mul fp b1 inv_w1;
          weight2 = f_mul fp b2 inv_w2;
          weight_sum = f_add fp (f_add fp weight0 weight1) weight2;
          mix = (\<lambda>a b c. f_div fp (f_add fp (f_add fp (f_mul fp weight0 a) (f_mul fp weight1 b)) (f_mul fp weight2 c)) weight_sum)
      in if f_eq fp weight_sum (f_zero fp) then None
         else Some \<lparr>v3_x = mix (v3_x (t_c0 t)) (v3_x (t_c1 t)) (v3_x (t_c2 t)),
           v3_y = mix (v3_y (t_c0 t)) (v3_y (t_c1 t)) (v3_y (t_c2 t)),
           v3_z = mix (v3_z (t_c0 t)) (v3_z (t_c1 t)) (v3_z (t_c2 t))\<rparr>)"

text \<open>The body of the inner loop.\<close>

definition raster_pixel ::
  "'f fpu \<Rightarrow> framebuffer \<Rightarrow> u32 \<Rightarrow> 'f triangle \<Rightarrow> u32 \<Rightarrow> u32 \<Rightarrow> memory \<Rightarrow> memory" where
  "raster_pixel fp fb zbuf t y x mem =
     (let p = pixel_centre fp x y in
      if \<not> pixel_covered fp t p then mem
      else
        (let z = pixel_depth fp t p;
             idx = y * fb_width fb + x in
         if f_le fp (f_of_bits fp (mem_get32 mem (zbuf + 4 * idx))) z then mem
         else
           (let mem = mem_put32 (zbuf + 4 * idx) (f_bits fp z) mem in
            case pixel_color fp t p of
              None \<Rightarrow> mem
            | Some color \<Rightarrow> gfx_fb_set_pixel (Some fb) x y (vec3_to_rgba fp color) mem)))"

text \<open>The counters of the loops, from \<open>lo\<close> to \<open>hi\<close> inclusive.\<close>

definition int_range :: "u32 \<Rightarrow> u32 \<Rightarrow> u32 list" where
  "int_range lo hi = map word_of_int [sint lo..sint hi]"

definition gfx_rasterize_triangle ::
  "'f fpu \<Rightarrow> framebuffer option \<Rightarrow> u32 \<Rightarrow> 'f vec4 \<Rightarrow> 'f vec4 \<Rightarrow> 'f vec4 \<Rightarrow> 'f vec3 \<Rightarrow> 'f vec3 \<Rightarrow> 'f vec3 \<Rightarrow>
     memory \<Rightarrow> memory" where
  "gfx_rasterize_triangle fp fbp zbuf p0 p1 p2 c0 c1 c2 mem =
     (case fbp of
        None \<Rightarrow> mem
      | Some fb \<Rightarrow>
          if fb_pixels fb = 0 \<or> zbuf = 0 \<or> fb_width fb = 0 \<or> fb_height fb = 0 then mem
          else
            (case raster_normalise fp p0 p1 p2 c0 c1 c2 of
               None \<Rightarrow> mem
             | Some t \<Rightarrow>
                 (case raster_bounds fp (fb_width fb) (fb_height fb) t of
                    None \<Rightarrow> mem
                  | Some (minx, maxx, miny, maxy) \<Rightarrow>
                      fold (\<lambda>y. fold (raster_pixel fp fb zbuf t y) (int_range minx maxx)) (int_range miny maxy) mem)))"

end
