(* ===== verification/RasterPixels.thy ===== *)
theory RasterPixels
  imports GfxRaster
begin

text \<open>
  What rasterising a triangle does to memory, for any floating-point arithmetic: nothing outside the
  two buffers changes, and each pixel inside the visited rectangle is decided on its own.
\<close>

unbundle bit_operations_syntax

section \<open>Loops of local steps\<close>

text \<open>A step that reads and writes inside its own region only.\<close>

definition step_local :: "u32 set \<Rightarrow> (memory \<Rightarrow> memory) \<Rightarrow> bool" where
  "step_local R step \<longleftrightarrow> (\<forall>m a. a \<notin> R \<longrightarrow> step m a = m a) \<and>
     (\<forall>m m'. (\<forall>a \<in> R. m a = m' a) \<longrightarrow> (\<forall>a \<in> R. step m a = step m' a))"

lemma fold_local:
  assumes "\<And>i. i \<in> set is \<Longrightarrow> step_local (R i) (step i)" "distinct is"
    "\<And>i j. i \<in> set is \<Longrightarrow> j \<in> set is \<Longrightarrow> i \<noteq> j \<Longrightarrow> R i \<inter> R j = {}"
  shows "(\<forall>a. (\<forall>i \<in> set is. a \<notin> R i) \<longrightarrow> fold step is m a = m a) \<and>
    (\<forall>i \<in> set is. \<forall>a \<in> R i. fold step is m a = step i m a)"
  using assms
proof (induction "is" arbitrary: m)
  case (Cons i "is")
  have loc: "step_local (R i) (step i)" by (rule Cons.prems(1)) simp
  have IH: "(\<forall>a. (\<forall>j \<in> set is. a \<notin> R j) \<longrightarrow> fold step is (step i m) a = step i m a) \<and>
      (\<forall>j \<in> set is. \<forall>a \<in> R j. fold step is (step i m) a = step j (step i m) a)"
    using Cons.prems by (intro Cons.IH) auto
  have apart: "R i \<inter> R j = {}" if "j \<in> set is" for j
    using that Cons.prems(2) by (intro Cons.prems(3)) auto
  have later: "step j (step i m) a = step j m a" if j: "j \<in> set is" and a: "a \<in> R j" for j a
  proof -
    have "step i m b = m b" if "b \<in> R j" for b
      using loc apart [OF j] that by (auto simp: step_local_def)
    moreover have "step_local (R j) (step j)" using j by (intro Cons.prems(1)) simp
    ultimately show ?thesis using a unfolding step_local_def by blast
  qed
  have first: "fold step is (step i m) a = step i m a" if "a \<in> R i" for a
    using IH apart that by blast
  show ?case
  proof (intro conjI allI impI ballI)
    fix a assume "\<forall>j \<in> set (i # is). a \<notin> R j"
    then show "fold step (i # is) m a = m a" using IH loc by (simp add: step_local_def)
  next
    fix j a assume "j \<in> set (i # is)" "a \<in> R j"
    then show "fold step (i # is) m a = step j m a" using IH later first by auto
  qed
qed simp

section \<open>The buffers\<close>

definition pixel_index :: "framebuffer \<Rightarrow> u32 \<Rightarrow> u32 \<Rightarrow> u32" where
  "pixel_index fb y x = y * fb_width fb + x"

text \<open>A pixel: the stored depth and the colour.\<close>

definition pixel_at :: "framebuffer \<Rightarrow> u32 \<Rightarrow> memory \<Rightarrow> u32 \<Rightarrow> u32 \<Rightarrow> u32 \<times> u32" where
  "pixel_at fb zbuf m y x =
     (mem_get32 m (zbuf + 4 * pixel_index fb y x), mem_get32 m (fb_pixels fb + 4 * pixel_index fb y x))"

definition word_at :: "u32 \<Rightarrow> u32 set" where
  "word_at a = {b. in_range b (unat a) 4}"

definition pixel_region :: "framebuffer \<Rightarrow> u32 \<Rightarrow> u32 \<Rightarrow> u32 \<Rightarrow> u32 set" where
  "pixel_region fb zbuf y x =
     word_at (fb_pixels fb + 4 * pixel_index fb y x) \<union> word_at (zbuf + 4 * pixel_index fb y x)"

lemma put_word:
  assumes "unat a + 4 \<le> 2 ^ 32"
  shows "b \<notin> word_at a \<Longrightarrow> mem_put32 a v m b = m b"
    "b \<in> word_at a \<Longrightarrow> mem_put32 a v m b = mem_put32 a v m' b"
proof -
  show "b \<notin> word_at a \<Longrightarrow> mem_put32 a v m b = m b"
    using write_block_outside [of "unat a" "put32 v" b m] assms by (simp add: word_at_def mem_put32_def)
  assume "b \<in> word_at a"
  then have "unat a \<le> unat b" "unat b < unat a + 4" by (simp_all add: word_at_def in_range_def)
  then have "unat (b - a) < 4" by (simp add: unat_word_sub word_le_nat_alt)
  then show "mem_put32 a v m b = mem_put32 a v m' b" by (simp add: mem_put32_def write_bytes_def)
qed

lemma get_word_cong:
  assumes "unat a + 4 \<le> 2 ^ 32" "\<forall>b \<in> word_at a. m b = m' b"
  shows "mem_get32 m a = mem_get32 m' a"
proof (rule mem_get32_cong)
  fix i :: nat assume "i < 4"
  with assms(1) in_range_offset [of "unat a" 4 i] have "a + of_nat i \<in> word_at a" by (simp add: word_at_def)
  with assms(2) show "m (a + of_nat i) = m' (a + of_nat i)" by blast
qed

section \<open>One pixel\<close>

definition in_screen :: "framebuffer \<Rightarrow> u32 \<Rightarrow> u32 \<Rightarrow> bool" where
  "in_screen fb y x \<longleftrightarrow> unat y < unat (fb_height fb) \<and> unat x < unat (fb_width fb)"

lemma pixel_addr:
  assumes "buffers_fit fb zbuf" "in_screen fb y x" "base = fb_pixels fb \<or> base = zbuf"
  shows "unat (base + 4 * pixel_index fb y x) = unat base + 4 * (unat y * unat (fb_width fb) + unat x)"
    "unat base + 4 * (unat y * unat (fb_width fb) + unat x) + 4 \<le> unat base + buffer_size fb"
proof -
  let ?W = "unat (fb_width fb)" and ?H = "unat (fb_height fb)"
  have "Suc (unat y) * ?W \<le> ?H * ?W" using assms(2) by (intro mult_le_mono) (simp_all add: in_screen_def)
  then show le: "unat base + 4 * (unat y * ?W + unat x) + 4 \<le> unat base + buffer_size fb"
    using assms(2) by (simp add: in_screen_def buffer_size_def mult.commute)
  have "base + 4 * pixel_index fb y x = of_nat (unat base + 4 * (unat y * ?W + unat x))"
    by (simp add: pixel_index_def)
  moreover have "unat base + buffer_size fb \<le> 2 ^ 32" using assms(1,3) by (auto simp: buffers_fit_def)
  ultimately show "unat (base + 4 * pixel_index fb y x) = unat base + 4 * (unat y * ?W + unat x)"
    using le by (simp only:) (intro unat_of_nat_word, simp)
qed

lemma pixel_addr_room:
  assumes "buffers_fit fb zbuf" "in_screen fb y x"
  shows "unat (fb_pixels fb + 4 * pixel_index fb y x) + 4 \<le> 2 ^ 32"
    "unat (zbuf + 4 * pixel_index fb y x) + 4 \<le> 2 ^ 32"
  using pixel_addr [OF assms, of "fb_pixels fb"] pixel_addr [OF assms, of zbuf] assms(1)
  by (auto simp: buffers_fit_def)

lemma word_at_disjoint: "unat a + 4 \<le> unat b \<or> unat b + 4 \<le> unat a \<Longrightarrow> word_at a \<inter> word_at b = {}"
  by (auto simp: word_at_def in_range_def)

lemma pixel_words_disjoint:
  assumes "buffers_fit fb zbuf" "in_screen fb y x" "in_screen fb y' x'"
  shows "word_at (fb_pixels fb + 4 * pixel_index fb y x) \<inter> word_at (zbuf + 4 * pixel_index fb y' x') = {}"
proof (rule word_at_disjoint)
  note P = pixel_addr [OF assms(1,2) disjI1 [OF refl]] and Z = pixel_addr [OF assms(1,3) disjI2 [OF refl]]
  from assms(1) consider "unat (fb_pixels fb) + buffer_size fb \<le> unat zbuf" | "unat zbuf + buffer_size fb \<le> unat (fb_pixels fb)"
    by (auto simp: buffers_fit_def)
  then show "unat (fb_pixels fb + 4 * pixel_index fb y x) + 4 \<le> unat (zbuf + 4 * pixel_index fb y' x') \<or>
      unat (zbuf + 4 * pixel_index fb y' x') + 4 \<le> unat (fb_pixels fb + 4 * pixel_index fb y x)"
    unfolding P(1) Z(1) using P(2) Z(2) by cases linarith+
qed

text \<open>What happens to a pixel, from its depth and colour before.\<close>

definition pixel_result :: "'f fpu \<Rightarrow> 'f triangle \<Rightarrow> 'f vec4 \<Rightarrow> u32 \<times> u32 \<Rightarrow> u32 \<times> u32" where
  "pixel_result fp t p old =
     (if pixel_covered fp t p \<and> \<not> f_le fp (f_of_bits fp (fst old)) (pixel_depth fp t p)
      then (f_bits fp (pixel_depth fp t p),
        case pixel_color fp t p of None \<Rightarrow> snd old | Some color \<Rightarrow> vec3_to_rgba fp color)
      else old)"

lemma sint_small:
  assumes "unat (w :: u32) < 2 ^ 30"
  shows "sint w = int (unat w)" "0 \<le> sint w"
proof -
  have u: "uint w = int (unat w)" by (rule uint_nat)
  have "sint w = signed_take_bit 31 (uint w)" by (simp add: sint_uint)
  also have "\<dots> = uint w"
  proof (rule signed_take_bit_int_eq_self)
    have "unat w < 1073741824" using assms by simp
    with u have "- 2147483648 \<le> uint w" "uint w < 2147483648" by linarith+
    then show "- (2 ^ 31) \<le> uint w" "uint w < 2 ^ 31" by simp_all
  qed
  finally have s: "sint w = uint w" .
  show "sint w = int (unat w)" unfolding s by (rule u)
  show "0 \<le> sint w" unfolding s by simp
qed

lemma pitch_words:
  assumes "unat (w :: u32) < 2 ^ 30"
  shows "4 * w div 4 = w" "4 * w mod 4 = 0"
proof -
  have four: "unat (4 * w) = 4 * unat w"
    using assms unat_of_nat_word [of "4 * unat w", where 'a = 32] by simp
  have "unat (4 * w div 4) = unat w" by (subst unat_div) (simp add: four)
  then show "4 * w div 4 = w" by (rule unsigned_word_eqI)
  have "unat (4 * w mod 4) = 0" by (subst unat_mod_distrib) (simp add: four)
  then show "4 * w mod 4 = 0" by (simp add: unat_eq_zero)
qed

lemma set_pixel_in_screen:
  assumes "buffers_fit fb zbuf" "in_screen fb y x"
  shows "gfx_fb_set_pixel (Some fb) x y rgba m = mem_put32 (fb_pixels fb + 4 * pixel_index fb y x) rgba m"
proof -
  have small: "unat x < 2 ^ 30" "unat y < 2 ^ 30" using assms by (auto simp: buffers_fit_def in_screen_def)
  have "unat (fb_width fb) < 2 ^ 30" using assms(1) by (simp add: buffers_fit_def)
  note pitch = pitch_words [OF this]
  from assms sint_small(2) [OF small(1)] sint_small(2) [OF small(2)] pitch show ?thesis
    by (simp add: gfx_fb_set_pixel_def buffers_fit_def in_screen_def word_le_nat_alt pixel_index_def not_le not_less)
qed

lemma raster_pixel_eq:
  assumes "buffers_fit fb zbuf" "in_screen fb y x"
  shows "raster_pixel fp fb zbuf t y x m =
     (if pixel_covered fp t (pixel_centre fp x y) \<and>
        \<not> f_le fp (f_of_bits fp (mem_get32 m (zbuf + 4 * pixel_index fb y x))) (pixel_depth fp t (pixel_centre fp x y))
      then (case pixel_color fp t (pixel_centre fp x y) of
          None \<Rightarrow> mem_put32 (zbuf + 4 * pixel_index fb y x) (f_bits fp (pixel_depth fp t (pixel_centre fp x y))) m
        | Some color \<Rightarrow> mem_put32 (fb_pixels fb + 4 * pixel_index fb y x) (vec3_to_rgba fp color)
            (mem_put32 (zbuf + 4 * pixel_index fb y x) (f_bits fp (pixel_depth fp t (pixel_centre fp x y))) m))
      else m)"
  by (simp add: raster_pixel_def Let_def set_pixel_in_screen [OF assms] pixel_index_def split: option.split)

lemma raster_pixel_at:
  assumes "buffers_fit fb zbuf" "in_screen fb y x"
  shows "pixel_at fb zbuf (raster_pixel fp fb zbuf t y x m) y x =
    pixel_result fp t (pixel_centre fp x y) (pixel_at fb zbuf m y x)"
proof -
  let ?P = "fb_pixels fb + 4 * pixel_index fb y x" and ?Z = "zbuf + 4 * pixel_index fb y x"
  note room = pixel_addr_room [OF assms]
  note apart = pixel_words_disjoint [OF assms assms(2)]
  have 1: "mem_get32 (mem_put32 ?P v m) ?Z = mem_get32 m ?Z" for v m
    using apart put_word(1) [OF room(1)] by (intro get_word_cong [OF room(2)]) auto
  have 2: "mem_get32 (mem_put32 ?Z v m) ?P = mem_get32 m ?P" for v m
    using apart put_word(1) [OF room(2)] by (intro get_word_cong [OF room(1)]) auto
  show ?thesis
    by (auto simp: raster_pixel_eq [OF assms] pixel_at_def pixel_result_def 1 2 mem_put_get32 split: option.split)
qed

lemma raster_pixel_local:
  assumes "buffers_fit fb zbuf" "in_screen fb y x"
  shows "step_local (pixel_region fb zbuf y x) (raster_pixel fp fb zbuf t y x)"
proof -
  let ?P = "fb_pixels fb + 4 * pixel_index fb y x" and ?Z = "zbuf + 4 * pixel_index fb y x"
  note room = pixel_addr_room [OF assms]
  have "raster_pixel fp fb zbuf t y x m a = m a" if "a \<notin> word_at ?P" "a \<notin> word_at ?Z" for m a
    using that put_word(1) [OF room(1)] put_word(1) [OF room(2)]
    by (simp add: raster_pixel_eq [OF assms] split: option.split)
  moreover have "raster_pixel fp fb zbuf t y x m a = raster_pixel fp fb zbuf t y x m' a"
    if "\<forall>b \<in> pixel_region fb zbuf y x. m b = m' b" "a \<in> word_at ?P \<union> word_at ?Z" for m m' a
  proof -
    have same: "mem_get32 m ?Z = mem_get32 m' ?Z" "m a = m' a"
      using that by (auto simp: pixel_region_def intro!: get_word_cong [OF room(2)])
    have Z: "mem_put32 ?Z v m a = mem_put32 ?Z v m' a" for v
      using put_word [OF room(2)] same(2) by (cases "a \<in> word_at ?Z") metis+
    have P: "mem_put32 ?P w (mem_put32 ?Z v m) a = mem_put32 ?P w (mem_put32 ?Z v m') a" for v w
      using put_word [OF room(1)] Z by (cases "a \<in> word_at ?P") metis+
    show ?thesis using same Z P by (simp add: raster_pixel_eq [OF assms] split: option.split)
  qed
  ultimately show ?thesis by (auto simp: step_local_def pixel_region_def)
qed

lemma slot_room: "a < b \<Longrightarrow> base + 4 * a + 4 \<le> base + 4 * b" for a b base :: nat
  by simp

lemma pixel_regions_disjoint:
  assumes "buffers_fit fb zbuf" "in_screen fb y x" "in_screen fb y' x'" "(y, x) \<noteq> (y', x')"
  shows "pixel_region fb zbuf y x \<inter> pixel_region fb zbuf y' x' = {}"
proof -
  let ?W = "unat (fb_width fb)"
  have ne: "unat y * ?W + unat x \<noteq> unat y' * ?W + unat x'"
  proof
    assume eq: "unat y * ?W + unat x = unat y' * ?W + unat x'"
    have "unat x < ?W" "unat x' < ?W" using assms(2,3) by (simp_all add: in_screen_def)
    with eq have "unat y = unat y'" "unat x = unat x'"
      by (metis div_mult_self3 div_less add.right_neutral gr_implies_not0,
          metis mod_mult_self3 mod_less)
    with assms(4) show False by (simp add: word_unat_eq_iff)
  qed
  have 1: "word_at (base + 4 * pixel_index fb y x) \<inter> word_at (base + 4 * pixel_index fb y' x') = {}"
    if "base = fb_pixels fb \<or> base = zbuf" for base
  proof (rule word_at_disjoint)
    note addr = pixel_addr(1) [OF assms(1,2) that] pixel_addr(1) [OF assms(1,3) that]
    from ne consider "unat y * ?W + unat x < unat y' * ?W + unat x'" | "unat y' * ?W + unat x' < unat y * ?W + unat x"
      by (meson nat_neq_iff)
    then show "unat (base + 4 * pixel_index fb y x) + 4 \<le> unat (base + 4 * pixel_index fb y' x') \<or>
        unat (base + 4 * pixel_index fb y' x') + 4 \<le> unat (base + 4 * pixel_index fb y x)"
      unfolding addr by cases (blast intro: slot_room)+
  qed
  show ?thesis
    using 1 pixel_words_disjoint [OF assms(1,2,3)] pixel_words_disjoint [OF assms(1,3,2)]
    by (auto simp: pixel_region_def)
qed

section \<open>The triangle\<close>

lemma int_range_in:
  assumes "w \<in> set (int_range lo hi)"
  shows "sint lo \<le> sint w \<and> sint w \<le> sint hi"
proof -
  obtain k where k: "w = word_of_int k" "sint lo \<le> k" "k \<le> sint hi" using assms by (auto simp: int_range_def)
  have "- (2 ^ 31) \<le> k" "k < 2 ^ 31"
    using k sint_range_size [of lo] sint_range_size [of hi] by (auto simp: word_size)
  then have "sint w = k" unfolding k(1) by (simp add: sint_sbintrunc' signed_take_bit_int_eq_self)
  with k show ?thesis by simp
qed

lemma int_range_distinct: "distinct (int_range lo hi)"
proof -
  have "inj_on (word_of_int :: int \<Rightarrow> u32) (set [sint lo..sint hi])"
  proof (rule inj_onI)
    fix a b assume "a \<in> set [sint lo..sint hi]" "b \<in> set [sint lo..sint hi]"
      "word_of_int a = (word_of_int b :: u32)"
    moreover have "sint (word_of_int k :: u32) = k" if "k \<in> set [sint lo..sint hi]" for k
    proof -
      have "- (2 ^ 31) \<le> k" "k < 2 ^ 31"
        using that sint_range_size [of lo] sint_range_size [of hi] by (auto simp: word_size)
      then show ?thesis by (simp add: sint_sbintrunc' signed_take_bit_int_eq_self)
    qed
    ultimately show "a = b" by metis
  qed
  then show ?thesis by (simp add: int_range_def distinct_map)
qed

lemma unat_from_sint:
  assumes "0 \<le> sint (w :: u32)"
  shows "sint w = int (unat w)"
proof -
  have s: "sint w = (uint w + 2147483648) mod 4294967296 - 2147483648"
    by (simp add: sint_uint signed_take_bit_eq_take_bit_shift take_bit_eq_mod)
  have lt: "uint w < 4294967296" "0 \<le> uint w" using uint_lt2p [of w] by simp_all
  have "uint w < 2147483648"
  proof (rule ccontr)
    assume "\<not> uint w < 2147483648"
    then have "(uint w - 2147483648 + 4294967296) mod 4294967296 = uint w - 2147483648"
      using lt by (simp only: mod_add_self2) (simp add: mod_pos_pos_trivial)
    moreover have "uint w - 2147483648 + 4294967296 = uint w + 2147483648" by simp
    ultimately have "sint w = uint w - 4294967296" unfolding s by (simp only:)
    with lt assms show False by simp
  qed
  then have "sint w = uint w" unfolding s using lt by (simp add: mod_pos_pos_trivial)
  then show ?thesis by (simp only: uint_nat)
qed

lemma clamped_in_range:
  assumes "unat sz < 2 ^ 30" "sz \<noteq> 0" "\<not> sz \<le>s lo"
    "w \<in> set (int_range (if lo <s 0 then 0 else lo) (if sz \<le>s hi then sz - 1 else hi))"
  shows "unat w < unat (sz :: u32)"
proof -
  have b: "0 \<le> sint w"
    using int_range_in [OF assms(4)] by (auto simp: word_sless_alt split: if_splits)
  have "sint w < sint sz"
  proof (cases "sz \<le>s hi")
    case True
    have "unat (sz - 1) = unat sz - 1" "0 < unat sz"
      using assms(2) by (simp_all add: unat_minus_one unat_gt_0)
    then have "sint (sz - 1) < sint sz"
      using sint_small(1) [OF assms(1)] sint_small(1) [of "sz - 1"] assms(1) by simp
    then show ?thesis using int_range_in [OF assms(4)] True by simp
  next
    case False
    then show ?thesis using int_range_in [OF assms(4)] by (auto simp: word_sle_eq split: if_splits)
  qed
  then show ?thesis using unat_from_sint [OF b] sint_small(1) [OF assms(1)] by linarith
qed

lemma guarded_some:
  "(if a then None else if b then None else Some q) = Some r \<Longrightarrow> \<not> b \<and> q = r"
  by (simp split: if_splits)

lemma raster_bounds_clamped:
  assumes "raster_bounds fp w h t = Some (minx, maxx, miny, maxy)"
  shows "\<exists>lx hx ly hy. \<not> w \<le>s lx \<and> \<not> h \<le>s ly \<and>
    minx = (if lx <s 0 then 0 else lx) \<and> maxx = (if w \<le>s hx then w - 1 else hx) \<and>
    miny = (if ly <s 0 then 0 else ly) \<and> maxy = (if h \<le>s hy then h - 1 else hy)"
  using guarded_some [OF assms [unfolded raster_bounds_def Let_def]]
  unfolding de_Morgan_disj prod.inject
  by - (elim conjE, intro exI conjI; (assumption | (rule sym, assumption)))

text \<open>The pixels that the loops visit.\<close>

definition visited :: "(u32 \<times> u32 \<times> u32 \<times> u32) \<Rightarrow> (u32 \<times> u32) list" where
  "visited bounds = (case bounds of (minx, maxx, miny, maxy) \<Rightarrow>
     List.product (int_range miny maxy) (int_range minx maxx))"

lemma visited_facts:
  assumes "buffers_fit fb zbuf" "raster_bounds fp (fb_width fb) (fb_height fb) t = Some bounds"
  shows "distinct (visited bounds)" "(y, x) \<in> set (visited bounds) \<Longrightarrow> in_screen fb y x"
proof -
  obtain minx maxx miny maxy where b: "bounds = (minx, maxx, miny, maxy)" by (metis prod_cases4)
  show "distinct (visited bounds)"
    by (simp add: visited_def b distinct_product int_range_distinct)
  have fit: "unat (fb_width fb) < 2 ^ 30" "unat (fb_height fb) < 2 ^ 30" "fb_width fb \<noteq> 0" "fb_height fb \<noteq> 0"
    using assms(1) by (auto simp: buffers_fit_def)
  from raster_bounds_clamped [OF assms(2) [unfolded b]] obtain lx hx ly hy where
    c: "\<not> fb_width fb \<le>s lx" "\<not> fb_height fb \<le>s ly"
      "minx = (if lx <s 0 then 0 else lx)" "maxx = (if fb_width fb \<le>s hx then fb_width fb - 1 else hx)"
      "miny = (if ly <s 0 then 0 else ly)" "maxy = (if fb_height fb \<le>s hy then fb_height fb - 1 else hy)"
    by blast
  assume "(y, x) \<in> set (visited bounds)"
  then have "y \<in> set (int_range miny maxy)" "x \<in> set (int_range minx maxx)" by (simp_all add: visited_def b)
  then show "in_screen fb y x"
    unfolding in_screen_def c using clamped_in_range [OF fit(1,3) c(1)] clamped_in_range [OF fit(2,4) c(2)] by blast
qed

lemma fold_nested_visited:
  "fold (\<lambda>y. fold (f y) xs) ys = fold (\<lambda>(y, x). f y x) (List.product ys xs)"
proof (induction ys)
  case (Cons y ys)
  have "fold (f y) xs = fold (\<lambda>(y, x). f y x) (map (Pair y) xs)" by (simp add: fold_map comp_def)
  with Cons show ?case by simp
qed simp

lemma rasterize_fold:
  assumes "buffers_fit fb zbuf"
  shows "gfx_rasterize_triangle fp (Some fb) zbuf p0 p1 p2 c0 c1 c2 m =
    (case raster_normalise fp p0 p1 p2 c0 c1 c2 of
       None \<Rightarrow> m
     | Some t \<Rightarrow> (case raster_bounds fp (fb_width fb) (fb_height fb) t of
         None \<Rightarrow> m
       | Some bounds \<Rightarrow> fold (\<lambda>(y, x). raster_pixel fp fb zbuf t y x) (visited bounds) m))"
  using assms
  by (simp add: gfx_rasterize_triangle_def buffers_fit_def fold_nested_visited visited_def split: option.split)

lemma triangle_pixels:
  fixes fp :: "'f fpu"
  assumes "buffers_fit fb zbuf"
  defines "go \<equiv> \<lambda>t bounds m. fold (\<lambda>(y, x). raster_pixel fp fb zbuf t y x) (visited bounds) m"
  assumes "raster_bounds fp (fb_width fb) (fb_height fb) t = Some bounds"
  shows "\<not> in_range a (unat (fb_pixels fb)) (buffer_size fb) \<Longrightarrow> \<not> in_range a (unat zbuf) (buffer_size fb) \<Longrightarrow>
      go t bounds m a = m a"
    "in_screen fb y x \<Longrightarrow> pixel_at fb zbuf (go t bounds m) y x =
      (if (y, x) \<in> set (visited bounds) then pixel_result fp t (pixel_centre fp x y) (pixel_at fb zbuf m y x)
       else pixel_at fb zbuf m y x)"
proof -
  note vis = visited_facts [OF assms(1,3)]
  let ?R = "\<lambda>(y, x). pixel_region fb zbuf y x" and ?step = "\<lambda>(y, x). raster_pixel fp fb zbuf t y x"
  have all: "(\<forall>a. (\<forall>i \<in> set (visited bounds). a \<notin> ?R i) \<longrightarrow> fold ?step (visited bounds) m a = m a) \<and>
      (\<forall>i \<in> set (visited bounds). \<forall>a \<in> ?R i. fold ?step (visited bounds) m a = ?step i m a)"
  proof (rule fold_local)
    show "step_local (?R i) (?step i)" if "i \<in> set (visited bounds)" for i
    proof (cases i)
      case (Pair y x)
      with that have "in_screen fb y x" by (intro vis(2)) simp
      then show ?thesis by (simp add: Pair raster_pixel_local [OF assms(1)])
    qed
    show "distinct (visited bounds)" by (rule vis(1))
    show "?R i \<inter> ?R j = {}" if "i \<in> set (visited bounds)" "j \<in> set (visited bounds)" "i \<noteq> j" for i j
    proof (cases i; cases j)
      fix y x y' x' assume ij: "i = (y, x)" "j = (y', x')"
      with that have "in_screen fb y x" "in_screen fb y' x'" "(y, x) \<noteq> (y', x')" by (auto intro: vis(2))
      then show ?thesis by (simp add: ij pixel_regions_disjoint [OF assms(1)])
    qed
  qed
  have inside: "in_range a (unat (fb_pixels fb)) (buffer_size fb) \<or> in_range a (unat zbuf) (buffer_size fb)"
    if "in_screen fb y x" "a \<in> pixel_region fb zbuf y x" for y x a
    using that pixel_addr [OF assms(1) that(1), of "fb_pixels fb"] pixel_addr [OF assms(1) that(1), of zbuf]
    by (auto simp: pixel_region_def word_at_def in_range_def)
  show "go t bounds m a = m a"
    if "\<not> in_range a (unat (fb_pixels fb)) (buffer_size fb)" "\<not> in_range a (unat zbuf) (buffer_size fb)"
    using all inside vis(2) that unfolding go_def by blast
  assume s: "in_screen fb y x"
  have same: "pixel_at fb zbuf m1 y x = pixel_at fb zbuf m2 y x"
    if "\<forall>a \<in> pixel_region fb zbuf y x. m1 a = m2 a" for m1 m2
    using that get_word_cong [OF pixel_addr_room(1) [OF assms(1) s]] get_word_cong [OF pixel_addr_room(2) [OF assms(1) s]]
    by (simp add: pixel_at_def pixel_region_def)
  show "pixel_at fb zbuf (go t bounds m) y x =
      (if (y, x) \<in> set (visited bounds) then pixel_result fp t (pixel_centre fp x y) (pixel_at fb zbuf m y x)
       else pixel_at fb zbuf m y x)"
  proof (cases "(y, x) \<in> set (visited bounds)")
    case True
    then have "pixel_at fb zbuf (go t bounds m) y x = pixel_at fb zbuf (raster_pixel fp fb zbuf t y x m) y x"
      using all unfolding go_def by (intro same) fastforce
    with True show ?thesis by (simp add: raster_pixel_at [OF assms(1) s])
  next
    case False
    have "a \<notin> ?R i" if "a \<in> pixel_region fb zbuf y x" "i \<in> set (visited bounds)" for a i
      using pixel_regions_disjoint [OF assms(1) s, of "fst i" "snd i"] vis(2) that False by (cases i) auto
    then have "pixel_at fb zbuf (go t bounds m) y x = pixel_at fb zbuf m y x"
      using all unfolding go_def by (intro same) blast
    with False show ?thesis by simp
  qed
qed

lemma triangle_inside:
  assumes "buffers_fit fb zbuf" "\<not> in_range a (unat (fb_pixels fb)) (buffer_size fb)"
    "\<not> in_range a (unat zbuf) (buffer_size fb)"
  shows "gfx_rasterize_triangle fp (Some fb) zbuf p0 p1 p2 c0 c1 c2 m a = m a"
  using triangle_pixels(1) [OF assms(1) _ assms(2,3), where fp = fp]
  by (simp add: rasterize_fold [OF assms(1)] split: option.split)

text \<open>
  C20: The rasteriser stays inside its buffers: whatever the vertices, their colours and the
  floating-point arithmetic are (overflow, infinities and NaN included), drawing a triangle changes
  no byte outside the colour buffer and the depth buffer.
\<close>

theorem rasterizer_stays_in_buffers:
  assumes "buffers_fit fb zbuf" "\<not> in_range a (unat (fb_pixels fb)) (buffer_size fb)"
    "\<not> in_range a (unat zbuf) (buffer_size fb)"
  shows "gfx_rasterize_triangle fp (Some fb) zbuf p0 p1 p2 c0 c1 c2 m a = m a"
  by (rule triangle_inside [OF assms])

definition tiny_fb :: framebuffer where
  "tiny_fb = \<lparr>fb_pixels = 0x200000, fb_width = 4, fb_height = 3, fb_pitch = 16\<rparr>"

lemma tiny_fits: "buffers_fit tiny_fb 0x300000"
  by (simp add: buffers_fit_def tiny_fb_def buffer_size_def)

definition vec_at :: "'f fpu \<Rightarrow> int \<Rightarrow> int \<Rightarrow> 'f vec4" where
  "vec_at fp x y = \<lparr>v4_x = f_lit fp x 1, v4_y = f_lit fp y 1, v4_z = f_one fp, v4_w = f_one fp\<rparr>"

definition grey :: "'f fpu \<Rightarrow> 'f vec3" where
  "grey fp = \<lparr>v3_x = f_lit fp 1 2, v3_y = f_lit fp 1 2, v3_z = f_lit fp 1 2\<rparr>"

lemma rasterizer_stays_in_buffers_witness:
  "gfx_rasterize_triangle rat_fpu (Some tiny_fb) 0x300000 (vec_at rat_fpu (-9) 0) (vec_at rat_fpu 100 0)
     (vec_at rat_fpu 2 50) (grey rat_fpu) (grey rat_fpu) (grey rat_fpu) (\<lambda>a. 7) 0x200030 = 7"
  using rasterizer_stays_in_buffers [OF tiny_fits, of "0x200030" rat_fpu]
  by (simp add: in_range_def tiny_fb_def buffer_size_def)

text \<open>
  Drawing a triangle decides every pixel on its own: a pixel in the visited rectangle gets what
  the coverage rule, the depth test and the interpolation say of its own centre, depth and colour
  before, and every other pixel keeps both. The order of the loops does not matter, and a degenerate
  triangle or one off the screen draws nothing.
\<close>

theorem rasterizer_pixelwise:
  assumes "buffers_fit fb zbuf" "in_screen fb y x"
  shows "pixel_at fb zbuf (gfx_rasterize_triangle fp (Some fb) zbuf p0 p1 p2 c0 c1 c2 m) y x =
    (case raster_normalise fp p0 p1 p2 c0 c1 c2 of
       None \<Rightarrow> pixel_at fb zbuf m y x
     | Some t \<Rightarrow> (case raster_bounds fp (fb_width fb) (fb_height fb) t of
         None \<Rightarrow> pixel_at fb zbuf m y x
       | Some (minx, maxx, miny, maxy) \<Rightarrow>
           if y \<in> set (int_range miny maxy) \<and> x \<in> set (int_range minx maxx)
           then pixel_result fp t (pixel_centre fp x y) (pixel_at fb zbuf m y x) else pixel_at fb zbuf m y x))"
  using triangle_pixels(2) [OF assms(1) _ assms(2), where fp = fp]
  by (auto simp: rasterize_fold [OF assms(1)] visited_def split: option.split)

lemma rasterizer_pixelwise_witness:
  "pixel_at tiny_fb 0x300000 (gfx_rasterize_triangle rat_fpu (Some tiny_fb) 0x300000 (vec_at rat_fpu 1 1)
     (vec_at rat_fpu 2 2) (vec_at rat_fpu 3 3) (grey rat_fpu) (grey rat_fpu) (grey rat_fpu) (\<lambda>a. 7)) 1 2 =
   pixel_at tiny_fb 0x300000 (\<lambda>a. 7) 1 2"
proof -
  have "in_screen tiny_fb 1 2" by (simp add: in_screen_def tiny_fb_def)
  moreover have "raster_normalise rat_fpu (vec_at rat_fpu 1 1) (vec_at rat_fpu 2 2) (vec_at rat_fpu 3 3)
      (grey rat_fpu) (grey rat_fpu) (grey rat_fpu) = None"
    by (simp add: raster_normalise_def gfx_edge2d_def vec_at_def rat_fpu_def)
  ultimately show ?thesis
    using rasterizer_pixelwise [OF tiny_fits, of 1 2 rat_fpu "vec_at rat_fpu 1 1" "vec_at rat_fpu 2 2" "vec_at rat_fpu 3 3"]
    by simp
qed

end
