(* ===== verification/GfxPresent.thy ===== *)
theory GfxPresent
  imports GfxBridge
begin

text \<open>
  What presenting promises: each pixel of the back buffer appears at its place on the screen in the
  format of the mode, and nothing else is written.
\<close>

unbundle bit_operations_syntax

section \<open>The format of a pixel\<close>

definition bytes_per_pixel :: "video_mode_info \<Rightarrow> nat" where
  "bytes_per_pixel mode =
     (if vm_bpp mode = 8 then 1 else if vm_bpp mode = 15 \<or> vm_bpp mode = 16 then 2
      else if vm_bpp mode = 24 then 3 else 4)"

definition pixel_bytes :: "video_mode_info \<Rightarrow> u32 \<Rightarrow> u8 list" where
  "pixel_bytes mode rgba =
     (if vm_bpp mode = 8 then [rgba_to_332 rgba]
      else if vm_bpp mode = 15 \<or> vm_bpp mode = 16 then put16 (ucast (rgba_to_direct mode rgba))
      else if vm_bpp mode = 24 then take 3 (put32 (rgba_to_direct mode rgba))
      else put32 (rgba_to_direct mode rgba))"

text \<open>The value of a pixel on the screen: the packed colour, cut to the depth of the mode.\<close>

definition screen_pixel :: "video_mode_info \<Rightarrow> u32 \<Rightarrow> u32" where
  "screen_pixel mode rgba =
     (if vm_bpp mode = 8 then ucast (rgba_to_332 rgba)
      else take_bit (8 * bytes_per_pixel mode) (rgba_to_direct mode rgba))"

definition known_depth :: "video_mode_info \<Rightarrow> bool" where
  "known_depth mode \<longleftrightarrow> vm_bpp mode \<in> {8, 15, 16, 24, 32}"

lemma length_pixel_bytes [simp]: "length (pixel_bytes mode rgba) = bytes_per_pixel mode"
  by (simp add: pixel_bytes_def bytes_per_pixel_def)

lemma bytes_per_pixel_bounds: "0 < bytes_per_pixel mode" "bytes_per_pixel mode \<le> 4"
  by (simp_all add: bytes_per_pixel_def)

lemma write_bytes_Nil: "write_bytes mem a [] = mem"
  by (simp add: write_bytes_def)

lemma write_bytes_Cons:
  assumes "Suc (length bs) < 2 ^ 32"
  shows "write_bytes mem a (b # bs) = (write_bytes mem (a + 1) bs)(a := b)"
proof
  fix x
  show "write_bytes mem a (b # bs) x = ((write_bytes mem (a + 1) bs)(a := b)) x"
  proof (cases "x = a")
    case True
    then show ?thesis by (simp add: write_bytes_def)
  next
    case False
    then have "unat (x - a) \<noteq> 0" by (simp add: unat_eq_zero)
    then obtain n where n: "unat (x - a) = Suc n" by (auto simp: gr0_conv_Suc)
    have "x - (a + 1) = (x - a) - 1" by simp
    moreover have "unat (x - a - 1) = n"
      using n False unat_minus_one [of "x - a"] by simp
    ultimately have "unat (x - (a + 1)) = n" by (simp only:)
    with False n show ?thesis by (simp add: write_bytes_def)
  qed
qed

lemma ucast_low: "(ucast (w AND 0xFF) :: u8) = ucast (w :: u32)"
proof -
  have "(ucast (w AND mask 8) :: u8) = ucast w"
    by (rule bit_word_eqI) (auto simp: bit_simps)
  then show ?thesis by (simp add: mask_eq_exp_minus_1)
qed

lemma ucast_parts:
  "(ucast (ucast w :: u16) :: u8) = ucast (w :: u32)"
  "(ucast (drop_bit 8 (ucast w :: u16)) :: u8) = ucast (drop_bit 8 w)"
  by (rule bit_word_eqI; auto simp: bit_simps)+

lemma take3_put32: "take 3 (put32 w) = [ucast w, ucast (drop_bit 8 w), ucast (drop_bit 16 w)]"
  by (simp add: put32_def put16_def ucast_parts)

lemma present_pixel_block:
  assumes "known_depth mode"
  shows "present_pixel mode s d x mem =
    write_bytes mem (d + of_nat (bytes_per_pixel mode * x)) (pixel_bytes mode (mem_get32 mem (s + 4 * of_nat x)))"
  using assms
  by (auto simp: known_depth_def present_pixel_def bytes_per_pixel_def pixel_bytes_def Let_def
      mem_put16_def mem_put32_def write_bytes_Cons write_bytes_Nil take3_put32 ucast_low fun_upd_twist
      mult.commute add.assoc)

lemma join24:
  "(ucast (ucast w :: u8) :: u32) OR push_bit 8 (ucast (ucast (drop_bit 8 w) :: u8)) OR
     push_bit 16 (ucast (ucast (drop_bit 16 w) :: u8)) = take_bit 24 (w :: u32)"
proof (rule bit_word_eqI)
  fix n assume "n < LENGTH(32)"
  then show "bit ((ucast (ucast w :: u8) :: u32) OR push_bit 8 (ucast (ucast (drop_bit 8 w) :: u8)) OR
     push_bit 16 (ucast (ucast (drop_bit 16 w) :: u8))) n = bit (take_bit 24 w) n"
    by (cases "16 \<le> n"; cases "8 \<le> n") (auto simp: bit_simps)
qed

lemma read_pixel_block:
  assumes "known_depth mode"
    "read_bytes mem (row + of_nat (bytes_per_pixel mode * x)) (bytes_per_pixel mode) = pixel_bytes mode rgba"
  shows "read_hardware_pixel mem row (of_nat x) (vm_bpp mode) = screen_pixel mode rgba"
proof -
  consider "vm_bpp mode = 8" | "vm_bpp mode = 15 \<or> vm_bpp mode = 16" | "vm_bpp mode = 24" | "vm_bpp mode = 32"
    using assms(1) by (auto simp: known_depth_def)
  then show ?thesis
  proof cases
    case 1
    with assms(2) show ?thesis
      by (simp add: bytes_per_pixel_def pixel_bytes_def read_bytes_def read_hardware_pixel_def screen_pixel_def)
  next
    case 2
    with assms(2) have "mem_get16 mem (row + 2 * of_nat x) = ucast (rgba_to_direct mode rgba)"
      using get16_put16 [of "[]" "ucast (rgba_to_direct mode rgba)" "[]"]
      by (auto simp: bytes_per_pixel_def pixel_bytes_def mem_get16_def)
    moreover have "(ucast (ucast w :: u16) :: u32) = take_bit 16 w" for w :: u32
      by (rule bit_word_eqI) (auto simp: bit_simps)
    ultimately show ?thesis using 2
      by (auto simp: read_hardware_pixel_def screen_pixel_def bytes_per_pixel_def)
  next
    case 3
    with assms(2) have "mem (row + of_nat (x * 3)) = ucast (rgba_to_direct mode rgba)"
      "mem (row + of_nat (x * 3) + 1) = ucast (drop_bit 8 (rgba_to_direct mode rgba))"
      "mem (row + of_nat (x * 3) + 2) = ucast (drop_bit 16 (rgba_to_direct mode rgba))"
      by (simp_all add: bytes_per_pixel_def pixel_bytes_def take3_put32 read_bytes_def upt_rec mult.commute)
    with 3 show ?thesis
      by (simp add: read_hardware_pixel_def screen_pixel_def bytes_per_pixel_def join24)
  next
    case 4
    with assms(2) have "mem_get32 mem (row + 4 * of_nat x) = rgba_to_direct mode rgba"
      by (intro mem_get32_block) (simp add: bytes_per_pixel_def pixel_bytes_def)
    with 4 show ?thesis
      by (simp add: read_hardware_pixel_def screen_pixel_def bytes_per_pixel_def take_bit_word_eq_self)
  qed
qed

section \<open>The whole screen\<close>

text \<open>The pixel of the back buffer, and the pixel that the card shows.\<close>

definition back_pixel :: "'d bridge \<Rightarrow> nat \<Rightarrow> nat \<Rightarrow> u32" where
  "back_pixel b x y =
     mem_get32 (bridge_mem b)
       (fb_pixels (bridge_framebuffer b) + 4 * (of_nat y * vm_width (bridge_mode b)) + 4 * of_nat x)"

definition shown_pixel :: "'d bridge \<Rightarrow> nat \<Rightarrow> nat \<Rightarrow> u32" where
  "shown_pixel b x y =
     read_hardware_pixel (bridge_mem b)
       (vm_framebuffer (bridge_mode b) + of_nat y * vm_pitch (bridge_mode b)) (of_nat x) (vm_bpp (bridge_mode b))"

text \<open>
  The geometry: both buffers are in the address space and apart, and a scanline has room for the
  pixels of a row.
\<close>

definition screen_size :: "video_mode_info \<Rightarrow> nat" where
  "screen_size mode = unat (vm_height mode) * unat (vm_pitch mode)"

definition back_size :: "video_mode_info \<Rightarrow> nat" where
  "back_size mode = 4 * (unat (vm_width mode) * unat (vm_height mode))"

definition mode_fits :: "u32 \<Rightarrow> video_mode_info \<Rightarrow> bool" where
  "mode_fits pixels mode \<longleftrightarrow>
     unat pixels + back_size mode \<le> 2 ^ 32 \<and> unat (vm_framebuffer mode) + screen_size mode \<le> 2 ^ 32 \<and>
     bytes_per_pixel mode * unat (vm_width mode) \<le> unat (vm_pitch mode) \<and>
     (unat pixels + back_size mode \<le> unat (vm_framebuffer mode) \<or>
      unat (vm_framebuffer mode) + screen_size mode \<le> unat pixels)"

text \<open>Where pixel \<open>(y, x)\<close> starts on the screen.\<close>

definition cell_at :: "video_mode_info \<Rightarrow> nat \<times> nat \<Rightarrow> nat" where
  "cell_at mode yx =
     unat (vm_framebuffer mode) + fst yx * unat (vm_pitch mode) + bytes_per_pixel mode * snd yx"

definition cells :: "video_mode_info \<Rightarrow> (nat \<times> nat) list" where
  "cells mode = List.product [0..<unat (vm_height mode)] [0..<unat (vm_width mode)]"

lemma fold_nested: "fold (\<lambda>y. fold (g y) xs) ys = fold (\<lambda>(y, x). g y x) (List.product ys xs)"
proof (induction ys)
  case (Cons y ys)
  have "fold (g y) xs = fold (\<lambda>(y, x). g y x) (map (Pair y) xs)"
    by (simp add: fold_map comp_def)
  with Cons show ?case by simp
qed simp

lemma cell_bounds:
  assumes "mode_fits pixels mode" "x < unat (vm_width mode)" "y < unat (vm_height mode)"
  shows "unat (vm_framebuffer mode) \<le> cell_at mode (y, x)"
    "cell_at mode (y, x) + bytes_per_pixel mode \<le> unat (vm_framebuffer mode) + Suc y * unat (vm_pitch mode)"
    "cell_at mode (y, x) + bytes_per_pixel mode \<le> unat (vm_framebuffer mode) + screen_size mode"
proof -
  show "unat (vm_framebuffer mode) \<le> cell_at mode (y, x)" by (simp add: cell_at_def)
  have "bytes_per_pixel mode * Suc x \<le> bytes_per_pixel mode * unat (vm_width mode)"
    using assms(2) by (intro mult_le_mono) simp_all
  also have "\<dots> \<le> unat (vm_pitch mode)" using assms(1) by (simp add: mode_fits_def)
  finally show row: "cell_at mode (y, x) + bytes_per_pixel mode \<le>
      unat (vm_framebuffer mode) + Suc y * unat (vm_pitch mode)"
    by (simp add: cell_at_def)
  have "Suc y * unat (vm_pitch mode) \<le> screen_size mode"
    using assms(3) unfolding screen_size_def by (intro mult_le_mono) simp_all
  with row show "cell_at mode (y, x) + bytes_per_pixel mode \<le> unat (vm_framebuffer mode) + screen_size mode"
    by linarith
qed

lemma rows_apart:
  assumes "mode_fits pixels mode" "x < unat (vm_width mode)" "y < y'" "y < unat (vm_height mode)"
  shows "cell_at mode (y, x) + bytes_per_pixel mode \<le> cell_at mode (y', x')"
proof -
  have "Suc y * unat (vm_pitch mode) \<le> y' * unat (vm_pitch mode)"
    using assms(3) by (intro mult_le_mono) simp_all
  with cell_bounds(2) [OF assms(1,2,4)] show ?thesis by (simp add: cell_at_def)
qed

lemma cells_apart:
  assumes "mode_fits pixels mode"
  shows "blocks_apart (bytes_per_pixel mode) (cell_at mode) (cells mode)"
proof -
  have mem: "(y, x) \<in> set (cells mode) \<longleftrightarrow> y < unat (vm_height mode) \<and> x < unat (vm_width mode)" for y x
    by (auto simp: cells_def)
  have "cell_at mode (y, x) + bytes_per_pixel mode \<le> 2 ^ 32" if "(y, x) \<in> set (cells mode)" for y x
    using cell_bounds(3) [OF assms] that assms mem by (fastforce simp: mode_fits_def)
  moreover have "cell_at mode (y, x) + bytes_per_pixel mode \<le> cell_at mode (y', x') \<or>
      cell_at mode (y', x') + bytes_per_pixel mode \<le> cell_at mode (y, x)"
    if ins: "(y, x) \<in> set (cells mode)" "(y', x') \<in> set (cells mode)" and ne: "(y, x) \<noteq> (y', x')" for y x y' x'
  proof -
    consider "y < y'" | "y' < y" | "y = y'" "x < x'" | "y = y'" "x' < x" using ne by force
    then show ?thesis
    proof cases
      case 3
      then have "bytes_per_pixel mode * Suc x \<le> bytes_per_pixel mode * x'" by (intro mult_le_mono) simp_all
      with 3 show ?thesis by (simp add: cell_at_def)
    next
      case 4
      then have "bytes_per_pixel mode * Suc x' \<le> bytes_per_pixel mode * x" by (intro mult_le_mono) simp_all
      with 4 show ?thesis by (simp add: cell_at_def)
    qed (use ins mem rows_apart [OF assms] in auto)
  qed
  ultimately show ?thesis
    by (auto simp: blocks_apart_def cells_def distinct_product)
qed

lemma present_rows_cells:
  "fold (present_row mode source) [0..<unat (vm_height mode)] =
     fold (\<lambda>(y, x). present_pixel mode (source + 4 * (of_nat y * vm_width mode))
       (vm_framebuffer mode + of_nat y * vm_pitch mode) x) (cells mode)"
proof -
  have "present_row mode source = (\<lambda>y. fold (present_pixel mode (source + 4 * (of_nat y * vm_width mode))
       (vm_framebuffer mode + of_nat y * vm_pitch mode)) [0..<unat (vm_width mode)])"
    by (intro ext) (simp add: present_row_def)
  then show ?thesis by (simp only: fold_nested cells_def)
qed

lemma back_row_word:
  "a + 4 * (of_nat y * w) + 4 * of_nat x = of_nat (unat a + 4 * (y * unat w + x))" for a w :: u32
  by simp

lemma cell_word:
  "fb + of_nat y * pitch + of_nat (k * x) = of_nat (unat fb + y * unat pitch + k * x)" for fb pitch :: u32
  by simp

lemma back_in_range:
  assumes "mode_fits pixels mode" "x < unat (vm_width mode)" "y < unat (vm_height mode)" "i < 4"
  shows "in_range (pixels + 4 * (of_nat y * vm_width mode) + 4 * of_nat x + of_nat i) (unat pixels) (back_size mode)"
proof -
  have "Suc y * unat (vm_width mode) \<le> unat (vm_height mode) * unat (vm_width mode)"
    using assms(3) by (intro mult_le_mono) simp_all
  then have le: "4 * (y * unat (vm_width mode) + x) + 4 \<le> back_size mode"
    using assms(2) by (simp add: back_size_def mult.commute)
  have "unat (of_nat (unat pixels + 4 * (y * unat (vm_width mode) + x) + i) :: u32) =
      unat pixels + 4 * (y * unat (vm_width mode) + x) + i"
    using le assms by (intro unat_of_nat_word) (simp add: mode_fits_def)
  with le assms(4) show ?thesis
    unfolding back_row_word in_range_def by (simp add: of_nat_add [symmetric] del: of_nat_add of_nat_mult)
qed

lemma present_mem:
  fixes m :: memory
  assumes "known_depth mode" "mode_fits pixels mode"
  defines "m' \<equiv> fold (present_row mode pixels) [0..<unat (vm_height mode)] m"
  shows "(\<forall>a. (\<forall>yx \<in> set (cells mode). \<not> in_range a (cell_at mode yx) (bytes_per_pixel mode)) \<longrightarrow> m' a = m a) \<and>
    (\<forall>(y, x) \<in> set (cells mode). read_bytes m' (of_nat (cell_at mode (y, x))) (bytes_per_pixel mode) =
       pixel_bytes mode (mem_get32 m (pixels + 4 * (of_nat y * vm_width mode) + 4 * of_nat x)))"
proof -
  let ?V = "\<lambda>(y, x) m. pixel_bytes mode (mem_get32 m (pixels + 4 * (of_nat y * vm_width mode) + 4 * of_nat x))"
  let ?step = "\<lambda>(y, x). present_pixel mode (pixels + 4 * (of_nat y * vm_width mode))
       (vm_framebuffer mode + of_nat y * vm_pitch mode) x"
  let ?S = "{a. in_range a (unat pixels) (back_size mode)}"
  have mem: "(y, x) \<in> set (cells mode) \<longleftrightarrow> y < unat (vm_height mode) \<and> x < unat (vm_width mode)" for y x
    by (auto simp: cells_def)
  have "(\<forall>a. (\<forall>i \<in> set (cells mode). \<not> in_range a (cell_at mode i) (bytes_per_pixel mode)) \<longrightarrow>
        fold ?step (cells mode) m a = m a) \<and>
      (\<forall>i \<in> set (cells mode).
        read_bytes (fold ?step (cells mode) m) (of_nat (cell_at mode i)) (bytes_per_pixel mode) = ?V i m)"
  proof (rule fold_blocks [where S = ?S])
    show "?step i m = write_bytes m (of_nat (cell_at mode i)) (?V i m)" for i m
      by (cases i) (simp only: prod.case present_pixel_block [OF assms(1)] cell_word cell_at_def fst_conv snd_conv)
    show "length (?V i m) = bytes_per_pixel mode" for i m by (cases i) simp
    show "?V i m = ?V i m'" if "i \<in> set (cells mode)" "\<forall>a \<in> ?S. m a = m' a" for i m m'
    proof (cases i)
      case (Pair y x)
      with that mem back_in_range [OF assms(2), of x y] have
        "mem_get32 m (pixels + 4 * (of_nat y * vm_width mode) + 4 * of_nat x) =
         mem_get32 m' (pixels + 4 * (of_nat y * vm_width mode) + 4 * of_nat x)"
        by (intro mem_get32_cong) simp
      with Pair show ?thesis by simp
    qed
    show "blocks_apart (bytes_per_pixel mode) (cell_at mode) (cells mode)" by (rule cells_apart [OF assms(2)])
    show "\<not> in_range a (cell_at mode i) (bytes_per_pixel mode)" if "i \<in> set (cells mode)" "a \<in> ?S" for i a
    proof (cases i)
      case (Pair y x)
      with that(1) mem cell_bounds(1,3) [OF assms(2), of x y] that(2) assms(2) show ?thesis
        by (auto simp: in_range_def mode_fits_def)
    qed
    show "bytes_per_pixel mode < 2 ^ 32" using bytes_per_pixel_bounds(2) [of mode] by simp
  qed
  then show ?thesis unfolding m'_def present_rows_cells by auto
qed

lemma bridge_on_mem_sel [simp]:
  "bridge_mem (bridge_on_mem f b) = f (bridge_mem b)" "bridge_mode (bridge_on_mem f b) = bridge_mode b"
  "bridge_framebuffer (bridge_on_mem f b) = bridge_framebuffer b" "bridge_depth (bridge_on_mem f b) = bridge_depth b"
  "bridge_ready (bridge_on_mem f b) = bridge_ready b" "b_kalloc (bridge_on_mem f b) = b_kalloc b"
  "current_mode (b_video (bridge_on_mem f b)) = current_mode (b_video b)"
  by (simp_all add: bridge_on_mem_def bridge_mem_def)

lemma present_bytes:
  assumes "bridge_ready b" "known_depth (bridge_mode b)"
    "mode_fits (fb_pixels (bridge_framebuffer b)) (bridge_mode b)"
    "x < unat (vm_width (bridge_mode b))" "y < unat (vm_height (bridge_mode b))"
  shows "read_bytes (bridge_mem (gfx_bridge_present b)) (of_nat (cell_at (bridge_mode b) (y, x))) (bytes_per_pixel (bridge_mode b)) =
      pixel_bytes (bridge_mode b) (back_pixel b x y)"
    and "bridge_mode (gfx_bridge_present b) = bridge_mode b"
proof -
  have b': "gfx_bridge_present b = bridge_on_mem (fold (present_row (bridge_mode b) (fb_pixels (bridge_framebuffer b)))
      [0..<unat (vm_height (bridge_mode b))]) b"
    using assms(1,2) by (simp add: gfx_bridge_present_def known_depth_def)
  then show "bridge_mode (gfx_bridge_present b) = bridge_mode b" by simp
  have "(y, x) \<in> set (cells (bridge_mode b))" using assms(4,5) by (auto simp: cells_def)
  with present_mem [OF assms(2,3), of "bridge_mem b"]
  show "read_bytes (bridge_mem (gfx_bridge_present b)) (of_nat (cell_at (bridge_mode b) (y, x))) (bytes_per_pixel (bridge_mode b)) =
      pixel_bytes (bridge_mode b) (back_pixel b x y)"
    unfolding b' by (fastforce simp: back_pixel_def)
qed

lemma present_shows:
  assumes "bridge_ready b" "known_depth (bridge_mode b)"
    "mode_fits (fb_pixels (bridge_framebuffer b)) (bridge_mode b)"
    "x < unat (vm_width (bridge_mode b))" "y < unat (vm_height (bridge_mode b))"
  shows "shown_pixel (gfx_bridge_present b) x y = screen_pixel (bridge_mode b) (back_pixel b x y) \<and>
    back_pixel (gfx_bridge_present b) x y = back_pixel b x y \<and>
    (\<forall>a. \<not> in_range a (unat (vm_framebuffer (bridge_mode b))) (screen_size (bridge_mode b)) \<longrightarrow>
       bridge_mem (gfx_bridge_present b) a = bridge_mem b a)"
proof -
  let ?mode = "bridge_mode b" and ?fb = "fb_pixels (bridge_framebuffer b)"
  define m' where "m' = fold (present_row ?mode ?fb) [0..<unat (vm_height ?mode)] (bridge_mem b)"
  have b': "gfx_bridge_present b =
      bridge_on_mem (fold (present_row ?mode ?fb) [0..<unat (vm_height ?mode)]) b"
    using assms(1,2) by (simp add: gfx_bridge_present_def known_depth_def)
  have mem: "(v, u) \<in> set (cells ?mode) \<longleftrightarrow> v < unat (vm_height ?mode) \<and> u < unat (vm_width ?mode)" for u v
    by (auto simp: cells_def)
  note pm = present_mem [OF assms(2,3), of "bridge_mem b", folded m'_def]
  have "read_bytes m' (of_nat (cell_at ?mode (y, x))) (bytes_per_pixel ?mode) =
      pixel_bytes ?mode (back_pixel b x y)"
    using present_bytes(1) [OF assms] by (simp add: b' m'_def)
  then have shown: "shown_pixel (gfx_bridge_present b) x y = screen_pixel ?mode (back_pixel b x y)"
    unfolding b' shown_pixel_def bridge_on_mem_sel m'_def [symmetric]
    by (intro read_pixel_block [OF assms(2)]) (simp only: cell_word cell_at_def fst_conv snd_conv)
  have rest: "m' a = bridge_mem b a" if "\<not> in_range a (unat (vm_framebuffer ?mode)) (screen_size ?mode)" for a
  proof -
    have "\<not> in_range a (cell_at ?mode (v, u)) (bytes_per_pixel ?mode)" if "(v, u) \<in> set (cells ?mode)" for u v
      using cell_bounds(1,3) [OF assms(3), of u v] that mem \<open>\<not> in_range a _ _\<close> by (auto simp: in_range_def)
    then have "\<forall>yx \<in> set (cells ?mode). \<not> in_range a (cell_at ?mode yx) (bytes_per_pixel ?mode)"
      by (metis surj_pair)
    with pm show ?thesis by blast
  qed
  have "back_pixel (gfx_bridge_present b) x y = back_pixel b x y"
    unfolding b' back_pixel_def bridge_on_mem_sel m'_def [symmetric]
  proof (rule mem_get32_cong, rule rest)
    fix i :: nat assume "i < 4"
    from back_in_range [OF assms(3-5) this] assms(3)
    show "\<not> in_range (?fb + 4 * (of_nat y * vm_width ?mode) + 4 * of_nat x + of_nat i)
        (unat (vm_framebuffer ?mode)) (screen_size ?mode)"
      by (auto simp: in_range_def mode_fits_def)
  qed
  with shown rest show ?thesis by (simp add: b' m'_def)
qed

definition mode_example :: video_mode_info where
  "mode_example = zero_mode\<lparr>vm_kind := VIDEO_KIND_VBE_LFB, vm_framebuffer := 0xE0000, vm_width := 2,
     vm_height := 1, vm_pitch := 4, vm_bpp := 16, vm_red_pos := 11, vm_red_size := 5, vm_green_pos := 5,
     vm_green_size := 6, vm_blue_pos := 0, vm_blue_size := 5\<rparr>"

definition bridge_example :: "port_log bridge" where
  "bridge_example =
     \<lparr>b_video = \<lparr>v_rm = \<lparr>rm_mem = (\<lambda>a. 0x7F), rm_ready = True, rm_dev = []\<rparr>,
        current_mode = mode_example, vbe_available = True, vbe_version = 0x0200\<rparr>,
      b_kalloc = kalloc_example,
      bridge_framebuffer = \<lparr>fb_pixels = 0x100000, fb_width = 2, fb_height = 1, fb_pitch = 8\<rparr>,
      bridge_depth = 0x101000, bridge_ready = True, bridge_mode = mode_example\<rparr>"

section \<open>Preparing the bridge\<close>

lemma fill32_words:
  assumes "unat a + 4 * n \<le> 2 ^ 32"
  shows "(\<forall>i < n. mem_get32 (fill32 a v n mem) (a + 4 * of_nat i) = v) \<and>
    (\<forall>x. \<not> in_range x (unat a) (4 * n) \<longrightarrow> fill32 a v n mem x = mem x)"
proof -
  let ?A = "\<lambda>i. unat a + 4 * i"
  have apart: "blocks_apart 4 ?A [0..<n]" using assms by (auto simp: blocks_apart_def)
  have addr: "a + 4 * of_nat i = of_nat (?A i)" for i by simp
  have "(\<forall>x. (\<forall>i \<in> set [0..<n]. \<not> in_range x (?A i) 4) \<longrightarrow> fill32 a v n mem x = mem x) \<and>
    (\<forall>i \<in> set [0..<n]. read_bytes (fill32 a v n mem) (of_nat (?A i)) 4 = put32 v)"
    unfolding fill32_def
  proof (rule fold_blocks [where S = "{}"])
    show "mem_put32 (a + 4 * of_nat i) v m = write_bytes m (of_nat (?A i)) (put32 v)" for i m
      by (simp only: addr mem_put32_def)
  qed (use apart in simp_all)
  note blocks = this
  have "mem_get32 (fill32 a v n mem) (a + 4 * of_nat i) = v" if "i < n" for i
    unfolding addr by (rule mem_get32_block) (use blocks that in simp)
  moreover have "fill32 a v n mem x = mem x" if "\<not> in_range x (unat a) (4 * n)" for x
    using blocks that by (auto simp: in_range_def)
  ultimately show ?thesis by blast
qed

end
