(* ===== verification/GfxInit.thy ===== *)
theory GfxInit
  imports GfxPresent
begin

text \<open>
  Preparing the bridge for a mode: when it succeeds, where the buffers are, what they hold, and what
  it costs the page allocator.
\<close>

section \<open>Two allocations\<close>

lemma kalloc_pages_room:
  assumes "kalloc_inv s" "n \<noteq> 0" "unat (kalloc_used s) + kalloc_bytes n \<le> unat (kalloc_capacity s)"
  shows "\<exists>a s'. kalloc_pages n s = (Some a, s') \<and> unat a = unat (kalloc_base s) + unat (kalloc_used s) \<and>
    kalloc_inv s' \<and> kalloc_base s' = kalloc_base s \<and> kalloc_capacity s' = kalloc_capacity s \<and>
    unat (kalloc_used s') = unat (kalloc_used s) + kalloc_bytes n"
proof -
  obtain a s' where p: "kalloc_pages n s = (Some a, s')"
    using kalloc_pages_refuses [OF assms(1), of n] assms(2,3)
    by (metis (no_types) fst_conv linorder_not_less prod.exhaust_sel)
  then have b: "kalloc_block n s = Some (unat a, s')" by (simp add: kalloc_block_def)
  from kalloc_block_Some [OF assms(1) b] kalloc.alloc_inv [OF assms(1) b] p show ?thesis
    by (simp add: kalloc_base_def kalloc_used_def kalloc_capacity_def)
qed

lemma kalloc_pages_no_room:
  assumes "kalloc_inv s" "unat (kalloc_capacity s) < unat (kalloc_used s) + kalloc_bytes n"
  shows "kalloc_pages n s = (None, s)"
  using kalloc_pages_refuses [OF assms(1), of n] assms(2) by simp

section \<open>The result of \<open>gfx_bridge_init\<close>\<close>

text \<open>The pages that one buffer of the mode takes.\<close>

definition buffer_pages :: "video_mode_info \<Rightarrow> nat" where
  "buffer_pages mode = page_up (back_size mode)"

definition graphic_mode :: "video_mode_info \<Rightarrow> bool" where
  "graphic_mode mode \<longleftrightarrow> vm_kind mode \<noteq> VIDEO_KIND_TEXT \<and> vm_framebuffer mode \<noteq> 0 \<and>
     vm_width mode \<noteq> 0 \<and> vm_height mode \<noteq> 0"

text \<open>The framebuffer of the mode has room for its scanlines and lies outside the heap.\<close>

definition screen_apart :: "video_mode_info \<Rightarrow> kalloc_state \<Rightarrow> bool" where
  "screen_apart mode k \<longleftrightarrow>
     bytes_per_pixel mode * unat (vm_width mode) \<le> unat (vm_pitch mode) \<and>
     unat (vm_framebuffer mode) + screen_size mode \<le> 2 ^ 32 \<and>
     (unat (kalloc_base k) + unat (kalloc_capacity k) \<le> unat (vm_framebuffer mode) \<or>
      unat (vm_framebuffer mode) + screen_size mode \<le> unat (kalloc_base k))"

definition depth_value :: "'d bridge \<Rightarrow> nat \<Rightarrow> nat \<Rightarrow> u32" where
  "depth_value b x y =
     mem_get32 (bridge_mem b) (bridge_depth b + 4 * of_nat (y * unat (fb_width (bridge_framebuffer b)) + x))"

lemma pixel_count:
  assumes "back_size mode < 2 ^ 32"
  shows "unat (vm_width mode * vm_height mode * 4) = back_size mode"
    "unat (vm_width mode * vm_height mode) = unat (vm_width mode) * unat (vm_height mode)"
proof -
  show count: "unat (vm_width mode * vm_height mode) = unat (vm_width mode) * unat (vm_height mode)"
  proof -
    have "unat (vm_width mode) * unat (vm_height mode) < 4294967296"
      using assms by (simp add: back_size_def mult.commute)
    then show ?thesis by (simp add: unat_word_ariths)
  qed
  have "unat (vm_width mode * vm_height mode) * 4 < 2 ^ 32"
    using assms unfolding count by (simp add: back_size_def mult.commute)
  then have "unat (vm_width mode * vm_height mode * 4) = unat (vm_width mode * vm_height mode) * 4"
    by (subst unat_word_ariths(2)) simp
  then show "unat (vm_width mode * vm_height mode * 4) = back_size mode"
    unfolding count by (simp add: back_size_def)
qed

lemma width_bound:
  assumes "back_size mode < 2 ^ 32" "vm_height mode \<noteq> 0"
  shows "unat (vm_width mode * 4) = 4 * unat (vm_width mode)" "vm_width mode * 4 mod 4 = 0"
    "vm_width mode * 4 div 4 = vm_width mode"
proof -
  have "1 \<le> unat (vm_height mode)" using assms(2) by (simp add: Suc_le_eq unat_gt_0)
  then have "unat (vm_width mode) * 1 \<le> unat (vm_width mode) * unat (vm_height mode)"
    by (intro mult_le_mono) simp_all
  with assms(1) have "4 * unat (vm_width mode) < 2 ^ 32" unfolding back_size_def by linarith
  then show w: "unat (vm_width mode * 4) = 4 * unat (vm_width mode)" by (simp add: unat_word_ariths)
  show "vm_width mode * 4 mod 4 = 0" "vm_width mode * 4 div 4 = vm_width mode"
    by (simp_all add: word_unat_eq_iff unat_mod unat_div w)
qed

lemma index_bound:
  assumes "x < unat (vm_width mode)" "y < unat (vm_height mode)"
  shows "y * unat (vm_width mode) + x < unat (vm_width mode) * unat (vm_height mode)"
proof -
  have "Suc y * unat (vm_width mode) \<le> unat (vm_height mode) * unat (vm_width mode)"
    using assms(2) by (intro mult_le_mono) simp_all
  with assms(1) show ?thesis by (simp add: mult.commute)
qed


lemma init_prepares:
  fixes b0 :: "'d bridge"
  defines "mode \<equiv> current_mode (b_video b0)" and "k \<equiv> b_kalloc b0"
  assumes "kalloc_inv k" "kalloc_base k \<noteq> 0" "graphic_mode mode" "back_size mode < 2 ^ 32" "screen_apart mode k"
  shows "\<exists>ok b. gfx_bridge_init b0 = (ok, b) \<and> bridge_ready b = ok \<and>
    ok = (unat (kalloc_used k) + 2 * buffer_pages mode \<le> unat (kalloc_capacity k)) \<and>
    (ok \<longrightarrow> unat (kalloc_used (b_kalloc b)) = unat (kalloc_used k) + 2 * buffer_pages mode \<and>
       kalloc_inv (b_kalloc b) \<and> bridge_mode b = mode \<and>
       buffers_fit (bridge_framebuffer b) (bridge_depth b) \<and> fb_width (bridge_framebuffer b) = vm_width mode \<and>
       fb_height (bridge_framebuffer b) = vm_height mode \<and> mode_fits (fb_pixels (bridge_framebuffer b)) mode \<and>
       (\<forall>x < unat (vm_width mode). \<forall>y < unat (vm_height mode).
          back_pixel b x y = 0x000000FF \<and> depth_value b x y = GFX_BRIDGE_DEPTH_FAR))"
proof -
  let ?n = "vm_width mode * vm_height mode * 4"
  let ?b1 = "b0\<lparr>bridge_ready := False, bridge_depth := 0, bridge_framebuffer := zero_framebuffer\<rparr>"
  have size: "unat ?n = back_size mode" "kalloc_bytes ?n = buffer_pages mode"
    using pixel_count(1) [OF assms(6)] by (simp_all add: kalloc_bytes_def buffer_pages_def)
  have wh: "vm_width mode \<noteq> 0" "vm_height mode \<noteq> 0" "vm_kind mode \<noteq> VIDEO_KIND_TEXT" "vm_framebuffer mode \<noteq> 0"
    using assms(5) by (simp_all add: graphic_mode_def)
  then have n0: "?n \<noteq> 0" using size(1) by (auto simp: back_size_def unat_eq_zero)
  have mode0: "video_current (b_video b0) = mode" by (simp add: mode_def video_current_def)
  show ?thesis
  proof (cases "unat (kalloc_used k) + buffer_pages mode \<le> unat (kalloc_capacity k)")
    case False
    then have "kalloc_pages ?n k = (None, k)"
      using kalloc_pages_no_room [OF assms(3), of ?n] size by simp
    then have "gfx_bridge_init b0 = (False, ?b1\<lparr>b_kalloc := k\<rparr>)"
      using wh by (simp add: gfx_bridge_init_def mode0 Let_def k_def)
    with False show ?thesis by auto
  next
    case True
    with kalloc_pages_room [OF assms(3) n0] size obtain color k1 where
      k1: "kalloc_pages ?n k = (Some color, k1)" "unat color = unat (kalloc_base k) + unat (kalloc_used k)"
        "kalloc_inv k1" "kalloc_base k1 = kalloc_base k" "kalloc_capacity k1 = kalloc_capacity k"
        "unat (kalloc_used k1) = unat (kalloc_used k) + buffer_pages mode"
      by auto
    show ?thesis
    proof (cases "unat (kalloc_used k1) + buffer_pages mode \<le> unat (kalloc_capacity k1)")
      case False
      then have "kalloc_pages ?n k1 = (None, k1)"
        using kalloc_pages_no_room [OF k1(3), of ?n] size by simp
      with k1(1) have "gfx_bridge_init b0 = (False, ?b1\<lparr>b_kalloc := k1\<rparr>)"
        using wh by (simp add: gfx_bridge_init_def mode0 Let_def k_def)
      with False k1 show ?thesis by auto
    next
      case True
      with kalloc_pages_room [OF k1(3) n0] size k1 obtain depth k2 where
        k2: "kalloc_pages ?n k1 = (Some depth, k2)"
          "unat depth = unat (kalloc_base k) + unat (kalloc_used k) + buffer_pages mode" "kalloc_inv k2"
          "unat (kalloc_used k2) = unat (kalloc_used k) + 2 * buffer_pages mode"
        by auto
      define fb where "fb = \<lparr>fb_pixels = color, fb_width = vm_width mode, fb_height = vm_height mode,
        fb_pitch = vm_width mode * 4\<rparr>"
      define b2 where "b2 = ?b1\<lparr>b_kalloc := k2, bridge_mode := mode, bridge_framebuffer := fb, bridge_depth := depth\<rparr>"
      define b3 where "b3 = bridge_on_mem (gfx_fb_clear (Some fb) 0x000000FF) b2"
      define b where "b = (gfx_bridge_clear_depth b3)\<lparr>bridge_ready := True\<rparr>"
      have init: "gfx_bridge_init b0 = (True, b)"
        using wh k1(1) k2(1) by (simp add: gfx_bridge_init_def mode0 Let_def k_def b_def b3_def b2_def fb_def)
      have room: "unat (kalloc_used k) + 2 * buffer_pages mode \<le> unat (kalloc_capacity k)"
        using True k1 by simp
      have heap: "unat (kalloc_base k) + unat (kalloc_capacity k) \<le> 2 ^ 32"
        using assms(3) by (simp add: kalloc_inv_def kalloc_base_def kalloc_capacity_def)
      have pages: "back_size mode \<le> buffer_pages mode"
        using page_up_props(1) by (simp add: buffer_pages_def)
      have nz: "color \<noteq> 0" "depth \<noteq> 0"
        using assms(4) k1(2) k2(2) by (auto simp: unat_eq_zero)
      let ?m = "bridge_mem b0"
      let ?m1 = "fill32 color 0x000000FF (unat (vm_width mode * vm_height mode)) ?m"
      let ?m2 = "fill32 depth GFX_BRIDGE_DEPTH_FAR (unat (vm_width mode * vm_height mode)) ?m1"
      have m1: "bridge_mem b3 = ?m1"
      proof -
        have "bridge_mem b2 = ?m" by (simp add: b2_def bridge_mem_def)
        then show ?thesis
          using nz wh width_bound [OF assms(6)] by (simp add: b3_def gfx_fb_clear_def fb_def)
      qed
      have b3: "bridge_depth b3 = depth" "bridge_framebuffer b3 = fb" "bridge_mode b3 = mode" "b_kalloc b3 = k2"
        by (simp_all add: b3_def b2_def)
      have b: "bridge_mem b = ?m2" "bridge_framebuffer b = fb" "bridge_mode b = mode" "b_kalloc b = k2"
        "bridge_depth b = depth"
        using m1 nz b3 by (simp_all add: b_def gfx_bridge_clear_depth_def Let_def fb_def)
          (simp_all add: bridge_mem_def bridge_on_mem_def)
      note count = pixel_count(2) [OF assms(6)]
      have fits1: "unat color + 4 * unat (vm_width mode * vm_height mode) \<le> unat depth"
        "unat depth + 4 * unat (vm_width mode * vm_height mode) \<le> 2 ^ 32"
        using pages room heap k1(2) k2(2) by (simp_all add: count back_size_def)
      note fill1 = fill32_words [of color "unat (vm_width mode * vm_height mode)" "0x000000FF" ?m]
      note fill2 = fill32_words [OF fits1(2), of GFX_BRIDGE_DEPTH_FAR ?m1]
      have "back_pixel b x y = 0x000000FF \<and> depth_value b x y = GFX_BRIDGE_DEPTH_FAR"
        if "x < unat (vm_width mode)" "y < unat (vm_height mode)" for x y
      proof -
        define j where "j = y * unat (vm_width mode) + x"
        have j: "j < unat (vm_width mode * vm_height mode)"
          using index_bound [OF that] by (simp only: j_def count)
        have at: "color + 4 * (of_nat y * vm_width mode) + 4 * of_nat x = color + 4 * of_nat j"
          by (simp add: j_def)
        have "mem_get32 ?m2 (color + 4 * of_nat j) = mem_get32 ?m1 (color + 4 * of_nat j)"
        proof (rule mem_get32_cong)
          fix i :: nat assume "i < 4"
          then have "unat (color + 4 * of_nat j + of_nat i) = unat color + 4 * j + i"
            using j fits1 unat_of_nat_word [of "unat color + 4 * j + i", where 'a = 32] by simp
          then have "\<not> in_range (color + 4 * of_nat j + of_nat i) (unat depth) (4 * unat (vm_width mode * vm_height mode))"
            using j fits1 \<open>i < 4\<close> by (simp add: in_range_def)
          with fill2 show "?m2 (color + 4 * of_nat j + of_nat i) = ?m1 (color + 4 * of_nat j + of_nat i)" by blast
        qed
        also have "\<dots> = 0x000000FF" using fill1 j fits1 by simp
        finally have "back_pixel b x y = 0x000000FF"
          unfolding back_pixel_def b fb_def framebuffer.select_convs at .
        moreover have "mem_get32 ?m2 (depth + 4 * of_nat j) = GFX_BRIDGE_DEPTH_FAR" using fill2 j by blast
        then have "depth_value b x y = GFX_BRIDGE_DEPTH_FAR"
          unfolding depth_value_def b fb_def framebuffer.select_convs j_def [symmetric] .
        ultimately show ?thesis by blast
      qed
      moreover have "mode_fits color mode"
        using assms(7) fits1 heap room k1(2) pages by (auto simp: mode_fits_def screen_apart_def count back_size_def)
      moreover have "buffers_fit fb depth"
      proof -
        have "unat (vm_width mode) * unat (vm_height mode) < 2 ^ 30"
          using assms(6) by (simp add: back_size_def mult.commute)
        moreover have "0 < unat (vm_width mode)" "0 < unat (vm_height mode)" using wh by (simp_all add: unat_gt_0)
        ultimately have "unat (vm_width mode) < 2 ^ 30" "unat (vm_height mode) < 2 ^ 30"
          by (metis Suc_leI le_less_trans mult_le_mono2 nat_mult_1_right One_nat_def,
              metis Suc_leI le_less_trans mult_le_mono1 nat_mult_1 One_nat_def)
        then show ?thesis
          using nz wh fits1 [unfolded count] k1(2) heap
          by (simp add: buffers_fit_def fb_def buffer_size_def mult.commute [of _ "4 :: u32"])
      qed
      ultimately show ?thesis
        using init b k2 room by (intro exI [of _ True] exI [of _ b]) (auto simp: b_def fb_def)
    qed
  qed
qed

text \<open>
  Preparing the bridge in a graphic mode succeeds exactly when the page allocator has room for
  two buffers of four bytes per pixel; it takes both from it for good. Then the back buffer is in the
  heap, apart from the screen, holds opaque black in every pixel, and the depth buffer holds the far
  depth everywhere. When it fails the bridge is left unready.
\<close>

theorem gfx_bridge_init_prepares:
  fixes b0 :: "'d bridge"
  defines "mode \<equiv> current_mode (b_video b0)" and "k \<equiv> b_kalloc b0"
  assumes "kalloc_inv k" "kalloc_base k \<noteq> 0" "graphic_mode mode" "back_size mode < 2 ^ 32" "screen_apart mode k"
  shows "\<exists>ok b. gfx_bridge_init b0 = (ok, b) \<and> bridge_ready b = ok \<and>
    ok = (unat (kalloc_used k) + 2 * buffer_pages mode \<le> unat (kalloc_capacity k)) \<and>
    (ok \<longrightarrow> unat (kalloc_used (b_kalloc b)) = unat (kalloc_used k) + 2 * buffer_pages mode \<and>
       kalloc_inv (b_kalloc b) \<and> bridge_mode b = mode \<and>
       buffers_fit (bridge_framebuffer b) (bridge_depth b) \<and> fb_width (bridge_framebuffer b) = vm_width mode \<and>
       fb_height (bridge_framebuffer b) = vm_height mode \<and> mode_fits (fb_pixels (bridge_framebuffer b)) mode \<and>
       (\<forall>x < unat (vm_width mode). \<forall>y < unat (vm_height mode).
          back_pixel b x y = 0x000000FF \<and> depth_value b x y = GFX_BRIDGE_DEPTH_FAR))"
  unfolding mode_def k_def by (rule init_prepares [OF assms(3-7) [unfolded mode_def k_def]])

lemma gfx_bridge_init_prepares_witness:
  "fst (gfx_bridge_init bridge_example) \<and> back_pixel (snd (gfx_bridge_init bridge_example)) 1 0 = 0xFF"
proof -
  have m: "current_mode (b_video bridge_example) = mode_example" "b_kalloc bridge_example = kalloc_example"
    by (simp_all add: bridge_example_def)
  have ok: "kalloc_base kalloc_example \<noteq> 0" "graphic_mode mode_example" "back_size mode_example < 2 ^ 32"
    "screen_apart mode_example kalloc_example"
    "unat (kalloc_used kalloc_example) + 2 * buffer_pages mode_example \<le> unat (kalloc_capacity kalloc_example)"
    "unat (vm_width mode_example) = 2" "unat (vm_height mode_example) = 1"
    by (simp_all add: mode_example_def kalloc_example_def kalloc_base_def kalloc_capacity_def kalloc_used_def
        graphic_mode_def back_size_def screen_apart_def bytes_per_pixel_def screen_size_def buffer_pages_def
        page_up_def)
  from gfx_bridge_init_prepares [of bridge_example, unfolded m, OF kalloc_example_inv ok(1-4)] ok(5-7)
  show ?thesis by auto
qed

end
