(* ===== verification/ShellLine.thy ===== *)
theory ShellLine
  imports CString
begin

text \<open>
  The command line of the shell (kernel/shell.c): the line editor on \<open>cmd_buf\<close> and the in-place
  tokenizer of \<open>execute_cmd\<close>. Pointers into the buffer are indices; reading past its 64 bytes is
  the value \<open>None\<close>.
\<close>

section \<open>Tokenizer\<close>

definition CMD_MAX_LEN :: nat where "CMD_MAX_LEN = 64"

function skip_spaces :: "u8 list \<Rightarrow> nat \<Rightarrow> nat option" where
  "skip_spaces buf p =
     (if length buf \<le> p then None
      else if buf ! p = 32 then skip_spaces buf (p + 1) else Some p)"
  by pat_completeness auto
termination by (relation "measure (\<lambda>(buf, p). length buf - p)") auto

function skip_word :: "u8 list \<Rightarrow> nat \<Rightarrow> nat option" where
  "skip_word buf p =
     (if length buf \<le> p then None
      else if buf ! p \<noteq> 0 \<and> buf ! p \<noteq> 32 then skip_word buf (p + 1) else Some p)"
  by pat_completeness auto
termination by (relation "measure (\<lambda>(buf, p). length buf - p)") auto

declare skip_spaces.simps [simp del] skip_word.simps [simp del]

lemma skip_word_bounds: "skip_word buf p = Some r \<Longrightarrow> p \<le> r \<and> r < length buf"
  by (induction buf p rule: skip_word.induct) (subst (asm) (2) skip_word.simps, auto split: if_splits)

lemma skip_spaces_bounds: "skip_spaces buf p = Some r \<Longrightarrow> p \<le> r \<and> r < length buf"
  by (induction buf p rule: skip_spaces.induct) (subst (asm) (2) skip_spaces.simps, auto split: if_splits)

text \<open>The loop over tokens: the buffer, and the starts of the tokens found so far.\<close>

function tokenize_loop :: "u8 list \<Rightarrow> nat list \<Rightarrow> nat \<Rightarrow> (u8 list \<times> nat list) option" where
  "tokenize_loop buf argv p =
     (if length buf \<le> p then None
      else if buf ! p = 0 \<or> 16 \<le> length argv then Some (buf, argv)
      else (case skip_spaces buf p of
          None \<Rightarrow> None
        | Some q \<Rightarrow>
            if buf ! q = 0 then Some (buf, argv)
            else (case skip_word buf q of
                None \<Rightarrow> None
              | Some r \<Rightarrow>
                  if buf ! r \<noteq> 0 then tokenize_loop (buf[r := 0]) (argv @ [q]) (r + 1)
                  else tokenize_loop buf (argv @ [q]) r)))"
  by pat_completeness auto
termination
  by (relation "measure (\<lambda>(buf, argv, p). 16 - length argv)") auto

declare tokenize_loop.simps [simp del]

definition tokenize :: "u8 list \<Rightarrow> (u8 list \<times> nat list) option" where
  "tokenize buf = tokenize_loop buf [] 0"

text \<open>The string that a pointer into the buffer denotes.\<close>

definition str_at :: "u8 list \<Rightarrow> nat \<Rightarrow> u8 list" where
  "str_at buf q = cstr (drop q buf)"

section \<open>What the tokenizer computes\<close>

text \<open>The words of a line: maximal runs of characters other than the space.\<close>

function words :: "u8 list \<Rightarrow> u8 list list" where
  "words cs =
     (let cs' = dropWhile (\<lambda>c. c = 32) cs in
      if cs' = [] then []
      else takeWhile (\<lambda>c. c \<noteq> 32) cs' # words (dropWhile (\<lambda>c. c \<noteq> 32) cs'))"
  by pat_completeness auto
termination
proof (relation "measure length")
  show "wf (measure (length :: u8 list \<Rightarrow> nat))" by (rule wf_measure)
next
  fix cs cs' :: "u8 list"
  assume cs': "cs' = dropWhile (\<lambda>c. c = 32) cs" "cs' \<noteq> []"
  obtain c ds where c: "cs' = c # ds" using cs'(2) by (cases cs') blast
  have "c \<noteq> 32" using hd_dropWhile [of "\<lambda>c. c = 32" cs] cs'(2) unfolding cs'(1) [symmetric] c
    by simp
  then have "dropWhile (\<lambda>c. c \<noteq> 32) cs' = dropWhile (\<lambda>c. c \<noteq> 32) ds" unfolding c by simp
  moreover have "length (dropWhile (\<lambda>c. c \<noteq> 32) ds) \<le> length ds" by (rule length_dropWhile_le)
  moreover have "length cs' \<le> length cs" unfolding cs'(1) by (rule length_dropWhile_le)
  moreover have "length cs' = Suc (length ds)" unfolding c by simp
  ultimately show "(dropWhile (\<lambda>c. c \<noteq> 32) cs', cs) \<in> measure length" by simp
qed

declare words.simps [simp del]

lemma skip_spaces_line:
  assumes "0 \<notin> set line"
  shows "skip_spaces (pre @ line @ 0 # rest) (length pre) =
    Some (length pre + length (takeWhile (\<lambda>c. c = 32) line))"
  using assms
proof (induction line arbitrary: pre)
  case Nil
  then show ?case by (subst skip_spaces.simps) simp
next
  case (Cons c line)
  show ?case
  proof (cases "c = 32")
    case True
    with Cons.IH [of "pre @ [c]"] Cons.prems show ?thesis
      by (subst skip_spaces.simps) simp
  next
    case False
    then show ?thesis by (subst skip_spaces.simps) simp
  qed
qed

lemma skip_word_line:
  assumes "0 \<notin> set line"
  shows "skip_word (pre @ line @ 0 # rest) (length pre) =
    Some (length pre + length (takeWhile (\<lambda>c. c \<noteq> 32) line))"
  using assms
proof (induction line arbitrary: pre)
  case Nil
  then show ?case by (subst skip_word.simps) simp
next
  case (Cons c line)
  show ?case
  proof (cases "c = 32")
    case True
    then show ?thesis by (subst skip_word.simps) simp
  next
    case False
    with Cons.IH [of "pre @ [c]"] Cons.prems show ?thesis
      by (subst skip_word.simps) simp
  qed
qed

lemma words_Nil [simp]: "words [] = []"
  by (subst words.simps) simp

lemma words_space [simp]: "words (32 # cs) = words cs"
  by (subst (1 2) words.simps) simp

lemma words_split:
  assumes "dropWhile (\<lambda>c. c = 32) line = w @ rest" "w \<noteq> []" "32 \<notin> set w"
    "rest = [] \<or> hd rest = 32"
  shows "words line = w # words rest"
proof -
  have "takeWhile (\<lambda>c. c \<noteq> 32) (w @ rest) = w \<and> dropWhile (\<lambda>c. c \<noteq> 32) (w @ rest) = rest"
    using assms(3,4) by (cases rest) (auto simp: takeWhile_append dropWhile_append)
  then show ?thesis using assms(1,2) by (subst words.simps) (simp add: Let_def)
qed

lemma takeWhile_word [simp]:
  "32 \<notin> set w \<Longrightarrow> takeWhile (\<lambda>c. c \<noteq> (32 :: u8)) w = w"
  "32 \<notin> set w \<Longrightarrow> takeWhile (\<lambda>c. c \<noteq> (32 :: u8)) (w @ 32 # t) = w"
  by (induction w) auto

lemma words_blank: "dropWhile (\<lambda>c. c = 32) line = [] \<Longrightarrow> words line = []"
  by (subst words.simps) simp

text \<open>A line is blanks, or blanks, a word and the rest that starts with a space.\<close>

lemma line_cases:
  fixes line :: "u8 list"
  obtains (blank) "dropWhile (\<lambda>c. c = 32) line = []" "takeWhile (\<lambda>c. c = 32) line = line"
  | (last) sp w where "line = sp @ w" "w \<noteq> []" "32 \<notin> set w" "takeWhile (\<lambda>c. c = 32) line = sp"
      "dropWhile (\<lambda>c. c = 32) line = w"
  | (more) sp w tl' where "line = sp @ w @ 32 # tl'" "w \<noteq> []" "32 \<notin> set w"
      "takeWhile (\<lambda>c. c = 32) line = sp" "dropWhile (\<lambda>c. c = 32) line = w @ 32 # tl'"
proof -
  define sp l' where "sp = takeWhile (\<lambda>c. c = 32) line" and "l' = dropWhile (\<lambda>c. c = 32) line"
  have line: "line = sp @ l'" by (simp add: sp_def l'_def)
  define w tl where "w = takeWhile (\<lambda>c. c \<noteq> 32) l'" and "tl = dropWhile (\<lambda>c. c \<noteq> 32) l'"
  have l': "l' = w @ tl" by (simp add: w_def tl_def)
  have w: "32 \<notin> set w" unfolding w_def by (auto dest: set_takeWhileD)
  have tl: "tl = [] \<or> hd tl = 32" unfolding tl_def using hd_dropWhile [of "\<lambda>c. c \<noteq> 32" l'] by blast
  show thesis
  proof (cases "l' = []")
    case True
    with line show thesis using blank sp_def l'_def by simp
  next
    case False
    then have "hd l' \<noteq> 32" using hd_dropWhile [of "\<lambda>c. c = 32" line] by (simp add: l'_def)
    with False have wne: "w \<noteq> []" by (cases l') (simp_all add: w_def)
    show thesis
    proof (cases tl)
      case Nil
      with line l' wne w show thesis using last sp_def l'_def by simp
    next
      case (Cons c tl')
      with tl have "tl = 32 # tl'" by simp
      with line l' wne w show thesis using more sp_def l'_def by simp
    qed
  qed
qed

lemma str_at_prefix:
  assumes "take (length (pre @ w @ [0])) buf = pre @ w @ [0]" "0 \<notin> set w"
  shows "str_at buf (length pre) = w \<and> terminated (drop (length pre) buf)"
proof -
  have "buf = take (length (pre @ w @ [0])) buf @ drop (length (pre @ w @ [0])) buf" by simp
  then have "buf = pre @ w @ 0 # drop (length (pre @ w @ [0])) buf"
    unfolding assms(1) by simp
  then have "drop (length pre) buf = w @ 0 # drop (length (pre @ w @ [0])) buf"
    by (metis append_eq_conv_conj)
  then show ?thesis using assms(2) by (simp add: str_at_def)
qed

text \<open>
  The loop from a position: everything before it stays, the tokens found are the words of the
  rest of the line, up to the sixteenth.
\<close>

lemma tokenize_loop_line:
  assumes "0 \<notin> set line"
  shows "\<exists>buf' starts. tokenize_loop (pre @ line @ 0 # rest) argv (length pre) = Some (buf', argv @ starts)
    \<and> length buf' = length (pre @ line @ 0 # rest) \<and> take (length pre) buf' = pre
    \<and> map (str_at buf') starts = take (16 - length argv) (words line)
    \<and> (\<forall>q \<in> set starts. terminated (drop q buf'))"
  using assms
proof (induction "length line" arbitrary: line pre argv rule: less_induct)
  case less
  let ?buf = "pre @ line @ 0 # rest" and ?p = "length pre"
  show ?case
  proof (cases "16 \<le> length argv \<or> line = []")
    case True
    then show ?thesis by (subst tokenize_loop.simps) (auto simp: nth_append)
  next
    case False
    then have few: "length argv < 16" and ne: "line \<noteq> []" by auto
    have nz: "?buf ! ?p \<noteq> 0" and len: "?p < length ?buf"
      using ne less.prems by (cases line; simp add: nth_append)+
    have loop: "tokenize_loop ?buf argv ?p = (case skip_spaces ?buf ?p of
          None \<Rightarrow> None
        | Some q \<Rightarrow>
            if ?buf ! q = 0 then Some (?buf, argv)
            else (case skip_word ?buf q of
                None \<Rightarrow> None
              | Some r \<Rightarrow>
                  if ?buf ! r \<noteq> 0 then tokenize_loop (?buf[r := 0]) (argv @ [q]) (r + 1)
                  else tokenize_loop ?buf (argv @ [q]) r))"
      using nz len few by (subst tokenize_loop.simps) simp
    note q = skip_spaces_line [OF less.prems, of pre rest]
    show ?thesis
    proof (cases rule: line_cases [of line])
      case blank
      have "tokenize_loop ?buf argv ?p = Some (?buf, argv @ [])"
        unfolding loop q blank(2) by (simp add: nth_append)
      then show ?thesis using words_blank [OF blank(1)] by auto
    next
      case (last sp w)
      obtain c w' where w: "w = c # w'" using last(2) by (cases w) blast
      have w0: "0 \<notin> set w" using last(1) less.prems by simp
      have r: "skip_word ?buf (length (pre @ sp)) = Some (length (pre @ sp @ w))"
        using skip_word_line [OF w0, of "pre @ sp" rest] last(1,3) by simp
      have at_q: "?buf ! length (pre @ sp) \<noteq> 0" and at_r: "?buf ! length (pre @ sp @ w) = 0"
        using w0 by (simp_all add: last(1) w nth_append)
      have "tokenize_loop ?buf (argv @ [length (pre @ sp)]) (length (pre @ sp @ w)) =
          Some (?buf, argv @ [length (pre @ sp)])"
        using at_r last(1) by (subst tokenize_loop.simps) simp
      then have "tokenize_loop ?buf argv ?p = Some (?buf, argv @ [length (pre @ sp)])"
        using r at_q at_r unfolding loop q last(4) by simp
      moreover have "str_at ?buf (length (pre @ sp)) = w \<and> terminated (drop (length (pre @ sp)) ?buf)"
        using w0 by (intro str_at_prefix) (simp_all add: last(1))
      moreover have "words line = [w]" using last by (simp add: words_split [where rest = "[]"])
      ultimately show ?thesis using few by (intro exI [of _ ?buf] exI [of _ "[length (pre @ sp)]"]) simp
    next
      case (more sp w tl')
      let ?pre = "pre @ sp @ w @ [0]"
      obtain c w' where w: "w = c # w'" using more(2) by (cases w) blast
      have w0: "0 \<notin> set w" and t0: "0 \<notin> set (32 # tl')" and tl0: "0 \<notin> set tl'"
        using more(1) less.prems by auto
      have r: "skip_word ?buf (length (pre @ sp)) = Some (length (pre @ sp @ w))"
        using skip_word_line [of "w @ 32 # tl'" "pre @ sp" rest] w0 t0 more(3)
        by (simp add: more(1))
      have at_q: "?buf ! length (pre @ sp) \<noteq> 0" and at_r: "?buf ! length (pre @ sp @ w) \<noteq> 0"
        using w0 by (simp_all add: more(1) w nth_append)
      have upd: "?buf[length (pre @ sp @ w) := 0] = ?pre @ tl' @ 0 # rest"
        by (simp add: more(1) list_update_append)
      have "length tl' < length line" by (simp add: more(1))
      from less.hyps [OF this tl0, of ?pre "argv @ [length (pre @ sp)]"]
      obtain buf' starts where step:
          "tokenize_loop (?pre @ tl' @ 0 # rest) (argv @ [length (pre @ sp)]) (length ?pre) =
            Some (buf', (argv @ [length (pre @ sp)]) @ starts)"
        and keep: "length buf' = length (?pre @ tl' @ 0 # rest)" "take (length ?pre) buf' = ?pre"
        and rest_words: "map (str_at buf') starts = take (16 - length (argv @ [length (pre @ sp)])) (words tl')"
          "\<forall>q \<in> set starts. terminated (drop q buf')"
        by blast
      have "tokenize_loop ?buf argv ?p = Some (buf', argv @ (length (pre @ sp) # starts))"
        using r at_q at_r upd step unfolding loop q more(4) by simp
      moreover have "str_at buf' (length (pre @ sp)) = w \<and> terminated (drop (length (pre @ sp)) buf')"
        using keep(2) w0 by (intro str_at_prefix) simp_all
      moreover have "words line = w # words tl'"
        using words_split [OF more(5,2,3)] by simp
      moreover have "take (length pre) buf' = pre"
        using arg_cong [OF keep(2), of "take (length pre)"] by (simp add: min_def)
      ultimately show ?thesis using few keep(1) rest_words
        by (intro exI [of _ buf'] exI [of _ "length (pre @ sp) # starts"])
          (simp add: more(1) take_Cons')
    qed
  qed
qed

end
