(* ===== verification/Shell.thy ===== *)
theory Shell
  imports ShellLine Keyboard Printf BootInfo
begin

text \<open>
  The interactive shell (kernel/shell.c, kernel/root/echo.c): reading a character from the keyboard
  or the serial line, the line editor, the builtin commands and their dispatch. The two graphical
  commands (kernel/cmd_video.c) are a parameter: what they do to the shell's state.
\<close>

unbundle bit_operations_syntax

section \<open>State\<close>

text \<open>
  \<open>sh_mem\<close> is the flat memory that holds the boot information, \<open>sh_ticks\<close> the counter of the PIT;
  both, like the keyboard buffer, belong to other components and are only read here. \<open>sh_video\<close> is
  the state behind the graphical commands, which the shell itself never touches.
\<close>

record ('d, 'v) shell =
  sh_con :: "'d console"
  sh_kb :: kb_state
  sh_mem :: memory
  sh_ticks :: u32
  cmd_buf :: "u8 list"
  cmd_len :: nat
  sh_video :: 'v

datatype builtin =
  Cmd_help | Cmd_clear | Cmd_mem | Cmd_ticks | Cmd_reboot | Echo | Cmd_video_mode | Cmd_video_gfxdemo

datatype shell_error = ShFormat fmt_error | ShOverrun | ShRunning

text \<open>A command returns to the loop, or leaves the CPU halted with interrupts off.\<close>

datatype ('d, 'v) outcome = Done "('d, 'v) shell" | Halt "('d, 'v) shell"

type_synonym ('d, 'v) video_cmd = "builtin \<Rightarrow> u8 list list \<Rightarrow> ('d, 'v) shell \<Rightarrow> shell_error + ('d, 'v) outcome"

definition shell_init :: "('d, 'v) shell \<Rightarrow> ('d, 'v) shell" where
  "shell_init s = s\<lparr>cmd_len := 0\<rparr>"

section \<open>Builtin commands\<close>

definition e820_type_str :: "u32 \<Rightarrow> u8 list" where
  "e820_type_str t =
     (if t = 1 then bytes ''Usable'' else if t = 2 then bytes ''Reserved''
      else if t = 3 then bytes ''ACPI Reclaimable'' else if t = 4 then bytes ''ACPI NVS''
      else if t = 5 then bytes ''Bad Memory'' else bytes ''Unknown'')"

definition sh_puts :: "'d hw \<Rightarrow> u8 list \<Rightarrow> ('d, 'v) shell \<Rightarrow> ('d, 'v) shell" where
  "sh_puts hw cs s = s\<lparr>sh_con := vga_puts hw cs (sh_con s)\<rparr>"

definition sh_printf :: "'d hw \<Rightarrow> u8 list \<Rightarrow> va list \<Rightarrow> ('d, 'v) shell \<Rightarrow> shell_error + ('d, 'v) shell" where
  "sh_printf hw fmt args s =
     map_sum ShFormat (\<lambda>con. s\<lparr>sh_con := con\<rparr>) (vga_printf hw fmt args (sh_con s))"

definition cmd_help :: "'d hw \<Rightarrow> ('d, 'v) shell \<Rightarrow> ('d, 'v) shell" where
  "cmd_help hw s =
     (let s = sh_puts hw (bytes ''Comandos disponiveis:'' @ [10]) s;
          s = sh_puts hw (bytes ''  help   - mostra esta ajuda'' @ [10]) s;
          s = sh_puts hw (bytes ''  clear  - limpa a tela'' @ [10]) s;
          s = sh_puts hw (bytes ''  mem    - mostra mapa de memoria e heap'' @ [10]) s;
          s = sh_puts hw (bytes ''  ticks  - mostra ticks do PIT'' @ [10]) s;
          s = sh_puts hw (bytes ''  reboot - reinicia o sistema'' @ [10]) s;
          s = sh_puts hw (bytes ''  echo   - exibe texto (ex: echo Hello)'' @ [10]) s;
          s = sh_puts hw (bytes ''  mode   - mostra ou troca o modo de video'' @ [10]) s
      in sh_puts hw (bytes ''  gfxdemo- desenha um cubo com o rasterizador do gfx'' @ [10]) s)"

definition cmd_clear :: "'d hw \<Rightarrow> ('d, 'v) shell \<Rightarrow> ('d, 'v) shell" where
  "cmd_clear hw s = s\<lparr>sh_con := vga_clear hw (sh_con s)\<rparr>"

text \<open>One line of the memory map; a range is printed by the low halves of its base and length.\<close>

definition cmd_mem_entry :: "'d hw \<Rightarrow> e820_entry \<Rightarrow> ('d, 'v) shell \<Rightarrow> shell_error + ('d, 'v) shell" where
  "cmd_mem_entry hw e s =
     (let base_lo = (ucast (e_base e) :: u32);
          len_lo = (ucast (e_length e) :: u32);
          stop = base_lo + len_lo - 1
      in sh_printf hw (bytes ''  0x%08x - 0x%08x: %s (%u bytes)'' @ [10])
           [VWord base_lo, VWord stop, VStr (Some (e820_type_str (e_type e))), VWord len_lo] s)"

definition cmd_mem :: "'d hw \<Rightarrow> ('d, 'v) shell \<Rightarrow> shell_error + ('d, 'v) shell" where
  "cmd_mem hw s =
     (let bi = boot_info_get (sh_mem s);
          entries = boot_info_e820_entries (sh_mem s)
      in bind_sum (sh_printf hw (bytes ''Boot drive: 0x%02x'' @ [10])
             [VWord (ucast (raw_boot_drive bi))] s) (\<lambda>s.
         bind_sum (sh_printf hw (bytes ''Mapa de memoria: %u entradas'' @ [10])
             [VWord (ucast (raw_mmap_count bi))] s) (\<lambda>s.
         bind_sum (fold (\<lambda>i r. bind_sum r (cmd_mem_entry hw (e820_at (sh_mem s) entries i)))
             [0..<unat (raw_mmap_count bi)] (Inr s)) (\<lambda>s.
         sh_printf hw (bytes ''Kernel heap: base=0x%08x, size=%u, used=%u'' @ [10])
           [VWord (raw_heap_base bi), VWord (raw_heap_capacity bi), VWord (raw_heap_offset bi)] s))))"

definition cmd_ticks :: "'d hw \<Rightarrow> ('d, 'v) shell \<Rightarrow> shell_error + ('d, 'v) shell" where
  "cmd_ticks hw s = sh_printf hw (bytes ''System ticks: %u'' @ [10]) [VWord (sh_ticks s)] s"

text \<open>The keyboard controller is asked to pulse the reset line; then the CPU halts for good.\<close>

definition cmd_reboot :: "'d hw \<Rightarrow> ('d, 'v) shell \<Rightarrow> ('d, 'v) outcome" where
  "cmd_reboot hw s0 =
     (let s = sh_puts hw (bytes ''Reiniciando...'' @ [10]) s0;
          u = con_uart (sh_con s)
      in Halt (s\<lparr>sh_con := (sh_con s)\<lparr>con_uart := (fst u, outb hw 0x64 0xFE (snd u))\<rparr>\<rparr>))"

section \<open>The echo command\<close>

definition str_is :: "u8 list \<Rightarrow> string \<Rightarrow> bool option" where
  "str_is p lit = map_option (\<lambda>r. r = 0) (strcmp p (bytes lit @ [0]))"

lemma str_is_eq:
  assumes "terminated p" "0 \<notin> set (bytes lit)"
  shows "str_is p lit = Some (cstr p = bytes lit)"
  using strcmp_eq [OF assms(1), of "bytes lit @ [0]"] assms(2) by (auto simp: str_is_def)

definition echo_help_text :: "u8 list" where
  "echo_help_text =
     bytes ''O comando echo imprime argumentos na sa'' @ [0xC3, 0xAD] @ bytes ''da padr'' @
     [0xC3, 0xA3] @ bytes ''o.'' @ [10] @ bytes ''Uso: echo [-n] [texto...]'' @ [10]"

text \<open>
  The first loop: the options, with \<open>newline\<close>; it ends at the help option or at the first text
  argument, whose index and the arguments from it on are returned.
\<close>

datatype echo_opt = EchoHelp | EchoText bool "u8 list list"

fun echo_options :: "u8 list list \<Rightarrow> bool \<Rightarrow> echo_opt option" where
  "echo_options [] newline = Some (EchoText newline [])"
| "echo_options (a # args) newline =
     (case str_is a ''-n'' of None \<Rightarrow> None | Some n1 \<Rightarrow>
      case (if n1 then Some True else str_is a ''--no-newline'') of None \<Rightarrow> None | Some n2 \<Rightarrow>
      if n2 then echo_options args False
      else
        (case str_is a ''-h'' of None \<Rightarrow> None | Some h1 \<Rightarrow>
         case (if h1 then Some True else str_is a ''--help'') of None \<Rightarrow> None | Some h2 \<Rightarrow>
         if h2 then Some EchoHelp else Some (EchoText newline (a # args))))"

text \<open>The second loop: a space follows every argument but the last.\<close>

fun echo_args :: "'d hw \<Rightarrow> u8 list list \<Rightarrow> ('d, 'v) shell \<Rightarrow> ('d, 'v) shell" where
  "echo_args hw [] s = s"
| "echo_args hw [a] s = sh_puts hw (cstr a) s"
| "echo_args hw (a # b # as) s =
     echo_args hw (b # as) (let s = sh_puts hw (cstr a) s
        in s\<lparr>sh_con := vga_putchar hw 32 (sh_con s)\<rparr>)"

definition echo :: "'d hw \<Rightarrow> u8 list list \<Rightarrow> ('d, 'v) shell \<Rightarrow> shell_error + ('d, 'v) shell" where
  "echo hw argv s =
     (case echo_options (tl argv) True of
        None \<Rightarrow> Inl ShOverrun
      | Some EchoHelp \<Rightarrow> Inr (sh_puts hw echo_help_text s)
      | Some (EchoText newline args) \<Rightarrow>
          (let s = echo_args hw args s
           in Inr (if newline then s\<lparr>sh_con := vga_putchar hw 10 (sh_con s)\<rparr> else s)))"

section \<open>Dispatch\<close>

definition cmd_table :: "(string \<times> builtin) list" where
  "cmd_table =
    [(''help'', Cmd_help), (''clear'', Cmd_clear), (''mem'', Cmd_mem), (''ticks'', Cmd_ticks),
     (''reboot'', Cmd_reboot), (''echo'', Echo), (''mode'', Cmd_video_mode),
     (''gfxdemo'', Cmd_video_gfxdemo)]"

fun run_builtin :: "'d hw \<Rightarrow> ('d, 'v) video_cmd \<Rightarrow> builtin \<Rightarrow> u8 list list \<Rightarrow> ('d, 'v) shell \<Rightarrow> shell_error + ('d, 'v) outcome" where
  "run_builtin hw video Cmd_help argv s = Inr (Done (cmd_help hw s))"
| "run_builtin hw video Cmd_clear argv s = Inr (Done (cmd_clear hw s))"
| "run_builtin hw video Cmd_mem argv s = map_sum id Done (cmd_mem hw s)"
| "run_builtin hw video Cmd_ticks argv s = map_sum id Done (cmd_ticks hw s)"
| "run_builtin hw video Cmd_reboot argv s = Inr (cmd_reboot hw s)"
| "run_builtin hw video Echo argv s = map_sum id Done (echo hw argv s)"
| "run_builtin hw video Cmd_video_mode argv s = video Cmd_video_mode argv s"
| "run_builtin hw video Cmd_video_gfxdemo argv s = video Cmd_video_gfxdemo argv s"

text \<open>The search of the table; \<open>None\<close> when \<open>strcmp\<close> leaves a string, \<open>Some None\<close> when no name matches.\<close>

fun cmd_search :: "u8 list \<Rightarrow> (string \<times> builtin) list \<Rightarrow> builtin option option" where
  "cmd_search name [] = Some None"
| "cmd_search name ((n, fn) # tab) =
     (case str_is name n of
        None \<Rightarrow> None
      | Some eq \<Rightarrow> if eq then Some (Some fn) else cmd_search name tab)"

definition execute_cmd :: "'d hw \<Rightarrow> ('d, 'v) video_cmd \<Rightarrow> ('d, 'v) shell \<Rightarrow> shell_error + ('d, 'v) outcome" where
  "execute_cmd hw video s0 =
     (let s = s0\<lparr>cmd_buf := (cmd_buf s0)[cmd_len s0 := 0]\<rparr> in
      if cmd_len s = 0 then Inr (Done s)
      else
        (case tokenize (cmd_buf s) of
           None \<Rightarrow> Inl ShOverrun
         | Some (buf, argv) \<Rightarrow>
             let s = s\<lparr>cmd_buf := buf\<rparr>;
                 strs = map (\<lambda>p. drop p buf) argv in
             if argv = [] then Inr (Done s)
             else
               (case cmd_search (hd strs) cmd_table of
                  None \<Rightarrow> Inl ShOverrun
                | Some (Some fn) \<Rightarrow> run_builtin hw video fn strs s
                | Some None \<Rightarrow>
                    map_sum id Done (sh_printf hw (bytes ''Comando desconhecido: %s'' @ [10])
                      [VStr (Some (cstr (hd strs)))] s))))"

section \<open>The loop\<close>

text \<open>
  One pass of the loop of \<open>shell_read_char\<close>; without data the CPU waits for the next interrupt and
  the pass is repeated.
\<close>

definition shell_read_char :: "'d hw \<Rightarrow> ('d, 'v) shell \<Rightarrow> u8 option \<times> ('d, 'v) shell" where
  "shell_read_char hw s =
     (if keyboard_has_data (sh_kb s) then
        (case keyboard_getchar (sh_kb s) of
           None \<Rightarrow> (None, s)
         | Some (c, kb) \<Rightarrow> (Some c, s\<lparr>sh_kb := kb\<rparr>))
      else
        (let (ready, u) = serial_has_data hw (con_uart (sh_con s));
             s = s\<lparr>sh_con := (sh_con s)\<lparr>con_uart := u\<rparr>\<rparr> in
         if ready then
           (let (c, u) = serial_getchar hw u;
                s = s\<lparr>sh_con := (sh_con s)\<lparr>con_uart := u\<rparr>\<rparr>
            in (Some (if c = 13 then 10 else if c = 0x7F then 8 else c), s))
         else (None, s)))"

definition PROMPT :: "u8 list" where "PROMPT = bytes ''AlmaOS> ''"

definition shell_prompt :: "'d hw \<Rightarrow> 'd console \<Rightarrow> 'd console" where
  "shell_prompt hw con =
     vga_set_color (color_code VGA_COLOR_LIGHT_GREY) (color_code VGA_COLOR_BLACK)
       (vga_puts hw PROMPT con)"

text \<open>The part of \<open>shell_run\<close> before its loop.\<close>

definition shell_start :: "'d hw \<Rightarrow> ('d, 'v) shell \<Rightarrow> ('d, 'v) shell" where
  "shell_start hw s =
     s\<lparr>sh_con := shell_prompt hw
         (vga_set_color (color_code VGA_COLOR_LIGHT_GREEN) (color_code VGA_COLOR_BLACK) (sh_con s))\<rparr>"

definition shell_after_cmd :: "'d hw \<Rightarrow> ('d, 'v) shell \<Rightarrow> ('d, 'v) shell" where
  "shell_after_cmd hw s =
     (let con = vga_set_color (color_code VGA_COLOR_LIGHT_GREEN) (color_code VGA_COLOR_BLACK) (sh_con s);
          con = (if vga_get_col con \<noteq> 0 then vga_putchar hw 10 con else con)
      in s\<lparr>cmd_len := 0, sh_con := shell_prompt hw con\<rparr>)"

definition shell_key :: "'d hw \<Rightarrow> ('d, 'v) video_cmd \<Rightarrow> u8 \<Rightarrow> ('d, 'v) shell \<Rightarrow> shell_error + ('d, 'v) outcome" where
  "shell_key hw video c s =
     (if c = 10 then
        bind_sum (execute_cmd hw video (s\<lparr>sh_con := vga_putchar hw 10 (sh_con s)\<rparr>)) (\<lambda>r.
          case r of Done s' \<Rightarrow> Inr (Done (shell_after_cmd hw s')) | Halt s' \<Rightarrow> Inr (Halt s'))
      else if c = 8 then
        Inr (Done (if 0 < cmd_len s
          then s\<lparr>cmd_len := cmd_len s - 1, sh_con := vga_putchar hw 8 (sh_con s)\<rparr> else s))
      else Inr (Done (if cmd_len s < CMD_MAX_LEN - 1
          then s\<lparr>cmd_buf := (cmd_buf s)[cmd_len s := c], cmd_len := cmd_len s + 1,
                 sh_con := vga_putchar hw c (sh_con s)\<rparr>
          else s)))"

text \<open>The loop over the characters that arrive.\<close>

fun shell_keys :: "'d hw \<Rightarrow> ('d, 'v) video_cmd \<Rightarrow> u8 list \<Rightarrow> ('d, 'v) shell \<Rightarrow> shell_error + ('d, 'v) outcome" where
  "shell_keys hw video [] s = Inr (Done s)"
| "shell_keys hw video (c # cs) s =
     bind_sum (shell_key hw video c s) (\<lambda>r.
       case r of Done s' \<Rightarrow> shell_keys hw video cs s' | Halt s' \<Rightarrow> Inr (Halt s'))"

end
