(* ===== verification/CmdVideo.thy ===== *)
theory CmdVideo
  imports Shell GfxBridge
begin

text \<open>
  The graphical commands of the shell (kernel/cmd_video.c): mode specifications, the command that
  shows and switches the mode, and the demo with the summary that it reads back from the screen. The
  floating-point drawing of the cube is a parameter, a change of memory.
\<close>

unbundle bit_operations_syntax

section \<open>Mode specifications\<close>

fun video_kind_name :: "video_kind \<Rightarrow> u8 list" where
  "video_kind_name VIDEO_KIND_TEXT = bytes ''texto''"
| "video_kind_name VIDEO_KIND_VGA13 = bytes ''VGA 13h''"
| "video_kind_name VIDEO_KIND_VBE_LFB = bytes ''VBE (framebuffer linear)''"

text \<open>The loop of \<open>parse_uint\<close>; running past the end of the text is \<open>None\<close>.\<close>

fun parse_uint_loop :: "u8 list \<Rightarrow> u32 \<Rightarrow> bool \<Rightarrow> (bool \<times> u32 \<times> u8 list) option" where
  "parse_uint_loop [] v any = None"
| "parse_uint_loop (c # p) v any =
     (if is_digit c then parse_uint_loop p (v * 10 + (ucast c - 48)) True else Some (any, v, c # p))"

definition parse_uint :: "u8 list \<Rightarrow> (bool \<times> u32 \<times> u8 list) option" where
  "parse_uint cursor = parse_uint_loop cursor 0 False"

text \<open>Width, height and depth; \<open>Some None\<close> is a text that is not recognised.\<close>

definition parse_mode_spec :: "u8 list \<Rightarrow> (u32 \<times> u32 \<times> u32) option option" where
  "parse_mode_spec spec =
     (case str_is spec ''vga13'' of None \<Rightarrow> None | Some vga13 \<Rightarrow>
      if vga13 then Some (Some (0, 0, 8))
      else
        (case parse_uint spec of None \<Rightarrow> None | Some (ok, width, cursor) \<Rightarrow>
         if \<not> ok then Some None
         else if hd cursor \<noteq> 120 then Some None
         else
           (case parse_uint (tl cursor) of None \<Rightarrow> None | Some (ok, height, cursor) \<Rightarrow>
            if \<not> ok then Some None
            else if hd cursor = 0 then Some (Some (width, height, 32))
            else if hd cursor \<noteq> 120 then Some None
            else
              (case parse_uint (tl cursor) of None \<Rightarrow> None | Some (ok, bpp, cursor) \<Rightarrow>
               if \<not> ok then Some None
               else if hd cursor = 0 then Some (Some (width, height, bpp)) else Some None))))"

section \<open>The machine as the commands see it\<close>

text \<open>
  The console, the keyboard buffer and the graphics state. The devices are those that the serial
  port of the console reaches; a graphics operation runs on the same ones.
\<close>

record 'd gfx_cmd =
  gc_con :: "'d console"
  gc_kb :: kb_state
  gc_bridge :: "'d bridge"

definition gc_dev :: "'d gfx_cmd \<Rightarrow> 'd" where "gc_dev s = snd (con_uart (gc_con s))"

definition bridge_dev :: "'d \<Rightarrow> 'd bridge \<Rightarrow> 'd bridge" where
  "bridge_dev d b = b\<lparr>b_video := (b_video b)\<lparr>v_rm := (v_rm (b_video b))\<lparr>rm_dev := d\<rparr>\<rparr>\<rparr>"

definition with_bridge :: "('d bridge \<Rightarrow> 'a \<times> 'd bridge) \<Rightarrow> 'd gfx_cmd \<Rightarrow> 'a \<times> 'd gfx_cmd" where
  "with_bridge f s =
     (let (r, b) = f (bridge_dev (gc_dev s) (gc_bridge s))
      in (r, s\<lparr>gc_bridge := b,
               gc_con := (gc_con s)\<lparr>con_uart := (fst (con_uart (gc_con s)), rm_dev (v_rm (b_video b)))\<rparr>\<rparr>))"

definition with_video :: "('d video \<Rightarrow> 'a \<times> 'd video) \<Rightarrow> 'd bridge \<Rightarrow> 'a \<times> 'd bridge" where
  "with_video f b = (let (r, v) = f (b_video b) in (r, b\<lparr>b_video := v\<rparr>))"

definition gc_puts :: "'d hw \<Rightarrow> u8 list \<Rightarrow> 'd gfx_cmd \<Rightarrow> 'd gfx_cmd" where
  "gc_puts hw cs s = s\<lparr>gc_con := vga_puts hw cs (gc_con s)\<rparr>"

definition gc_printf :: "'d hw \<Rightarrow> u8 list \<Rightarrow> va list \<Rightarrow> 'd gfx_cmd \<Rightarrow> shell_error + 'd gfx_cmd" where
  "gc_printf hw fmt args s = map_sum ShFormat (\<lambda>con. s\<lparr>gc_con := con\<rparr>) (vga_printf hw fmt args (gc_con s))"

definition gc_serial_puts :: "'d hw \<Rightarrow> u8 list \<Rightarrow> 'd gfx_cmd \<Rightarrow> 'd gfx_cmd" where
  "gc_serial_puts hw cs s =
     s\<lparr>gc_con := (gc_con s)\<lparr>con_uart := serial_puts hw (Some cs) (con_uart (gc_con s))\<rparr>\<rparr>"

section \<open>Showing and switching the mode\<close>

definition print_current_mode :: "'d hw \<Rightarrow> 'd gfx_cmd \<Rightarrow> shell_error + 'd gfx_cmd" where
  "print_current_mode hw s =
     (let v = b_video (gc_bridge s); mode = video_current v in
      bind_sum (gc_printf hw (bytes ''Modo atual: %s'' @ [10]) [VStr (Some (video_kind_name (vm_kind mode)))] s) (\<lambda>s.
      bind_sum (gc_printf hw (bytes ''  framebuffer: 0x%08x  %ux%u  pitch=%u  bpp=%u'' @ [10])
        [VWord (vm_framebuffer mode), VWord (vm_width mode), VWord (vm_height mode), VWord (vm_pitch mode),
         VWord (ucast (vm_bpp mode))] s) (\<lambda>s.
      bind_sum (if vm_kind mode = VIDEO_KIND_VBE_LFB
        then gc_printf hw (bytes ''  modo VBE 0x%03x  R:%u@%u G:%u@%u B:%u@%u'' @ [10])
          [VWord (ucast (vm_vbe_mode mode)), VWord (ucast (vm_red_size mode)), VWord (ucast (vm_red_pos mode)),
           VWord (ucast (vm_green_size mode)), VWord (ucast (vm_green_pos mode)),
           VWord (ucast (vm_blue_size mode)), VWord (ucast (vm_blue_pos mode))] s
        else Inr s) (\<lambda>s.
      if video_vbe_available v
      then gc_printf hw (bytes ''VBE %u.%u disponivel'' @ [10])
        [VWord (drop_bit 8 (ucast (video_vbe_version v)) AND 0xFF), VWord (ucast (video_vbe_version v) AND 0xFF)] s
      else Inr (gc_puts hw (bytes ''VBE indisponivel nesta maquina'' @ [10]) s)))))"

definition apply_mode :: "'d hw \<Rightarrow> 'd bios_int \<Rightarrow> u8 list \<Rightarrow> 'd gfx_cmd \<Rightarrow> (bool \<times> 'd gfx_cmd) option" where
  "apply_mode hw bios spec s =
     (case str_is spec ''text'' of None \<Rightarrow> None | Some text \<Rightarrow>
      if text then Some (with_bridge (with_video (video_set_text bios)) s)
      else
        (case parse_mode_spec spec of
           None \<Rightarrow> None
         | Some None \<Rightarrow> Some (False, s)
         | Some (Some (width, height, bpp)) \<Rightarrow>
             if width = 0 then Some (with_bridge (with_video (video_set_vga13 hw bios)) s)
             else Some (with_bridge (with_video (video_set_vbe bios width height (ucast bpp))) s)))"

definition cmd_video_mode ::
  "'d hw \<Rightarrow> 'd bios_int \<Rightarrow> u8 list list \<Rightarrow> 'd gfx_cmd \<Rightarrow> shell_error + int \<times> 'd gfx_cmd" where
  "cmd_video_mode hw bios argv s =
     (if length argv < 2 then
        bind_sum (print_current_mode hw s) (\<lambda>s.
          Inr (0, gc_puts hw (bytes ''Uso: mode <text|vga13|LARGURAxALTURA[xBPP]>'' @ [10]) s))
      else
        (case apply_mode hw bios (argv ! 1) s of
           None \<Rightarrow> Inl ShOverrun
         | Some (False, s) \<Rightarrow>
             bind_sum (gc_printf hw (bytes ''mode: nao foi possivel ativar '' @ [39] @ bytes ''%s'' @ [39, 10])
               [VStr (Some (cstr (argv ! 1)))] s) (\<lambda>s. Inr (1, s))
         | Some (True, s) \<Rightarrow> bind_sum (print_current_mode hw s) (\<lambda>s. Inr (0, s))))"

section \<open>The demo\<close>

text \<open>The angle of a frame: the fixed one, or a number of steps of the animation.\<close>

datatype angle = Still | Turn nat

type_synonym raster = "angle \<Rightarrow> framebuffer \<Rightarrow> u32 \<Rightarrow> memory \<Rightarrow> memory"

definition gfxdemo_draw_frame :: "raster \<Rightarrow> angle \<Rightarrow> 'd bridge \<Rightarrow> 'd bridge" where
  "gfxdemo_draw_frame draw angle b =
     (case gfx_bridge_framebuffer b of
        None \<Rightarrow> b
      | Some framebuffer \<Rightarrow>
          (let depth = gfx_bridge_depth_buffer b in
           if depth = 0 then b
           else
             (let b = bridge_on_mem (gfx_fb_clear (Some framebuffer) 0x101830FF) b;
                  b = gfx_bridge_clear_depth b;
                  b = bridge_on_mem (draw angle framebuffer depth) b
              in gfx_bridge_present b)))"

text \<open>The summary: pixels off the background, and at most sixteen of their values.\<close>

definition report_pixel :: "u32 \<Rightarrow> u32 \<Rightarrow> u32 \<times> u32 list \<Rightarrow> u32 \<times> u32 list" where
  "report_pixel background pixel st =
     (let (covered, seen) = st in
      if pixel = background then (covered, seen)
      else (covered + 1, if pixel \<notin> set seen \<and> length seen < 16 then seen @ [pixel] else seen))"

definition report_row :: "memory \<Rightarrow> video_mode_info \<Rightarrow> u32 \<Rightarrow> nat \<Rightarrow> u32 \<times> u32 list \<Rightarrow> u32 \<times> u32 list" where
  "report_row mem mode background y =
     (let row = vm_framebuffer mode + of_nat y * vm_pitch mode
      in fold (\<lambda>x. report_pixel background (read_hardware_pixel mem row (of_nat x) (vm_bpp mode)))
           [0..<unat (vm_width mode)])"

definition gfxdemo_summary :: "memory \<Rightarrow> video_mode_info \<Rightarrow> u32 \<times> u32 \<times> nat" where
  "gfxdemo_summary mem mode =
     (let background = read_hardware_pixel mem (vm_framebuffer mode) 0 (vm_bpp mode);
          (covered, seen) = fold (report_row mem mode background) [0..<unat (vm_height mode)] (0, [])
      in (background, covered, length seen))"

definition gfxdemo_report_framebuffer :: "'d hw \<Rightarrow> 'd gfx_cmd \<Rightarrow> shell_error + 'd gfx_cmd" where
  "gfxdemo_report_framebuffer hw s =
     (let mode = video_current (b_video (gc_bridge s)) in
      if vm_bpp mode = 0 \<or> vm_width mode = 0 \<or> vm_height mode = 0
      then Inr (gc_puts hw (bytes ''gfxdemo: modo sem pixels, resumo indisponivel'' @ [10]) s)
      else
        (let (background, covered, distinct) = gfxdemo_summary (bridge_mem (gc_bridge s)) mode
         in gc_printf hw (bytes ''gfxdemo: fundo=0x%08x cobertos=%u cores=%u'' @ [10])
              [VWord background, VWord covered, VWord (of_nat distinct)] s))"

text \<open>The arguments: the last one that is not \<open>still\<close> is the mode.\<close>

fun gfxdemo_args :: "u8 list list \<Rightarrow> u8 list \<times> bool \<Rightarrow> (u8 list \<times> bool) option" where
  "gfxdemo_args [] st = Some st"
| "gfxdemo_args (a # as) st =
     (case str_is a ''still'' of None \<Rightarrow> None | Some is_still \<Rightarrow>
      gfxdemo_args as (if is_still then (fst st, True) else (a, snd st)))"

definition key_waiting :: "'d hw \<Rightarrow> 'd gfx_cmd \<Rightarrow> bool \<times> 'd gfx_cmd" where
  "key_waiting hw s =
     (if keyboard_has_data (gc_kb s) then (True, s)
      else
        (let (ready, u) = serial_has_data hw (con_uart (gc_con s))
         in (ready, s\<lparr>gc_con := (gc_con s)\<lparr>con_uart := u\<rparr>\<rparr>)))"

text \<open>
  The animation: \<open>keys\<close> gives, for each frame, the scancodes that the keyboard interrupt delivers
  while it is drawn. \<open>None\<close> means that the animation is still running when they are used up.
\<close>

fun gfxdemo_loop :: "'d hw \<Rightarrow> raster \<Rightarrow> u8 list list \<Rightarrow> nat \<Rightarrow> 'd gfx_cmd \<Rightarrow> 'd gfx_cmd option" where
  "gfxdemo_loop hw draw keys n s =
     (case key_waiting hw s of
        (True, s) \<Rightarrow> Some s
      | (False, s) \<Rightarrow>
          (case keys of
             [] \<Rightarrow> None
           | k # ks \<Rightarrow> gfxdemo_loop hw draw ks (n + 1)
               (s\<lparr>gc_bridge := gfxdemo_draw_frame draw (Turn n) (gc_bridge s),
                  gc_kb := fold keyboard_scancode k (gc_kb s)\<rparr>)))"

definition gfxdemo_finish :: "'d hw \<Rightarrow> 'd bios_int \<Rightarrow> 'd gfx_cmd \<Rightarrow> 'd gfx_cmd" where
  "gfxdemo_finish hw bios s =
     (let s = (if keyboard_has_data (gc_kb s)
               then (case keyboard_getchar (gc_kb s) of None \<Rightarrow> s | Some (c, kb) \<Rightarrow> s\<lparr>gc_kb := kb\<rparr>) else s);
          (ready, u) = serial_has_data hw (con_uart (gc_con s));
          u = (if ready then snd (serial_getchar hw u) else u);
          s = s\<lparr>gc_con := (gc_con s)\<lparr>con_uart := u\<rparr>\<rparr>;
          s = snd (with_bridge (with_video (video_set_text bios)) s);
          s = s\<lparr>gc_con := vga_clear hw (gc_con s)\<rparr>
      in gc_puts hw (bytes ''gfxdemo: encerrado, de volta ao modo texto'' @ [10]) s)"

text \<open>\<open>Inr None\<close> is a demo that still runs.\<close>

definition cmd_video_gfxdemo ::
  "'d hw \<Rightarrow> 'd bios_int \<Rightarrow> raster \<Rightarrow> u8 list list \<Rightarrow> u8 list list \<Rightarrow> 'd gfx_cmd \<Rightarrow>
     shell_error + (int \<times> 'd gfx_cmd) option" where
  "cmd_video_gfxdemo hw bios draw keys argv s =
     (case gfxdemo_args (tl argv) (bytes ''320x200x32'' @ [0], False) of None \<Rightarrow> Inl ShOverrun | Some (spec, still) \<Rightarrow>
      case apply_mode hw bios spec s of
        None \<Rightarrow> Inl ShOverrun
      | Some (False, s) \<Rightarrow>
          bind_sum (gc_printf hw (bytes ''gfxdemo: nao foi possivel ativar '' @ [39] @ bytes ''%s'' @ [39, 10])
            [VStr (Some (cstr spec))] s) (\<lambda>s.
            Inr (Some (1, snd (with_bridge (with_video (video_set_text bios)) s))))
      | Some (True, s) \<Rightarrow>
          (case with_bridge gfx_bridge_init s of
             (False, s) \<Rightarrow>
               (let s = gc_serial_puts hw (bytes ''gfxdemo: ponte grafica indisponivel'' @ [10]) s;
                    s = snd (with_bridge (with_video (video_set_text bios)) s);
                    k = b_kalloc (gc_bridge s)
                in bind_sum (gc_printf hw (bytes ''gfxdemo: ponte grafica indisponivel (kalloc livre=%u bytes)'' @ [10])
                     [VWord (kalloc_capacity k - kalloc_used k)] s) (\<lambda>s. Inr (Some (1, s))))
           | (True, s) \<Rightarrow>
               if still then
                 (let s = gc_serial_puts hw (bytes ''gfxdemo: quadro fixo'' @ [10]) s;
                      s = s\<lparr>gc_bridge := gfxdemo_draw_frame draw Still (gc_bridge s)\<rparr>
                  in bind_sum (gfxdemo_report_framebuffer hw s) (\<lambda>s. Inr (Some (0, gfxdemo_finish hw bios s))))
               else
                 (let s = gc_serial_puts hw (bytes ''gfxdemo: renderizando; pressione uma tecla para sair'' @ [10]) s
                  in Inr (map_option (\<lambda>s. (0, gfxdemo_finish hw bios s)) (gfxdemo_loop hw draw keys 0 s)))))"

end
