(* ===== verification/CubeDemo.thy ===== *)
theory CubeDemo
  imports RasterPixels GfxInit CmdVideo
begin

text \<open>
  The animated cube of the \<open>gfxdemo\<close> command (kernel/cmd_video.c), drawn with the rasteriser: it fills
  the drawing parameter of the command. Its frames stay inside the buffers of the graphics bridge and
  the screen, for any floating-point arithmetic.
\<close>

unbundle bit_operations_syntax

section \<open>The cube\<close>

definition vec3_of :: "'f \<Rightarrow> 'f \<Rightarrow> 'f \<Rightarrow> 'f vec3" where
  "vec3_of a b c = \<lparr>v3_x = a, v3_y = b, v3_z = c\<rparr>"

definition cube_vertices :: "'f fpu \<Rightarrow> 'f vec3 list" where
  "cube_vertices fp =
     (let h = f_lit fp 1 2; m = f_lit fp (-1) 2 in
      [vec3_of m m m, vec3_of h m m, vec3_of h h m, vec3_of m h m,
       vec3_of m m h, vec3_of h m h, vec3_of h h h, vec3_of m h h])"

definition cube_triangles :: "(nat \<times> nat \<times> nat) list" where
  "cube_triangles =
     [(0, 1, 2), (0, 2, 3), (5, 4, 7), (5, 7, 6), (4, 0, 3), (4, 3, 7),
      (1, 5, 6), (1, 6, 2), (3, 2, 6), (3, 6, 7), (4, 5, 1), (4, 1, 0)]"

definition cube_face_colors :: "'f fpu \<Rightarrow> 'f vec3 list" where
  "cube_face_colors fp =
     [vec3_of (f_lit fp 90 100) (f_lit fp 20 100) (f_lit fp 20 100),
      vec3_of (f_lit fp 20 100) (f_lit fp 80 100) (f_lit fp 30 100),
      vec3_of (f_lit fp 25 100) (f_lit fp 45 100) (f_lit fp 95 100),
      vec3_of (f_lit fp 95 100) (f_lit fp 80 100) (f_lit fp 15 100),
      vec3_of (f_lit fp 85 100) (f_lit fp 30 100) (f_lit fp 85 100),
      vec3_of (f_lit fp 20 100) (f_lit fp 85 100) (f_lit fp 85 100)]"

definition GFXDEMO_CAMERA_DISTANCE :: "'f fpu \<Rightarrow> 'f" where
  "GFXDEMO_CAMERA_DISTANCE fp = f_lit fp 3 1"

definition project_vertex :: "'f fpu \<Rightarrow> 'f vec3 \<Rightarrow> 'f \<Rightarrow> u32 \<Rightarrow> u32 \<Rightarrow> 'f vec4" where
  "project_vertex fp vertex angle width height =
     (let sin_a = f_sin fp angle; cos_a = f_cos fp angle;
          sin_b = f_sin fp (f_mul fp angle (f_lit fp 7 10)); cos_b = f_cos fp (f_mul fp angle (f_lit fp 7 10));
          x1 = f_add fp (f_mul fp (v3_x vertex) cos_a) (f_mul fp (v3_z vertex) sin_a);
          z1 = f_add fp (f_mul fp (f_neg fp (v3_x vertex)) sin_a) (f_mul fp (v3_z vertex) cos_a);
          y2 = f_sub fp (f_mul fp (v3_y vertex) cos_b) (f_mul fp z1 sin_b);
          z2 = f_add fp (f_mul fp (v3_y vertex) sin_b) (f_mul fp z1 cos_b);
          view_z = f_add fp z2 (GFXDEMO_CAMERA_DISTANCE fp);
          scale = (if f_lt fp (f_lit fp 1 1000) view_z
                   then f_div fp (f_mul fp (f_lit fp 8 10) (f_of_uint fp height)) view_z else f_zero fp)
      in \<lparr>v4_x = f_add fp (f_mul fp (f_of_uint fp width) (f_lit fp 1 2)) (f_mul fp x1 scale),
          v4_y = f_sub fp (f_mul fp (f_of_uint fp height) (f_lit fp 1 2)) (f_mul fp y2 scale),
          v4_z = view_z, v4_w = view_z\<rparr>)"

text \<open>The fixed angle, and the angle after a number of steps of the animation.\<close>

definition GFXDEMO_STILL_ANGLE :: "'f fpu \<Rightarrow> 'f" where "GFXDEMO_STILL_ANGLE fp = f_lit fp 9 10"

primrec turn_angle :: "'f fpu \<Rightarrow> nat \<Rightarrow> 'f" where
  "turn_angle fp 0 = f_zero fp"
| "turn_angle fp (Suc n) = f_add fp (turn_angle fp n) (f_lit fp 5 100)"

definition angle_value :: "'f fpu \<Rightarrow> angle \<Rightarrow> 'f" where
  "angle_value fp a = (case a of Still \<Rightarrow> GFXDEMO_STILL_ANGLE fp | Turn n \<Rightarrow> turn_angle fp n)"

text \<open>The part of \<open>gfxdemo_draw_frame\<close> between clearing the buffers and presenting.\<close>

definition cube_triangle ::
  "'f fpu \<Rightarrow> 'f vec4 list \<Rightarrow> framebuffer \<Rightarrow> u32 \<Rightarrow> nat \<Rightarrow> memory \<Rightarrow> memory" where
  "cube_triangle fp projected framebuffer depth t mem =
     (let color = cube_face_colors fp ! (t div 2);
          (i, j, k) = cube_triangles ! t
      in gfx_rasterize_triangle fp (Some framebuffer) depth (projected ! i) (projected ! j) (projected ! k)
           color color color mem)"

definition cube_raster :: "'f fpu \<Rightarrow> raster" where
  "cube_raster fp angle framebuffer depth mem =
     (let projected = map (\<lambda>v. project_vertex fp v (angle_value fp angle) (fb_width framebuffer) (fb_height framebuffer))
            (cube_vertices fp)
      in fold (cube_triangle fp projected framebuffer depth) [0..<12] mem)"

section \<open>Frames\<close>

text \<open>A bridge whose buffers are in place, as preparing it leaves them.\<close>

definition demo_ready :: "'d bridge \<Rightarrow> bool" where
  "demo_ready b \<longleftrightarrow> bridge_ready b \<and> buffers_fit (bridge_framebuffer b) (bridge_depth b) \<and>
     fb_width (bridge_framebuffer b) = vm_width (bridge_mode b) \<and>
     fb_height (bridge_framebuffer b) = vm_height (bridge_mode b) \<and>
     mode_fits (fb_pixels (bridge_framebuffer b)) (bridge_mode b) \<and> known_depth (bridge_mode b)"

definition demo_area :: "'d bridge \<Rightarrow> u32 \<Rightarrow> bool" where
  "demo_area b a \<longleftrightarrow>
     in_range a (unat (fb_pixels (bridge_framebuffer b))) (buffer_size (bridge_framebuffer b)) \<or>
     in_range a (unat (bridge_depth b)) (buffer_size (bridge_framebuffer b)) \<or>
     in_range a (unat (vm_framebuffer (bridge_mode b))) (screen_size (bridge_mode b))"

lemma demo_ready_mem [simp]: "demo_ready (bridge_on_mem f b) = demo_ready b" "demo_area (bridge_on_mem f b) = demo_area b"
  by (simp_all add: demo_ready_def demo_area_def fun_eq_iff)

lemma cube_raster_inside:
  assumes "buffers_fit fb zbuf" "\<not> in_range a (unat (fb_pixels fb)) (buffer_size fb)"
    "\<not> in_range a (unat zbuf) (buffer_size fb)"
  shows "cube_raster fp angle fb zbuf m a = m a"
proof -
  have "cube_triangle fp ps fb zbuf t m a = m a" for ps t m
    by (cases "cube_triangles ! t") (simp add: cube_triangle_def Let_def triangle_inside [OF assms])
  then have "fold (cube_triangle fp ps fb zbuf) ts m a = m a" for ps ts
    by (induction ts arbitrary: m) simp_all
  then show ?thesis by (simp add: cube_raster_def Let_def)
qed

lemma count_le: "4 * unat (w * h :: u32) \<le> 4 * (unat w * unat h)"
  by (simp add: unat_word_ariths)

lemma fill_inside:
  assumes "unat p + 4 * (unat w * unat h) \<le> 2 ^ 32" "\<not> in_range a (unat p) (4 * (unat w * unat h))"
  shows "fill32 p v (unat (w * h :: u32)) m a = m a"
  using fill32_words [of p "unat (w * h)" v m] count_le [of w h] assms by (auto simp: in_range_def)

lemma fb_clear_inside:
  assumes "buffers_fit fb zbuf" "\<not> in_range a (unat (fb_pixels fb)) (buffer_size fb)"
  shows "gfx_fb_clear (Some fb) c m a = m a"
proof -
  have fit: "unat (fb_width fb) < 2 ^ 30" "unat (fb_pixels fb) + 4 * (unat (fb_width fb) * unat (fb_height fb)) \<le> 2 ^ 32"
    using assms(1) by (auto simp: buffers_fit_def buffer_size_def)
  from assms pitch_words [OF fit(1)] fill_inside [OF fit(2), of a] show ?thesis
    by (simp add: gfx_fb_clear_def buffers_fit_def buffer_size_def)
qed

lemma depth_clear_inside:
  assumes "buffers_fit (bridge_framebuffer b) (bridge_depth b)"
    "\<not> in_range a (unat (bridge_depth b)) (buffer_size (bridge_framebuffer b))"
  shows "bridge_mem (gfx_bridge_clear_depth b) a = bridge_mem b a"
  using assms fill_inside [of "bridge_depth b" "fb_width (bridge_framebuffer b)" "fb_height (bridge_framebuffer b)" a]
  by (simp add: gfx_bridge_clear_depth_def Let_def buffers_fit_def buffer_size_def)

lemma clear_depth_sel [simp]:
  "bridge_mode (gfx_bridge_clear_depth b) = bridge_mode b" "bridge_framebuffer (gfx_bridge_clear_depth b) = bridge_framebuffer b"
  "bridge_depth (gfx_bridge_clear_depth b) = bridge_depth b" "bridge_ready (gfx_bridge_clear_depth b) = bridge_ready b"
  "demo_ready (gfx_bridge_clear_depth b) = demo_ready b" "demo_area (gfx_bridge_clear_depth b) = demo_area b"
  by (simp_all add: gfx_bridge_clear_depth_def Let_def)

lemma present_sel [simp]:
  "bridge_mode (gfx_bridge_present b) = bridge_mode b" "demo_ready (gfx_bridge_present b) = demo_ready b"
  "demo_area (gfx_bridge_present b) = demo_area b"
  by (simp_all add: gfx_bridge_present_def)

lemma frame_effect:
  fixes fp :: "'f fpu" and angle :: angle
  assumes "demo_ready b"
  defines "b' \<equiv> gfxdemo_draw_frame (cube_raster fp) angle b"
  shows "demo_ready b'" "demo_area b' = demo_area b" "bridge_mode b' = bridge_mode b"
    "\<not> demo_area b a \<Longrightarrow> bridge_mem b' a = bridge_mem b a"
    "x < unat (vm_width (bridge_mode b)) \<Longrightarrow> y < unat (vm_height (bridge_mode b)) \<Longrightarrow>
      shown_pixel b' x y = screen_pixel (bridge_mode b) (back_pixel b' x y)"
proof -
  let ?fb = "bridge_framebuffer b" and ?z = "bridge_depth b"
  define b1 where "b1 = bridge_on_mem (cube_raster fp angle ?fb ?z)
    (gfx_bridge_clear_depth (bridge_on_mem (gfx_fb_clear (Some ?fb) 0x101830FF) b))"
  have r: "bridge_ready b" "buffers_fit ?fb ?z" "?z \<noteq> 0"
    using assms(1) by (auto simp: demo_ready_def buffers_fit_def)
  have b': "b' = gfx_bridge_present b1"
    using r by (simp add: b'_def b1_def gfxdemo_draw_frame_def gfx_bridge_framebuffer_def gfx_bridge_depth_buffer_def Let_def)
  have b1: "demo_ready b1" "demo_area b1 = demo_area b" "bridge_mode b1 = bridge_mode b" "bridge_framebuffer b1 = ?fb"
    using assms(1) by (simp_all add: b1_def)
  then show "demo_ready b'" "demo_area b' = demo_area b" "bridge_mode b' = bridge_mode b"
    by (simp_all add: b')
  have ok: "bridge_ready b1" "known_depth (bridge_mode b1)" "mode_fits (fb_pixels (bridge_framebuffer b1)) (bridge_mode b1)"
    using b1(1) by (simp_all add: demo_ready_def)
  note pr = present_shows [OF ok, folded b', unfolded b1(3)]
  show "shown_pixel b' x y = screen_pixel (bridge_mode b) (back_pixel b' x y)"
    if "x < unat (vm_width (bridge_mode b))" "y < unat (vm_height (bridge_mode b))"
    using pr [OF that] by simp
  assume a: "\<not> demo_area b a"
  have "unat (vm_width (bridge_mode b)) \<noteq> 0" "unat (vm_height (bridge_mode b)) \<noteq> 0"
    using assms(1) by (auto simp: demo_ready_def buffers_fit_def unat_eq_zero)
  with pr [of 0 0] a have "bridge_mem b' a = bridge_mem b1 a" by (simp add: demo_area_def)
  also have "\<dots> = bridge_mem (gfx_bridge_clear_depth (bridge_on_mem (gfx_fb_clear (Some ?fb) 0x101830FF) b)) a"
    using a r by (simp add: b1_def demo_area_def cube_raster_inside)
  also have "\<dots> = bridge_mem b a"
    using a r by (simp add: depth_clear_inside demo_area_def fb_clear_inside)
  finally show "bridge_mem b' a = bridge_mem b a" .
qed

text \<open>Preparing the bridge in a graphic mode of a known depth leaves it ready for frames.\<close>

lemma init_demo_ready:
  assumes "gfx_bridge_init b0 = (True, b)" "kalloc_inv (b_kalloc b0)" "kalloc_base (b_kalloc b0) \<noteq> 0"
    "graphic_mode (current_mode (b_video b0))" "back_size (current_mode (b_video b0)) < 2 ^ 32"
    "screen_apart (current_mode (b_video b0)) (b_kalloc b0)" "known_depth (current_mode (b_video b0))"
  shows "demo_ready b"
  using init_prepares [OF assms(2-6)] assms(1,7) by (auto simp: demo_ready_def)

text \<open>
  C19: The animation stays where it belongs: from a prepared bridge, any number of frames of the cube at
  any angles, computed with any floating-point arithmetic, changes no byte outside the back buffer, the
  depth buffer and the screen, and after a frame the screen shows the back buffer pixel by pixel.
\<close>

theorem demo_frames_contained:
  assumes "demo_ready b"
  shows "demo_ready (fold (gfxdemo_draw_frame (cube_raster fp)) angles b) \<and>
    (\<forall>a. \<not> demo_area b a \<longrightarrow> bridge_mem (fold (gfxdemo_draw_frame (cube_raster fp)) angles b) a = bridge_mem b a) \<and>
    (angles \<noteq> [] \<longrightarrow> (\<forall>x < unat (vm_width (bridge_mode b)). \<forall>y < unat (vm_height (bridge_mode b)).
       shown_pixel (fold (gfxdemo_draw_frame (cube_raster fp)) angles b) x y =
         screen_pixel (bridge_mode b) (back_pixel (fold (gfxdemo_draw_frame (cube_raster fp)) angles b) x y)))"
  using assms
proof (induction angles arbitrary: b)
  case (Cons angle angles)
  define b1 where "b1 = gfxdemo_draw_frame (cube_raster fp) angle b"
  note f = frame_effect [OF Cons.prems, where fp = fp and angle = angle, folded b1_def]
  note IH = Cons.IH [OF f(1), unfolded f(2,3)]
  have "fold (gfxdemo_draw_frame (cube_raster fp)) (angle # angles) b = fold (gfxdemo_draw_frame (cube_raster fp)) angles b1"
    by (simp add: b1_def)
  then show ?case using IH f(4,5) by (cases "angles = []") simp_all
qed simp

lemma demo_frames_contained_witness:
  "bridge_mem (fold (gfxdemo_draw_frame (cube_raster rat_fpu)) [Turn 0, Turn 1, Still] bridge_example) 0x500000 = 0x7F"
proof -
  have ready: "demo_ready bridge_example"
    by (simp add: demo_ready_def bridge_example_def buffers_fit_def buffer_size_def mode_example_def mode_fits_def
        back_size_def screen_size_def bytes_per_pixel_def known_depth_def)
  moreover have "\<not> demo_area bridge_example 0x500000"
    by (simp add: demo_area_def bridge_example_def buffer_size_def in_range_def mode_example_def screen_size_def)
  moreover have "bridge_mem bridge_example 0x500000 = 0x7F" by (simp add: bridge_mem_def bridge_example_def)
  ultimately show ?thesis
    using demo_frames_contained [OF ready, of rat_fpu "[Turn 0, Turn 1, Still]", THEN conjunct2, THEN conjunct1, rule_format, of "0x500000"]
    by (simp only: not_False_eq_True)
qed

end
