(* ===== verification/RasterExact.thy ===== *)
theory RasterExact
  imports RasterPixels
begin

text \<open>
  The rasteriser in exact arithmetic, on the rational instance of the floating-point unit: the
  rectangle that it visits cuts off no pixel of the triangle, and the top-left rule gives the pixels
  on a shared edge to exactly one of the two triangles. With rounding both can fail by the rounding
  error; the rules themselves are right.
\<close>

unbundle bit_operations_syntax

section \<open>The instance\<close>

lemma rat_fpu_simps [simp]:
  "f_add rat_fpu = (+)" "f_sub rat_fpu = (-)" "f_mul rat_fpu = (*)" "f_div rat_fpu = (/)"
  "f_neg rat_fpu = uminus" "f_lt rat_fpu = (<)" "f_le rat_fpu = (\<le>)" "f_eq rat_fpu = (=)"
  "f_lit rat_fpu p q = of_int p / of_int q" "f_of_int rat_fpu n = of_int (sint n)"
  "f_to_int rat_fpu a = word_of_int (rat_trunc a)" "f_to_u8 rat_fpu a = word_of_int (rat_trunc a)"
  "f_bits rat_fpu a = word_of_int (rat_trunc a)" "f_of_bits rat_fpu v = of_int (sint v)"
  by (simp_all add: rat_fpu_def)

lemma sint_of_small: "- (2 ^ 31) \<le> k \<Longrightarrow> k < 2 ^ 31 \<Longrightarrow> sint (word_of_int k :: u32) = k"
  by (simp add: sint_sbintrunc' signed_take_bit_int_eq_self)

lemma rat_minmax: "gfx_fminf rat_fpu a b = min a b" "gfx_fmaxf rat_fpu a b = max a b"
  by (auto simp: gfx_fminf_def gfx_fmaxf_def gfx_float_isnan_def min_def max_def)

definition coord_ok :: "rat \<Rightarrow> bool" where
  "coord_ok a \<longleftrightarrow> \<bar>a\<bar> < 2 ^ 30"

lemma trunc_is: "a < 0 \<Longrightarrow> rat_trunc a = \<lceil>a\<rceil>" "\<not> a < 0 \<Longrightarrow> rat_trunc a = \<lfloor>a\<rfloor>"
  by (simp_all add: rat_trunc_def ceiling_def)

lemma trunc_small: "coord_ok a \<Longrightarrow> - (2 ^ 30) \<le> rat_trunc a \<and> rat_trunc a \<le> 2 ^ 30"
  unfolding coord_ok_def by (cases "a < 0"; simp add: trunc_is; linarith)

lemma rat_floor_ceil:
  assumes "coord_ok a"
  shows "sint (gfx_floor_to_int rat_fpu a) = \<lfloor>a\<rfloor>" "sint (gfx_ceil_to_int rat_fpu a) = \<lceil>a\<rceil>"
proof -
  have t: "sint (word_of_int (rat_trunc a) :: u32) = rat_trunc a"
    using trunc_small [OF assms] by (intro sint_of_small) auto
  have m: "sint (word_of_int (rat_trunc a) - 1 :: u32) = rat_trunc a - 1"
    "sint (word_of_int (rat_trunc a) + 1 :: u32) = rat_trunc a + 1"
    using trunc_small [OF assms] sint_of_small [of "rat_trunc a - 1"] sint_of_small [of "rat_trunc a + 1"]
    by (simp_all add: wi_hom_syms)
  show "sint (gfx_floor_to_int rat_fpu a) = \<lfloor>a\<rfloor>"
    unfolding gfx_floor_to_int_def Let_def rat_fpu_simps t if_distrib [of sint] m
    by (cases "a < 0"; simp add: trunc_is; linarith)
  show "sint (gfx_ceil_to_int rat_fpu a) = \<lceil>a\<rceil>"
    unfolding gfx_ceil_to_int_def Let_def rat_fpu_simps t if_distrib [of sint] m
    by (cases "a < 0"; simp add: trunc_is; linarith)
qed

section \<open>The visited rectangle\<close>

lemma convex_bounds:
  fixes e0 e1 e2 p a b c :: rat
  assumes "0 \<le> e0" "0 \<le> e1" "0 \<le> e2" "0 < e0 + e1 + e2" "(e0 + e1 + e2) * p = e0 * a + e1 * b + e2 * c"
  shows "min (min a b) c \<le> p" "p \<le> max (max a b) c"
proof -
  let ?s = "e0 + e1 + e2" and ?lo = "min (min a b) c" and ?hi = "max (max a b) c"
  have "?s * ?lo = e0 * ?lo + e1 * ?lo + e2 * ?lo" by (simp add: algebra_simps)
  also have "\<dots> \<le> e0 * a + e1 * b + e2 * c"
    using assms(1-3) by (intro add_mono mult_left_mono) auto
  finally show "?lo \<le> p" using assms(4,5) by (metis mult_le_cancel_left_pos)
  have "e0 * a + e1 * b + e2 * c \<le> e0 * ?hi + e1 * ?hi + e2 * ?hi"
    using assms(1-3) by (intro add_mono mult_left_mono) auto
  also have "\<dots> = ?s * ?hi" by (simp add: algebra_simps)
  finally show "p \<le> ?hi" using assms(4,5) by (metis mult_le_cancel_left_pos)
qed

lemma edge_identity:
  fixes p0 p1 p2 p :: "rat vec4"
  defines "e0 \<equiv> gfx_edge2d rat_fpu p1 p2 p" and "e1 \<equiv> gfx_edge2d rat_fpu p2 p0 p" and "e2 \<equiv> gfx_edge2d rat_fpu p0 p1 p"
  shows "e0 + e1 + e2 = gfx_edge2d rat_fpu p0 p1 p2"
    "(e0 + e1 + e2) * v4_x p = e0 * v4_x p0 + e1 * v4_x p1 + e2 * v4_x p2"
    "(e0 + e1 + e2) * v4_y p = e0 * v4_y p0 + e1 * v4_y p1 + e2 * v4_y p2"
  by (simp_all add: assms gfx_edge2d_def algebra_simps)

definition vertices_ok :: "rat triangle \<Rightarrow> bool" where
  "vertices_ok t \<longleftrightarrow> (\<forall>p \<in> {t_p0 t, t_p1 t, t_p2 t}. coord_ok (v4_x p) \<and> coord_ok (v4_y p))"

lemma int_range_mem: "sint lo \<le> sint w \<Longrightarrow> sint w \<le> sint hi \<Longrightarrow> w \<in> set (int_range lo hi)"
  unfolding int_range_def by (auto intro!: image_eqI [where x = "sint w"])

lemma coord_minmax:
  "coord_ok a \<Longrightarrow> coord_ok b \<Longrightarrow> coord_ok (min a b)" "coord_ok a \<Longrightarrow> coord_ok b \<Longrightarrow> coord_ok (max a b)"
  by (simp_all add: min_def max_def)

text \<open>One axis: a pixel whose centre is between the extremes is inside the clamped range.\<close>

lemma axis_range:
  assumes "coord_ok lo" "coord_ok hi" "unat x < unat sz" "unat sz < 2 ^ 30"
    "lo \<le> of_int (sint x) + 1 / 2" "of_int (sint x) + 1 / 2 \<le> hi"
  defines "l \<equiv> gfx_floor_to_int rat_fpu lo" and "h \<equiv> gfx_ceil_to_int rat_fpu hi"
  shows "\<not> h <s 0" "\<not> sz \<le>s l"
    "x \<in> set (int_range (if l <s 0 then 0 else l) (if sz \<le>s h then sz - 1 else h))"
proof -
  have x: "sint x = int (unat x)" "sint sz = int (unat sz)"
    using assms(3,4) by (intro sint_small(1), simp)+
  have sz1: "sint (sz - 1) = int (unat sz) - 1"
  proof -
    have "sz \<noteq> 0" using assms(3) by auto
    then have "unat (sz - 1) = unat sz - 1" by (rule unat_minus_one)
    then show ?thesis using sint_small(1) [of "sz - 1"] assms(3,4) by simp
  qed
  have l: "sint l = \<lfloor>lo\<rfloor>" and h: "sint h = \<lceil>hi\<rceil>"
    using rat_floor_ceil assms(1,2) by (simp_all add: l_def h_def)
  have lx: "sint l \<le> sint x" unfolding l using assms(5) by linarith
  have hx: "sint x \<le> sint h" unfolding h using assms(6) by linarith
  have "0 \<le> sint h" "sint l < sint sz" using lx hx x assms(3) by linarith+
  then show "\<not> h <s 0" "\<not> sz \<le>s l" by (simp_all add: word_sless_alt word_sle_eq)
  show "x \<in> set (int_range (if l <s 0 then 0 else l) (if sz \<le>s h then sz - 1 else h))"
  proof (rule int_range_mem)
    have "0 \<le> sint x" "sint x \<le> sint (sz - 1)" using x sz1 assms(3) by linarith+
    then show "sint (if l <s 0 then 0 else l) \<le> sint x" "sint x \<le> sint (if sz \<le>s h then sz - 1 else h)"
      using lx hx by simp_all
  qed
qed

lemma covered_edges:
  assumes "pixel_covered rat_fpu t p"
  shows "0 \<le> gfx_edge2d rat_fpu (t_p1 t) (t_p2 t) p" "0 \<le> gfx_edge2d rat_fpu (t_p2 t) (t_p0 t) p"
    "0 \<le> gfx_edge2d rat_fpu (t_p0 t) (t_p1 t) p"
  using assms by (auto simp: pixel_covered_def Let_def not_less split: if_splits)

lemma normalise_area:
  assumes "raster_normalise rat_fpu p0 p1 p2 c0 c1 c2 = Some t"
  shows "0 < gfx_edge2d rat_fpu (t_p0 t) (t_p1 t) (t_p2 t)"
proof -
  have "gfx_edge2d rat_fpu p0 p2 p1 = - gfx_edge2d rat_fpu p0 p1 p2"
    by (simp add: gfx_edge2d_def algebra_simps)
  with assms show ?thesis
    by (auto simp: raster_normalise_def Let_def gfx_swap_vertex_def split: if_splits)
qed

lemma normalise_vertices:
  assumes "raster_normalise rat_fpu p0 p1 p2 c0 c1 c2 = Some t"
  shows "{t_p0 t, t_p1 t, t_p2 t} = {p0, p1, p2}"
  using assms by (auto simp: raster_normalise_def Let_def gfx_swap_vertex_def split: if_splits)

lemma covered_visited:
  assumes "0 < gfx_edge2d rat_fpu (t_p0 t) (t_p1 t) (t_p2 t)" "vertices_ok t"
    "unat y < unat h" "unat x < unat w" "unat w < 2 ^ 30" "unat h < 2 ^ 30"
    "pixel_covered rat_fpu t (pixel_centre rat_fpu x y)"
  shows "\<exists>minx maxx miny maxy. raster_bounds rat_fpu w h t = Some (minx, maxx, miny, maxy) \<and>
    y \<in> set (int_range miny maxy) \<and> x \<in> set (int_range minx maxx)"
proof -
  let ?c = "pixel_centre rat_fpu x y"
  have cx: "v4_x ?c = of_int (sint x) + 1 / 2" "v4_y ?c = of_int (sint y) + 1 / 2"
    by (simp_all add: pixel_centre_def)
  note e = covered_edges [OF assms(7)] and id = edge_identity [where p = ?c]
  have pos: "0 < gfx_edge2d rat_fpu (t_p1 t) (t_p2 t) ?c + gfx_edge2d rat_fpu (t_p2 t) (t_p0 t) ?c +
      gfx_edge2d rat_fpu (t_p0 t) (t_p1 t) ?c"
    unfolding id(1) by (rule assms(1))
  note bx = convex_bounds [OF e pos id(2), unfolded cx] and by' = convex_bounds [OF e pos id(3), unfolded cx]
  have ok: "coord_ok (v4_x (t_p0 t))" "coord_ok (v4_x (t_p1 t))" "coord_ok (v4_x (t_p2 t))"
    "coord_ok (v4_y (t_p0 t))" "coord_ok (v4_y (t_p1 t))" "coord_ok (v4_y (t_p2 t))"
    using assms(2) by (auto simp: vertices_ok_def)
  note X = axis_range [OF _ _ assms(4,5) bx] and Y = axis_range [OF _ _ assms(3,6) by']
  show ?thesis
    using X Y ok by (simp add: raster_bounds_def Let_def rat_minmax coord_minmax)
qed

section \<open>Results\<close>

text \<open>
  C21: In exact arithmetic the rasteriser draws exactly the covered pixels: for vertices whose
  coordinates fit the pixel grid's integers, every pixel of the screen, whether or not the loops visit
  it, ends up as the coverage rule, the depth test and the interpolation say. The rectangle that is
  visited never cuts off a covered pixel.
\<close>

theorem rasterizer_exact:
  assumes "buffers_fit fb zbuf" "in_screen fb y x"
    "\<forall>p \<in> {p0, p1, p2}. coord_ok (v4_x p) \<and> coord_ok (v4_y p)"
  shows "pixel_at fb zbuf (gfx_rasterize_triangle rat_fpu (Some fb) zbuf p0 p1 p2 c0 c1 c2 m) y x =
    (case raster_normalise rat_fpu p0 p1 p2 c0 c1 c2 of
       None \<Rightarrow> pixel_at fb zbuf m y x
     | Some t \<Rightarrow> pixel_result rat_fpu t (pixel_centre rat_fpu x y) (pixel_at fb zbuf m y x))"
proof (cases "raster_normalise rat_fpu p0 p1 p2 c0 c1 c2")
  case None
  then show ?thesis by (simp add: rasterize_fold [OF assms(1)])
next
  case (Some t)
  have "vertices_ok t" using assms(3) normalise_vertices [OF Some] by (simp add: vertices_ok_def)
  note cov = covered_visited [OF normalise_area [OF Some] this, of y "fb_height fb" x "fb_width fb"]
  have fit: "unat (fb_width fb) < 2 ^ 30" "unat (fb_height fb) < 2 ^ 30" "unat y < unat (fb_height fb)"
    "unat x < unat (fb_width fb)" using assms(1,2) by (auto simp: buffers_fit_def in_screen_def)
  have keep: "\<not> pixel_covered rat_fpu t p \<Longrightarrow> pixel_result rat_fpu t p old = old" for p old
    by (simp add: pixel_result_def)
  show ?thesis
  proof (cases "raster_bounds rat_fpu (fb_width fb) (fb_height fb) t")
    case None
    with cov fit have "\<not> pixel_covered rat_fpu t (pixel_centre rat_fpu x y)" by auto
    then show ?thesis by (simp add: rasterize_fold [OF assms(1)] Some None keep)
  next
    case bounds: (Some b)
    obtain minx maxx miny maxy where b: "b = (minx, maxx, miny, maxy)" by (metis prod_cases4)
    have "(y, x) \<notin> set (visited b) \<Longrightarrow> \<not> pixel_covered rat_fpu t (pixel_centre rat_fpu x y)"
      using cov fit bounds by (auto simp: visited_def b)
    then show ?thesis
      using triangle_pixels(2) [OF assms(1) bounds assms(2)] Some bounds keep
      by (auto simp: rasterize_fold [OF assms(1)])
  qed
qed

lemma floor_half: "\<lfloor>255 / 2 :: rat\<rfloor> = 127"
  by (simp add: floor_eq_iff)

lemma rasterizer_exact_witness:
  "pixel_at tiny_fb 0x300000 (gfx_rasterize_triangle rat_fpu (Some tiny_fb) 0x300000 (vec_at rat_fpu (-1) (-1))
     (vec_at rat_fpu 9 0) (vec_at rat_fpu 0 9) (grey rat_fpu) (grey rat_fpu) (grey rat_fpu) (\<lambda>a. 7)) 1 2 =
   (1, 0x7F7F7FFF)"
proof -
  have s: "in_screen tiny_fb 1 2" by (simp add: in_screen_def tiny_fb_def)
  have c: "\<forall>p \<in> {vec_at rat_fpu (-1) (-1), vec_at rat_fpu 9 0, vec_at rat_fpu 0 9}. coord_ok (v4_x p) \<and> coord_ok (v4_y p)"
    by (simp add: vec_at_def coord_ok_def)
  have old: "pixel_at tiny_fb 0x300000 (\<lambda>a. 7) 1 2 = (0x07070707, 0x07070707)"
    by (simp add: pixel_at_def mem_get32_def read_bytes_def get32_def get16_def upt_rec)
  have new: "(case raster_normalise rat_fpu (vec_at rat_fpu (-1) (-1)) (vec_at rat_fpu 9 0) (vec_at rat_fpu 0 9)
      (grey rat_fpu) (grey rat_fpu) (grey rat_fpu) of
       None \<Rightarrow> (0x07070707, 0x07070707)
     | Some t \<Rightarrow> pixel_result rat_fpu t (pixel_centre rat_fpu 2 1) (0x07070707, 0x07070707)) = (1, 0x7F7F7FFF)"
    by (simp add: raster_normalise_def Let_def gfx_edge2d_def vec_at_def grey_def pixel_result_def
        pixel_covered_def pixel_depth_def pixel_weights_def pixel_color_def pixel_centre_def vec3_to_rgba_def
        vec3_clamp_def rat_minmax rat_trunc_def floor_half)
  show ?thesis
    using rasterizer_exact [OF tiny_fits s c, of "grey rat_fpu" "grey rat_fpu" "grey rat_fpu" "\<lambda>a. 7"]
    unfolding old new .
qed

text \<open>
  Two triangles that share an edge never both draw a pixel, and leave no gap on it: in exact
  arithmetic, for two triangles wound alike on the two sides of the edge from \<open>a\<close> to \<open>b\<close>, no point is
  covered by both, and a point on the edge that is inside both other pairs of edges is covered by
  exactly one.
\<close>

theorem shared_edge_once:
  assumes "0 < gfx_edge2d rat_fpu a b c" "0 < gfx_edge2d rat_fpu b a d"
    "raster_normalise rat_fpu a b c ca cb cc = Some t" "raster_normalise rat_fpu b a d ca' cb' cc' = Some u"
  shows "\<not> (pixel_covered rat_fpu t p \<and> pixel_covered rat_fpu u p) \<and>
    (gfx_edge2d rat_fpu a b p = 0 \<and> 0 < gfx_edge2d rat_fpu b c p \<and> 0 < gfx_edge2d rat_fpu c a p \<and>
       0 < gfx_edge2d rat_fpu a d p \<and> 0 < gfx_edge2d rat_fpu d b p \<longrightarrow>
     pixel_covered rat_fpu t p \<noteq> pixel_covered rat_fpu u p)"
proof -
  have flip: "gfx_edge2d rat_fpu b a p = - gfx_edge2d rat_fpu a b p"
    by (simp add: gfx_edge2d_def algebra_simps)
  have t: "t_p0 t = a" "t_p1 t = b" "t_p2 t = c" using assms(1,3) by (auto simp: raster_normalise_def Let_def)
  have u: "t_p0 u = b" "t_p1 u = a" "t_p2 u = d" using assms(2,4) by (auto simp: raster_normalise_def Let_def)
  have ne: "v4_x a \<noteq> v4_x b \<or> v4_y a \<noteq> v4_y b" using assms(1) by (auto simp: gfx_edge2d_def)
  then have top_left: "gfx_edge_is_top_left rat_fpu a b \<noteq> gfx_edge_is_top_left rat_fpu b a"
    by (auto simp: gfx_edge_is_top_left_def)
  show ?thesis
    using top_left flip by (auto simp: pixel_covered_def t u Let_def split: if_splits)
qed

lemma shared_edge_once_witness:
  "\<exists>t u. raster_normalise rat_fpu (vec_at rat_fpu 0 0) (vec_at rat_fpu 4 4) (vec_at rat_fpu 0 4)
      (grey rat_fpu) (grey rat_fpu) (grey rat_fpu) = Some t \<and>
    raster_normalise rat_fpu (vec_at rat_fpu 4 4) (vec_at rat_fpu 0 0) (vec_at rat_fpu 4 0)
      (grey rat_fpu) (grey rat_fpu) (grey rat_fpu) = Some u \<and>
    pixel_covered rat_fpu t (pixel_centre rat_fpu 1 1) \<noteq> pixel_covered rat_fpu u (pixel_centre rat_fpu 1 1)"
proof -
  let ?a = "vec_at rat_fpu 0 0" and ?b = "vec_at rat_fpu 4 4" and ?c = "vec_at rat_fpu 0 4" and ?d = "vec_at rat_fpu 4 0"
  let ?p = "pixel_centre rat_fpu 1 1" and ?g = "grey rat_fpu"
  have e: "0 < gfx_edge2d rat_fpu ?a ?b ?c" "0 < gfx_edge2d rat_fpu ?b ?a ?d"
    "gfx_edge2d rat_fpu ?a ?b ?p = 0 \<and> 0 < gfx_edge2d rat_fpu ?b ?c ?p \<and> 0 < gfx_edge2d rat_fpu ?c ?a ?p \<and>
       0 < gfx_edge2d rat_fpu ?a ?d ?p \<and> 0 < gfx_edge2d rat_fpu ?d ?b ?p"
    by (simp_all add: gfx_edge2d_def vec_at_def pixel_centre_def)
  obtain t where t: "raster_normalise rat_fpu ?a ?b ?c ?g ?g ?g = Some t"
    using e(1) by (auto simp: raster_normalise_def Let_def)
  obtain u where u: "raster_normalise rat_fpu ?b ?a ?d ?g ?g ?g = Some u"
    using e(2) by (auto simp: raster_normalise_def Let_def)
  from shared_edge_once [OF e(1,2) t u, of ?p] e(3) t u show ?thesis by blast
qed

end
