(* ===== verification/ShellLoop.thy ===== *)
theory ShellLoop
  imports Shell
begin

text \<open>
  What the shell does with what is typed: the line editor against editing a list, the dispatch of a
  line against the words it consists of, and the echo command against the text it prints.
\<close>

section \<open>The line editor\<close>

definition shell_inv :: "('d, 'v) shell \<Rightarrow> bool" where
  "shell_inv s \<longleftrightarrow> length (cmd_buf s) = CMD_MAX_LEN \<and> cmd_len s < CMD_MAX_LEN"

definition cmd_line :: "('d, 'v) shell \<Rightarrow> u8 list" where
  "cmd_line s = take (cmd_len s) (cmd_buf s)"

text \<open>Editing a line: backspace removes the last character, others are added up to 63.\<close>

definition edit :: "u8 list \<Rightarrow> u8 \<Rightarrow> u8 list" where
  "edit line c = (if c = 8 then butlast line else if length line < 63 then line @ [c] else line)"

definition edit_echo :: "u8 list \<Rightarrow> u8 \<Rightarrow> u8 list" where
  "edit_echo line c = (if (if c = 8 then line \<noteq> [] else length line < 63) then [c] else [])"

fun edit_echoes :: "u8 list \<Rightarrow> u8 list \<Rightarrow> u8 list" where
  "edit_echoes line [] = []"
| "edit_echoes line (c # cs) = edit_echo line c @ edit_echoes (edit line c) cs"

lemma puts_append [simp]: "vga_puts hw (cs @ ds) con = vga_puts hw ds (vga_puts hw cs con)"
  by (simp add: vga_puts_def)

lemma puts_Nil [simp]: "vga_puts hw [] con = con"
  by (simp add: vga_puts_def)

lemma puts_single [simp]: "vga_puts hw [c] con = vga_putchar hw c con"
  by (simp add: vga_puts_def)

lemma length_cmd_line: "shell_inv s \<Longrightarrow> length (cmd_line s) = cmd_len s"
  by (simp add: shell_inv_def cmd_line_def)

lemma cmd_line_Nil: "shell_inv s \<Longrightarrow> cmd_line s = [] \<longleftrightarrow> cmd_len s = 0"
  using length_cmd_line by fastforce

text \<open>What a key other than Enter changes: the buffer, its length and the console.\<close>

lemma shell_key_edit:
  assumes inv: "shell_inv s" and c: "c \<noteq> 10"
  shows "\<exists>s'. shell_key hw video c s = Inr (Done s') \<and> shell_inv s' \<and>
    cmd_line s' = edit (cmd_line s) c \<and>
    sh_con s' = vga_puts hw (edit_echo (cmd_line s) c) (sh_con s) \<and>
    sh_kb s' = sh_kb s \<and> sh_mem s' = sh_mem s \<and> sh_ticks s' = sh_ticks s \<and> sh_video s' = sh_video s"
proof -
  note facts = shell_inv_def CMD_MAX_LEN_def
  consider (bs) "c = 8" "0 < cmd_len s" | (bs0) "c = 8" "cmd_len s = 0"
    | (put) "c \<noteq> 8" "cmd_len s < 63" | (full) "c \<noteq> 8" "\<not> cmd_len s < 63"
    by auto
  then show ?thesis
  proof cases
    case bs
    have "take (cmd_len s - 1) (cmd_buf s) = butlast (take (cmd_len s) (cmd_buf s))"
      using inv by (simp add: facts butlast_take)
    moreover have "cmd_len s - Suc 0 < 64" using inv by (simp add: facts less_imp_diff_less)
    ultimately show ?thesis using bs inv c cmd_line_Nil [OF inv]
      by (simp add: shell_key_def facts edit_def edit_echo_def cmd_line_def)
  next
    case bs0
    with inv c cmd_line_Nil [OF inv] show ?thesis
      by (simp add: shell_key_def edit_def edit_echo_def)
  next
    case put
    have "take (Suc (cmd_len s)) ((cmd_buf s)[cmd_len s := c]) = take (cmd_len s) (cmd_buf s) @ [c]"
      using inv put by (simp add: facts take_Suc_conv_app_nth)
    with put inv c length_cmd_line [OF inv] show ?thesis
      by (simp add: shell_key_def facts edit_def edit_echo_def cmd_line_def)
  next
    case full
    with inv c length_cmd_line [OF inv] show ?thesis
      by (simp add: shell_key_def edit_def edit_echo_def CMD_MAX_LEN_def)
  qed
qed

lemma shell_keys_edit:
  assumes "shell_inv s" "10 \<notin> set cs"
  shows "\<exists>s'. shell_keys hw video cs s = Inr (Done s') \<and> shell_inv s' \<and>
    cmd_line s' = foldl edit (cmd_line s) cs \<and>
    sh_con s' = vga_puts hw (edit_echoes (cmd_line s) cs) (sh_con s) \<and>
    sh_kb s' = sh_kb s \<and> sh_mem s' = sh_mem s \<and> sh_ticks s' = sh_ticks s \<and> sh_video s' = sh_video s"
  using assms
proof (induction cs arbitrary: s)
  case (Cons c cs)
  from Cons.prems shell_key_edit [of s c hw video] obtain s1 where
    "shell_key hw video c s = Inr (Done s1)" "shell_inv s1" "cmd_line s1 = edit (cmd_line s) c"
    "sh_con s1 = vga_puts hw (edit_echo (cmd_line s) c) (sh_con s)"
    "sh_kb s1 = sh_kb s \<and> sh_mem s1 = sh_mem s \<and> sh_ticks s1 = sh_ticks s \<and> sh_video s1 = sh_video s"
    by auto
  with Cons.IH [of s1] Cons.prems show ?case by simp
qed simp

section \<open>Comparing and searching\<close>

lemma bytes_no_nul: "list_all (\<lambda>c. of_char c \<noteq> (0 :: u8)) s \<Longrightarrow> 0 \<notin> set (bytes s)"
  by (induction s) (auto simp: bytes_def)

definition cmd_lookup :: "u8 list \<Rightarrow> builtin option" where
  "cmd_lookup w = map_of (map (\<lambda>(n, fn). (bytes n, fn)) cmd_table) w"

lemma cmd_search_eq:
  assumes "terminated p" "\<forall>(n, fn) \<in> set tab. 0 \<notin> set (bytes n)"
  shows "cmd_search p tab = Some (map_of (map (\<lambda>(n, fn). (bytes n, fn)) tab) (cstr p))"
  using assms(2)
proof (induction tab)
  case (Cons e tab)
  then show ?case by (cases e) (simp add: str_is_eq [OF assms(1)])
qed simp

lemma cmd_table_names: "\<forall>(n, fn) \<in> set cmd_table. 0 \<notin> set (bytes n)"
  by (simp add: cmd_table_def bytes_def)

lemma cmd_search_lookup: "terminated p \<Longrightarrow> cmd_search p cmd_table = Some (cmd_lookup (cstr p))"
  unfolding cmd_lookup_def by (rule cmd_search_eq [OF _ cmd_table_names])

section \<open>Echo\<close>

definition is_no_newline :: "u8 list \<Rightarrow> bool" where
  "is_no_newline w \<longleftrightarrow> w = bytes ''-n'' \<or> w = bytes ''--no-newline''"

definition is_help :: "u8 list \<Rightarrow> bool" where
  "is_help w \<longleftrightarrow> w = bytes ''-h'' \<or> w = bytes ''--help''"

fun join_words :: "u8 list list \<Rightarrow> u8 list" where
  "join_words [] = []"
| "join_words [w] = w"
| "join_words (w # v # ws) = w @ 32 # join_words (v # ws)"

text \<open>The text of an echo command, from its arguments.\<close>

definition echo_text :: "u8 list list \<Rightarrow> u8 list" where
  "echo_text ws =
     (let rest = dropWhile is_no_newline ws in
      if rest \<noteq> [] \<and> is_help (hd rest) then echo_help_text
      else join_words rest @ (if takeWhile is_no_newline ws = [] then [10] else []))"

lemma echo_options_eq:
  assumes "\<forall>a \<in> set args. terminated a"
  shows "echo_options args newline = Some
    (let rest = dropWhile (\<lambda>a. is_no_newline (cstr a)) args in
      if rest \<noteq> [] \<and> is_help (cstr (hd rest)) then EchoHelp
      else EchoText (newline \<and> takeWhile (\<lambda>a. is_no_newline (cstr a)) args = []) rest)"
  using assms
proof (induction args newline rule: echo_options.induct)
  case (2 a args newline)
  then have a: "terminated a" by simp
  have s: "str_is a ''-n'' = Some (cstr a = bytes ''-n'')"
    "str_is a ''--no-newline'' = Some (cstr a = bytes ''--no-newline'')"
    "str_is a ''-h'' = Some (cstr a = bytes ''-h'')"
    "str_is a ''--help'' = Some (cstr a = bytes ''--help'')"
    by (rule str_is_eq [OF a], simp add: bytes_def)+
  show ?case
  proof (cases "is_no_newline (cstr a)")
    case True
    then have "echo_options (a # args) newline = echo_options args False"
      using s by (auto simp: is_no_newline_def)
    also have "\<dots> = Some
      (let rest = dropWhile (\<lambda>a. is_no_newline (cstr a)) args in
        if rest \<noteq> [] \<and> is_help (cstr (hd rest)) then EchoHelp else EchoText False rest)"
      using 2 s True by (cases "cstr a = bytes ''-n''") (auto simp: is_no_newline_def Let_def)
    finally show ?thesis unfolding dropWhile.simps takeWhile.simps using True
      by (simp only: if_True list.simps simp_thms)
  next
    case False
    then have "echo_options (a # args) newline =
        Some (if is_help (cstr a) then EchoHelp else EchoText newline (a # args))"
      using s by (auto simp: is_no_newline_def is_help_def)
    with False show ?thesis by (simp del: echo_options.simps)
  qed
qed simp

lemma sh_puts_con [simp]: "sh_con (sh_puts hw cs s) = vga_puts hw cs (sh_con s)"
  by (simp add: sh_puts_def)

lemma sh_puts_puts [simp]: "sh_puts hw ds (sh_puts hw cs s) = sh_puts hw (cs @ ds) s"
  by (simp add: sh_puts_def)

lemma sh_putchar: "s\<lparr>sh_con := vga_putchar hw c (sh_con s)\<rparr> = sh_puts hw [c] s"
  by (simp add: sh_puts_def)

lemma sh_puts_Nil [simp]: "sh_puts hw [] s = s"
  by (simp add: sh_puts_def)

lemma echo_args_eq: "echo_args hw args s = sh_puts hw (join_words (map cstr args)) s"
  by (induction hw args s rule: echo_args.induct)
     (simp_all only: echo_args.simps sh_putchar Let_def sh_puts_puts list.map join_words.simps
        sh_puts_Nil append_assoc append_Cons append_Nil)

lemma echo_eq:
  assumes "\<forall>a \<in> set argv. terminated a"
  shows "echo hw argv s = Inr (sh_puts hw (echo_text (map cstr (tl argv))) s)"
proof -
  let ?P = "\<lambda>a. is_no_newline (cstr a)"
  let ?rest = "dropWhile ?P (tl argv)"
  have "\<forall>a \<in> set (tl argv). terminated a" using assms by (cases argv) auto
  note opts = echo_options_eq [OF this, of True]
  have rest: "dropWhile is_no_newline (map cstr (tl argv)) = map cstr ?rest"
    and none: "takeWhile is_no_newline (map cstr (tl argv)) = [] \<longleftrightarrow> takeWhile ?P (tl argv) = []"
    by (simp_all add: dropWhile_map takeWhile_map comp_def)
  show ?thesis
  proof (cases "?rest \<noteq> [] \<and> is_help (cstr (hd ?rest))")
    case True
    then show ?thesis by (simp add: echo_def opts echo_text_def rest hd_map)
  next
    case False
    then have "echo_text (map cstr (tl argv)) =
        join_words (map cstr ?rest) @ (if takeWhile ?P (tl argv) = [] then [10] else [])"
      unfolding echo_text_def rest none by (cases ?rest) simp_all
    moreover have "echo_options (tl argv) True = Some (EchoText (takeWhile ?P (tl argv) = []) ?rest)"
      unfolding opts Let_def using False by (simp only: if_False simp_thms)
    ultimately show ?thesis by (simp add: echo_def echo_args_eq sh_putchar)
  qed
qed

section \<open>A line is executed\<close>

lemma shell_keys_append:
  "shell_keys hw video cs s = Inr (Done s1) \<Longrightarrow>
     shell_keys hw video (cs @ ds) s = shell_keys hw video ds s1"
proof (induction cs arbitrary: s)
  case (Cons c cs)
  from Cons.prems obtain s' where "shell_key hw video c s = Inr (Done s')"
      "shell_keys hw video cs s' = Inr (Done s1)"
    by (auto simp: bind_sum_def split: sum.splits outcome.splits)
  with Cons.IH show ?case by simp
qed simp

lemma unknown_command:
  "sh_printf hw (bytes ''Comando desconhecido: %s'' @ [10]) [VStr (Some w)] s =
     Inr (sh_puts hw (bytes ''Comando desconhecido: '' @ w @ [10]) s)"
  by (simp add: sh_printf_def vga_printf_def sh_puts_def bytes_def fmt_head_def is_digit_def
      fmt_switch_def va_str_def)

lemma execute_line:
  assumes inv: "shell_inv s" and nul: "0 \<notin> set (cmd_line s)"
  shows "\<exists>buf argv. length buf = CMD_MAX_LEN \<and> (\<forall>a \<in> set argv. terminated a) \<and>
    map cstr argv = take 16 (words (cmd_line s)) \<and>
    execute_cmd hw video s =
      (case words (cmd_line s) of
         [] \<Rightarrow> Inr (Done (s\<lparr>cmd_buf := buf\<rparr>))
       | w # _ \<Rightarrow>
           (case cmd_lookup w of
              Some fn \<Rightarrow> run_builtin hw video fn argv (s\<lparr>cmd_buf := buf\<rparr>)
            | None \<Rightarrow> Inr (Done (sh_puts hw (bytes ''Comando desconhecido: '' @ w @ [10])
                (s\<lparr>cmd_buf := buf\<rparr>)))))"
proof -
  let ?rest = "drop (Suc (cmd_len s)) (cmd_buf s)"
  have buf0: "(cmd_buf s)[cmd_len s := 0] = cmd_line s @ 0 # ?rest"
    using inv by (simp add: shell_inv_def cmd_line_def upd_conv_take_nth_drop)
  show ?thesis
  proof (cases "cmd_len s = 0")
    case True
    with inv show ?thesis
      by (intro exI [of _ "(cmd_buf s)[0 := 0]"] exI [of _ "[]"])
        (simp add: execute_cmd_def cmd_line_def shell_inv_def)
  next
    case False
    from tokenize_loop_line [OF nul, of "[]" ?rest "[]"]
    obtain buf starts where tok: "tokenize (cmd_line s @ 0 # ?rest) = Some (buf, starts)"
      and len: "length buf = length (cmd_line s @ 0 # ?rest)"
      and strs: "map (str_at buf) starts = take 16 (words (cmd_line s))"
      and ends: "\<forall>q \<in> set starts. terminated (drop q buf)"
      by (auto simp: tokenize_def)
    let ?argv = "map (\<lambda>p. drop p buf) starts" and ?s = "s\<lparr>cmd_buf := buf\<rparr>"
    have lenb: "length buf = CMD_MAX_LEN"
      using len inv by (simp add: shell_inv_def cmd_line_def CMD_MAX_LEN_def)
    have cstrs: "map cstr ?argv = take 16 (words (cmd_line s))"
      using strs by (simp add: comp_def str_at_def [abs_def])
    have exec: "execute_cmd hw video s = (if starts = [] then Inr (Done ?s) else
        (case cmd_search (hd ?argv) cmd_table of
           None \<Rightarrow> Inl ShOverrun
         | Some (Some fn) \<Rightarrow> run_builtin hw video fn ?argv ?s
         | Some None \<Rightarrow> map_sum id Done (sh_printf hw (bytes ''Comando desconhecido: %s'' @ [10])
             [VStr (Some (cstr (hd ?argv)))] ?s)))"
      using False tok by (simp add: execute_cmd_def Let_def buf0)
    have "execute_cmd hw video s =
      (case words (cmd_line s) of
         [] \<Rightarrow> Inr (Done ?s)
       | w # _ \<Rightarrow>
           (case cmd_lookup w of
              Some fn \<Rightarrow> run_builtin hw video fn ?argv ?s
            | None \<Rightarrow> Inr (Done (sh_puts hw (bytes ''Comando desconhecido: '' @ w @ [10]) ?s))))"
    proof (cases "words (cmd_line s)")
      case Nil
      with cstrs show ?thesis by (simp add: exec)
    next
      case (Cons w ws)
      then obtain q qs where starts: "starts = q # qs" and w: "cstr (drop q buf) = w"
        using cstrs by (cases starts) auto
      then have "cmd_search (hd ?argv) cmd_table = Some (cmd_lookup w)"
        using ends cmd_search_lookup [of "drop q buf"] by simp
      with Cons starts w show ?thesis
        by (cases "cmd_lookup w") (simp_all add: exec unknown_command)
    qed
    with lenb cstrs ends show ?thesis by (intro exI [of _ buf] exI [of _ ?argv]) simp
  qed
qed

lemma lookup_echo: "cmd_lookup (bytes ''echo'') = Some Echo"
  by (simp add: cmd_lookup_def cmd_table_def bytes_def)

section \<open>What the shell promises\<close>

text \<open>
  C16: The line editor: characters other than Enter, typed in any order and number, edit the line
  as a list (backspace drops the last character, others are kept up to 63), never overrun the
  64-byte buffer, and put on the console exactly the characters that changed the line.
\<close>

theorem shell_line_editing:
  assumes "shell_inv s" "10 \<notin> set cs"
  shows "\<exists>s'. shell_keys hw video cs s = Inr (Done s') \<and> shell_inv s' \<and>
    cmd_line s' = foldl edit (cmd_line s) cs \<and>
    sh_con s' = vga_puts hw (edit_echoes (cmd_line s) cs) (sh_con s)"
  using shell_keys_edit [OF assms] by blast

abbreviation ready_hw :: "port_log hw" where "ready_hw \<equiv> rec_hw (\<lambda>p. 0x20)"
abbreviation no_video :: "(port_log, unit) video_cmd" where "no_video \<equiv> (\<lambda>b args s. Inr (Done s))"

definition blank_shell :: "(port_log, unit) shell" where
  "blank_shell = \<lparr>sh_con = cold_console,
     sh_kb = \<lparr>kb_buffer = replicate 128 0, kb_head = 0, kb_tail = 0, kb_shift = False, kb_altgr = False,
       kb_caps = False, kb_ext = False, kb_map = Tab_us, kb_map_shift = Tab_shift_us, kb_map_altgr = Tab_altgr_us\<rparr>,
     sh_mem = (\<lambda>a. 0), sh_ticks = 0, cmd_buf = replicate 64 0, cmd_len = 0, sh_video = ()\<rparr>"

lemma blank_shell_facts:
  "shell_inv blank_shell" "cmd_line blank_shell = []" "cmd_len blank_shell = 0"
  "sh_con blank_shell = cold_console"
  by (simp_all add: blank_shell_def shell_inv_def cmd_line_def CMD_MAX_LEN_def)

lemma shell_line_editing_witness:
  "\<exists>s'. shell_keys ready_hw no_video [109, 101, 110, 8, 109] blank_shell = Inr (Done s')
     \<and> cmd_line s' = bytes ''mem''"
proof -
  have "foldl edit [] [109, 101, 110, 8, 109] = bytes ''mem''"
    by (simp add: edit_def bytes_def)
  then show ?thesis
    using shell_line_editing [OF blank_shell_facts(1), of "[109, 101, 110, 8, 109]"
        ready_hw no_video]
    by (auto simp: blank_shell_facts)
qed

text \<open>
  C15: Enter runs the line: the first word of the line, blanks at either end ignored, selects the
  builtin of that name, which is called with the first sixteen words as its arguments; a blank line
  does nothing and an unknown name is reported.
\<close>

theorem shell_dispatches_line:
  assumes "shell_inv s" "0 \<notin> set (cmd_line s)"
  shows "\<exists>buf argv. length buf = CMD_MAX_LEN \<and> (\<forall>a \<in> set argv. terminated a) \<and>
    map cstr argv = take 16 (words (cmd_line s)) \<and>
    execute_cmd hw video s =
      (case words (cmd_line s) of
         [] \<Rightarrow> Inr (Done (s\<lparr>cmd_buf := buf\<rparr>))
       | w # _ \<Rightarrow>
           (case cmd_lookup w of
              Some fn \<Rightarrow> run_builtin hw video fn argv (s\<lparr>cmd_buf := buf\<rparr>)
            | None \<Rightarrow> Inr (Done (sh_puts hw (bytes ''Comando desconhecido: '' @ w @ [10])
                (s\<lparr>cmd_buf := buf\<rparr>)))))"
  using assms by (rule execute_line)

lemma shell_dispatches_line_witness:
  "\<exists>buf. execute_cmd ready_hw no_video (blank_shell\<lparr>cmd_buf := 32 # 111 # 105 # replicate 61 0, cmd_len := 3\<rparr>) =
     Inr (Done (sh_puts ready_hw (bytes ''Comando desconhecido: '' @ [111, 105] @ [10])
       (blank_shell\<lparr>cmd_len := 3, cmd_buf := buf\<rparr>)))"
proof -
  define s where "s = blank_shell\<lparr>cmd_buf := 32 # 111 # 105 # replicate 61 0, cmd_len := 3\<rparr>"
  have inv: "shell_inv s" and line: "cmd_line s = [32, 111, 105]"
    by (simp_all add: s_def shell_inv_def cmd_line_def CMD_MAX_LEN_def)
  have words: "words [32, 111, 105] = [[111, 105]]"
    using words_split [of "[32, 111, 105]" "[111, 105]" "[]"] by simp
  have unknown: "cmd_lookup [111, 105] = None" by (simp add: cmd_lookup_def cmd_table_def bytes_def)
  have nul: "0 \<notin> set (cmd_line s)" by (simp add: line)
  from shell_dispatches_line [OF inv nul, of ready_hw no_video] obtain buf where
    "execute_cmd ready_hw no_video s = Inr (Done (sh_puts ready_hw (bytes ''Comando desconhecido: '' @ [111, 105] @ [10])
       (s\<lparr>cmd_buf := buf\<rparr>)))"
    unfolding line words by (auto simp only: list.case option.case unknown)
  then show ?thesis unfolding s_def by (intro exI [of _ buf]) simp
qed

text \<open>
  C14: A whole interaction: at an empty prompt, characters are typed that edit to a line whose
  first word is \<open>echo\<close>, and then Enter. The console gets the characters as they were typed, the
  newline, the text of the command (its arguments up to the fifteenth joined by single spaces,
  options handled) and then the next prompt, with the line empty again.
\<close>

theorem shell_echo_session:
  assumes "shell_inv s" "cmd_len s = 0" "10 \<notin> set cs" "0 \<notin> set (foldl edit [] cs)"
    "words (foldl edit [] cs) = bytes ''echo'' # args"
  shows "\<exists>buf. shell_keys hw video (cs @ [10]) s = Inr (Done (shell_after_cmd hw
      (sh_puts hw (edit_echoes [] cs @ [10] @ echo_text (take 15 args))
        (s\<lparr>cmd_buf := buf, cmd_len := length (foldl edit [] cs)\<rparr>))))"
proof -
  have nil: "cmd_line s = []" using assms(1,2) cmd_line_Nil by blast
  from shell_keys_edit [OF assms(1,3), of hw video] obtain s1 where
    s1: "shell_keys hw video cs s = Inr (Done s1)" "shell_inv s1" "cmd_line s1 = foldl edit [] cs"
      "sh_con s1 = vga_puts hw (edit_echoes [] cs) (sh_con s)"
      "sh_kb s1 = sh_kb s" "sh_mem s1 = sh_mem s" "sh_ticks s1 = sh_ticks s" "sh_video s1 = sh_video s"
    unfolding nil by blast
  let ?s2 = "s1\<lparr>sh_con := vga_putchar hw 10 (sh_con s1)\<rparr>"
  have line2: "cmd_line ?s2 = foldl edit [] cs" and inv2: "shell_inv ?s2"
    using s1(2,3) by (simp_all add: cmd_line_def shell_inv_def)
  have nul2: "0 \<notin> set (cmd_line ?s2)" unfolding line2 by (rule assms(4))
  obtain buf argv where argv: "\<forall>a \<in> set argv. terminated a"
      "map cstr argv = take 16 (bytes ''echo'' # args)"
    and exec: "execute_cmd hw video ?s2 = run_builtin hw video Echo argv (?s2\<lparr>cmd_buf := buf\<rparr>)"
    using execute_line [OF inv2 nul2, of hw video] unfolding line2 assms(5) list.case lookup_echo option.case
    by blast
  have "map cstr (tl argv) = take 15 args" using argv(2) by (simp add: map_tl)
  then have "execute_cmd hw video ?s2 =
      Inr (Done (sh_puts hw (echo_text (take 15 args)) (?s2\<lparr>cmd_buf := buf\<rparr>)))"
    using argv(1) by (simp add: exec echo_eq)
  moreover have "sh_puts hw (echo_text (take 15 args)) (?s2\<lparr>cmd_buf := buf\<rparr>) =
      sh_puts hw (edit_echoes [] cs @ [10] @ echo_text (take 15 args))
        (s\<lparr>cmd_buf := buf, cmd_len := length (foldl edit [] cs)\<rparr>)"
    using s1(3-8) length_cmd_line [OF s1(2)]
    by (intro shell.equality) (simp_all add: sh_puts_def vga_puts_def)
  moreover have "shell_keys hw video (cs @ [10]) s = shell_keys hw video [10] s1"
    by (rule shell_keys_append [OF s1(1)])
  ultimately show ?thesis
    by (intro exI [of _ buf]) (simp add: shell_key_def)
qed

lemma shell_echo_session_witness:
  "\<exists>buf. shell_keys ready_hw no_video ([101, 99, 104, 111, 32, 32, 111, 106, 8, 105] @ [10]) blank_shell =
     Inr (Done (shell_after_cmd ready_hw
      (sh_puts ready_hw ([101, 99, 104, 111, 32, 32, 111, 106, 8, 105] @ [10] @ echo_text [[111, 105]])
        (blank_shell\<lparr>cmd_buf := buf, cmd_len := 8\<rparr>))))
   \<and> echo_text [[111, 105]] = bytes ''oi'' @ [10]"
proof -
  let ?cs = "[101, 99, 104, 111, 32, 32, 111, 106, 8, 105] :: u8 list"
  have line: "foldl edit [] ?cs = [101, 99, 104, 111, 32, 32, 111, 105]"
    and echoed: "edit_echoes [] ?cs = ?cs"
    by (simp_all add: edit_def edit_echo_def)
  have "words [32, 32, 111, 105] = [[111, 105]]"
    using words_split [of "[32, 32, 111, 105]" "[111, 105]" "[]"] by simp
  then have words: "words (foldl edit [] ?cs) = bytes ''echo'' # [[111, 105]]"
    unfolding line
    using words_split [of "[101, 99, 104, 111, 32, 32, 111, 105]" "[101, 99, 104, 111]" "[32, 32, 111, 105]"]
    by (simp add: bytes_def)
  have "echo_text [[111, 105]] = bytes ''oi'' @ [10]"
    by (simp add: echo_text_def is_no_newline_def is_help_def bytes_def)
  moreover have "length (foldl edit [] ?cs) = 8" unfolding line by simp
  moreover have "take 15 [[111, 105 :: u8]] = [[111, 105]]" by simp
  moreover have "10 \<notin> set ?cs" by simp
  moreover have "0 \<notin> set (foldl edit [] ?cs)" unfolding line by simp
  ultimately show ?thesis
    using shell_echo_session [OF blank_shell_facts(1,3) _ _ words, of ready_hw no_video]
    unfolding echoed by (simp only: simp_thms)
qed

end
