(* ===== verification/VideoCommands.thy ===== *)
theory VideoCommands
  imports CmdVideo GfxPresent
begin

text \<open>
  What the graphical commands promise: the grammar of mode specifications, the summary of the screen,
  and the end of the demo.
\<close>

unbundle bit_operations_syntax

section \<open>Numbers in mode specifications\<close>

definition digits :: "u8 list \<Rightarrow> bool" where
  "digits ds \<longleftrightarrow> ds \<noteq> [] \<and> list_all is_digit ds"

definition numeral_of :: "u8 list \<Rightarrow> u32" where
  "numeral_of ds = of_nat (digits_value 10 ds)"

lemma is_digit_unat: "is_digit c \<longleftrightarrow> 48 \<le> unat c \<and> unat c \<le> 57"
proof -
  have "list_all (\<lambda>c. is_digit c \<longleftrightarrow> 48 \<le> unat c \<and> unat c \<le> 57) all_bytes" by code_simp
  from all_u8 [OF this] show ?thesis .
qed

lemma digit_step:
  assumes "is_digit c"
  shows "(of_nat n :: u32) * 10 + (ucast c - 48) = of_nat (n * 10 + digit_value c)"
proof -
  from assms have c: "48 \<le> unat c" "unat c \<le> 57" by (simp_all add: is_digit_unat)
  then have "digit_value c = unat c - 48" by (simp add: digit_value_def word_less_nat_alt)
  moreover have "(ucast c - 48 :: u32) = of_nat (unat c - 48)"
    using c(1) by (simp add: of_nat_diff)
  ultimately show ?thesis by simp
qed

lemma parse_uint_loop_digits:
  "list_all is_digit ds \<Longrightarrow> \<not> is_digit c \<Longrightarrow>
     parse_uint_loop (ds @ c # rest) (of_nat n) any =
       Some (any \<or> ds \<noteq> [], of_nat (fold (\<lambda>d n. n * 10 + digit_value d) ds n), c # rest)"
proof (induction ds arbitrary: n any)
  case (Cons d ds)
  then have "parse_uint_loop ((d # ds) @ c # rest) (of_nat n) any =
      parse_uint_loop (ds @ c # rest) (of_nat (n * 10 + digit_value d)) True"
    by (simp add: digit_step del: of_nat_add of_nat_mult)
  then show ?case using Cons by (simp del: parse_uint_loop.simps of_nat_add of_nat_mult)
qed simp

lemma parse_uint_digits:
  "list_all is_digit ds \<Longrightarrow> \<not> is_digit c \<Longrightarrow>
     parse_uint (ds @ c # rest) = Some (ds \<noteq> [], numeral_of ds, c # rest)"
  using parse_uint_loop_digits [of ds c rest 0 False]
  by (simp add: parse_uint_def numeral_of_def digits_value_def)

text \<open>Any text is a run of digits and a remainder that does not start with one.\<close>

definition run :: "u8 list \<Rightarrow> u8 list" where "run txt = takeWhile is_digit txt"
definition rest :: "u8 list \<Rightarrow> u8 list" where "rest txt = dropWhile is_digit txt"

lemma not_digit: "\<not> is_digit 0" "\<not> is_digit 120"
  by (simp_all add: is_digit_unat)

lemma run_rest: "txt = run txt @ rest txt" "list_all is_digit (run txt)" "rest txt = c # cs \<Longrightarrow> \<not> is_digit c"
proof -
  show "txt = run txt @ rest txt" by (simp add: run_def rest_def)
  show "list_all is_digit (run txt)" by (auto simp: run_def list_all_iff dest: set_takeWhileD)
  show "rest txt = c # cs \<Longrightarrow> \<not> is_digit c"
    unfolding rest_def by (metis hd_dropWhile list.sel(1) list.simps(3))
qed

lemma run_rest_of:
  "list_all is_digit ds \<Longrightarrow> \<not> is_digit c \<Longrightarrow> run (ds @ c # cs) = ds \<and> rest (ds @ c # cs) = c # cs"
  "list_all is_digit ds \<Longrightarrow> run ds = ds \<and> rest ds = []"
  by (auto simp: run_def rest_def list_all_iff takeWhile_append dropWhile_append takeWhile_eq_all_conv)

lemma parse_uint_text:
  "parse_uint (txt @ 0 # junk) = Some (run txt \<noteq> [], numeral_of (run txt), rest txt @ 0 # junk)"
proof (cases "rest txt")
  case Nil
  with run_rest(1,2) [of "txt"] parse_uint_digits [of "run txt" 0 junk] not_digit show ?thesis by simp
next
  case (Cons c cs)
  have "txt @ 0 # junk = run txt @ c # (cs @ 0 # junk)"
    using run_rest(1) [of "txt"] Cons by (metis append_Cons append_assoc)
  with run_rest(2,3) [of "txt"] Cons parse_uint_digits [of "run txt" c "cs @ 0 # junk"] show ?thesis
    by (simp only:) simp
qed

lemma spec_forms:
  "(\<exists>ds es. digits ds \<and> digits es \<and> txt = ds @ 120 # es \<and> w = numeral_of ds \<and> h = numeral_of es) \<longleftrightarrow>
     run txt \<noteq> [] \<and> (\<exists>cs. rest txt = 120 # cs \<and> run cs \<noteq> [] \<and> rest cs = [] \<and>
       w = numeral_of (run txt) \<and> h = numeral_of (run cs))" (is "?a \<longleftrightarrow> ?b")
proof
  assume ?a
  then show ?b by (auto simp: digits_def run_rest_of not_digit)
next
  assume b: ?b
  then obtain cs where cs: "rest txt = 120 # cs" "run cs \<noteq> []" "rest cs = []"
    "w = numeral_of (run txt)" "h = numeral_of (run cs)" by blast
  with run_rest(1) [of "txt"] run_rest(1) [of cs] have "txt = run txt @ 120 # run cs" by simp
  with b cs run_rest(2) [of "txt"] run_rest(2) [of cs] show ?a unfolding digits_def by blast
qed

lemma spec_forms3:
  "(\<exists>ds es fs. digits ds \<and> digits es \<and> digits fs \<and> txt = ds @ 120 # es @ 120 # fs \<and>
       w = numeral_of ds \<and> h = numeral_of es \<and> b = numeral_of fs) \<longleftrightarrow>
     run txt \<noteq> [] \<and> (\<exists>cs ds. rest txt = 120 # cs \<and> run cs \<noteq> [] \<and> rest cs = 120 # ds \<and> run ds \<noteq> [] \<and>
       rest ds = [] \<and> w = numeral_of (run txt) \<and> h = numeral_of (run cs) \<and> b = numeral_of (run ds))"
  (is "?a \<longleftrightarrow> ?b")
proof
  assume ?a
  then show ?b by (auto simp: digits_def run_rest_of not_digit)
next
  assume b: ?b
  then obtain cs ds where cs: "rest txt = 120 # cs" "run cs \<noteq> []" "rest cs = 120 # ds" "run ds \<noteq> []" "rest ds = []"
    "w = numeral_of (run txt)" "h = numeral_of (run cs)" "b = numeral_of (run ds)" by blast
  with run_rest(1) [of "txt"] run_rest(1) [of cs] run_rest(1) [of ds]
  have "txt = run txt @ 120 # run cs @ 120 # run ds" by simp
  with b cs run_rest(2) [of "txt"] run_rest(2) [of cs] run_rest(2) [of ds] show ?a unfolding digits_def by blast
qed

lemma parse_spec_text:
  assumes "0 \<notin> set txt"
  shows "parse_mode_spec (txt @ 0 # junk) = Some
    (if txt = bytes ''vga13'' then Some (0, 0, 8)
     else if run txt = [] then None
     else case rest txt of [] \<Rightarrow> None | c # cs \<Rightarrow>
       if c \<noteq> 120 \<or> run cs = [] then None
       else case rest cs of [] \<Rightarrow> Some (numeral_of (run txt), numeral_of (run cs), 32) | d # ds \<Rightarrow>
         if d \<noteq> 120 \<or> run ds = [] \<or> rest ds \<noteq> [] then None
         else Some (numeral_of (run txt), numeral_of (run cs), numeral_of (run ds)))"
proof -
  have cs: "cstr (txt @ 0 # junk) = txt" using assms
    unfolding cstr_def by (subst takeWhile_append2) auto
  have str: "str_is (txt @ 0 # junk) ''vga13'' = Some (txt = bytes ''vga13'')"
    using str_is_eq [of "txt @ 0 # junk" "''vga13''"] cs by (simp add: terminated_def bytes_def)
  have nz: "c \<in> set txt' \<Longrightarrow> set txt' \<subseteq> set txt \<Longrightarrow> c \<noteq> 0" for c txt' using assms by auto
  have sub: "rest txt = c # cs \<Longrightarrow> set (c # cs) \<subseteq> set txt" for c cs "txt"
    by (metis rest_def set_dropWhileD subsetI)
  show ?thesis
  proof (cases "rest txt")
    case Nil
    then show ?thesis by (simp add: parse_mode_spec_def str parse_uint_text)
  next
    case (Cons c cs)
    note sc = sub [OF Cons]
    show ?thesis
    proof (cases "rest cs")
      case Nil
      with Cons show ?thesis by (simp add: parse_mode_spec_def str parse_uint_text)
    next
      case Cons2: (Cons d ds)
      have "d \<noteq> 0" using sub [OF Cons2] sc assms by auto
      moreover have "hd (rest ds @ 0 # junk) = 0 \<longleftrightarrow> rest ds = []"
      proof (cases "rest ds")
        case Cons3: (Cons e es)
        then show ?thesis using sub [OF Cons3] sub [OF Cons2] sc assms by auto
      qed simp
      ultimately show ?thesis using Cons Cons2 by (simp add: parse_mode_spec_def str parse_uint_text)
    qed
  qed
qed

text \<open>
  A mode specification is accepted exactly when it is \<open>vga13\<close>, two decimal numbers joined by an
  \<open>x\<close>, or three; the numbers are read modulo 2 to the 32, the depth defaults to 32 bits, and \<open>vga13\<close>
  is reported as width and height 0. The text is never read past its terminator.
\<close>

theorem mode_spec_grammar:
  assumes "0 \<notin> set txt"
  shows "\<exists>r. parse_mode_spec (txt @ 0 # junk) = Some r \<and>
    (\<forall>w h b. r = Some (w, h, b) \<longleftrightarrow>
       txt = bytes ''vga13'' \<and> (w, h, b) = (0, 0, 8) \<or>
       (\<exists>ds es. digits ds \<and> digits es \<and> txt = ds @ 120 # es \<and> w = numeral_of ds \<and> h = numeral_of es) \<and> b = 32 \<or>
       (\<exists>ds es fs. digits ds \<and> digits es \<and> digits fs \<and> txt = ds @ 120 # es @ 120 # fs \<and>
          w = numeral_of ds \<and> h = numeral_of es \<and> b = numeral_of fs))"
proof -
  have v: "run (bytes ''vga13'') = []" by (simp add: run_def bytes_def is_digit_unat)
  show ?thesis
    unfolding parse_spec_text [OF assms] spec_forms spec_forms3
    by (rule exI, rule conjI, rule refl) (auto simp: v split: list.splits if_splits)
qed


lemma mode_spec_grammar_witness: "parse_mode_spec (bytes ''640x480x24'' @ [0]) = Some (Some (640, 480, 24))"
proof -
  have d: "digits (bytes ''640'')" "digits (bytes ''480'')" "digits (bytes ''24'')"
    by (simp_all add: digits_def bytes_def is_digit_unat)
  have n: "numeral_of (bytes ''640'') = 640" "numeral_of (bytes ''480'') = 480" "numeral_of (bytes ''24'') = 24"
    by (simp_all add: numeral_of_def digits_value_def bytes_def digit_value_def)
  have "0 \<notin> set (bytes ''640x480x24'')" by (simp add: bytes_def)
  from mode_spec_grammar [OF this, of "[]"] show ?thesis
  proof (elim exE conjE)
    fix r
    assume r: "parse_mode_spec (bytes ''640x480x24'' @ 0 # []) = Some r"
      and g: "\<forall>w h b. r = Some (w, h, b) \<longleftrightarrow>
        bytes ''640x480x24'' = bytes ''vga13'' \<and> (w, h, b) = (0, 0, 8) \<or>
        (\<exists>ds es. digits ds \<and> digits es \<and> bytes ''640x480x24'' = ds @ 120 # es \<and> w = numeral_of ds \<and>
           h = numeral_of es) \<and> b = 32 \<or>
        (\<exists>ds es fs. digits ds \<and> digits es \<and> digits fs \<and> bytes ''640x480x24'' = ds @ 120 # es @ 120 # fs \<and>
           w = numeral_of ds \<and> h = numeral_of es \<and> b = numeral_of fs)"
    have "r = Some (numeral_of (bytes ''640''), numeral_of (bytes ''480''), numeral_of (bytes ''24''))"
      by (rule g [THEN spec, THEN spec, THEN spec, THEN iffD2, OF disjI2, OF disjI2],
          intro exI conjI, rule d(1), rule d(2), rule d(3)) (simp_all add: bytes_def)
    with r n show ?thesis by simp
  qed
qed

section \<open>Printing a size and reading it back\<close>

lemma digit_loop_digits: "digit_loop n v 10 = Some ds \<Longrightarrow> list_all is_digit ds"
proof (induction n arbitrary: v ds)
  case (Suc n)
  define d where "d = v mod 10"
  have d: "unat d < 10" by (simp add: d_def unat_mod)
  then have "digit_char d = 48 + ucast d" by (simp add: digit_char_def word_less_nat_alt)
  moreover have "unat (ucast d :: u8) = unat d"
    using d by (simp add: unsigned_ucast_eq take_bit_nat_eq_self)
  ultimately have "unat (digit_char d) = 48 + unat d" using d by (simp add: unat_word_ariths)
  then have "is_digit (digit_char (v mod 10))" using d by (simp add: is_digit_unat d_def)
  with Suc show ?case by (auto split: if_splits)
qed (auto split: if_splits)

lemma print_decimal: "\<exists>ds. print_uint w 10 0 pad = Inr ds \<and> digits ds \<and> numeral_of ds = w"
proof -
  obtain ds where ds: "(if w = 0 then Some [48] else digit_loop 12 w 10) = Some ds"
    "lsb_value (unat (10 :: u32)) ds = unat w" "ds \<noteq> []"
    using print_digits [of 10 w] by auto
  have "list_all is_digit ds"
    using ds(1) digit_loop_digits by (auto simp: is_digit_unat split: if_splits)
  with ds have "digits (rev ds)" by (simp add: digits_def list_all_iff)
  moreover have "numeral_of (rev ds) = w" using ds(2) by (simp add: numeral_of_def digits_value_rev)
  moreover have "print_uint w 10 0 pad = Inr (rev ds)" using ds(1) by (simp add: print_uint_def)
  ultimately show ?thesis by blast
qed

text \<open>
  A size as the console prints it, width and height with an \<open>x\<close> between them, is read back as
  the same width and height, for all 32-bit sizes, with the default depth.
\<close>

theorem mode_spec_roundtrip:
  "\<exists>ds es. print_uint w 10 0 pad = Inr ds \<and> print_uint h 10 0 pad = Inr es \<and>
     parse_mode_spec (ds @ 120 # es @ 0 # junk) = Some (Some (w, h, 32))"
proof -
  obtain ds es where ds: "print_uint w 10 0 pad = Inr ds" "digits ds" "numeral_of ds = w"
    and es: "print_uint h 10 0 pad = Inr es" "digits es" "numeral_of es = h"
    using print_decimal by metis
  have z: "0 \<notin> set (ds @ 120 # es)"
    using ds(2) es(2) not_digit(1) by (auto simp: digits_def list_all_iff)
  have "ds @ 120 # es \<noteq> bytes ''vga13''"
  proof -
    obtain d ds' where "ds = d # ds'" "is_digit d" using ds(2) by (cases ds) (auto simp: digits_def)
    then show ?thesis by (auto simp: bytes_def is_digit_unat)
  qed
  moreover have "run (ds @ 120 # es) = ds" "rest (ds @ 120 # es) = 120 # es" "run es = es" "rest es = []"
    using ds(2) es(2) by (auto simp: digits_def run_rest_of not_digit)
  ultimately have "parse_mode_spec ((ds @ 120 # es) @ 0 # junk) = Some (Some (w, h, 32))"
    using ds es by (simp only: parse_spec_text [OF z]) (simp add: digits_def)
  with ds(1) es(1) show ?thesis by auto
qed


section \<open>The summary of the screen\<close>

text \<open>The pixels of the screen, row by row.\<close>

definition screen_pixels :: "memory \<Rightarrow> video_mode_info \<Rightarrow> u32 list" where
  "screen_pixels mem mode =
     map (\<lambda>(y, x). read_hardware_pixel mem (vm_framebuffer mode + of_nat y * vm_pitch mode) (of_nat x) (vm_bpp mode))
       (cells mode)"

text \<open>The colours seen so far, of which the list keeps the first sixteen.\<close>

definition seen_ok :: "u32 list \<Rightarrow> u32 set \<Rightarrow> bool" where
  "seen_ok seen V \<longleftrightarrow> distinct seen \<and> set seen \<subseteq> V \<and> length seen \<le> 16 \<and> (length seen < 16 \<longrightarrow> set seen = V)"

lemma report_fold:
  "seen_ok seen V \<Longrightarrow> \<exists>seen'. fold (report_pixel bg) ps (c, seen) =
     (c + of_nat (length (filter (\<lambda>p. p \<noteq> bg) ps)), seen') \<and> seen_ok seen' (V \<union> (set ps - {bg}))"
proof (induction ps arbitrary: c seen V)
  case (Cons p ps)
  show ?case
  proof (cases "p = bg")
    case True
    then show ?thesis using Cons.IH [OF Cons.prems, of c] by (simp add: report_pixel_def)
  next
    case False
    let ?seen = "if p \<notin> set seen \<and> length seen < 16 then seen @ [p] else seen"
    have "seen_ok ?seen (insert p V)" using Cons.prems by (auto simp: seen_ok_def)
    from Cons.IH [OF this, of "c + 1"] False show ?thesis
      by (simp add: report_pixel_def Un_insert_left insert_Diff_if algebra_simps split del: if_split)
  qed
qed simp

lemma seen_ok_length: "seen_ok seen V \<Longrightarrow> finite V \<Longrightarrow> length seen = min 16 (card V)"
proof -
  assume ok: "seen_ok seen V" and fin: "finite V"
  then have card: "card (set seen) = length seen" by (simp add: seen_ok_def distinct_card)
  moreover have "card (set seen) \<le> card V" using ok fin by (intro card_mono) (simp_all add: seen_ok_def)
  ultimately show ?thesis using ok by (cases "length seen < 16") (auto simp: seen_ok_def)
qed

text \<open>
  The summary that the demo prints: the background is the first pixel, the covered count is the
  number of pixels on the screen that differ from it, and the number of colours is how many
  different values they have, up to sixteen.
\<close>

theorem gfxdemo_summary_counts:
  "gfxdemo_summary mem mode =
     (let background = read_hardware_pixel mem (vm_framebuffer mode) 0 (vm_bpp mode); ps = screen_pixels mem mode
      in (background, of_nat (length (filter (\<lambda>p. p \<noteq> background) ps)), min 16 (card (set ps - {background}))))"
proof -
  let ?bg = "read_hardware_pixel mem (vm_framebuffer mode) 0 (vm_bpp mode)"
  let ?px = "\<lambda>(y, x). read_hardware_pixel mem (vm_framebuffer mode + of_nat y * vm_pitch mode) (of_nat x) (vm_bpp mode)"
  have row: "report_row mem mode ?bg = (\<lambda>y. fold (\<lambda>x. report_pixel ?bg (?px (y, x))) [0..<unat (vm_width mode)])"
    by (intro ext) (simp add: report_row_def)
  have "fold (report_row mem mode ?bg) [0..<unat (vm_height mode)] = fold (\<lambda>(y, x). report_pixel ?bg (?px (y, x))) (cells mode)"
    unfolding row fold_nested cells_def ..
  also have "\<dots> = fold (report_pixel ?bg) (screen_pixels mem mode)"
    by (simp add: screen_pixels_def fold_map comp_def split_def)
  finally have f: "fold (report_row mem mode ?bg) [0..<unat (vm_height mode)] =
      fold (report_pixel ?bg) (screen_pixels mem mode)" .
  have "seen_ok [] {}" by (simp add: seen_ok_def)
  from report_fold [OF this, of ?bg "screen_pixels mem mode" 0] obtain seen where
    seen: "fold (report_pixel ?bg) (screen_pixels mem mode) (0, []) =
      (of_nat (length (filter (\<lambda>p. p \<noteq> ?bg) (screen_pixels mem mode))), seen)"
    "seen_ok seen (set (screen_pixels mem mode) - {?bg})"
    by auto
  with seen_ok_length [OF seen(2)] show ?thesis
    by (simp add: gfxdemo_summary_def Let_def f)
qed

section \<open>The end of the demo\<close>

lemma key_waiting_kb: "gc_kb (snd (key_waiting hw s)) = gc_kb s"
  by (simp add: key_waiting_def split: prod.split)

text \<open>
  The animation ends: once the scancodes delivered during some of its frames have put a
  character in the keyboard buffer, the loop stops, whatever the drawing does and whatever state the
  serial line is in.
\<close>

theorem gfxdemo_ends_on_key:
  assumes "n \<le> length keys" "keyboard_has_data (fold keyboard_scancode (concat (take n keys)) (gc_kb s))"
  shows "\<exists>s'. gfxdemo_loop hw draw keys k s = Some s'"
  using assms
proof (induction keys arbitrary: n k s)
  case Nil
  then have "key_waiting hw s = (True, s)" by (simp add: key_waiting_def)
  then show ?case by simp
next
  case (Cons key keys)
  obtain w s1 where w: "key_waiting hw s = (w, s1)" by (cases "key_waiting hw s")
  then have kb: "gc_kb s1 = gc_kb s" using key_waiting_kb [of hw s] by simp
  show ?case
  proof (cases w)
    case True
    with w show ?thesis by simp
  next
    case False
    then have "\<not> keyboard_has_data (gc_kb s)" using w by (auto simp: key_waiting_def)
    with Cons.prems obtain m where n: "n = Suc m" by (cases n) auto
    let ?s = "s1\<lparr>gc_bridge := gfxdemo_draw_frame draw (Turn k) (gc_bridge s1),
        gc_kb := fold keyboard_scancode key (gc_kb s1)\<rparr>"
    have "keyboard_has_data (fold keyboard_scancode (concat (take m keys)) (gc_kb ?s))"
      using Cons.prems(2) n kb by simp
    with Cons.IH [of m ?s "k + 1"] Cons.prems(1) n w False show ?thesis by simp
  qed
qed

definition gfx_cmd_example :: "port_log gfx_cmd" where
  "gfx_cmd_example = \<lparr>gc_con = cold_console,
     gc_kb = keyboard_init \<lparr>kb_buffer = replicate 128 0, kb_head = 0, kb_tail = 0, kb_shift = False,
       kb_altgr = False, kb_caps = False, kb_ext = False, kb_map = Tab_us, kb_map_shift = Tab_us,
       kb_map_altgr = Tab_us\<rparr>,
     gc_bridge = bridge_example\<rparr>"

lemma gfxdemo_ends_on_key_witness:
  "\<exists>s'. gfxdemo_loop (rec_hw (\<lambda>p. 0)) (\<lambda>angle fb depth mem. mem) [[], [0x2A], [0x1E, 0x9E], []] 0 gfx_cmd_example = Some s'"
proof -
  have "keyboard_has_data (fold keyboard_scancode (concat (take 3 [[], [0x2A], [0x1E, 0x9E], []])) (gc_kb gfx_cmd_example))"
    by (simp add: gfx_cmd_example_def keyboard_init_def keyboard_set_layout_def keyboard_scancode_def
        kb_push_def keyboard_has_data_def KB_BUFFER_SIZE_def scancode_to_ascii_shift_abnt2_def bytes_def Let_def)
  from gfxdemo_ends_on_key [OF _ this] show ?thesis by simp
qed

end
