(* ===== verification/ShellVideo.thy ===== *)
theory ShellVideo
  imports ShellLoop VideoCommands
begin

text \<open>
  The shell with its graphical commands: the parameter of the shell's dispatch is instantiated with
  the commands of kernel/cmd_video.c, which share the console, the keyboard buffer and the memory of
  the shell.
\<close>

section \<open>Sharing the state\<close>

definition gfx_of_shell :: "('d, 'd bridge) shell \<Rightarrow> 'd gfx_cmd" where
  "gfx_of_shell s = \<lparr>gc_con = sh_con s, gc_kb = sh_kb s, gc_bridge = bridge_on_mem (\<lambda>_. sh_mem s) (sh_video s)\<rparr>"

definition shell_of_gfx :: "('d, 'd bridge) shell \<Rightarrow> 'd gfx_cmd \<Rightarrow> ('d, 'd bridge) shell" where
  "shell_of_gfx s g =
     s\<lparr>sh_con := gc_con g, sh_kb := gc_kb g, sh_mem := bridge_mem (gc_bridge g), sh_video := gc_bridge g\<rparr>"

text \<open>The two graphical commands; the shell ignores the value that a command returns.\<close>

definition shell_video :: "'d hw \<Rightarrow> 'd bios_int \<Rightarrow> raster \<Rightarrow> u8 list list \<Rightarrow> ('d, 'd bridge) video_cmd" where
  "shell_video hw bios draw keys b argv s =
     (if b = Cmd_video_mode
      then bind_sum (cmd_video_mode hw bios argv (gfx_of_shell s)) (\<lambda>(r, g). Inr (Done (shell_of_gfx s g)))
      else bind_sum (cmd_video_gfxdemo hw bios draw keys argv (gfx_of_shell s)) (\<lambda>res.
        case res of None \<Rightarrow> Inl ShRunning | Some (r, g) \<Rightarrow> Inr (Done (shell_of_gfx s g))))"

section \<open>A session\<close>

lemma lookup_mode: "cmd_lookup (bytes ''mode'') = Some Cmd_video_mode"
  by (simp add: cmd_lookup_def cmd_table_def bytes_def)

lemma terminated_split: "terminated s \<Longrightarrow> \<exists>junk. s = cstr s @ 0 # junk"
proof (induction s)
  case (Cons c s)
  then show ?case by (cases "c = 0") auto
qed simp

lemma apply_size:
  assumes "terminated arg" "cstr arg = ds @ 120 # es" "digits ds" "digits es" "numeral_of ds \<noteq> 0"
  shows "apply_mode hw bios arg s =
    Some (with_bridge (with_video (video_set_vbe bios (numeral_of ds) (numeral_of es) 32)) s)"
proof -
  have z: "0 \<notin> set (ds @ 120 # es)"
    using assms(3,4) not_digit(1) by (auto simp: digits_def list_all_iff)
  obtain d ds' where d: "ds = d # ds'" "is_digit d" using assms(3) by (cases ds) (auto simp: digits_def)
  then have nt: "ds @ 120 # es \<noteq> bytes ''text''" "ds @ 120 # es \<noteq> bytes ''vga13''"
    by (auto simp: bytes_def is_digit_unat)
  obtain junk where "arg = (ds @ 120 # es) @ 0 # junk"
    using assms(1,2) terminated_split by metis
  moreover have "run (ds @ 120 # es) = ds" "rest (ds @ 120 # es) = 120 # es" "run es = es" "rest es = []"
    using assms(3,4) by (auto simp: digits_def run_rest_of not_digit)
  ultimately have "parse_mode_spec arg = Some (Some (numeral_of ds, numeral_of es, 32))"
    using assms(3,4) nt by (simp only: parse_spec_text [OF z]) (simp add: digits_def)
  moreover have "str_is arg ''text'' = Some False"
    using str_is_eq [OF assms(1), of "''text''"] assms(2) nt by (simp add: bytes_def)
  ultimately show ?thesis using assms(5) by (simp add: apply_mode_def)
qed

lemma mode_size:
  assumes "terminated arg" "cstr arg = ds @ 120 # es" "digits ds" "digits es" "numeral_of ds \<noteq> 0"
    "with_bridge (with_video (video_set_vbe bios (numeral_of ds) (numeral_of es) 32)) s = (ok, g)"
  shows "cmd_video_mode hw bios [cmd, arg] s =
    bind_sum (if ok then print_current_mode hw g
       else gc_printf hw (bytes ''mode: nao foi possivel ativar '' @ [39] @ bytes ''%s'' @ [39, 10])
         [VStr (Some (ds @ 120 # es))] g)
      (\<lambda>g. Inr (if ok then 0 else 1, g))"
  using apply_size [OF assms(1-5), of hw bios s] assms(2,6)
  by (cases ok) (simp_all add: cmd_video_mode_def)

text \<open>
  C17: Typing \<open>mode\<close> with a size at the prompt, in any way that the line editor allows: the command asks
  for a VBE mode of exactly that size with 32 bits per pixel, then shows the mode in use or the
  message that it could not be activated, and the prompt comes back.
\<close>

theorem shell_mode_session:
  assumes "shell_inv s" "cmd_len s = 0" "10 \<notin> set cs" "0 \<notin> set (foldl edit [] cs)"
    "words (foldl edit [] cs) = [bytes ''mode'', ds @ 120 # es]" "digits ds" "digits es" "numeral_of ds \<noteq> 0"
  shows "\<exists>buf ok g. let s2 = s\<lparr>sh_con := vga_puts hw (edit_echoes [] cs @ [10]) (sh_con s), cmd_buf := buf,
        cmd_len := length (foldl edit [] cs)\<rparr> in
    with_bridge (with_video (video_set_vbe bios (numeral_of ds) (numeral_of es) 32)) (gfx_of_shell s2) = (ok, g) \<and>
    shell_keys hw (shell_video hw bios draw keys) (cs @ [10]) s =
      bind_sum (if ok then print_current_mode hw g
         else gc_printf hw (bytes ''mode: nao foi possivel ativar '' @ [39] @ bytes ''%s'' @ [39, 10])
           [VStr (Some (ds @ 120 # es))] g)
        (\<lambda>g. Inr (Done (shell_after_cmd hw (shell_of_gfx s2 g))))"
proof -
  let ?video = "shell_video hw bios draw keys"
  have nil: "cmd_line s = []" using assms(1,2) cmd_line_Nil by blast
  from shell_keys_edit [OF assms(1,3), of hw ?video] obtain s1 where
    s1: "shell_keys hw ?video cs s = Inr (Done s1)" "shell_inv s1" "cmd_line s1 = foldl edit [] cs"
      "sh_con s1 = vga_puts hw (edit_echoes [] cs) (sh_con s)"
      "sh_kb s1 = sh_kb s" "sh_mem s1 = sh_mem s" "sh_ticks s1 = sh_ticks s" "sh_video s1 = sh_video s"
    unfolding nil by blast
  let ?s2 = "s1\<lparr>sh_con := vga_putchar hw 10 (sh_con s1)\<rparr>"
  have line2: "cmd_line ?s2 = foldl edit [] cs" and inv2: "shell_inv ?s2"
    using s1(2,3) by (simp_all add: cmd_line_def shell_inv_def)
  have nul2: "0 \<notin> set (cmd_line ?s2)" unfolding line2 by (rule assms(4))
  obtain buf argv where argv: "\<forall>a \<in> set argv. terminated a"
      "map cstr argv = take 16 [bytes ''mode'', ds @ 120 # es]"
    and exec: "execute_cmd hw ?video ?s2 = run_builtin hw ?video Cmd_video_mode argv (?s2\<lparr>cmd_buf := buf\<rparr>)"
    using execute_line [OF inv2 nul2, of hw ?video] unfolding line2 assms(5) list.case lookup_mode option.case
    by blast
  obtain cmd arg where a: "argv = [cmd, arg]" "terminated arg" "cstr arg = ds @ 120 # es"
    using argv by (cases argv; cases "tl argv") auto
  define s2 where "s2 = s\<lparr>sh_con := vga_puts hw (edit_echoes [] cs @ [10]) (sh_con s), cmd_buf := buf,
      cmd_len := length (foldl edit [] cs)\<rparr>"
  have s2: "?s2\<lparr>cmd_buf := buf\<rparr> = s2"
    using s1(3-8) length_cmd_line [OF s1(2)]
    by (intro shell.equality) (simp_all add: s2_def vga_puts_def)
  obtain ok g where g: "with_bridge (with_video (video_set_vbe bios (numeral_of ds) (numeral_of es) 32))
      (gfx_of_shell s2) = (ok, g)"
    by (cases "with_bridge (with_video (video_set_vbe bios (numeral_of ds) (numeral_of es) 32)) (gfx_of_shell s2)")
  let ?print = "if ok then print_current_mode hw g
      else gc_printf hw (bytes ''mode: nao foi possivel ativar '' @ [39] @ bytes ''%s'' @ [39, 10])
        [VStr (Some (ds @ 120 # es))] g"
  have run: "execute_cmd hw ?video ?s2 = bind_sum ?print (\<lambda>g. Inr (Done (shell_of_gfx s2 g)))"
    unfolding exec s2 a(1) run_builtin.simps shell_video_def mode_size [OF a(2,3) assms(6-8) g]
    by (cases ?print) simp_all
  have "shell_keys hw ?video (cs @ [10]) s = shell_keys hw ?video [10] s1"
    by (rule shell_keys_append [OF s1(1)])
  also have "\<dots> = bind_sum ?print (\<lambda>g. Inr (Done (shell_after_cmd hw (shell_of_gfx s2 g))))"
    by (cases ?print) (simp_all add: shell_key_def run)
  finally show ?thesis using g unfolding s2_def Let_def by blast
qed

definition mode_shell :: "(port_log, port_log bridge) shell" where
  "mode_shell = \<lparr>sh_con = cold_console, sh_kb = sh_kb blank_shell, sh_mem = (\<lambda>a. 0), sh_ticks = 0,
     cmd_buf = replicate 64 0, cmd_len = 0,
     sh_video = bridge_example\<lparr>b_video := (b_video bridge_example)\<lparr>vbe_available := False\<rparr>\<rparr>\<rparr>"

lemma shell_mode_session_witness:
  "\<exists>s'. shell_keys ready_hw (shell_video ready_hw (\<lambda>v r rm. (False, r, rm)) (\<lambda>angle fb depth mem. mem) [])
     ([109, 111, 100, 101, 32, 54, 52, 120, 52, 56] @ [10]) mode_shell = Inr (Done s')"
proof -
  let ?cs = "[109, 111, 100, 101, 32, 54, 52, 120, 52, 56] :: u8 list"
  let ?bios = "\<lambda>v r rm. (False, r, rm) :: bool \<times> realmode_regs \<times> port_log realmode"
  have line: "foldl edit [] ?cs = ?cs" by (simp add: edit_def)
  have "words [32, 54, 52, 120, 52, 56] = [[54, 52, 120, 52, 56]]"
    using words_split [of "[32, 54, 52, 120, 52, 56]" "[54, 52, 120, 52, 56]" "[]"] by simp
  then have words: "words (foldl edit [] ?cs) = [bytes ''mode'', [54, 52] @ 120 # [52, 56]]"
    unfolding line
    using words_split [of ?cs "[109, 111, 100, 101]" "[32, 54, 52, 120, 52, 56]"] by (simp add: bytes_def)
  have inv: "shell_inv mode_shell" "cmd_len mode_shell = 0" "10 \<notin> set ?cs" "0 \<notin> set (foldl edit [] ?cs)"
    unfolding line by (simp_all add: mode_shell_def shell_inv_def CMD_MAX_LEN_def)
  have d: "digits [54, 52]" "digits [52, 56]" "numeral_of [54, 52] \<noteq> 0"
    by (simp_all add: digits_def is_digit_unat numeral_of_def digits_value_def digit_value_def)
  have bad: "with_bridge (with_video (video_set_vbe ?bios w h 32)) (gfx_of_shell s) = (ok, g) \<Longrightarrow> \<not> ok"
    if "sh_video s = sh_video mode_shell" for w h s ok g
    using that by (auto simp: with_bridge_def with_video_def video_set_vbe_def gfx_of_shell_def mode_shell_def
        bridge_on_mem_def bridge_dev_def bridge_example_def Let_def)
  have msg: "\<exists>g'. gc_printf ready_hw (bytes ''mode: nao foi possivel ativar '' @ [39] @ bytes ''%s'' @ [39, 10])
      [VStr (Some ([54, 52] @ 120 # [52, 56]))] g = Inr g'" for g :: "port_log gfx_cmd"
    by (simp add: gc_printf_def vga_printf_def bytes_def fmt_head_def is_digit_unat fmt_switch_def va_str_def
        map_sum_def split: sum.split)
  from shell_mode_session [OF inv words d, of ready_hw ?bios "\<lambda>angle fb depth mem. mem" "[]"]
  obtain buf ok g where
    g: "with_bridge (with_video (video_set_vbe ?bios (numeral_of [54, 52]) (numeral_of [52, 56]) 32))
        (gfx_of_shell (mode_shell\<lparr>sh_con := vga_puts ready_hw (edit_echoes [] ?cs @ [10]) (sh_con mode_shell),
          cmd_buf := buf, cmd_len := length (foldl edit [] ?cs)\<rparr>)) = (ok, g)" and
    run: "shell_keys ready_hw (shell_video ready_hw ?bios (\<lambda>angle fb depth mem. mem) []) (?cs @ [10]) mode_shell =
      bind_sum (if ok then print_current_mode ready_hw g
         else gc_printf ready_hw (bytes ''mode: nao foi possivel ativar '' @ [39] @ bytes ''%s'' @ [39, 10])
           [VStr (Some ([54, 52] @ 120 # [52, 56]))] g)
        (\<lambda>g. Inr (Done (shell_after_cmd ready_hw (shell_of_gfx
          (mode_shell\<lparr>sh_con := vga_puts ready_hw (edit_echoes [] ?cs @ [10]) (sh_con mode_shell),
          cmd_buf := buf, cmd_len := length (foldl edit [] ?cs)\<rparr>) g))))"
    unfolding Let_def by blast
  have "\<not> ok" by (rule bad [OF _ g]) simp
  with run msg [of g] show ?thesis by auto
qed

end
