(* ===== verification/KernelMain.thy ===== *)
theory KernelMain
  imports IrqService ShellVideo
begin

text \<open>
  The start of the kernel (kernel/kernel_main.c) and its end (kernel/panic.c): the order in which the
  components are initialised, what is shown on the console, and the state in which the shell takes
  over. The FPU set-up (kernel/fpu.c) is inline assembly; its result is a parameter.
\<close>

unbundle bit_operations_syntax

section \<open>State\<close>

text \<open>The kernel's interrupt side, the graphics side, the interrupt flag, and the shell's line buffer.\<close>

record 'd system =
  sys_k :: "'d kernel"
  sys_gfx :: "'d bridge"
  sys_if :: bool
  sys_cmd_buf :: "u8 list"

definition on_con :: "('d console \<Rightarrow> 'd console) \<Rightarrow> 'd kernel \<Rightarrow> 'd kernel" where
  "on_con f k = k\<lparr>k_con := f (k_con k)\<rparr>"

definition k_puts :: "'d hw \<Rightarrow> string \<Rightarrow> 'd kernel \<Rightarrow> 'd kernel" where
  "k_puts hw str = on_con (vga_puts hw (bytes str @ [10]))"

definition k_printf :: "'d hw \<Rightarrow> u8 list \<Rightarrow> va list \<Rightarrow> 'd kernel \<Rightarrow> fmt_error + 'd kernel" where
  "k_printf hw fmt args k = map_sum id (\<lambda>con. k\<lparr>k_con := con\<rparr>) (vga_printf hw fmt args (k_con k))"

section \<open>The first half: console and interrupts\<close>

text \<open>Steps 1 and 2 of \<open>kernel_main\<close>: the serial port and the screen.\<close>

definition kernel_main_console :: "'d hw \<Rightarrow> 'd kernel \<Rightarrow> fmt_error + 'd kernel" where
  "kernel_main_console hw k =
     (let (serial_ok, u) = serial_init hw (snd (con_uart (k_con k)));
          k = on_con (\<lambda>con. vga_init hw (con\<lparr>con_uart := u\<rparr>)) k;
          k = on_con (vga_set_color (color_code VGA_COLOR_LIGHT_CYAN) (color_code VGA_COLOR_BLACK)) k;
          k = on_con (vga_puts hw (bytes ''AlmaOS kernel inicializando...'' @ [10, 10])) k;
          k = on_con (vga_set_color (color_code VGA_COLOR_LIGHT_GREY) (color_code VGA_COLOR_BLACK)) k
      in k_printf hw (bytes ''[%s] Log serial COM1'' @ [10])
           [VStr (Some (bytes (if serial_ok then ''OK'' else ''--'')))] k)"

text \<open>Steps 3 and 4: the descriptor table and the controllers.\<close>

definition kernel_main_pic :: "'d hw \<Rightarrow> (nat \<Rightarrow> u32) \<Rightarrow> 'd kernel \<Rightarrow> 'd kernel" where
  "kernel_main_pic hw isr_stub_table k =
     (let k = idt_init isr_stub_table k;
          k = k_puts hw ''[OK] IDT carregada'' k;
          k = kernel_dev (pic_remap hw PIC_MASTER_OFFSET PIC_SLAVE_OFFSET) k
      in k_puts hw ''[OK] PIC remapeado (IRQ 0x20-0x2F)'' k)"

text \<open>Steps 5 and 6: the timer and the keyboard.\<close>

definition kernel_main_timer :: "'d hw \<Rightarrow> 'd kernel \<Rightarrow> 'd kernel" where
  "kernel_main_timer hw k =
     (let (ticks, d) = pit_init hw PIT_DEFAULT_FREQ (snd (con_uart (k_con k)));
          k = kernel_dev (\<lambda>_. d) (k\<lparr>k_ticks := ticks\<rparr>);
          k = idt_register_handler 0x20 Irq0_handler k;
          k = kernel_dev (pic_clear_mask hw 0) k
      in k_puts hw ''[OK] PIT configurado (100 Hz)'' k)"

definition kernel_main_keyboard :: "'d hw \<Rightarrow> 'd kernel \<Rightarrow> 'd kernel" where
  "kernel_main_keyboard hw k =
     (let k = k\<lparr>k_kb := keyboard_init (k_kb k)\<rparr>;
          k = idt_register_handler 0x21 Irq1_handler k;
          k = kernel_dev (pic_clear_mask hw 1) k
      in k_puts hw ''[OK] Teclado habilitado (IRQ 1)'' k)"

text \<open>Steps 1 to 6, up to the instruction that enables interrupts.\<close>

definition kernel_main_irqs :: "'d hw \<Rightarrow> (nat \<Rightarrow> u32) \<Rightarrow> 'd kernel \<Rightarrow> fmt_error + 'd kernel" where
  "kernel_main_irqs hw isr_stub_table k =
     bind_sum (kernel_main_console hw k) (\<lambda>k.
       Inr (kernel_main_keyboard hw (kernel_main_timer hw (kernel_main_pic hw isr_stub_table k))))"

section \<open>The second half: video and memory\<close>

text \<open>An operation of the graphics side, on the devices of the console.\<close>

definition sys_on_gfx :: "('d bridge \<Rightarrow> 'a \<times> 'd bridge) \<Rightarrow> 'd system \<Rightarrow> 'a \<times> 'd system" where
  "sys_on_gfx f s =
     (let (r, b) = f (bridge_dev (snd (con_uart (k_con (sys_k s)))) (sys_gfx s))
      in (r, s\<lparr>sys_gfx := b, sys_k := kernel_dev (\<lambda>_. rm_dev (v_rm (b_video b))) (sys_k s)\<rparr>))"

definition sys_puts :: "'d hw \<Rightarrow> string \<Rightarrow> 'd system \<Rightarrow> 'd system" where
  "sys_puts hw str s = s\<lparr>sys_k := k_puts hw str (sys_k s)\<rparr>"

definition sys_printf :: "'d hw \<Rightarrow> u8 list \<Rightarrow> va list \<Rightarrow> 'd system \<Rightarrow> fmt_error + 'd system" where
  "sys_printf hw fmt args s = map_sum id (\<lambda>k. s\<lparr>sys_k := k\<rparr>) (k_printf hw fmt args (sys_k s))"

definition gfx_realmode_init :: "u32 \<Rightarrow> u32 \<Rightarrow> u16 \<times> u32 \<Rightarrow> 'd bridge \<Rightarrow> bool \<times> 'd bridge" where
  "gfx_realmode_init stub_start stub_size gdtr =
     with_video (\<lambda>v. let (ok, rm) = realmode_init stub_start stub_size gdtr (v_rm v) in (ok, v\<lparr>v_rm := rm\<rparr>))"

definition gfx_kalloc_init :: "'d bridge \<Rightarrow> bool \<times> 'd bridge" where
  "gfx_kalloc_init b = (let (ok, k) = kalloc_init (bridge_mem b) in (ok, b\<lparr>b_kalloc := k\<rparr>))"

text \<open>Step 8, the video services of the BIOS.\<close>

definition kernel_main_video ::
  "'d hw \<Rightarrow> 'd bios_int \<Rightarrow> u32 \<times> u32 \<Rightarrow> u16 \<times> u32 \<Rightarrow> 'd system \<Rightarrow> fmt_error + 'd system" where
  "kernel_main_video hw bios stub gdtr s =
     (let (realmode_ok, s) = sys_on_gfx (gfx_realmode_init (fst stub) (snd stub) gdtr) s in
      if realmode_ok then
        (let s = sys_puts hw ''[OK] Trampolim de modo real (BIOS int 10h)'' s;
             (_, s) = sys_on_gfx (with_video (\<lambda>v. ((), video_init bios v))) s;
             v = b_video (sys_gfx s) in
         if video_vbe_available v
         then sys_printf hw (bytes ''[OK] VBE %u.%u disponivel'' @ [10])
           [VWord (drop_bit 8 (ucast (video_vbe_version v)) AND 0xFF),
            VWord (ucast (video_vbe_version v) AND 0xFF)] s
         else Inr (sys_puts hw ''[--] VBE indisponivel; so VGA 13h'' s))
      else Inr (sys_puts hw ''[--] Trampolim de modo real indisponivel'' s))"

text \<open>Step 9, the prerequisites of the graphics path; \<open>fpu\<close> is the result of \<open>fpu_init\<close>.\<close>

definition kernel_main_memory :: "'d hw \<Rightarrow> bool \<Rightarrow> 'd system \<Rightarrow> fmt_error + 'd system" where
  "kernel_main_memory hw fpu s =
     (let s = sys_puts hw (if fpu then ''[OK] FPU x87 habilitada''
            else ''[--] FPU x87 ausente; o caminho grafico nao vai funcionar'') s;
          (kalloc_ok, s) = sys_on_gfx gfx_kalloc_init s;
          k = b_kalloc (sys_gfx s) in
      if kalloc_ok
      then sys_printf hw (bytes ''[OK] Memoria alta: base=0x%08x, %u KiB'' @ [10])
        [VWord (kalloc_base k), VWord (kalloc_capacity k div 1024)] s
      else Inr (sys_puts hw ''[--] Nenhuma regiao utilizavel acima de 1 MiB'' s))"

text \<open>Step 10, the greeting.\<close>

definition kernel_main_welcome :: "'d hw \<Rightarrow> 'd kernel \<Rightarrow> 'd kernel" where
  "kernel_main_welcome hw k =
     (let k = on_con (vga_set_color (color_code VGA_COLOR_YELLOW) (color_code VGA_COLOR_BLACK)) k;
          k = k_puts hw ''Bem-vindo ao AlmaOS!'' k;
          k = on_con (vga_set_color (color_code VGA_COLOR_LIGHT_GREY) (color_code VGA_COLOR_BLACK)) k
      in on_con (vga_puts hw (bytes ''Digite '' @ [39] @ bytes ''help'' @ [39] @
           bytes '' para lista de comandos.'' @ [10, 10])) k)"

text \<open>Steps 7 to 10.\<close>

definition kernel_main_gfx ::
  "'d hw \<Rightarrow> 'd bios_int \<Rightarrow> u32 \<times> u32 \<Rightarrow> u16 \<times> u32 \<Rightarrow> bool \<Rightarrow> 'd system \<Rightarrow> fmt_error + 'd system" where
  "kernel_main_gfx hw bios stub gdtr fpu s0 =
     (let s = s0\<lparr>sys_if := True\<rparr>;
          s = s\<lparr>sys_k := on_con (vga_puts hw (bytes ''[OK] Interrupcoes habilitadas'' @ [10, 10])) (sys_k s)\<rparr> in
      bind_sum (kernel_main_video hw bios stub gdtr s) (\<lambda>s.
        bind_sum (kernel_main_memory hw fpu s) (\<lambda>s.
          Inr (s\<lparr>sys_k := kernel_main_welcome hw (sys_k s)\<rparr>))))"

section \<open>The whole\<close>

text \<open>The shell's view of the system, which \<open>shell_init\<close> starts with an empty line.\<close>

definition shell_of_system :: "'d system \<Rightarrow> ('d, 'd bridge) shell" where
  "shell_of_system s =
     shell_init \<lparr>sh_con = k_con (sys_k s), sh_kb = k_kb (sys_k s), sh_mem = bridge_mem (sys_gfx s),
       sh_ticks = k_ticks (sys_k s), cmd_buf = sys_cmd_buf s, cmd_len = 0, sh_video = sys_gfx s\<rparr>"

definition kernel_main ::
  "'d hw \<Rightarrow> 'd bios_int \<Rightarrow> (nat \<Rightarrow> u32) \<Rightarrow> u32 \<times> u32 \<Rightarrow> u16 \<times> u32 \<Rightarrow> bool \<Rightarrow> 'd system \<Rightarrow>
     fmt_error + 'd system \<times> ('d, 'd bridge) shell" where
  "kernel_main hw bios isr_stub_table stub gdtr fpu s =
     bind_sum (kernel_main_irqs hw isr_stub_table (sys_k s)) (\<lambda>k.
       bind_sum (kernel_main_gfx hw bios stub gdtr fpu (s\<lparr>sys_k := k\<rparr>)) (\<lambda>s.
         Inr (s, shell_start hw (shell_of_system s))))"

text \<open>The message of a fatal error; after it the CPU is halted with interrupts off.\<close>

definition panic :: "'d hw \<Rightarrow> u8 list \<Rightarrow> 'd console \<Rightarrow> 'd console" where
  "panic hw msg con =
     (let con = vga_set_color (color_code VGA_COLOR_WHITE) (color_code VGA_COLOR_RED) con;
          con = vga_puts hw ([10] @ bytes ''*** KERNEL PANIC ***'' @ [10]) con;
          con = vga_puts hw msg con
      in vga_puts hw ([10, 10] @ bytes ''Sistema parado.'' @ [10]) con)"

definition klog :: "'d hw \<Rightarrow> u8 list \<Rightarrow> va list \<Rightarrow> 'd console \<Rightarrow> fmt_error + 'd console" where
  "klog hw fmt args con =
     (let con = vga_set_color (color_code VGA_COLOR_DARK_GREY) (color_code VGA_COLOR_BLACK) con;
          con = vga_puts hw (bytes ''[LOG] '') con;
          con = vga_set_color (color_code VGA_COLOR_LIGHT_GREY) (color_code VGA_COLOR_BLACK) con
      in map_sum id (vga_putchar hw 10) (vga_printf hw fmt args con))"

end
