(* ===== verification/KernelBoot.thy ===== *)
theory KernelBoot
  imports KernelMain
begin

text \<open>
  What the start of the kernel achieves: it always reaches the shell, and on the board of the
  interrupt component it leaves the interrupts ready to be served.
\<close>

unbundle bit_operations_syntax

section \<open>Reaching the shell\<close>

text \<open>What holds from the registration of the handlers on.\<close>

definition boot_inv :: "'d kernel \<Rightarrow> bool" where
  "boot_inv k \<longleftrightarrow> con_inv (k_con k) \<and> length (k_handlers k) = 256 \<and> k_handlers k ! 0x20 = Some Irq0_handler \<and>
     k_handlers k ! 0x21 = Some Irq1_handler \<and> \<not> keyboard_has_data (k_kb k) \<and> k_ticks k = 0 \<and>
     length (k_idt k) = 256"

lemma con_inv_puts: "con_inv con \<Longrightarrow> con_inv (vga_puts hw cs con)"
  using puts_safe by (auto simp: screen_writes_def)

lemma con_inv_putchar: "con_inv con \<Longrightarrow> con_inv (vga_putchar hw c con)"
  using putchar_safe by (auto simp: screen_writes_def)

lemma con_inv_color [simp]: "con_inv (vga_set_color fg bg con) = con_inv con"
  by (simp add: vga_set_color_def con_inv_def)

lemma con_inv_uart [simp]: "con_inv (con\<lparr>con_uart := u\<rparr>) = con_inv con"
  by (simp add: con_inv_def)

lemma boot_inv_con: "boot_inv k \<Longrightarrow> con_inv con \<Longrightarrow> boot_inv (k\<lparr>k_con := con\<rparr>)"
  by (simp add: boot_inv_def)

lemma boot_inv_puts: "boot_inv k \<Longrightarrow> boot_inv (on_con (vga_puts hw cs) k)"
  by (auto simp: on_con_def boot_inv_def intro: con_inv_puts)

lemma boot_inv_color: "boot_inv k \<Longrightarrow> boot_inv (on_con (vga_set_color fg bg) k)"
  by (simp add: on_con_def boot_inv_def)

lemma boot_inv_dev: "boot_inv k \<Longrightarrow> boot_inv (kernel_dev f k)"
  by (simp add: kernel_dev_def boot_inv_def)

lemmas boot_invs = boot_inv_puts boot_inv_color boot_inv_dev

lemma k_printf_out:
  "vga_vprintf fmt args = Inr out \<Longrightarrow> k_printf hw fmt args k = Inr (on_con (vga_puts hw out) k)"
  by (simp add: k_printf_def vga_printf_def on_con_def)

text \<open>The formats of the start can always be rendered.\<close>

lemma serial_line_total:
  "\<exists>out. vga_vprintf (bytes ''[%s] Log serial COM1'' @ [10]) [VStr (Some str)] = Inr out"
  by (simp add: bytes_def fmt_head_def is_digit_def fmt_switch_def va_str_def)

lemma boot_lines_total:
  "\<exists>out. vga_vprintf (bytes ''[OK] VBE %u.%u disponivel'' @ [10]) [VWord v, VWord w] = Inr out"
  "\<exists>out. vga_vprintf (bytes ''[OK] Memoria alta: base=0x%08x, %u KiB'' @ [10]) [VWord v, VWord w] = Inr out"
proof -
  show "\<exists>out. vga_vprintf (bytes ''[OK] VBE %u.%u disponivel'' @ [10]) [VWord v, VWord w] = Inr out"
    "\<exists>out. vga_vprintf (bytes ''[OK] Memoria alta: base=0x%08x, %u KiB'' @ [10]) [VWord v, VWord w] = Inr out"
    by (simp_all add: bytes_def fmt_head_def is_digit_def fmt_switch_def va_word_def print_hex print_decimal_0)
qed

lemma set_gates_length: "length (fold (\<lambda>i. idt_set_gate (n i) (f i) s t) is idt) = length idt"
  by (induction "is" arbitrary: idt) (simp_all add: idt_set_gate_def)

text \<open>The four parts of the first half.\<close>

lemma console_part:
  "\<exists>out. kernel_main_console hw k = Inr (k\<lparr>k_con := vga_puts hw out (vga_set_color 7 0 (vga_puts hw
       (bytes ''AlmaOS kernel inicializando...'' @ [10, 10]) (vga_set_color 11 0
         (vga_init hw ((k_con k)\<lparr>con_uart := snd (serial_init hw (snd (con_uart (k_con k))))\<rparr>)))))\<rparr>)"
proof -
  obtain ok u where ser: "serial_init hw (snd (con_uart (k_con k))) = (ok, u)" by (rule prod.exhaust)
  obtain out where "vga_vprintf (bytes ''[%s] Log serial COM1'' @ [10])
      [VStr (Some (bytes (if ok then ''OK'' else ''--'')))] = Inr out"
    using serial_line_total by blast
  then show ?thesis
    by (intro exI [of _ out]) (simp add: kernel_main_console_def ser k_printf_out on_con_def)
qed

lemma pic_part:
  "k_con (kernel_main_pic hw stubs k) = k_con (k_puts hw ''[OK] PIC remapeado (IRQ 0x20-0x2F)''
     (kernel_dev (pic_remap hw PIC_MASTER_OFFSET PIC_SLAVE_OFFSET) (k_puts hw ''[OK] IDT carregada'' k)))"
  "k_kb (kernel_main_pic hw stubs k) = k_kb k"
  "k_idt (kernel_main_pic hw stubs k) = k_idt (idt_init stubs k)"
  "k_handlers (kernel_main_pic hw stubs k) = replicate 256 None"
  by (simp_all add: kernel_main_pic_def k_puts_def on_con_def kernel_dev_def idt_init_def IDT_ENTRIES_def)

lemma timer_part:
  "k_con (kernel_main_timer hw k) = k_con (k_puts hw ''[OK] PIT configurado (100 Hz)''
     (kernel_dev (\<lambda>d. pic_clear_mask hw 0 (snd (pit_init hw PIT_DEFAULT_FREQ d))) k))"
  "k_kb (kernel_main_timer hw k) = k_kb k" "k_idt (kernel_main_timer hw k) = k_idt k"
  "k_handlers (kernel_main_timer hw k) = (k_handlers k)[32 := Some Irq0_handler]" "k_ticks (kernel_main_timer hw k) = 0"
  by (simp_all add: kernel_main_timer_def k_puts_def on_con_def kernel_dev_def idt_register_handler_def
      pit_init_def Let_def)

lemma keyboard_part:
  "k_con (kernel_main_keyboard hw k) = k_con (k_puts hw ''[OK] Teclado habilitado (IRQ 1)''
     (kernel_dev (pic_clear_mask hw 1) k))"
  "k_kb (kernel_main_keyboard hw k) = keyboard_init (k_kb k)" "k_idt (kernel_main_keyboard hw k) = k_idt k"
  "k_handlers (kernel_main_keyboard hw k) = (k_handlers k)[33 := Some Irq1_handler]"
  "k_ticks (kernel_main_keyboard hw k) = k_ticks k"
  by (simp_all add: kernel_main_keyboard_def k_puts_def on_con_def kernel_dev_def idt_register_handler_def Let_def)

lemmas kernel_parts = pic_part timer_part keyboard_part

text \<open>The state at the instruction that enables interrupts.\<close>

lemma irqs_result:
  "\<exists>con. kernel_main_console hw k = Inr (k\<lparr>k_con := con\<rparr>) \<and> con_inv con \<and>
     kernel_main_irqs hw stubs k =
       Inr (kernel_main_keyboard hw (kernel_main_timer hw (kernel_main_pic hw stubs (k\<lparr>k_con := con\<rparr>))))"
proof -
  have "con_inv (vga_init hw con)" for con
    using clear_safe by (auto simp: vga_init_def screen_writes_def)
  moreover obtain out where "kernel_main_console hw k = Inr (k\<lparr>k_con := vga_puts hw out (vga_set_color 7 0 (vga_puts hw
       (bytes ''AlmaOS kernel inicializando...'' @ [10, 10]) (vga_set_color 11 0
         (vga_init hw ((k_con k)\<lparr>con_uart := snd (serial_init hw (snd (con_uart (k_con k))))\<rparr>)))))\<rparr>)"
    (is "_ = Inr (k\<lparr>k_con := ?con\<rparr>)")
    using console_part by blast
  ultimately show ?thesis
    by (intro exI [of _ ?con] conjI) (simp_all add: con_inv_puts kernel_main_irqs_def)
qed

lemma irqs_inv: "\<exists>k'. kernel_main_irqs hw stubs k = Inr k' \<and> boot_inv k'"
proof -
  obtain con where con: "con_inv con" "kernel_main_irqs hw stubs k =
      Inr (kernel_main_keyboard hw (kernel_main_timer hw (kernel_main_pic hw stubs (k\<lparr>k_con := con\<rparr>))))"
    using irqs_result by blast
  have "\<not> keyboard_has_data (keyboard_init kb)" for kb
    by (simp add: keyboard_has_data_def keyboard_init_def keyboard_set_layout_def)
  then have "boot_inv (kernel_main_keyboard hw (kernel_main_timer hw (kernel_main_pic hw stubs (k\<lparr>k_con := con\<rparr>))))"
    using con(1) by (simp add: boot_inv_def kernel_parts k_puts_def on_con_def kernel_dev_def con_inv_puts
        con_inv_putchar idt_init_def set_gates_length IDT_ENTRIES_def)
  with con(2) show ?thesis by blast
qed

definition sys_ok :: "u8 list \<Rightarrow> 'd system \<Rightarrow> bool" where
  "sys_ok buf s \<longleftrightarrow> boot_inv (sys_k s) \<and> sys_if s \<and> sys_cmd_buf s = buf"

lemma sys_puts_ok: "sys_ok buf s \<Longrightarrow> sys_ok buf (sys_puts hw str s)"
  by (simp add: sys_ok_def sys_puts_def k_puts_def boot_inv_puts)

lemma sys_on_gfx_ok: "sys_on_gfx f s = (r, s') \<Longrightarrow> sys_ok buf s \<Longrightarrow> sys_ok buf s'"
  by (auto simp: sys_ok_def sys_on_gfx_def boot_inv_dev split: prod.splits)

lemma sys_printf_ok:
  "\<exists>out. vga_vprintf fmt args = Inr out \<Longrightarrow> sys_ok buf s \<Longrightarrow>
     \<exists>s'. sys_printf hw fmt args s = Inr s' \<and> sys_ok buf s'"
proof -
  assume "\<exists>out. vga_vprintf fmt args = Inr out" "sys_ok buf s"
  then obtain out where "vga_vprintf fmt args = Inr out" "sys_ok buf s" by blast
  then show ?thesis by (simp add: sys_printf_def k_printf_out sys_ok_def boot_inv_puts)
qed

lemma video_ok: "sys_ok buf s \<Longrightarrow> \<exists>s'. kernel_main_video hw bios stub gdtr s = Inr s' \<and> sys_ok buf s'"
proof -
  assume s: "sys_ok buf s"
  obtain ok s2 where s2: "sys_on_gfx (gfx_realmode_init (fst stub) (snd stub) gdtr) s = (ok, s2)" by (rule prod.exhaust)
  note ok2 = sys_on_gfx_ok [OF s2 s]
  show ?thesis
  proof (cases ok)
    case True
    obtain r t where t: "sys_on_gfx (with_video (\<lambda>v. ((), video_init bios v)))
        (sys_puts hw ''[OK] Trampolim de modo real (BIOS int 10h)'' s2) = (r, t)" by (rule prod.exhaust)
    from sys_on_gfx_ok [OF t sys_puts_ok [OF ok2]] have t_ok: "sys_ok buf t" .
    show ?thesis
      using True sys_printf_ok [OF boot_lines_total(1) t_ok] sys_puts_ok [OF t_ok]
      by (simp add: kernel_main_video_def s2 t Let_def)
  qed (simp add: kernel_main_video_def s2 sys_puts_ok [OF ok2])
qed

lemma memory_ok: "sys_ok buf s \<Longrightarrow> \<exists>s'. kernel_main_memory hw fpu s = Inr s' \<and> sys_ok buf s'"
proof -
  assume s: "sys_ok buf s"
  define s4 where "s4 = sys_puts hw (if fpu then ''[OK] FPU x87 habilitada''
      else ''[--] FPU x87 ausente; o caminho grafico nao vai funcionar'') s"
  obtain kok s5 where s5: "sys_on_gfx gfx_kalloc_init s4 = (kok, s5)" by (rule prod.exhaust)
  have ok5: "sys_ok buf s5" using sys_on_gfx_ok [OF s5] s by (simp add: s4_def sys_puts_ok)
  show ?thesis
    unfolding kernel_main_memory_def Let_def s4_def [symmetric] s5 prod.case
    using sys_printf_ok [OF boot_lines_total(2) ok5] sys_puts_ok [OF ok5] by simp
qed

lemma gfx_ok:
  assumes "boot_inv (sys_k s)" "sys_cmd_buf s = buf"
  shows "\<exists>s'. kernel_main_gfx hw bios stub gdtr fpu s = Inr s' \<and> sys_ok buf s'"
proof -
  define s1 where "s1 = (s\<lparr>sys_if := True\<rparr>)\<lparr>sys_k := on_con (vga_puts hw (bytes ''[OK] Interrupcoes habilitadas'' @ [10, 10]))
      (sys_k (s\<lparr>sys_if := True\<rparr>))\<rparr>"
  have "sys_ok buf s1" using assms by (simp add: s1_def sys_ok_def boot_inv_puts)
  then obtain s2 where s2: "kernel_main_video hw bios stub gdtr s1 = Inr s2" "sys_ok buf s2"
    using video_ok by blast
  then obtain s3 where s3: "kernel_main_memory hw fpu s2 = Inr s3" "sys_ok buf s3"
    using memory_ok by blast
  have "kernel_main_gfx hw bios stub gdtr fpu s = Inr (s3\<lparr>sys_k := kernel_main_welcome hw (sys_k s3)\<rparr>)"
    unfolding kernel_main_gfx_def Let_def s1_def [symmetric] s2(1) s3(1) bind_sum_simps ..
  then show ?thesis
    using s3(2) by (simp add: sys_ok_def kernel_main_welcome_def k_puts_def boot_invs)
qed

text \<open>
  C6: The kernel reaches its shell whatever the devices, the BIOS, the memory map and the FPU answer:
  every message of the start can be printed, and then interrupts are enabled, the timer and keyboard
  handlers are registered, the keyboard buffer is empty, the console cursor is on the screen and the
  shell waits with an empty line.
\<close>

theorem kernel_reaches_shell:
  assumes "length (sys_cmd_buf s0) = CMD_MAX_LEN"
  shows "\<exists>s sh. kernel_main hw bios stubs stub gdtr fpu s0 = Inr (s, sh) \<and> sys_if s \<and>
    k_handlers (sys_k s) ! 0x20 = Some Irq0_handler \<and> k_handlers (sys_k s) ! 0x21 = Some Irq1_handler \<and>
    \<not> keyboard_has_data (sh_kb sh) \<and> con_inv (sh_con sh) \<and> shell_inv sh \<and> cmd_line sh = []"
proof -
  obtain k where k: "kernel_main_irqs hw stubs (sys_k s0) = Inr k" "boot_inv k"
    using irqs_inv by blast
  obtain s where s: "kernel_main_gfx hw bios stub gdtr fpu (s0\<lparr>sys_k := k\<rparr>) = Inr s" "sys_ok (sys_cmd_buf s0) s"
    using gfx_ok [of "s0\<lparr>sys_k := k\<rparr>" "sys_cmd_buf s0" hw bios stub gdtr fpu] k(2) by auto
  let ?sh = "shell_start hw (shell_of_system s)"
  have "kernel_main hw bios stubs stub gdtr fpu s0 = Inr (s, ?sh)"
    by (simp add: kernel_main_def k s)
  moreover have "con_inv (sh_con ?sh)"
    using s(2) by (simp add: shell_start_def shell_prompt_def shell_of_system_def shell_init_def sys_ok_def
        boot_inv_def con_inv_puts)
  ultimately show ?thesis
    using s(2) assms
    by (intro exI [of _ s] exI [of _ ?sh])
      (simp add: sys_ok_def boot_inv_def shell_start_def shell_of_system_def shell_init_def shell_inv_def
        cmd_line_def CMD_MAX_LEN_def)
qed

definition cold_system :: "port_log system" where
  "cold_system = \<lparr>sys_k = \<lparr>k_con = cold_console, k_kb = sh_kb mode_shell, k_ticks = 5, k_idt = [], k_handlers = []\<rparr>,
     sys_gfx = sh_video mode_shell, sys_if = False, sys_cmd_buf = replicate 64 0\<rparr>"

lemma kernel_reaches_shell_witness:
  "\<exists>s sh. kernel_main (rec_hw (\<lambda>p. 0xAE)) (\<lambda>v r rm. (False, r, rm)) (\<lambda>i. of_nat i) (0, 64) (0x2F, 0x8000) True
     cold_system = Inr (s, sh) \<and> sys_if s \<and>
    k_handlers (sys_k s) ! 0x20 = Some Irq0_handler \<and> k_handlers (sys_k s) ! 0x21 = Some Irq1_handler \<and>
    \<not> keyboard_has_data (sh_kb sh) \<and> con_inv (sh_con sh) \<and> shell_inv sh \<and> cmd_line sh = []"
  by (rule kernel_reaches_shell) (simp add: cold_system_def CMD_MAX_LEN_def)

section \<open>Ready for interrupts\<close>

text \<open>On the board nothing but the interrupt code touches the controllers.\<close>

lemma board_spin: "serial_spin board_hw n b = b"
  by (induction n) (simp_all add: board_in)

lemma board_serial: "snd (serial_putchar board_hw c s) = snd s"
  by (cases s) (simp add: serial_putchar_def serial_wait_ready_def board_spin uart_regs Let_def)

lemma board_cursor: "snd (con_uart (vga_update_cursor board_hw s)) = snd (con_uart s)"
  by (simp add: vga_update_cursor_def VGA_CTRL_REG_def VGA_DATA_REG_def)

lemma board_scroll: "con_uart (vga_scroll s) = con_uart s"
  by (simp add: vga_scroll_def Let_def)

lemma board_putchar: "snd (con_uart (vga_putchar board_hw c s)) = snd (con_uart s)"
  by (simp add: vga_putchar_def board_cursor board_scroll board_serial Let_def)

lemma board_puts: "snd (con_uart (vga_puts board_hw cs s)) = snd (con_uart s)"
  by (induction cs arbitrary: s) (simp_all add: vga_puts_def board_putchar)

lemma board_init: "snd (con_uart (vga_init board_hw s)) = snd (con_uart s)"
  by (simp add: vga_init_def vga_clear_def board_cursor)

lemma board_serial_init: "serial_init board_hw b = (False, False, b)"
  by (simp add: serial_init_def uart_regs board_in Let_def)

lemma board_pit: "snd (pit_init board_hw f b) = b"
  by (simp add: pit_init_def PIT_CMD_def PIT_CHANNEL0_DATA_def Let_def)

lemma board_k_puts: "k_board (k_puts board_hw str k) = k_board k"
  by (simp add: k_puts_def on_con_def k_board_def board_puts board_putchar)

lemma board_con: "k_con k = k_con k' \<Longrightarrow> k_board k = k_board k'"
  by (simp add: k_board_def)

lemma board_parts:
  "k_board (kernel_main_pic board_hw stubs k) = pic_remap board_hw PIC_MASTER_OFFSET PIC_SLAVE_OFFSET (k_board k)"
  "k_board (kernel_main_timer board_hw k) = pic_clear_mask board_hw 0 (k_board k)"
  "k_board (kernel_main_keyboard board_hw k) = pic_clear_mask board_hw 1 (k_board k)"
  by (simp_all add: board_con [OF pic_part(1)] board_con [OF timer_part(1)] board_con [OF keyboard_part(1)]
      board_k_puts board_pit)

lemma lines_open:
  assumes "initialised b" "b' = pic_clear_mask board_hw 1 (pic_clear_mask board_hw 0
    (pic_remap board_hw PIC_MASTER_OFFSET PIC_SLAVE_OFFSET b))"
  shows "initialised b' \<and> pic_idle b' \<and> vbase (b_master b') = 0x20 \<and>
    \<not> bit (irq_mask b') 0 \<and> \<not> bit (irq_mask b') 1"
proof -
  let ?r = "pic_remap board_hw PIC_MASTER_OFFSET PIC_SLAVE_OFFSET b"
  have r: "initialised ?r" "pic_idle ?r" "vbase (b_master ?r) = 0x20"
    using assms(1) by (simp_all add: remap_board initialised_def pic_idle_def pic_ports)
  have c: "initialised (pic_clear_mask board_hw 0 ?r)" by (rule controls_initialised(3) [OF r(1)])
  have "irq_mask b' = (irq_mask ?r AND NOT 1) AND NOT 2"
    using irq_mask_update(2) [OF _ c, of 1] irq_mask_update(2) [OF _ r(1), of 0] by (simp add: assms(2))
  moreover have "pic_idle b'" "vbase (b_master b') = 0x20"
    using r c by (simp_all add: assms(2) clear_mask_board pic_idle_def)
  ultimately show ?thesis
    using controls_initialised(3) [OF c] by (simp add: assms(2) bit_and_iff bit_not_iff bit_1_iff)
qed

text \<open>
  C5: Started on a board with initialised controllers, the kernel reaches the instruction that
  enables interrupts ready for them: the 48 gates point at the stubs, the controllers deliver lines 0
  and 1 at vectors 0x20 and 0x21 with no interrupt in service, and every sequence of timer and
  keyboard interrupts from then on is counted, passed to the keyboard driver in order and acknowledged.
\<close>

theorem kernel_serves_interrupts:
  assumes "initialised (k_board k0)"
  shows "\<exists>k. kernel_main_irqs board_hw stubs k0 = Inr k \<and> irq_ready k \<and>
    map gate_offset (take 48 (k_idt k)) = map stubs [0..<48] \<and>
    (\<exists>k'. deliver_all f evs k = Inr (Returned k') \<and> irq_ready k' \<and> k_ticks k' = of_nat (timer_count evs) \<and>
       k_kb k' = fold keyboard_scancode (scancodes evs) (keyboard_init (k_kb k0)))"
proof -
  obtain con where con: "kernel_main_console board_hw k0 = Inr (k0\<lparr>k_con := con\<rparr>)"
    and k: "kernel_main_irqs board_hw stubs k0 = Inr (kernel_main_keyboard board_hw
      (kernel_main_timer board_hw (kernel_main_pic board_hw stubs (k0\<lparr>k_con := con\<rparr>))))" (is "_ = Inr ?k")
    using irqs_result by blast
  have "snd (con_uart (vga_set_color fg bg s)) = snd (con_uart s)" for fg bg and s :: "board console"
    by (simp add: vga_set_color_def)
  moreover obtain out where "kernel_main_console board_hw k0 = Inr (k0\<lparr>k_con := vga_puts board_hw out
      (vga_set_color 7 0 (vga_puts board_hw (bytes ''AlmaOS kernel inicializando...'' @ [10, 10]) (vga_set_color 11 0
         (vga_init board_hw ((k_con k0)\<lparr>con_uart := snd (serial_init board_hw (snd (con_uart (k_con k0))))\<rparr>)))))\<rparr>)"
    (is "_ = Inr (k0\<lparr>k_con := ?con\<rparr>)")
    using console_part by blast
  moreover from this con have "k0\<lparr>k_con := con\<rparr> = k0\<lparr>k_con := ?con\<rparr>" by simp
  ultimately have board: "k_board (k0\<lparr>k_con := con\<rparr>) = k_board k0"
    by (simp add: k_board_def board_puts board_init board_serial_init)
  have "irq_ready ?k"
    using lines_open [OF assms refl] by (simp add: irq_ready_def board_parts board kernel_parts)
  moreover have "k_idt ?k = k_idt (idt_init stubs (k0\<lparr>k_con := con\<rparr>))" "k_ticks ?k = 0"
    "k_kb ?k = keyboard_init (k_kb k0)"
    by (simp_all add: kernel_parts)
  ultimately show ?thesis
    using k idt_init_gates [of stubs "k0\<lparr>k_con := con\<rparr>"] interrupts_served [of ?k f evs] by auto
qed

lemma kernel_serves_interrupts_witness:
  "\<exists>k. kernel_main_irqs board_hw of_nat served_kernel = Inr k \<and> irq_ready k \<and>
    map gate_offset (take 48 (k_idt k)) = map of_nat [0..<48] \<and>
    (\<exists>k'. deliver_all zero_frame [Key 0x1E, Timer] k = Inr (Returned k') \<and> irq_ready k' \<and>
       k_ticks k' = of_nat (timer_count [Key 0x1E, Timer]) \<and>
       k_kb k' = fold keyboard_scancode (scancodes [Key 0x1E, Timer]) (keyboard_init (k_kb served_kernel)))"
  using served_kernel_ready by (intro kernel_serves_interrupts) (simp add: irq_ready_def)

end
