(* ===== verification/KeyboardInput.thy ===== *)
theory KeyboardInput
  imports Keyboard
begin

text \<open>
  What the keyboard driver does over whole sequences of scancodes: the modifiers it tracks, the
  characters a typed text delivers, and the interleaving of the interrupt handler with a reader
  that is itself not atomic.
\<close>

unbundle bit_operations_syntax

section \<open>Tables and single scancodes\<close>

lemmas kb_tables =
  scancode_to_ascii_us_def scancode_to_ascii_shift_us_def scancode_to_ascii_altgr_us_def
  scancode_to_ascii_abnt2_def scancode_to_ascii_shift_abnt2_def scancode_to_ascii_altgr_abnt2_def

lemma length_kb_table_bytes [simp]: "length (kb_table_bytes t) = 128"
  by (cases t) (simp_all add: kb_tables bytes_def)

text \<open>The modifier scancodes carry no character in any table.\<close>

lemma kb_modifier_empty:
  "kb_table_bytes t ! 0x2A = 0" "kb_table_bytes t ! 0x36 = 0" "kb_table_bytes t ! 0x3A = 0"
  "kb_table_bytes t ! 0x38 = 0"
  by (cases t; simp add: kb_tables bytes_def nth_append)+

lemma kb_push_frame [simp, state_simps]:
  "kb_shift (kb_push c s) = kb_shift s" "kb_altgr (kb_push c s) = kb_altgr s"
  "kb_caps (kb_push c s) = kb_caps s" "kb_ext (kb_push c s) = kb_ext s"
  "kb_map (kb_push c s) = kb_map s" "kb_map_shift (kb_push c s) = kb_map_shift s"
  "kb_map_altgr (kb_push c s) = kb_map_altgr s" "kb_tail (kb_push c s) = kb_tail s"
  by (simp_all add: kb_push_def Let_def)

lemma kb_inv_cong:
  "kb_buffer s' = kb_buffer s \<Longrightarrow> kb_head s' = kb_head s \<Longrightarrow> kb_tail s' = kb_tail s \<Longrightarrow>
     kb_inv s' = kb_inv s"
  "kb_buffer s' = kb_buffer s \<Longrightarrow> kb_head s' = kb_head s \<Longrightarrow> kb_tail s' = kb_tail s \<Longrightarrow>
     kb_contents s' = kb_contents s"
  by (simp_all add: kb_inv_def kb_contents_def kb_count_def)

text \<open>
  A scancode is a modifier change, which leaves the buffer alone, or one push of a nonzero
  character on a state that differs in \<open>kb_ext\<close> only.
\<close>

lemma keyboard_scancode_effect:
  "(kb_buffer (keyboard_scancode sc s) = kb_buffer s \<and>
    kb_head (keyboard_scancode sc s) = kb_head s \<and>
    kb_tail (keyboard_scancode sc s) = kb_tail s) \<or>
   (\<exists>c. c \<noteq> 0 \<and> keyboard_scancode sc s = kb_push c (s\<lparr>kb_ext := False\<rparr>))"
  by (auto simp: keyboard_scancode_def Let_def)

lemma keyboard_scancode_inv [inv_intros]:
  assumes "kb_inv s"
  shows "kb_inv (keyboard_scancode sc s)"
  using keyboard_scancode_effect [of sc s]
proof (elim disjE exE conjE)
  assume "kb_buffer (keyboard_scancode sc s) = kb_buffer s"
    "kb_head (keyboard_scancode sc s) = kb_head s" "kb_tail (keyboard_scancode sc s) = kb_tail s"
  with assms show ?thesis using kb_inv_cong(1) by blast
next
  fix c
  assume key: "c \<noteq> 0" "keyboard_scancode sc s = kb_push c (s\<lparr>kb_ext := False\<rparr>)"
  then show ?thesis
    using assms kb_push_inv [of "s\<lparr>kb_ext := False\<rparr>" c] kb_inv_cong(1) [of "s\<lparr>kb_ext := False\<rparr>" s]
    by simp
qed

lemma keyboard_scancode_contents:
  assumes "kb_inv s"
  shows "\<exists>cs. length cs \<le> 1 \<and> kb_contents (keyboard_scancode sc s) = kb_contents s @ cs"
  using keyboard_scancode_effect [of sc s]
proof (elim disjE exE conjE)
  assume "kb_buffer (keyboard_scancode sc s) = kb_buffer s"
    "kb_head (keyboard_scancode sc s) = kb_head s" "kb_tail (keyboard_scancode sc s) = kb_tail s"
  then show ?thesis using kb_inv_cong(2) [of "keyboard_scancode sc s" s] by simp
next
  fix c
  assume key: "c \<noteq> 0" "keyboard_scancode sc s = kb_push c (s\<lparr>kb_ext := False\<rparr>)"
  have eq: "kb_inv (s\<lparr>kb_ext := False\<rparr>)" "kb_contents (s\<lparr>kb_ext := False\<rparr>) = kb_contents s"
    using assms kb_inv_cong [of "s\<lparr>kb_ext := False\<rparr>" s] by simp_all
  then show ?thesis
    using kb_contents_push [OF eq(1), of c] key(2)
    by (cases "kb_count s < KB_BUFFER_SIZE - 1") (auto intro: exI [of _ "[c]"])
qed

lemma keyboard_scancode_tail: "kb_tail (keyboard_scancode sc s) = kb_tail s"
  using keyboard_scancode_effect [of sc s] by auto

text \<open>The table index of a make code is in range: the handler never reads past a table.\<close>

lemma keyboard_index_in_range:
  "sc AND 0x80 = 0 \<Longrightarrow> unat (sc :: u8) < length (kb_table_bytes t)"
  by (simp add: u8_sign_bit)

section \<open>Modifiers over a sequence of scancodes\<close>

definition shift_codes :: "u8 set" where
  "shift_codes = {0x2A, 0x36, 0xAA, 0xB6}"

lemma keyboard_scancode_caps:
  "kb_caps (keyboard_scancode sc s) = (if sc = 0x3A then \<not> kb_caps s else kb_caps s)"
  by (auto simp: keyboard_scancode_def Let_def)

lemma released_shift:
  "(sc :: u8) AND 0x80 \<noteq> 0 \<Longrightarrow> sc AND 0x7F = 0x2A \<longleftrightarrow> sc = 0xAA"
  "(sc :: u8) AND 0x80 \<noteq> 0 \<Longrightarrow> sc AND 0x7F = 0x36 \<longleftrightarrow> sc = 0xB6"
proof -
  assume "sc AND 0x80 \<noteq> 0"
  then have "unat (sc AND 0x7F) = unat sc - 128" "128 \<le> unat sc"
    using unat_u8_less [of sc] by (simp_all add: u8_sign_bit u8_low7 mod_if)
  then show "sc AND 0x7F = 0x2A \<longleftrightarrow> sc = 0xAA" "sc AND 0x7F = 0x36 \<longleftrightarrow> sc = 0xB6"
    by (auto simp: word_unat_eq_iff)
qed

lemma keyboard_scancode_shift:
  "kb_shift (keyboard_scancode sc s) =
     (if sc \<in> shift_codes then sc AND 0x80 = 0 else kb_shift s)"
  using released_shift [of sc]
  by (auto simp: keyboard_scancode_def Let_def shift_codes_def)

text \<open>
  Caps Lock follows the parity of its key presses, Shift the last event on either Shift key; no
  other scancode, and no prefix, disturbs them.
\<close>

lemma caps_run:
  "kb_caps (fold keyboard_scancode scs s) = (kb_caps s \<noteq> odd (count_list scs 0x3A))"
  by (induction scs arbitrary: s) (auto simp: keyboard_scancode_caps)

lemma shift_run:
  "kb_shift (fold keyboard_scancode scs s) =
     (case rev (filter (\<lambda>sc. sc \<in> shift_codes) scs) of
        [] \<Rightarrow> kb_shift s
      | sc # _ \<Rightarrow> sc AND 0x80 = 0)"
proof (induction scs rule: rev_induct)
  case (snoc sc scs)
  then show ?case by (auto simp: keyboard_scancode_shift)
qed simp

section \<open>Typing a text\<close>

text \<open>
  The keystrokes that produce a character on a layout: on the plain table if it is there, else
  with Shift held, else with AltGr (an extended key) held.
\<close>

definition kb_tables_of :: "kb_layout \<Rightarrow> kb_table \<times> kb_table \<times> kb_table" where
  "kb_tables_of l = (if l = KB_LAYOUT_ABNT2 then (Tab_abnt2, Tab_shift_abnt2, Tab_altgr_abnt2)
     else (Tab_us, Tab_shift_us, Tab_altgr_us))"

definition kb_find :: "kb_table \<Rightarrow> u8 \<Rightarrow> u8 option" where
  "kb_find t c = map_option of_nat (find (\<lambda>i. kb_table_bytes t ! i = c) [0..<128])"

definition press :: "u8 \<Rightarrow> u8 list" where
  "press k = [k, k OR 0x80]"

definition kb_strokes :: "kb_layout \<Rightarrow> u8 \<Rightarrow> u8 list option" where
  "kb_strokes l c =
     (let (plain, shifted, altgr) = kb_tables_of l in
      case kb_find plain c of Some k \<Rightarrow> Some (press k)
      | None \<Rightarrow> (case kb_find shifted c of Some k \<Rightarrow> Some ([0x2A] @ press k @ [0xAA])
      | None \<Rightarrow> map_option (\<lambda>k. [0xE0, 0x38] @ press k @ [0xE0, 0xB8]) (kb_find altgr c)))"

definition kb_idle :: "kb_layout \<Rightarrow> kb_state \<Rightarrow> bool" where
  "kb_idle l s \<longleftrightarrow> \<not> kb_shift s \<and> \<not> kb_altgr s \<and> \<not> kb_caps s \<and> \<not> kb_ext s \<and>
     (kb_map s, kb_map_shift s, kb_map_altgr s) = kb_tables_of l"

definition kb_active :: "kb_state \<Rightarrow> kb_table" where
  "kb_active s = (if kb_altgr s then kb_map_altgr s else if kb_shift s then kb_map_shift s else kb_map s)"

lemma kb_table_empty_60: "kb_table_bytes t ! 0x60 = 0"
  by (cases t) (simp_all add: kb_tables bytes_def nth_append)

lemma kb_find_Some:
  assumes "kb_find t c = Some k" "c \<noteq> 0"
  shows "unat k < 128" "kb_table_bytes t ! unat k = c" "k \<notin> {0x2A, 0x36, 0x3A, 0x38, 0x60}"
proof -
  obtain i where i: "i < 128" "kb_table_bytes t ! i = c" "k = of_nat i"
    using assms(1) by (auto simp: kb_find_def find_Some_iff)
  then have u: "unat k = i" using unat_of_nat_word [of i, where 'a = 8] by simp
  with i show "unat k < 128" "kb_table_bytes t ! unat k = c" by simp_all
  with assms(2) show "k \<notin> {0x2A, 0x36, 0x3A, 0x38, 0x60}"
    using kb_modifier_empty [of t] kb_table_empty_60 [of t] by auto
qed

lemma break_code:
  fixes k :: u8
  assumes "unat k < 128"
  shows "(k OR 0x80) AND 0x80 \<noteq> 0" "(k OR 0x80) AND 0x7F = k"
proof -
  have "k AND 0x7F = k" using assms by (simp add: word_unat_eq_iff u8_low7)
  then show "(k OR 0x80) AND 0x7F = k" by (simp add: bit.conj_disj_distrib2)
  have "(k OR 0x80) AND 0x80 = (k AND 0x80) OR 0x80" by (simp add: bit.conj_disj_distrib2)
  moreover have "k AND 0x80 = 0" using assms by (simp add: u8_sign_bit)
  ultimately show "(k OR 0x80) AND 0x80 \<noteq> 0" by simp
qed

lemma keyboard_break:
  assumes "unat k < 128" "k \<notin> {0x2A, 0x36, 0x60}" "\<not> kb_ext s"
  shows "keyboard_scancode (k OR 0x80) s = s"
proof -
  note b = break_code [OF assms(1)]
  have "k OR 0x80 \<noteq> 0xE0" using b(2) assms(2) by auto
  with b assms show ?thesis by (simp add: keyboard_scancode_def Let_def)
qed

lemma keyboard_make:
  assumes "unat k < 128" "k \<notin> {0x2A, 0x36, 0x3A}" "\<not> kb_ext s" "\<not> kb_caps s"
    "kb_table_bytes (kb_active s) ! unat k = c" "c \<noteq> 0"
  shows "keyboard_scancode k s = kb_push c s"
proof -
  have "k AND 0x80 = 0" "k \<noteq> 0xE0" using assms(1) by (auto simp: u8_sign_bit)
  moreover have "kb_push d (s\<lparr>kb_ext := False\<rparr>) = kb_push d s" for d
    using assms(3) by (simp add: kb_push_def Let_def)
  ultimately show ?thesis using assms
    by (auto simp: keyboard_scancode_def Let_def kb_active_def split: if_splits)
qed

lemma keyboard_press:
  assumes "kb_find (kb_active s) c = Some k" "c \<noteq> 0" "\<not> kb_ext s" "\<not> kb_caps s"
  shows "fold keyboard_scancode (press k) s = kb_push c s"
proof -
  note k = kb_find_Some [OF assms(1,2)]
  have "keyboard_scancode k s = kb_push c s"
    using k assms by (intro keyboard_make) auto
  moreover have "keyboard_scancode (k OR 0x80) (kb_push c s) = kb_push c s"
    using k assms by (intro keyboard_break) auto
  ultimately show ?thesis by (simp add: press_def)
qed

lemma kb_push_commute:
  "kb_push c (s\<lparr>kb_shift := b\<rparr>) = (kb_push c s)\<lparr>kb_shift := b\<rparr>"
  "kb_push c (s\<lparr>kb_altgr := b\<rparr>) = (kb_push c s)\<lparr>kb_altgr := b\<rparr>"
  "kb_push c (s\<lparr>kb_ext := b\<rparr>) = (kb_push c s)\<lparr>kb_ext := b\<rparr>"
  by (simp_all add: kb_push_def Let_def)

lemma keyboard_modifier_codes:
  "\<not> kb_ext s \<Longrightarrow> keyboard_scancode 0x2A s = s\<lparr>kb_shift := True\<rparr>"
  "\<not> kb_ext s \<Longrightarrow> keyboard_scancode 0xAA s = s\<lparr>kb_shift := False\<rparr>"
  "\<not> kb_ext s \<Longrightarrow> keyboard_scancode 0x38 (keyboard_scancode 0xE0 s) = s\<lparr>kb_altgr := True\<rparr>"
  "\<not> kb_ext s \<Longrightarrow> keyboard_scancode 0xB8 (keyboard_scancode 0xE0 s) = s\<lparr>kb_altgr := False\<rparr>"
  by (simp_all add: keyboard_scancode_def Let_def)

text \<open>One character: the strokes have exactly the effect of storing it.\<close>

lemma strokes_push:
  assumes "kb_idle l s" "kb_strokes l c = Some scs" "c \<noteq> 0"
  shows "fold keyboard_scancode scs s = kb_push c s"
proof -
  obtain p sh a where tabs: "kb_tables_of l = (p, sh, a)" by (cases "kb_tables_of l")
  note idle = assms(1) [unfolded kb_idle_def tabs]
  consider (plain) k where "kb_find p c = Some k" "scs = press k"
    | (shift) k where "kb_find sh c = Some k" "scs = [0x2A] @ press k @ [0xAA]"
    | (altgr) k where "kb_find a c = Some k" "scs = [0xE0, 0x38] @ press k @ [0xE0, 0xB8]"
    using assms(2) by (auto simp: kb_strokes_def tabs split: option.splits)
  then show ?thesis
  proof cases
    case plain
    with idle assms(3) show ?thesis by (simp add: keyboard_press kb_active_def)
  next
    case shift
    have "fold keyboard_scancode (press k) (s\<lparr>kb_shift := True\<rparr>) = (kb_push c s)\<lparr>kb_shift := True\<rparr>"
      using idle shift assms(3) keyboard_press [of "s\<lparr>kb_shift := True\<rparr>"]
      by (simp add: kb_active_def kb_push_commute)
    with shift idle show ?thesis by (simp add: keyboard_modifier_codes)
  next
    case altgr
    have "fold keyboard_scancode (press k) (s\<lparr>kb_altgr := True\<rparr>) = (kb_push c s)\<lparr>kb_altgr := True\<rparr>"
      using idle altgr assms(3) keyboard_press [of "s\<lparr>kb_altgr := True\<rparr>"]
      by (simp add: kb_active_def kb_push_commute)
    with altgr idle show ?thesis by (simp add: keyboard_modifier_codes)
  qed
qed

text \<open>A whole text: its strokes, one character after the other.\<close>

fun kb_type :: "kb_layout \<Rightarrow> u8 list \<Rightarrow> u8 list option" where
  "kb_type l [] = Some []"
| "kb_type l (c # cs) =
     (case kb_strokes l c of None \<Rightarrow> None
      | Some k \<Rightarrow> map_option (\<lambda>ks. k @ ks) (kb_type l cs))"

lemma kb_idle_push: "kb_idle l s \<Longrightarrow> kb_idle l (kb_push c s)"
  by (simp add: kb_idle_def)

lemma type_pushes:
  assumes "kb_idle l s" "kb_type l cs = Some scs" "0 \<notin> set cs"
  shows "fold keyboard_scancode scs s = fold kb_push cs s \<and> kb_idle l (fold kb_push cs s)"
  using assms
proof (induction cs arbitrary: scs s)
  case (Cons c cs)
  then obtain k ks where k: "kb_strokes l c = Some k" "kb_type l cs = Some ks" "scs = k @ ks"
    by (auto split: option.splits)
  have "fold keyboard_scancode k s = kb_push c s"
    using strokes_push [OF Cons.prems(1) k(1)] Cons.prems(3) by auto
  with Cons.IH [OF kb_idle_push [OF Cons.prems(1)] k(2)] Cons.prems(3) k(3) show ?case by simp
qed simp

lemma pushes_contents:
  "kb_inv s \<Longrightarrow> kb_inv (fold kb_push cs s) \<and>
     kb_contents (fold kb_push cs s) = take (KB_BUFFER_SIZE - 1) (kb_contents s @ cs)"
proof (induction cs arbitrary: s)
  case Nil
  then show ?case using kb_count_less [of s] by (simp add: KB_BUFFER_SIZE_def)
next
  case (Cons c cs)
  note IH = Cons.IH [OF kb_push_inv [OF Cons.prems, of c]]
  show ?case
  proof (cases "kb_count s < KB_BUFFER_SIZE - 1")
    case True
    with IH kb_contents_push [OF Cons.prems, of c] show ?thesis
      by (simp del: take_append)
  next
    case False
    with IH kb_contents_push [OF Cons.prems, of c] show ?thesis by simp
  qed
qed

text \<open>
  C7: Typing round trip. From a keyboard at rest on layout \<open>l\<close>, the scancodes of the keystrokes
  (with Shift or AltGr where the character needs them) that type a text leave exactly that text
  at the end of the input buffer, cut at the capacity of 127 characters, and the keyboard at rest.
\<close>

theorem keyboard_types_text:
  assumes "kb_inv s" "kb_idle l s" "kb_type l cs = Some scs" "0 \<notin> set cs"
  shows "kb_contents (fold keyboard_scancode scs s) =
      take (KB_BUFFER_SIZE - 1) (kb_contents s @ cs) \<and>
    kb_idle l (fold keyboard_scancode scs s)"
  using type_pushes [OF assms(2,3,4)] pushes_contents [OF assms(1), of cs] by simp_all

section \<open>What scancodes offer, apart from the buffer\<close>

text \<open>
  Modifiers, prefix and layout decide which character a scancode offers; the positions in the buffer
  do not. \<open>kb_offers\<close> are the characters that a sequence of scancodes offers to a buffer that never
  fills.
\<close>

definition kb_mods :: "kb_state \<Rightarrow> bool \<times> bool \<times> bool \<times> bool \<times> kb_table \<times> kb_table \<times> kb_table" where
  "kb_mods s = (kb_shift s, kb_altgr s, kb_caps s, kb_ext s, kb_map s, kb_map_shift s, kb_map_altgr s)"

definition kb_emptied :: "kb_state \<Rightarrow> kb_state" where
  "kb_emptied s = s\<lparr>kb_buffer := replicate KB_BUFFER_SIZE 0, kb_head := 0, kb_tail := 0\<rparr>"

definition kb_offered :: "u8 \<Rightarrow> kb_state \<Rightarrow> u8 list" where
  "kb_offered sc s = kb_contents (keyboard_scancode sc (kb_emptied s))"

primrec kb_offers :: "u8 list \<Rightarrow> kb_state \<Rightarrow> u8 list" where
  "kb_offers [] s = []"
| "kb_offers (sc # scs) s = kb_offered sc s @ kb_offers scs (keyboard_scancode sc s)"

lemma kb_emptied_facts [simp]:
  "kb_inv (kb_emptied s)" "kb_contents (kb_emptied s) = []" "kb_mods (kb_emptied s) = kb_mods s"
  "kb_idle l (kb_emptied s) = kb_idle l s"
  by (simp_all add: kb_emptied_def kb_inv_def kb_contents_def kb_count_def kb_mods_def kb_idle_def KB_BUFFER_SIZE_def)

lemma kb_mods_frame [simp]:
  "kb_inv (s\<lparr>kb_ext := b\<rparr>) = kb_inv s" "kb_count (s\<lparr>kb_ext := b\<rparr>) = kb_count s"
  "kb_contents (s\<lparr>kb_ext := b\<rparr>) = kb_contents s" "kb_contents (s\<lparr>kb_shift := b\<rparr>) = kb_contents s"
  "kb_contents (s\<lparr>kb_altgr := b\<rparr>) = kb_contents s" "kb_contents (s\<lparr>kb_caps := b\<rparr>) = kb_contents s"
  by (simp_all add: kb_inv_def kb_count_def kb_contents_def)

text \<open>The character on a key, and a key that is no modifier.\<close>

definition kb_char :: "u8 \<Rightarrow> kb_state \<Rightarrow> u8" where
  "kb_char sc s =
     (let c = (if kb_altgr s then kb_table_bytes (kb_map_altgr s) ! unat sc
          else if kb_shift s then kb_table_bytes (kb_map_shift s) ! unat sc else kb_table_bytes (kb_map s) ! unat sc)
      in if kb_caps s \<and> ((97 <=s c \<and> c <=s 122) \<or> (65 <=s c \<and> c <=s 90)) then c XOR 0x20 else c)"

lemma keyboard_scancode_key:
  assumes "sc \<noteq> 0xE0" "sc AND 0x80 = 0" "sc \<noteq> 0x2A" "sc \<noteq> 0x36" "sc \<noteq> 0x3A" "\<not> (kb_ext s \<and> sc = 0x38)"
  shows "keyboard_scancode sc s = (if kb_char sc s \<noteq> 0 then kb_push (kb_char sc s) (s\<lparr>kb_ext := False\<rparr>) else s\<lparr>kb_ext := False\<rparr>)"
  using assms by (cases "sc = 0x38") (simp_all add: keyboard_scancode_def kb_char_def Let_def cong: if_cong split del: if_split)

text \<open>Two keyboards with the same modifiers take a scancode the same way.\<close>

lemma keyboard_scancode_same:
  assumes "kb_mods s = kb_mods t"
  shows "kb_mods (keyboard_scancode sc s) = kb_mods (keyboard_scancode sc t)" (is ?mods)
    and "(kb_contents (keyboard_scancode sc s) = kb_contents s \<and> kb_contents (keyboard_scancode sc t) = kb_contents t) \<or>
      (\<exists>c. keyboard_scancode sc s = kb_push c (s\<lparr>kb_ext := False\<rparr>) \<and>
        keyboard_scancode sc t = kb_push c (t\<lparr>kb_ext := False\<rparr>))" (is ?char)
proof -
  have eq: "kb_shift t = kb_shift s" "kb_altgr t = kb_altgr s" "kb_caps t = kb_caps s" "kb_ext t = kb_ext s"
    "kb_map t = kb_map s" "kb_map_shift t = kb_map_shift s" "kb_map_altgr t = kb_map_altgr s"
    using assms by (simp_all add: kb_mods_def)
  let ?k = "sc = 0xE0 \<or> sc AND 0x80 \<noteq> 0 \<or> sc = 0x2A \<or> sc = 0x36 \<or> sc = 0x3A \<or> kb_ext s \<and> sc = 0x38"
  have char: "kb_char sc t = kb_char sc s" using eq by (simp add: kb_char_def)
  have key: "\<exists>c. keyboard_scancode sc s = (if c \<noteq> 0 then kb_push c (s\<lparr>kb_ext := False\<rparr>) else s\<lparr>kb_ext := False\<rparr>) \<and>
      keyboard_scancode sc t = (if c \<noteq> 0 then kb_push c (t\<lparr>kb_ext := False\<rparr>) else t\<lparr>kb_ext := False\<rparr>)" if "\<not> ?k"
    using that keyboard_scancode_key [of sc s] keyboard_scancode_key [of sc t] eq(4) char
    by (intro exI [of _ "kb_char sc s"]) simp
  show ?mods
  proof (cases ?k)
    case True
    then show ?thesis using eq by (elim disjE) (simp_all add: keyboard_scancode_def Let_def kb_mods_def)
  next
    case False
    from key [OF this] obtain c where "keyboard_scancode sc s = (if c \<noteq> 0 then kb_push c (s\<lparr>kb_ext := False\<rparr>) else s\<lparr>kb_ext := False\<rparr>)"
      "keyboard_scancode sc t = (if c \<noteq> 0 then kb_push c (t\<lparr>kb_ext := False\<rparr>) else t\<lparr>kb_ext := False\<rparr>)"
      by blast
    then show ?thesis using eq by (cases "c = 0") (simp_all add: kb_mods_def)
  qed
  show ?char
  proof (cases ?k)
    case True
    then show ?thesis using eq by (intro disjI1, elim disjE) (simp_all add: keyboard_scancode_def Let_def)
  next
    case False
    from key [OF this] obtain c where c: "keyboard_scancode sc s = (if c \<noteq> 0 then kb_push c (s\<lparr>kb_ext := False\<rparr>) else s\<lparr>kb_ext := False\<rparr>)"
      "keyboard_scancode sc t = (if c \<noteq> 0 then kb_push c (t\<lparr>kb_ext := False\<rparr>) else t\<lparr>kb_ext := False\<rparr>)"
      by blast
    then show ?thesis by (cases "c = 0") auto
  qed
qed

lemma kb_offered_same: "kb_mods s = kb_mods t \<Longrightarrow> kb_offered sc s = kb_offered sc t"
  using keyboard_scancode_same(2) [of "kb_emptied s" "kb_emptied t" sc]
  by (auto simp: kb_offered_def kb_contents_push)

lemma kb_offers_same: "kb_mods s = kb_mods t \<Longrightarrow> kb_offers scs s = kb_offers scs t"
proof (induction scs arbitrary: s t)
  case (Cons sc scs)
  from Cons.IH [OF keyboard_scancode_same(1) [OF Cons.prems]] kb_offered_same [OF Cons.prems] show ?case by simp
qed simp

text \<open>What is offered is stored unless the buffer is full.\<close>

lemma kb_offered_stored:
  assumes "kb_inv s"
  shows "kb_contents (keyboard_scancode sc s) =
    (if kb_count s < KB_BUFFER_SIZE - 1 then kb_contents s @ kb_offered sc s else kb_contents s)"
  using keyboard_scancode_same(2) [of s "kb_emptied s" sc] assms
    length_kb_contents [of "kb_emptied s"]
  by (auto simp: kb_offered_def kb_contents_push KB_BUFFER_SIZE_def)

lemma kb_offers_stored:
  "kb_inv s \<Longrightarrow> kb_contents (fold keyboard_scancode scs s) = take (KB_BUFFER_SIZE - 1) (kb_contents s @ kb_offers scs s)"
proof (induction scs arbitrary: s)
  case Nil
  then show ?case using kb_count_less [of s] by (simp add: KB_BUFFER_SIZE_def)
next
  case (Cons sc scs)
  note IH = Cons.IH [OF keyboard_scancode_inv [OF Cons.prems, of sc]] and st = kb_offered_stored [OF Cons.prems, of sc]
  show ?case
  proof (cases "kb_count s < KB_BUFFER_SIZE - 1")
    case True
    with IH st show ?thesis by (simp del: take_append)
  next
    case False
    with IH st show ?thesis by simp
  qed
qed

lemma kb_offers_append: "kb_offers (k @ ks) s = kb_offers k s @ kb_offers ks (fold keyboard_scancode k s)"
  by (induction k arbitrary: s) simp_all

text \<open>The strokes of a text offer the text.\<close>

lemma kb_strokes_offer:
  assumes "kb_idle l s" "kb_strokes l c = Some k" "c \<noteq> 0"
  shows "kb_offers k s = [c]"
proof -
  have "fold keyboard_scancode k (kb_emptied s) = kb_push c (kb_emptied s)"
    using strokes_push [of l "kb_emptied s"] assms by simp
  then have "take (KB_BUFFER_SIZE - 1) (kb_offers k (kb_emptied s)) = [c]"
    using kb_offers_stored [of "kb_emptied s" k] kb_contents_push [of "kb_emptied s" c]
      length_kb_contents [of "kb_emptied s"] by (simp add: KB_BUFFER_SIZE_def)
  then have "kb_offers k (kb_emptied s) = [c]"
    by (cases "kb_offers k (kb_emptied s)") (auto simp: KB_BUFFER_SIZE_def take_Cons' split: if_splits)
  then show ?thesis using kb_offers_same [of "kb_emptied s" s k] by simp
qed

lemma kb_type_offers:
  "kb_idle l s \<Longrightarrow> kb_type l cs = Some scs \<Longrightarrow> 0 \<notin> set cs \<Longrightarrow> kb_offers scs s = cs"
proof (induction cs arbitrary: scs s)
  case (Cons c cs)
  then obtain k ks where k: "kb_strokes l c = Some k" "kb_type l cs = Some ks" "scs = k @ ks"
    by (auto split: option.splits)
  have "fold keyboard_scancode k s = kb_push c s"
    using strokes_push [OF Cons.prems(1) k(1)] Cons.prems(3) by auto
  with Cons.IH [OF kb_idle_push [OF Cons.prems(1)] k(2)] kb_strokes_offer [OF Cons.prems(1) k(1)] Cons.prems(3) k(3)
  show ?case by (simp add: kb_offers_append)
qed simp

section \<open>The handler against a reader that it interrupts\<close>

text \<open>
  \<open>keyboard_getchar\<close> reads \<open>kb_buffer[kb_tail]\<close> and advances \<open>kb_tail\<close> in two separate accesses,
  and IRQ1 may come between them. The handler runs with interrupts off, so it is one step. The
  system keeps the reader's program counter, and, for the statements only, the scancodes received,
  every character that was stored and every character that was delivered. While the buffer is empty
  the reader waits and has no step of its own.
\<close>

datatype reader_pc = Waiting | Sampled u8

record kb_sys =
  sys_kb :: kb_state
  sys_pc :: reader_pc
  sys_codes :: "u8 list"
  sys_stored :: "u8 list"
  sys_delivered :: "u8 list"

definition kb_boot :: "kb_state \<Rightarrow> kb_sys" where
  "kb_boot s = \<lparr>sys_kb = keyboard_init s, sys_pc = Waiting, sys_codes = [], sys_stored = [], sys_delivered = []\<rparr>"

definition sys_irq :: "u8 \<Rightarrow> kb_sys \<Rightarrow> kb_sys" where
  "sys_irq sc S = S\<lparr>sys_kb := keyboard_scancode sc (sys_kb S), sys_codes := sys_codes S @ [sc],
     sys_stored := sys_stored S @ drop (kb_count (sys_kb S)) (kb_contents (keyboard_scancode sc (sys_kb S)))\<rparr>"

inductive kb_irq :: "kb_sys \<Rightarrow> kb_sys \<Rightarrow> bool" where
  irq: "kb_irq S (sys_irq sc S)"

inductive kb_read :: "kb_sys \<Rightarrow> kb_sys \<Rightarrow> bool" where
  sample: "sys_pc S = Waiting \<Longrightarrow> kb_head (sys_kb S) \<noteq> kb_tail (sys_kb S) \<Longrightarrow>
    kb_read S (S\<lparr>sys_pc := Sampled (kb_buffer (sys_kb S) ! unat (kb_tail (sys_kb S)))\<rparr>)"
| advance: "sys_pc S = Sampled c \<Longrightarrow>
    kb_read S (S\<lparr>sys_kb := (sys_kb S)\<lparr>kb_tail :=
          of_nat ((unat (kb_tail (sys_kb S)) + 1) mod KB_BUFFER_SIZE)\<rparr>,
      sys_pc := Waiting, sys_delivered := sys_delivered S @ [c]\<rparr>)"

inductive_cases kb_irqE: "kb_irq S S'"
inductive_cases kb_readE: "kb_read S S'"

definition kb_step :: "kb_sys \<Rightarrow> kb_sys \<Rightarrow> bool" where
  "kb_step S S' \<longleftrightarrow> kb_irq S S' \<or> kb_read S S'"

definition kb_sys_inv :: "kb_state \<Rightarrow> kb_sys \<Rightarrow> bool" where
  "kb_sys_inv s S \<longleftrightarrow> kb_inv (sys_kb S) \<and>
     sys_stored S = sys_delivered S @ kb_contents (sys_kb S) \<and>
     (\<forall>c. sys_pc S = Sampled c \<longrightarrow> (\<exists>cs. kb_contents (sys_kb S) = c # cs)) \<and>
     kb_mods (sys_kb S) = kb_mods (fold keyboard_scancode (sys_codes S) s) \<and>
     subseq (sys_stored S) (kb_offers (sys_codes S) s) \<and>
     (length (kb_offers (sys_codes S) s) \<le> KB_BUFFER_SIZE - 1 \<longrightarrow> sys_stored S = kb_offers (sys_codes S) s)"

lemma keyboard_init_empty:
  "length (kb_buffer s) = KB_BUFFER_SIZE \<Longrightarrow> kb_inv (keyboard_init s) \<and> kb_contents (keyboard_init s) = []"
  by (simp add: keyboard_init_def keyboard_set_layout_def kb_inv_def kb_contents_def kb_count_def
      KB_BUFFER_SIZE_def)

lemma keyboard_init_idle: "kb_idle KB_LAYOUT_ABNT2 (keyboard_init s)"
  by (simp add: keyboard_init_def keyboard_set_layout_def kb_idle_def kb_tables_of_def)

text \<open>The two accesses of the reader, taken together, are \<open>keyboard_getchar\<close>.\<close>

lemma reader_is_getchar:
  "kb_head s \<noteq> kb_tail s \<Longrightarrow> keyboard_getchar s = Some (kb_buffer s ! unat (kb_tail s),
      s\<lparr>kb_tail := of_nat ((unat (kb_tail s) + 1) mod KB_BUFFER_SIZE)\<rparr>)"
  by (simp add: keyboard_getchar_def)

lemma contents_ne: "kb_inv s \<Longrightarrow> kb_contents s = c # cs \<Longrightarrow>
    kb_head s \<noteq> kb_tail s \<and> kb_buffer s ! unat (kb_tail s) = c"
proof -
  assume a: "kb_inv s" "kb_contents s = c # cs"
  then have ne: "kb_head s \<noteq> kb_tail s"
    using keyboard_has_data_iff [of s] by (simp add: keyboard_has_data_def)
  from keyboard_getchar_contents(2) [OF a(1) reader_is_getchar [OF ne]] a(2) ne
  show "kb_head s \<noteq> kb_tail s \<and> kb_buffer s ! unat (kb_tail s) = c" by simp
qed

text \<open>An interrupt appends what it stores; it leaves the reader and the old contents alone.\<close>

lemma sys_irq_effect:
  assumes "kb_inv (sys_kb S)"
  shows "\<exists>cs. kb_contents (sys_kb (sys_irq sc S)) = kb_contents (sys_kb S) @ cs \<and>
    sys_stored (sys_irq sc S) = sys_stored S @ cs \<and>
    cs = (if kb_count (sys_kb S) < KB_BUFFER_SIZE - 1 then kb_offered sc (sys_kb S) else [])"
  using kb_offered_stored [OF assms, of sc] by (simp add: sys_irq_def)

lemma kb_irq_inv:
  assumes "kb_sys_inv s S"
  shows "kb_sys_inv s (sys_irq sc S)"
proof -
  let ?S = "sys_irq sc S"
  have inv: "kb_inv (sys_kb S)" "sys_stored S = sys_delivered S @ kb_contents (sys_kb S)"
    "kb_mods (sys_kb S) = kb_mods (fold keyboard_scancode (sys_codes S) s)"
    using assms by (simp_all add: kb_sys_inv_def)
  obtain cs where cs: "kb_contents (sys_kb ?S) = kb_contents (sys_kb S) @ cs" "sys_stored ?S = sys_stored S @ cs"
    "cs = (if kb_count (sys_kb S) < KB_BUFFER_SIZE - 1 then kb_offered sc (sys_kb S) else [])"
    using sys_irq_effect [OF inv(1), of sc] by blast
  have frame: "sys_pc ?S = sys_pc S" "sys_delivered ?S = sys_delivered S" "sys_codes ?S = sys_codes S @ [sc]"
    "sys_kb ?S = keyboard_scancode sc (sys_kb S)" by (simp_all add: sys_irq_def)
  have offers: "kb_offers (sys_codes ?S) s = kb_offers (sys_codes S) s @ kb_offered sc (sys_kb S)"
    using kb_offered_same [OF inv(3), of sc] by (simp add: frame kb_offers_append)
  have "subseq (sys_stored S) (kb_offers (sys_codes S) s)" using assms unfolding kb_sys_inv_def by blast
  moreover have "subseq cs (kb_offered sc (sys_kb S))" using cs(3) by simp
  ultimately have "subseq (sys_stored ?S) (kb_offers (sys_codes ?S) s)"
    unfolding cs(2) offers by (rule list_emb_append_mono)
  moreover have "sys_stored ?S = kb_offers (sys_codes ?S) s" if "length (kb_offers (sys_codes ?S) s) \<le> KB_BUFFER_SIZE - 1"
  proof -
    have "length (kb_offers (sys_codes S) s) \<le> KB_BUFFER_SIZE - 1" using that by (simp add: offers)
    then have st: "sys_stored S = kb_offers (sys_codes S) s" using assms unfolding kb_sys_inv_def by blast
    have "kb_count (sys_kb S) \<le> length (sys_stored S)" using inv(2) by simp
    with st that have "kb_count (sys_kb S) < KB_BUFFER_SIZE - 1 \<or> kb_offered sc (sys_kb S) = []"
      by (cases "kb_offered sc (sys_kb S)") (auto simp: offers)
    then show ?thesis using st cs(2,3) offers by auto
  qed
  moreover have "kb_mods (sys_kb ?S) = kb_mods (fold keyboard_scancode (sys_codes ?S) s)"
    using keyboard_scancode_same(1) [OF inv(3), of sc] by (simp add: frame)
  ultimately show ?thesis
    using assms cs(1,2) by (auto simp: kb_sys_inv_def frame keyboard_scancode_inv)
qed

lemma kb_read_inv: "kb_read S S' \<Longrightarrow> kb_sys_inv s S \<Longrightarrow> kb_sys_inv s S'"
proof (induction rule: kb_read.induct)
  case (sample S)
  then show ?case
    using keyboard_getchar_contents(2) [OF _ reader_is_getchar [OF sample(2)]]
    by (auto simp: kb_sys_inv_def)
next
  case (advance S c)
  then obtain cs where cs: "kb_contents (sys_kb S) = c # cs" "kb_inv (sys_kb S)"
    by (auto simp: kb_sys_inv_def)
  note ne = contents_ne [OF cs(2,1)]
  from keyboard_getchar_contents [OF cs(2) reader_is_getchar [OF conjunct1 [OF ne]]] cs advance
  show ?case by (auto simp: kb_sys_inv_def kb_mods_def)
qed

lemma kb_step_inv: "kb_step S S' \<Longrightarrow> kb_sys_inv s S \<Longrightarrow> kb_sys_inv s S'"
  by (auto simp: kb_step_def elim!: kb_irqE intro: kb_irq_inv kb_read_inv)

lemma kb_reach_inv:
  "kb_step\<^sup>*\<^sup>* S S' \<Longrightarrow> kb_sys_inv s S \<Longrightarrow> kb_sys_inv s S'"
  by (induction rule: rtranclp_induct) (auto intro: kb_step_inv)

lemma kb_boot_inv:
  "length (kb_buffer s) = KB_BUFFER_SIZE \<Longrightarrow> kb_step\<^sup>*\<^sup>* (kb_boot s) S \<Longrightarrow> kb_sys_inv (keyboard_init s) S"
  by (erule kb_reach_inv) (use keyboard_init_empty [of s] in \<open>simp add: kb_sys_inv_def kb_boot_def\<close>)

text \<open>
  C8: However the interrupt handler and the reader interleave, the ring buffer stays well formed and
  below its capacity, and what the reader has delivered, followed by what the buffer still holds, is
  what the handler has stored: no character is lost once stored, repeated or reordered. When the
  scancodes that came in are the strokes of a text, what is stored is a subsequence of the text, and
  all of it when the text fits into the buffer, wherever the reader's steps fell among the strokes.
\<close>

theorem keyboard_interleaving:
  assumes "length (kb_buffer s) = KB_BUFFER_SIZE" "kb_step\<^sup>*\<^sup>* (kb_boot s) S"
  shows "kb_inv (sys_kb S) \<and> length (kb_contents (sys_kb S)) \<le> KB_BUFFER_SIZE - 1 \<and>
    sys_stored S = sys_delivered S @ kb_contents (sys_kb S) \<and>
    (\<forall>cs. kb_type KB_LAYOUT_ABNT2 cs = Some (sys_codes S) \<and> 0 \<notin> set cs \<longrightarrow>
      subseq (sys_delivered S @ kb_contents (sys_kb S)) cs \<and>
      (length cs \<le> KB_BUFFER_SIZE - 1 \<longrightarrow> sys_delivered S @ kb_contents (sys_kb S) = cs))"
  using kb_boot_inv [OF assms] kb_count_less [of "sys_kb S"] kb_type_offers [OF keyboard_init_idle]
  by (auto simp: kb_sys_inv_def KB_BUFFER_SIZE_def)

text \<open>Any number of interrupts leave the reader where it was and the old contents in front.\<close>

lemma kb_irqs_frame:
  "kb_irq\<^sup>*\<^sup>* S S' \<Longrightarrow> kb_sys_inv s S \<Longrightarrow> kb_sys_inv s S' \<and> sys_pc S' = sys_pc S \<and>
     sys_delivered S' = sys_delivered S \<and> (\<exists>new. kb_contents (sys_kb S') = kb_contents (sys_kb S) @ new)"
proof (induction rule: rtranclp_induct)
  case (step S1 S2)
  then obtain sc where "S2 = sys_irq sc S1" by (auto elim: kb_irqE)
  moreover from step have S1: "kb_sys_inv s S1" by blast
  moreover have "sys_pc (sys_irq sc S1) = sys_pc S1" "sys_delivered (sys_irq sc S1) = sys_delivered S1"
    by (simp_all add: sys_irq_def)
  moreover obtain cs where "kb_contents (sys_kb (sys_irq sc S1)) = kb_contents (sys_kb S1) @ cs"
    using sys_irq_effect [of S1 sc] S1 unfolding kb_sys_inv_def by blast
  ultimately show ?case using step kb_irq_inv [of s S1 sc] by auto
qed simp

text \<open>The steps of the reader, from a state with a character in front.\<close>

lemma kb_read_waiting:
  assumes "kb_inv (sys_kb S)" "sys_pc S = Waiting" "kb_contents (sys_kb S) = c # cs"
  shows "kb_read S S' \<longleftrightarrow> S' = S\<lparr>sys_pc := Sampled c\<rparr>"
proof -
  note ne = contents_ne [OF assms(1,3)]
  show ?thesis using kb_read.sample [OF assms(2) conjunct1 [OF ne]] ne assms(2) by (auto elim: kb_readE)
qed

lemma kb_read_sampled:
  assumes "kb_inv (sys_kb S)" "sys_pc S = Sampled c" "kb_contents (sys_kb S) = c # cs"
  shows "\<exists>S'. kb_read S S'"
    and "kb_read S S' \<Longrightarrow> sys_pc S' = Waiting \<and> sys_delivered S' = sys_delivered S @ [c] \<and>
      kb_contents (sys_kb S') = cs \<and> keyboard_getchar (sys_kb S) = Some (c, sys_kb S')"
proof -
  show "\<exists>S'. kb_read S S'" using kb_read.advance [OF assms(2)] by blast
  assume "kb_read S S'"
  moreover note ne = contents_ne [OF assms(1,3)]
  note get = reader_is_getchar [OF conjunct1 [OF ne]]
  ultimately show "sys_pc S' = Waiting \<and> sys_delivered S' = sys_delivered S @ [c] \<and>
      kb_contents (sys_kb S') = cs \<and> keyboard_getchar (sys_kb S) = Some (c, sys_kb S')"
    using assms(2,3) keyboard_getchar_contents(2) [OF assms(1) get] ne get
    by (auto elim!: kb_readE)
qed

text \<open>
  C10: A waiting reader is served by two of its own steps, whatever the interrupt handler does before
  and between them: from any reachable state with a character stored, after any number of interrupts
  the reader has a step; after that step and again any number of interrupts it has another; and that
  one delivers the oldest character, which is what \<open>keyboard_getchar\<close> returns there, leaving the
  others, and what the interrupts added, in the buffer.
\<close>

theorem keyboard_reader_served:
  assumes "length (kb_buffer s) = KB_BUFFER_SIZE" "kb_step\<^sup>*\<^sup>* (kb_boot s) S"
    "sys_pc S = Waiting" "kb_contents (sys_kb S) = c # cs" "kb_irq\<^sup>*\<^sup>* S S1"
  shows "(\<exists>S2. kb_read S1 S2) \<and>
    (\<forall>S2 S3. kb_read S1 S2 \<and> kb_irq\<^sup>*\<^sup>* S2 S3 \<longrightarrow> (\<exists>S4. kb_read S3 S4) \<and>
      (\<forall>S4. kb_read S3 S4 \<longrightarrow> sys_pc S4 = Waiting \<and> sys_delivered S4 = sys_delivered S @ [c] \<and>
        keyboard_getchar (sys_kb S3) = Some (c, sys_kb S4) \<and> (\<exists>new. kb_contents (sys_kb S4) = cs @ new)))"
proof -
  have S: "kb_sys_inv (keyboard_init s) S" by (rule kb_boot_inv [OF assms(1,2)])
  obtain n1 where S1: "kb_sys_inv (keyboard_init s) S1" "sys_pc S1 = Waiting" "sys_delivered S1 = sys_delivered S"
    "kb_contents (sys_kb S1) = c # cs @ n1"
    using kb_irqs_frame [OF assms(5) S] assms(3,4) by auto
  then have inv1: "kb_inv (sys_kb S1)" by (simp add: kb_sys_inv_def)
  note sample = kb_read_waiting [OF inv1 S1(2,4)]
  have "(\<exists>S4. kb_read S3 S4) \<and> (\<forall>S4. kb_read S3 S4 \<longrightarrow> sys_pc S4 = Waiting \<and>
      sys_delivered S4 = sys_delivered S @ [c] \<and> keyboard_getchar (sys_kb S3) = Some (c, sys_kb S4) \<and> (\<exists>new. kb_contents (sys_kb S4) = cs @ new))"
    if r: "kb_read S1 S2" "kb_irq\<^sup>*\<^sup>* S2 S3" for S2 S3
  proof -
    have "S2 = S1\<lparr>sys_pc := Sampled c\<rparr>" using sample r(1) by simp
    then obtain n2 where S3: "kb_inv (sys_kb S3)" "sys_pc S3 = Sampled c" "sys_delivered S3 = sys_delivered S"
      "kb_contents (sys_kb S3) = c # cs @ n1 @ n2"
      using kb_irqs_frame [OF r(2) kb_read_inv [OF r(1) S1(1)]] S1(3,4) by (auto simp: kb_sys_inv_def)
    from kb_read_sampled [OF S3(1,2,4)] S3(3) show ?thesis by auto
  qed
  then show ?thesis using sample by blast
qed

section \<open>Runs of the buffer, layouts and reachability of characters\<close>

text \<open>
  C9: First in, first out, over any run of stores and (non-blocking) reads: what is read, followed
  by what is still buffered, is the old contents followed by a subsequence of the characters
  offered; and when they all fit, by exactly the characters offered.
\<close>

theorem keyboard_fifo:
  assumes "kb_inv s"
  shows "(\<exists>acc. subseq acc (pushes ops) \<and>
      fst (fifo_run kb_push keyboard_getchar ops s) @
        kb_contents (snd (fifo_run kb_push keyboard_getchar ops s)) = kb_contents s @ acc) \<and>
    (kb_count s + length (pushes ops) \<le> KB_BUFFER_SIZE - 1 \<longrightarrow>
      fst (fifo_run kb_push keyboard_getchar ops s) @
        kb_contents (snd (fifo_run kb_push keyboard_getchar ops s)) = kb_contents s @ pushes ops)"
  using kb_fifo.run_order [OF assms] kb_fifo.run_lossless [OF assms, of ops] by simp

text \<open>
  After any sequence of scancodes, Caps Lock is its initial value flipped once per Caps Lock
  press, and Shift is held exactly when the last event on a Shift key was a press.
\<close>

theorem keyboard_modifiers:
  "kb_caps (fold keyboard_scancode scs s) = (kb_caps s \<noteq> odd (count_list scs 0x3A)) \<and>
   kb_shift (fold keyboard_scancode scs s) =
     (case rev (filter (\<lambda>sc. sc \<in> shift_codes) scs) of
        [] \<Rightarrow> kb_shift s
      | sc # _ \<Rightarrow> sc AND 0x80 = 0)"
  by (simp add: caps_run shift_run)

lemma layout_of_tables: "keyboard_get_layout (keyboard_set_layout l s) = l"
  by (cases l) (simp_all add: keyboard_get_layout_def keyboard_set_layout_def)

lemma scancode_layout: "keyboard_get_layout (keyboard_scancode sc s) = keyboard_get_layout s"
  by (simp add: keyboard_get_layout_def keyboard_scancode_def Let_def)

lemma scancodes_layout: "keyboard_get_layout (fold keyboard_scancode scs s) = keyboard_get_layout s"
  by (induction scs arbitrary: s) (simp_all add: scancode_layout)

text \<open>
  The layout reported is the one last set, whatever was typed since; setting it keeps the
  characters already buffered.
\<close>

theorem keyboard_layout_roundtrip:
  "keyboard_get_layout (fold keyboard_scancode scs (keyboard_set_layout l s)) = l \<and>
   kb_contents (keyboard_set_layout l s) = kb_contents s"
proof
  show "keyboard_get_layout (fold keyboard_scancode scs (keyboard_set_layout l s)) = l"
    by (simp add: scancodes_layout layout_of_tables)
  show "kb_contents (keyboard_set_layout l s) = kb_contents s"
    by (simp add: keyboard_set_layout_def kb_contents_def kb_count_def)
qed

section \<open>Witnesses\<close>

definition kb_example :: kb_state where
  "kb_example = keyboard_init \<lparr>kb_buffer = replicate 128 0, kb_head = 5, kb_tail = 9,
     kb_shift = True, kb_altgr = False, kb_caps = True, kb_ext = False,
     kb_map = Tab_us, kb_map_shift = Tab_us, kb_map_altgr = Tab_us\<rparr>"

lemma kb_example_ready:
  "kb_inv kb_example" "kb_contents kb_example = []" "kb_idle KB_LAYOUT_ABNT2 kb_example"
  using keyboard_init_empty [of "\<lparr>kb_buffer = replicate 128 0, kb_head = 5, kb_tail = 9,
     kb_shift = True, kb_altgr = False, kb_caps = True, kb_ext = False,
     kb_map = Tab_us, kb_map_shift = Tab_us, kb_map_altgr = Tab_us\<rparr>"]
  by (simp_all add: kb_example_def KB_BUFFER_SIZE_def kb_idle_def kb_tables_of_def keyboard_init_def
      keyboard_set_layout_def)

lemma kb_example_strokes:
  "kb_type KB_LAYOUT_ABNT2 (bytes ''aB?'') =
     Some [0x1E, 0x9E, 0x2A, 0x30, 0xB0, 0xAA, 0x2A, 0x73, 0xF3, 0xAA]"
  by code_simp

lemma keyboard_types_text_witness:
  "kb_contents (fold keyboard_scancode
      [0x1E, 0x9E, 0x2A, 0x30, 0xB0, 0xAA, 0x2A, 0x73, 0xF3, 0xAA] kb_example) = bytes ''aB?''"
  using keyboard_types_text [OF kb_example_ready(1,3) kb_example_strokes]
  by (simp add: kb_example_ready(2) KB_BUFFER_SIZE_def bytes_def)

definition kb_raw :: kb_state where
  "kb_raw = \<lparr>kb_buffer = replicate 128 0, kb_head = 0, kb_tail = 0,
     kb_shift = False, kb_altgr = False, kb_caps = False, kb_ext = False,
     kb_map = Tab_us, kb_map_shift = Tab_us, kb_map_altgr = Tab_us\<rparr>"

lemma kb_raw_length: "length (kb_buffer kb_raw) = KB_BUFFER_SIZE"
  by (simp add: kb_raw_def KB_BUFFER_SIZE_def)

text \<open>The a key is pressed; the reader samples; the key is released, b is pressed and released; the reader advances.\<close>

definition kb_a_pressed :: kb_sys where
  "kb_a_pressed = sys_irq 0x1E (kb_boot kb_raw)"

definition kb_ab_typed :: kb_sys where
  "kb_ab_typed = fold sys_irq [0x9E, 0x30, 0xB0] (kb_a_pressed\<lparr>sys_pc := Sampled 0x61\<rparr>)"

definition kb_a_read :: kb_sys where
  "kb_a_read = kb_ab_typed\<lparr>sys_kb := (sys_kb kb_ab_typed)\<lparr>kb_tail := 1\<rparr>, sys_pc := Waiting, sys_delivered := [0x61]\<rparr>"

lemma kb_run_facts:
  "kb_contents (sys_kb kb_a_pressed) = [0x61]" "sys_pc kb_a_pressed = Waiting" "sys_delivered kb_a_pressed = []"
  "kb_head (sys_kb kb_a_pressed) \<noteq> kb_tail (sys_kb kb_a_pressed)"
  "kb_buffer (sys_kb kb_a_pressed) ! unat (kb_tail (sys_kb kb_a_pressed)) = 0x61"
  "sys_pc kb_ab_typed = Sampled 0x61" "kb_tail (sys_kb kb_ab_typed) = 0" "sys_delivered kb_ab_typed = []"
  "kb_type KB_LAYOUT_ABNT2 [0x61, 0x62] = Some (sys_codes kb_a_read)" "sys_delivered kb_a_read = [0x61]"
  by code_simp+

lemma kb_a_pressed_reached: "kb_step\<^sup>*\<^sup>* (kb_boot kb_raw) kb_a_pressed"
  by (rule r_into_rtranclp) (simp add: kb_a_pressed_def kb_step_def kb_irq.irq)

lemma kb_a_read_steps:
  "kb_read kb_a_pressed (kb_a_pressed\<lparr>sys_pc := Sampled 0x61\<rparr>)"
  "kb_irq\<^sup>*\<^sup>* (kb_a_pressed\<lparr>sys_pc := Sampled 0x61\<rparr>) kb_ab_typed"
  "kb_read kb_ab_typed kb_a_read"
proof -
  show "kb_read kb_a_pressed (kb_a_pressed\<lparr>sys_pc := Sampled 0x61\<rparr>)"
    using kb_read.sample [OF kb_run_facts(2,4)] kb_run_facts(5) by simp
  have "kb_irq\<^sup>*\<^sup>* T (fold sys_irq scs T)" for scs T
    by (induction scs arbitrary: T) (auto intro: kb_irq.irq converse_rtranclp_into_rtranclp)
  then show "kb_irq\<^sup>*\<^sup>* (kb_a_pressed\<lparr>sys_pc := Sampled 0x61\<rparr>) kb_ab_typed" unfolding kb_ab_typed_def .
  show "kb_read kb_ab_typed kb_a_read"
    using kb_read.advance [OF kb_run_facts(6)] by (simp add: kb_a_read_def kb_run_facts KB_BUFFER_SIZE_def)
qed

lemma kb_a_read_reached: "kb_step\<^sup>*\<^sup>* (kb_boot kb_raw) kb_a_read"
proof -
  have "kb_step\<^sup>*\<^sup>* T T'" if "kb_irq\<^sup>*\<^sup>* T T'" for T T'
    using that by (rule rtranclp_mono [THEN predicate2D, rotated]) (auto simp: kb_step_def)
  with kb_a_pressed_reached kb_a_read_steps show ?thesis
    by (meson kb_step_def rtranclp.rtrancl_into_rtrancl rtranclp_trans)
qed

lemma keyboard_interleaving_witness:
  "sys_delivered kb_a_read = [0x61] \<and> kb_contents (sys_kb kb_a_read) = [0x62]"
  using keyboard_interleaving [OF kb_raw_length kb_a_read_reached] kb_run_facts(9,10)
  by (auto simp: KB_BUFFER_SIZE_def simp del: kb_type.simps)

lemma keyboard_reader_served_witness:
  "\<exists>S4. kb_read kb_ab_typed S4 \<and> sys_pc S4 = Waiting \<and> sys_delivered S4 = [0x61]"
  using keyboard_reader_served [OF kb_raw_length kb_a_pressed_reached kb_run_facts(2,1) rtranclp.rtrancl_refl]
    kb_a_read_steps kb_run_facts(3) by fastforce

lemma keyboard_fifo_witness:
  "fst (fifo_run kb_push keyboard_getchar [Push 0x61, Get, Push 0x62] kb_example) @
     kb_contents (snd (fifo_run kb_push keyboard_getchar [Push 0x61, Get, Push 0x62] kb_example))
   = [0x61, 0x62]"
  using keyboard_fifo [OF kb_example_ready(1), of "[Push 0x61, Get, Push 0x62]"]
    length_kb_contents [of kb_example]
  by (simp add: kb_example_ready(2) KB_BUFFER_SIZE_def)

end
