(* ===== verification/KeyboardCoverage.thy ===== *)
theory KeyboardCoverage
  imports KeyboardInput
begin

text \<open>Which characters some combination of keys produces, decided by evaluating the tables.\<close>

text \<open>The 95 printable ASCII characters, from space to tilde.\<close>

definition printable :: "u8 list" where
  "printable = bytes '' !#$%&()*+,-./0123456789:;<=>?@ABCDEFGHIJKLMNOPQRSTUVWXYZ[]^_`abcdefghijklmnopqrstuvwxyz{|}~'' @ [0x22, 0x27, 0x5C]"

lemma kb_find_None: "kb_find t c = None \<longleftrightarrow> c \<notin> set (kb_table_bytes t)"
proof -
  have "kb_find t c = None \<longleftrightarrow> (\<forall>i < length (kb_table_bytes t). kb_table_bytes t ! i \<noteq> c)"
    by (auto simp: kb_find_def find_None_iff)
  then show ?thesis by (auto simp: in_set_conv_nth)
qed

lemma kb_strokes_None:
  "kb_strokes l c = None \<longleftrightarrow>
     (case kb_tables_of l of (p, sh, a) \<Rightarrow>
        c \<notin> set (kb_table_bytes p) \<union> set (kb_table_bytes sh) \<union> set (kb_table_bytes a))"
  by (auto simp: kb_strokes_def kb_find_None [symmetric] split: prod.splits option.splits)

lemma printable_on_us:
  "set printable \<subseteq> set scancode_to_ascii_us \<union> set scancode_to_ascii_shift_us"
  unfolding printable_def scancode_to_ascii_us_def scancode_to_ascii_shift_us_def bytes_def
  by simp

lemma printable_on_abnt2:
  "set (butlast printable) \<subseteq> set scancode_to_ascii_abnt2 \<union> set scancode_to_ascii_shift_abnt2 \<union>
     set scancode_to_ascii_altgr_abnt2"
  unfolding printable_def scancode_to_ascii_abnt2_def scancode_to_ascii_shift_abnt2_def
    scancode_to_ascii_altgr_abnt2_def bytes_def
  by simp

lemma backslash_not_on_abnt2:
  "0x5C \<notin> set scancode_to_ascii_abnt2 \<union> set scancode_to_ascii_shift_abnt2 \<union>
     set scancode_to_ascii_altgr_abnt2"
  unfolding scancode_to_ascii_abnt2_def scancode_to_ascii_shift_abnt2_def
    scancode_to_ascii_altgr_abnt2_def bytes_def
  by simp

lemma printable_split: "set printable = insert 0x5C (set (butlast printable))"
proof -
  have "printable = butlast printable @ [0x5C]" by (simp add: printable_def butlast_append)
  then show ?thesis by (metis Un_insert_right boolean_algebra_cancel.sup0 list.set set_append)
qed

text \<open>
  Every printable ASCII character can be typed on the US layout; on ABNT2 the backslash is the
  one that no combination of keys produces.
\<close>

theorem keyboard_coverage:
  "{c. c \<in> set printable \<and> kb_strokes KB_LAYOUT_US c = None} = {} \<and>
   {c. c \<in> set printable \<and> kb_strokes KB_LAYOUT_ABNT2 c = None} = {0x5C}"
proof
  show "{c. c \<in> set printable \<and> kb_strokes KB_LAYOUT_US c = None} = {}"
    using printable_on_us by (auto simp: kb_strokes_None kb_tables_of_def)
  show "{c. c \<in> set printable \<and> kb_strokes KB_LAYOUT_ABNT2 c = None} = {0x5C}"
    unfolding printable_split
    using printable_on_abnt2 backslash_not_on_abnt2
    by (auto simp: kb_strokes_None kb_tables_of_def)
qed

end
