(* ===== verification/FatWf.thy ===== *)
theory FatWf
  imports Stage2Boot
begin

text \<open>
  The open files of the FAT driver, over any disk: what reading, searching, opening and closing do to
  the table of ten files. Reading through a handle touches no other file; opening a path takes one
  free place at most, and gives back the places of the directories on the way.
\<close>

unbundle bit_operations_syntax

section \<open>The table of files\<close>

definition open_files :: "fat_data \<Rightarrow> nat set" where
  "open_files g = {i. i < 10 \<and> fd_Opened (fat_OpenedFiles g ! i)}"

definition file_table :: "fat_data \<Rightarrow> bool" where
  "file_table g \<longleftrightarrow> length (fat_OpenedFiles g) = 10 \<and> fd_Handle (fat_RootDirectory g) = ROOT_DIRECTORY_HANDLE"

definition valid_handle :: "int \<Rightarrow> bool" where
  "valid_handle h \<longleftrightarrow> h = ROOT_DIRECTORY_HANDLE \<or> 0 \<le> h \<and> nat h < 10"

text \<open>Only the file behind the handle may have changed, and it is as open as before.\<close>

definition only_file :: "int \<Rightarrow> fat_data \<Rightarrow> fat_data \<Rightarrow> bool" where
  "only_file h g g' \<longleftrightarrow> (\<exists>fd. g' = set_fd h fd g \<and> fd_Opened fd = fd_Opened (get_fd h g) \<and> fd_Handle fd = fd_Handle (get_fd h g))"

lemma get_set_valid [simp]: "file_table g \<Longrightarrow> valid_handle h \<Longrightarrow> get_fd h (set_fd h fd g) = fd"
  by (auto simp: file_table_def valid_handle_def)

lemma only_file_refl [simp]: "only_file h g g"
  unfolding only_file_def by (rule exI [of _ "get_fd h g"]) simp

lemma only_file_set:
  "fd_Opened fd = fd_Opened (get_fd h g) \<Longrightarrow> fd_Handle fd = fd_Handle (get_fd h g) \<Longrightarrow> only_file h g (set_fd h fd g)"
  by (auto simp: only_file_def)

lemma only_file_trans:
  assumes "only_file h g g1" "only_file h g1 g2" "file_table g" "valid_handle h"
  shows "only_file h g g2"
  using assms by (auto simp: only_file_def)

lemma only_file_table:
  assumes "only_file h g g'" "file_table g" "valid_handle h"
  shows "file_table g'"
proof -
  obtain fd where fd: "g' = set_fd h fd g" "fd_Handle fd = fd_Handle (get_fd h g)"
    using assms(1) by (auto simp: only_file_def)
  then show ?thesis using assms(2) by (auto simp: file_table_def set_fd_def get_fd_def)
qed

section \<open>Reading and searching\<close>

lemma advance_only:
  assumes "fat_advance rd h (g, st) = Inr (stop, g', st')"
  shows "only_file h g g'"
  using assms by (auto simp: fat_advance_def Let_def split: if_splits option.splits prod.splits intro!: only_file_set)

lemma step_only:
  assumes "fat_read_step rd h n (g, st) = Inr (data, taken, stop, g', st')" "file_table g" "valid_handle h"
  shows "only_file h g g'"
proof -
  let ?g1 = "\<lambda>w. set_fd h ((get_fd h g)\<lparr>fd_Position := w\<rparr>) g"
  have g1: "only_file h g (?g1 w)" for w by (rule only_file_set) simp_all
  note t = only_file_trans [OF g1 advance_only assms(2,3)]
  from assms(1) show ?thesis
    unfolding fat_read_step_def Let_def
    by (auto split: if_splits sum.splits simp: map_sum_def g1 intro: t)
qed

lemma read_loop_only:
  assumes "fat_read_loop rd h n br out gs = Some r"
  shows "file_table (fst gs) \<longrightarrow> valid_handle h \<longrightarrow> (\<forall>br' out' g' st'. r = Inr (br', out', g', st') \<longrightarrow> only_file h (fst gs) g')"
proof (rule fat_read_loop.raw_induct [OF _ assms, where P = "\<lambda>rd h n br out gs r. file_table (fst gs) \<longrightarrow>
    valid_handle h \<longrightarrow> (\<forall>br' out' g' st'. r = Inr (br', out', g', st') \<longrightarrow> only_file h (fst gs) g')"], intro impI)
  fix f and rd :: "'a sector_read" and h n br out gs r
  assume IH: "\<And>rd h n br out gs r. f rd h n br out gs = Some r \<Longrightarrow> file_table (fst gs) \<longrightarrow>
      valid_handle h \<longrightarrow> (\<forall>br' out' g' st'. r = Inr (br', out', g', st') \<longrightarrow> only_file h (fst gs) g')"
    and body: "(if n = 0 then Some (Inr (br, out, gs))
      else (case fat_read_step rd h n gs of
          Inl e \<Rightarrow> Some (Inl e)
        | Inr (data, taken, stop, gs) \<Rightarrow>
            if stop then Some (Inr (br + taken, out @ data, gs))
            else f rd h (n - taken) (br + taken) (out @ data) gs)) = Some r"
    and k: "file_table (fst gs)" "valid_handle h"
  obtain g st where gs: "gs = (g, st)" by (cases gs)
  show "\<forall>br' out' g' st'. r = Inr (br', out', g', st') \<longrightarrow> only_file h (fst gs) g'"
  proof (cases "fat_read_step rd h n (g, st)")
    case (Inl e)
    with body gs show ?thesis by (auto split: if_splits)
  next
    case (Inr x)
    obtain data taken stop g1 st1 where x: "x = (data, taken, stop, g1, st1)" by (cases x)
    have o: "only_file h g g1" using step_only [of rd h n g st] k gs Inr x by simp
    note t = only_file_trans [OF o _ k(1) [unfolded gs fst_conv] k(2)]
      and tab = only_file_table [OF o k(1) [unfolded gs fst_conv] k(2)]
    from body gs Inr x IH [of rd h "n - taken" "br + taken" "out @ data" "(g1, st1)" r] k(2) o t tab show ?thesis
      by (auto split: if_splits)
  qed
qed

lemma read_only:
  assumes "FAT_ReadImpl rd h n (g, st) = Some (Inr (br, out, g', st'))" "file_table g" "valid_handle h"
  shows "only_file h g g'"
  using assms(1) read_loop_only [where gs = "(g, st)" and h = h and rd = rd] assms(2,3)
  by (auto simp: FAT_ReadImpl_def Let_def)

lemma read_entry_only:
  assumes "FAT_ReadEntry rd h (g, st) = Some (Inr (e, g', st'))" "file_table g" "valid_handle h"
  shows "only_file h g g'"
proof -
  from assms(1) obtain n out where "FAT_ReadImpl rd h 32 (g, st) = Some (Inr (n, out, g', st'))"
    unfolding FAT_ReadEntry_def by (cases "FAT_ReadImpl rd h 32 (g, st)") (auto simp: map_sum_def split: sum.splits prod.splits)
  then show ?thesis by (rule read_only [OF _ assms(2,3)])
qed

lemma find_loop_only:
  assumes "fat_find_loop rd h nm gs = Some r"
  shows "file_table (fst gs) \<longrightarrow> valid_handle h \<longrightarrow> (\<forall>e g' st'. r = Inr (e, g', st') \<longrightarrow> only_file h (fst gs) g')"
proof (rule fat_find_loop.raw_induct [OF _ assms, where P = "\<lambda>rd h nm gs r. file_table (fst gs) \<longrightarrow>
    valid_handle h \<longrightarrow> (\<forall>e g' st'. r = Inr (e, g', st') \<longrightarrow> only_file h (fst gs) g')"], intro impI)
  fix f and rd :: "'a sector_read" and h nm gs r
  assume IH: "\<And>rd h nm gs r. f rd h nm gs = Some r \<Longrightarrow> file_table (fst gs) \<longrightarrow> valid_handle h \<longrightarrow>
      (\<forall>e g' st'. r = Inr (e, g', st') \<longrightarrow> only_file h (fst gs) g')"
    and body: "(case FAT_ReadEntry rd h gs of
      None \<Rightarrow> None
    | Some (Inl e) \<Rightarrow> Some (Inl e)
    | Some (Inr (None, gs)) \<Rightarrow> Some (Inr (None, gs))
    | Some (Inr (Some entry, gs)) \<Rightarrow>
        if nm = de_Name entry then Some (Inr (Some entry, gs)) else f rd h nm gs) = Some r"
    and k: "file_table (fst gs)" "valid_handle h"
  obtain g st where gs: "gs = (g, st)" by (cases gs)
  show "\<forall>e g' st'. r = Inr (e, g', st') \<longrightarrow> only_file h (fst gs) g'"
  proof (cases "FAT_ReadEntry rd h (g, st)")
    case (Some x)
    show ?thesis
    proof (cases x)
      case (Inr y)
      obtain eo g1 st1 where y: "y = (eo, g1, st1)" by (cases y)
      have o: "only_file h g g1" using read_entry_only [of rd h g st] k gs Some Inr y by simp
      note t = only_file_trans [OF o _ k(1) [unfolded gs fst_conv] k(2)]
        and tab = only_file_table [OF o k(1) [unfolded gs fst_conv] k(2)]
      from body gs Some Inr y IH [of rd h nm "(g1, st1)" r] k(2) o t tab show ?thesis
        by (cases eo) (auto split: if_splits)
    qed (use Some body gs in auto)
  qed (use body gs in simp)
qed

lemma find_only:
  assumes "FAT_FindFile rd h nm (g, st) = Some (Inr (e, g', st'))" "file_table g" "valid_handle h"
  shows "only_file h g g'"
  using find_loop_only [OF assms(1) [unfolded FAT_FindFile_def]] assms(2,3) by simp

section \<open>Taking and giving back a place\<close>

text \<open>
  \<open>holds g0 r g\<close>: compared with \<open>g0\<close>, the only open file more is the one behind \<open>r\<close>, all files that
  were open are untouched, and so are the boot sector, the table of clusters and the data area.
\<close>

definition holds :: "fat_data \<Rightarrow> int option \<Rightarrow> fat_data \<Rightarrow> bool" where
  "holds g0 r g \<longleftrightarrow> file_table g \<and> fat_BootSectorBytes g = fat_BootSectorBytes g0 \<and> g_Fat g = g_Fat g0 \<and>
     g_DataSectionLba g = g_DataSectionLba g0 \<and>
     (\<forall>i \<in> open_files g0. fat_OpenedFiles g ! i = fat_OpenedFiles g0 ! i) \<and>
     (case r of
        None \<Rightarrow> open_files g = open_files g0
      | Some h \<Rightarrow> h = ROOT_DIRECTORY_HANDLE \<and> open_files g = open_files g0 \<or>
          (\<exists>i < 10. h = int i \<and> i \<notin> open_files g0 \<and> open_files g = insert i (open_files g0) \<and>
             fd_Handle (get_fd h g) = h))"

lemma holds_valid: "holds g0 (Some h) g \<Longrightarrow> valid_handle h"
  by (auto simp: holds_def valid_handle_def)

lemma holds_only:
  assumes "holds g0 (Some h) g" "only_file h g g'"
  shows "holds g0 (Some h) g'"
proof -
  obtain fd where fd: "g' = set_fd h fd g" "fd_Opened fd = fd_Opened (get_fd h g)" "fd_Handle fd = fd_Handle (get_fd h g)"
    using assms(2) by (auto simp: only_file_def)
  have tab: "file_table g" "file_table g'"
    using assms only_file_table [OF assms(2) _ holds_valid [OF assms(1)]] by (simp_all add: holds_def)
  consider "h = ROOT_DIRECTORY_HANDLE" | i where "i < 10" "h = int i" "i \<notin> open_files g0"
    using assms(1) by (auto simp: holds_def)
  then show ?thesis
  proof cases
    case 1
    with assms(1) fd tab show ?thesis
      by (auto simp: holds_def set_fd_def open_files_def ROOT_DIRECTORY_HANDLE_def)
  next
    case (2 i)
    then have h: "h \<noteq> ROOT_DIRECTORY_HANDLE" by (simp add: ROOT_DIRECTORY_HANDLE_def)
    have g': "g' = g\<lparr>fat_OpenedFiles := (fat_OpenedFiles g)[i := fd]\<rparr>" using fd(1) 2(2) h by (simp add: set_fd_def)
    have old: "fd_Opened fd = fd_Opened (fat_OpenedFiles g ! i)" "fd_Handle fd = fd_Handle (fat_OpenedFiles g ! i)"
      using fd(2,3) 2(2) h by (simp_all add: get_fd_def)
    have nth: "fat_OpenedFiles g' ! k = (if k = i then fd else fat_OpenedFiles g ! k)" for k
      using tab(1) 2(1) by (simp add: g' file_table_def nth_list_update)
    have "open_files g' = open_files g" using nth old(1) by (auto simp: open_files_def)
    moreover have "\<forall>k \<in> open_files g0. fat_OpenedFiles g' ! k = fat_OpenedFiles g ! k" using nth 2(3) by auto
    moreover have "get_fd h g' = fd" using fd(1) tab(1) holds_valid [OF assms(1)] by simp
    ultimately show ?thesis using assms(1) 2 h tab(2) fd(3) by (auto simp: holds_def g')
  qed
qed

lemma holds_close:
  assumes "holds g0 (Some h) g"
  shows "holds g0 None (FAT_Close h g)"
proof -
  have tab: "file_table g" using assms by (simp add: holds_def)
  consider "h = ROOT_DIRECTORY_HANDLE" "open_files g = open_files g0"
    | i where "i < 10" "h = int i" "i \<notin> open_files g0" "open_files g = insert i (open_files g0)" "fd_Handle (get_fd h g) = h"
    using assms by (auto simp: holds_def)
  then show ?thesis
  proof cases
    case 1
    with assms tab show ?thesis
      by (auto simp: holds_def FAT_Close_def set_fd_def get_fd_def file_table_def open_files_def)
  next
    case (2 i)
    then have h: "h \<noteq> ROOT_DIRECTORY_HANDLE" by (simp add: ROOT_DIRECTORY_HANDLE_def)
    let ?g' = "FAT_Close h g"
    have g': "?g' = g\<lparr>fat_OpenedFiles := (fat_OpenedFiles g)[i := (fat_OpenedFiles g ! i)\<lparr>fd_Opened := False\<rparr>]\<rparr>"
      using 2(2,5) h by (simp add: FAT_Close_def set_fd_def get_fd_def)
    have nth: "fat_OpenedFiles ?g' ! k = (if k = i then (fat_OpenedFiles g ! i)\<lparr>fd_Opened := False\<rparr> else fat_OpenedFiles g ! k)" for k
      using tab 2(1) by (simp add: g' file_table_def nth_list_update)
    have "open_files ?g' = open_files g - {i}" using nth by (auto simp: open_files_def)
    then have "open_files ?g' = open_files g0" using 2(3,4) by simp
    moreover have "\<forall>k \<in> open_files g0. fat_OpenedFiles ?g' ! k = fat_OpenedFiles g ! k" using nth 2(3) by auto
    moreover have "file_table ?g'" using tab by (simp add: g' file_table_def)
    ultimately show ?thesis using assms by (auto simp: holds_def g')
  qed
qed

lemma holds_open_entry:
  assumes "holds g0 None g" "FAT_OpenEntry rd e (g, st) = (r, g', st')"
  shows "holds g0 r g'" "\<forall>h. r = Some h \<longrightarrow> fd_Position (get_fd h g') = 0 \<and> fd_Size (get_fd h g') = de_Size e"
proof -
  have tab: "file_table g" and open0: "open_files g = open_files g0"
    using assms(1) by (simp_all add: holds_def)
  have "holds g0 r g' \<and> (\<forall>h. r = Some h \<longrightarrow> fd_Position (get_fd h g') = 0 \<and> fd_Size (get_fd h g') = de_Size e)"
  proof (cases "find (\<lambda>i. \<not> fd_Opened (fat_OpenedFiles g ! i)) [0..<MAX_FILE_HANDLES]")
    case None
    with assms show ?thesis by (simp add: FAT_OpenEntry_def)
  next
    case (Some i)
    then have i: "i < 10" "\<not> fd_Opened (fat_OpenedFiles g ! i)" by (auto simp: find_Some_iff MAX_FILE_HANDLES_def)
    then have new: "i \<notin> open_files g0" using open0 by (auto simp: open_files_def)
    have root: "int i \<noteq> ROOT_DIRECTORY_HANDLE" by (simp add: ROOT_DIRECTORY_HANDLE_def)
    obtain fd where g': "g' = set_fd (int i) fd g" and
      fd: "r = None \<and> \<not> fd_Opened fd \<or> r = Some (int i) \<and> fd_Opened fd \<and> fd_Handle fd = int i \<and> fd_Position fd = 0 \<and> fd_Size fd = de_Size e"
      using assms(2) Some i(2) by (auto simp: FAT_OpenEntry_def Let_def split: prod.splits if_splits)
    have upd: "g' = g\<lparr>fat_OpenedFiles := (fat_OpenedFiles g)[i := fd]\<rparr>" using root by (simp add: g' set_fd_def)
    have nth: "fat_OpenedFiles g' ! k = (if k = i then fd else fat_OpenedFiles g ! k)" for k
      using tab i(1) by (simp add: upd file_table_def nth_list_update)
    have keep: "\<forall>k \<in> open_files g0. fat_OpenedFiles g' ! k = fat_OpenedFiles g ! k" using nth new by auto
    have "valid_handle (int i)" using i(1) by (simp add: valid_handle_def)
    then have get: "get_fd (int i) g' = fd" using tab by (simp add: g')
    have tab': "file_table g'" using tab by (simp add: upd file_table_def)
    from fd show ?thesis
    proof
      assume n: "r = None \<and> \<not> fd_Opened fd"
      then have "open_files g' = open_files g" using nth i(2) by (auto simp: open_files_def)
      with n assms(1) keep tab' show ?thesis by (simp add: holds_def upd)
    next
      assume s: "r = Some (int i) \<and> fd_Opened fd \<and> fd_Handle fd = int i \<and> fd_Position fd = 0 \<and> fd_Size fd = de_Size e"
      then have "open_files g' = insert i (open_files g)" using nth i by (auto simp: open_files_def)
      with s assms(1) keep tab' i(1) new get root open0 show ?thesis by (auto simp: holds_def upd)
    qed
  qed
  then show "holds g0 r g'" "\<forall>h. r = Some h \<longrightarrow> fd_Position (get_fd h g') = 0 \<and> fd_Size (get_fd h g') = de_Size e"
    by blast+
qed

section \<open>Opening a path\<close>

lemma open_loop_holds:
  "holds g0 current (fst gs) \<Longrightarrow> fat_open_loop rd path name current gs = Some (Inr (r, g', st')) \<Longrightarrow> holds g0 r g'"
proof (induction path arbitrary: name current gs rule: length_induct)
  case (1 path)
  note prem = 1(2,3)
  have IH: "length path' < length path \<Longrightarrow> holds g0 current (fst gs) \<Longrightarrow>
      fat_open_loop rd path' name current gs = Some (Inr (r, g', st')) \<Longrightarrow> holds g0 r g'" for path' name current gs
    using 1(1) by blast
  show ?case
  proof (cases "path = []")
    case True
    with prem show ?thesis by (auto simp: fat_open_loop.simps)
  next
    case False
    let ?comp = "takeWhile (\<lambda>c. c \<noteq> 47) path" and ?rest = "drop (length (takeWhile (\<lambda>c. c \<noteq> 47) path) + 1) path"
    let ?name = "blit (?comp @ [0]) name"
    note unf = prem(2) [unfolded fat_open_loop.simps [of rd path] Let_def]
    have small: "\<not> MAX_PATH_SIZE \<le> length ?comp"
      using unf False by (auto split: if_splits)
    obtain h where h: "current = Some h"
      using unf False small by (auto split: option.splits)
    obtain g st where gs: "gs = (g, st)" by (cases gs)
    obtain eo g1 st1 where x: "FAT_FindFile rd h ?name (g, st) = Some (Inr (eo, g1, st1))"
      using unf False small h gs by (auto split: option.splits sum.splits)
    have hg: "holds g0 (Some h) g" using prem(1) h gs by simp
    have "only_file h g g1" using find_only [OF x] hg holds_valid [OF hg] by (simp add: holds_def)
    then have closed: "holds g0 None (FAT_Close h g1)" by (intro holds_close holds_only [OF hg])
    show ?thesis
    proof (cases eo)
      case None
      with unf False small h x gs closed show ?thesis by simp
    next
      case (Some e)
      obtain c g2 st2 where o: "FAT_OpenEntry rd e (FAT_Close h g1, st1) = (c, g2, st2)" by (metis prod_cases3)
      show ?thesis
      proof (cases "47 \<in> set path \<and> de_Attributes e AND FAT_ATTRIBUTE_DIRECTORY = 0")
        case True
        with Some unf False small h x gs closed show ?thesis by simp
      next
        case ok: False
        have "fat_open_loop rd ?rest ?name c (g2, st2) = Some (Inr (r, g', st'))"
          using unf Some False small h x gs ok o by simp
        moreover have "length ?rest < length path" using False by simp
        ultimately show ?thesis using IH [of ?rest c "(g2, st2)" ?name] holds_open_entry(1) [OF closed o] by simp
      qed
    qed
  qed
qed

text \<open>
  C33: Opening a path, whatever the disk answers and however many directories the path has: the
  directories on the way are closed again, also when a name is not found, is not a directory, or no
  place is free. Then no more files are open than before; otherwise exactly one more, at a place that
  was free, whose number is the handle given out (or the handle is the root directory, for an empty
  path), and closing it leaves the files that were open before. The open files, the boot sector, the
  table of clusters and the start of the data area are as they were.
\<close>

theorem fat_open_takes_one_place:
  assumes "length (fat_OpenedFiles g) = 10" "fd_Handle (fat_RootDirectory g) = - 1"
    "FAT_Open rd path name (g, st) = Some (Inr (r, g', st'))"
  shows "(\<forall>i \<in> open_files g. fat_OpenedFiles g' ! i = fat_OpenedFiles g ! i) \<and>
    fat_BootSectorBytes g' = fat_BootSectorBytes g \<and> g_Fat g' = g_Fat g \<and> g_DataSectionLba g' = g_DataSectionLba g \<and>
    (case r of
       None \<Rightarrow> open_files g' = open_files g
     | Some h \<Rightarrow> open_files (FAT_Close h g') = open_files g \<and>
         (h = - 1 \<and> open_files g' = open_files g \<or>
          (\<exists>i < 10. h = int i \<and> i \<notin> open_files g \<and> open_files g' = insert i (open_files g))))"
proof -
  have "holds g (Some ROOT_DIRECTORY_HANDLE) g"
    using assms(1,2) by (simp add: holds_def file_table_def ROOT_DIRECTORY_HANDLE_def)
  with open_loop_holds [of g "Some ROOT_DIRECTORY_HANDLE" "(g, st)"] assms(3) have h: "holds g r g'"
    by (simp add: FAT_Open_def Let_def)
  then have "open_files (FAT_Close h g') = open_files g" if "r = Some h" for h
    using holds_close [of g h g'] that by (simp add: holds_def)
  with h show ?thesis by (cases r) (auto simp: holds_def ROOT_DIRECTORY_HANDLE_def)
qed

text \<open>The kernel opened on the bootable floppy, and closed.\<close>

lemma fat_open_takes_one_place_witness:
  "\<exists>g g'. FAT_Open (floppy_read boot_floppy) (47 # bytes ''kernel.bin'') (replicate 256 0xAA) (g, 0) = Some (Inr (Some 0, g', 0)) \<and>
     open_files g = {} \<and> open_files g' = {0} \<and> open_files (FAT_Close 0 g') = {}"
proof -
  obtain g where g: "mounted boot_floppy g"
    using fat_initialize_mounts [OF boot_floppy_ok(1) boot_start_memory, of 0] by auto
  have path: "bytes ''kernel.bin'' \<noteq> []" "47 \<notin> set (bytes ''kernel.bin'')" "length (bytes ''kernel.bin'') < MAX_PATH_SIZE"
    by (simp_all add: bytes_def MAX_PATH_SIZE_def)
  have f: "first_in_root boot_floppy (fat_name (blit (bytes ''kernel.bin'' @ [0]) (replicate 256 0xAA))) 0"
    by (simp only: kernel_path_name) (simp add: first_in_root_def boot_floppy_boot boot_floppy_slot)
  have "vol_entries boot_floppy < 2048" by (simp add: boot_floppy_boot)
  from fat_open_root_file [OF g _ this path f, of 0] obtain g' where
    g': "FAT_Open (floppy_read boot_floppy) (47 # bytes ''kernel.bin'') (replicate 256 0xAA) (g, 0) = Some (Inr (Some 0, g', 0))"
    by auto
  have t: "length (fat_OpenedFiles g) = 10" "fd_Handle (fat_RootDirectory g) = - 1" "open_files g = {}"
    using g by (auto simp: mounted_def root_at_def dir_ok_def get_fd_def MAX_FILE_HANDLES_def ROOT_DIRECTORY_HANDLE_def open_files_def)
  from fat_open_takes_one_place [OF t(1,2) g'] have "open_files g' = {0}" "open_files (FAT_Close 0 g') = {}"
    by (auto simp: t(3))
  with g' t(3) show ?thesis by blast
qed

end
