(* ===== verification/Stage2Util.thy ===== *)
theory Stage2Util
  imports BootMemory
begin

text \<open>
  The small helpers of stage 2 (bootloader/stage2/utility.c and string.c) that no other theory needs:
  the maximum, alignment, and the string functions that know null pointers. \<open>int\<close> and
  \<open>unsigned\<close> have 16 bits here.
\<close>

unbundle bit_operations_syntax

definition max16 :: "u16 \<Rightarrow> u16 \<Rightarrow> u16" where
  "max16 a b = (if b <s a then a else b)"

definition align :: "u32 \<Rightarrow> u32 \<Rightarrow> u32" where
  "align number alignTo =
     (if alignTo = 0 then number
      else (let rem = number mod alignTo in if rem > 0 then number + alignTo - rem else number))"

text \<open>A counter of 16 bits; \<open>None\<close> is a string without a terminator.\<close>

fun strlen16_from :: "u8 list \<Rightarrow> u16 \<Rightarrow> u16 option" where
  "strlen16_from [] len = None"
| "strlen16_from (c # str) len = (if c \<noteq> 0 then strlen16_from str (len + 1) else Some len)"

definition strlen16 :: "u8 list \<Rightarrow> u16 option" where
  "strlen16 str = strlen16_from str 0"

text \<open>
  Null pointers are \<open>None\<close> inside the result; the loop is that of the kernel's \<open>strcpy\<close>, and running
  past an object is an outer \<open>None\<close>.
\<close>

definition strcpy_far :: "u8 list option \<Rightarrow> u8 list option \<Rightarrow> u8 list option option" where
  "strcpy_far dst src =
     (case dst of
        None \<Rightarrow> Some None
      | Some d \<Rightarrow>
          (case src of
             None \<Rightarrow> (case d of [] \<Rightarrow> None | c # ds \<Rightarrow> Some (Some (0 # ds)))
           | Some s \<Rightarrow> map_option Some (strcpy d s)))"

lemma max16_signed: "sint (max16 a b) = max (sint a) (sint b)"
  by (simp add: max16_def word_sless_alt max_def)

text \<open>Alignment gives the next multiple, as the heap of stage 2 computes it.\<close>

lemma align_next:
  assumes "k \<noteq> 0" "unat n + unat k < 4294967296"
  shows "unat (align n k) = align_up_nat (unat k) (unat n)"
proof -
  have k: "0 < unat k" using assms(1) by (simp add: unat_gt_0)
  have m: "unat (n mod k) = unat n mod unat k" by (simp add: unat_mod_distrib)
  have "unat (n + k) = unat n + unat k" using assms(2) by (simp add: unat_word_ariths)
  moreover have "n mod k \<le> n + k"
    using m calculation mod_less_divisor [OF k, of "unat n"] by (simp add: word_le_nat_alt)
  ultimately have "unat (n + k - n mod k) = unat n + unat k - unat n mod unat k"
    using m by (simp add: unat_sub)
  moreover have "n mod k > 0 \<longleftrightarrow> unat n mod unat k \<noteq> 0" using m by (simp add: word_less_nat_alt)
  ultimately show ?thesis
    using assms(1) mod_less_divisor [OF k, of "unat n"] by (auto simp: align_def align_up_nat_def)
qed

lemma strlen16_counts: "terminated str \<Longrightarrow> strlen16 str = Some (of_nat (length (cstr str)))"
proof -
  have "strlen16_from str len = Some (len + of_nat (length (cstr str)))" if "terminated str" for len
    using that by (induction str arbitrary: len) (auto simp: algebra_simps)
  then show "terminated str \<Longrightarrow> strlen16 str = Some (of_nat (length (cstr str)))"
    by (simp add: strlen16_def)
qed

lemma strcpy_far_null:
  "strcpy_far None src = Some None" "strcpy_far (Some (c # ds)) None = Some (Some (0 # ds))"
  by (simp_all add: strcpy_far_def)

end
