(* ===== verification/HostFat.thy ===== *)
theory HostFat
  imports Fat
begin

text \<open>
  The host tool (tools/fat/fat.c) that prints a file of a FAT12 image, on a host with 32-bit \<open>int\<close>
  and 64-bit \<open>long\<close> and \<open>size_t\<close>. The image is the bytes of the file opened; what C leaves
  undefined is an error value, and a run that does not end is \<open>None\<close>.
\<close>

unbundle bit_operations_syntax

section \<open>Data\<close>

text \<open>
  A product that does not fit an \<open>int\<close>, a division by zero, a store past an allocated block, a load
  past one, a load of memory that was never written.
\<close>

datatype host_error = IntOverflow | DivisionByZero | WritePastBuffer | ReadPastBuffer | UninitialisedRead

record boot_sector =
  BootJumpInstruction :: "u8 list"
  OemIdentifier :: "u8 list"
  BytesPerSector :: u16
  SectorsPerCluster :: u8
  ReservedSectors :: u16
  FatCount :: u8
  DirEntryCount :: u16
  TotalSectors :: u16
  MediaDescriptorType :: u8
  SectorsPerFat :: u16
  SectorsPerTrack :: u16
  Heads :: u16
  HiddenSectors :: u32
  LargeSectorCount :: u32
  DriveNumber :: u8
  Reserved :: u8
  Signature :: u8
  VolumeId :: u32
  VolumeLabel :: "u8 list"
  SystemId :: "u8 list"

text \<open>The packed layout: 62 bytes.\<close>

definition boot_sector_of :: "u8 list \<Rightarrow> boot_sector" where
  "boot_sector_of bs =
     \<lparr>BootJumpInstruction = take 3 bs, OemIdentifier = take 8 (drop 3 bs), BytesPerSector = get16 bs 11,
      SectorsPerCluster = bs ! 13, ReservedSectors = get16 bs 14, FatCount = bs ! 16,
      DirEntryCount = get16 bs 17, TotalSectors = get16 bs 19, MediaDescriptorType = bs ! 21,
      SectorsPerFat = get16 bs 22, SectorsPerTrack = get16 bs 24, Heads = get16 bs 26,
      HiddenSectors = get32 bs 28, LargeSectorCount = get32 bs 32, DriveNumber = bs ! 36,
      Reserved = bs ! 37, Signature = bs ! 38, VolumeId = get32 bs 39,
      VolumeLabel = take 11 (drop 43 bs), SystemId = take 8 (drop 54 bs)\<rparr>"

text \<open>The globals, once they are read.\<close>

record host =
  g_BootSector :: boot_sector
  h_Fat :: "u8 list"
  g_RootDirectory :: "u8 list"
  g_RootDirectoryEnd :: u32

section \<open>Files of the C library\<close>

text \<open>
  \<open>fread\<close> of \<open>count\<close> items of \<open>size\<close> bytes from a position: the items read, the bytes that reach the
  buffer, and the new position. Seeking past the end of a file is no error.
\<close>

definition fread :: "u8 list \<Rightarrow> nat \<Rightarrow> nat \<Rightarrow> nat \<Rightarrow> nat \<times> u8 list \<times> nat" where
  "fread disk pos sz count =
     (if sz = 0 then (0, [], pos)
      else (let data = take (sz * count) (drop pos disk)
            in (length data div sz, data, pos + length data)))"

section \<open>Operations\<close>

definition readBootSector :: "u8 list \<Rightarrow> bool \<times> boot_sector" where
  "readBootSector disk =
     (let (n, data, pos) = fread disk 0 62 1 in (n > 0, boot_sector_of data))"

text \<open>Whether all sectors came, and the bytes that were written to the buffer.\<close>

definition readSectors :: "boot_sector \<Rightarrow> u8 list \<Rightarrow> u32 \<Rightarrow> u32 \<Rightarrow> bool \<times> u8 list" where
  "readSectors b disk lba count =
     (let pos = unat (lba * ucast (BytesPerSector b));
          (n, data, pos) = fread disk pos (unat (BytesPerSector b)) (unat count)
      in (n = unat count, data))"

text \<open>An allocation of sectors times bytes, both 16 bits wide, that overflows an \<open>int\<close> when too large.\<close>

definition readFat :: "boot_sector \<Rightarrow> u8 list \<Rightarrow> host_error + bool \<times> u8 list" where
  "readFat b disk =
     (if 2147483648 \<le> unat (SectorsPerFat b) * unat (BytesPerSector b) then Inl IntOverflow
      else Inr (readSectors b disk (ucast (ReservedSectors b)) (ucast (SectorsPerFat b))))"

definition readRootDirectory :: "boot_sector \<Rightarrow> u8 list \<Rightarrow> host_error + bool \<times> u8 list \<times> u32" where
  "readRootDirectory b disk =
     (let lba = ucast (ReservedSectors b) + ucast (SectorsPerFat b) * ucast (FatCount b);
          size = (32 * ucast (DirEntryCount b) :: u32);
          bps = ucast (BytesPerSector b) in
      if bps = 0 then Inl DivisionByZero
      else
        (let sectors = size div bps;
             sectors = (if size mod bps > 0 then sectors + 1 else sectors);
             (ok, data) = readSectors b disk lba sectors
         in Inr (ok, data, lba + sectors)))"

text \<open>Entry \<open>i\<close> of the directory; \<open>findFile\<close> compares 11 bytes of the name, terminator included.\<close>

definition root_entry :: "host \<Rightarrow> nat \<Rightarrow> fat_dir_entry" where
  "root_entry h i = dir_entry_of (take 32 (drop (32 * i) (g_RootDirectory h)))"

definition findFile :: "host \<Rightarrow> u8 list \<Rightarrow> host_error + fat_dir_entry option" where
  "findFile h name =
     (let n = unat (DirEntryCount (g_BootSector h)) in
      if 0 < n \<and> length name < 11 then Inl ReadPastBuffer
      else Inr (map_option (root_entry h)
        (find (\<lambda>i. take 11 name = de_Name (root_entry h i)) [0..<n])))"

definition next_cluster :: "u8 list \<Rightarrow> u16 \<Rightarrow> u16 option" where
  "next_cluster tbl currentCluster =
     (let fatIndex = unat currentCluster * 3 div 2 in
      if length tbl \<le> fatIndex + 1 then None
      else
        (let val = (ucast (tbl ! fatIndex) OR push_bit 8 (ucast (tbl ! (fatIndex + 1))) :: u16)
         in Some (if currentCluster mod 2 = 0 then val AND 0x0FFF else drop_bit 4 val)))"

definition cluster_lba :: "host \<Rightarrow> u16 \<Rightarrow> u32" where
  "cluster_lba h currentCluster =
     g_RootDirectoryEnd h + (ucast currentCluster - 2) * ucast (SectorsPerCluster (g_BootSector h))"

text \<open>
  The loop of \<open>readFile\<close>: \<open>cap\<close> is the size of the buffer, \<open>out\<close> what is in it. The bytes of a cluster
  are stored before anything is known about the room that is left.
\<close>

partial_function (option) readFile_loop ::
  "host \<Rightarrow> u8 list \<Rightarrow> nat \<Rightarrow> u16 \<Rightarrow> u8 list \<Rightarrow> (host_error + bool \<times> u8 list) option" where
  "readFile_loop h disk cap currentCluster out =
     (let (ok, data) = readSectors (g_BootSector h) disk (cluster_lba h currentCluster)
            (ucast (SectorsPerCluster (g_BootSector h))) in
      if cap < length out + length data then Some (Inl WritePastBuffer)
      else
        (case next_cluster (h_Fat h) currentCluster of
           None \<Rightarrow> Some (Inl ReadPastBuffer)
         | Some nxt \<Rightarrow>
             if ok \<and> nxt < 0x0FF8 then readFile_loop h disk cap nxt (out @ data)
             else Some (Inr (ok, out @ data))))"

declare readFile_loop.simps [code]

definition readFile ::
  "host \<Rightarrow> fat_dir_entry \<Rightarrow> u8 list \<Rightarrow> nat \<Rightarrow> (host_error + bool \<times> u8 list) option" where
  "readFile h fileEntry disk cap = readFile_loop h disk cap (de_FirstClusterLow fileEntry) []"

section \<open>The program\<close>

text \<open>Exit status, standard output, standard error.\<close>

type_synonym host_run = "int \<times> u8 list \<times> u8 list"

definition isprint :: "u8 \<Rightarrow> bool" where "isprint c \<longleftrightarrow> 32 \<le> c \<and> c < 127"

definition hex_digit :: "u8 \<Rightarrow> u8" where "hex_digit d = (if d < 10 then 48 + d else 87 + d)"

text \<open>A byte of the file as it is shown: itself, or \<open>\<langle>%02x\<rangle>\<close>.\<close>

definition show_byte :: "u8 \<Rightarrow> u8 list" where
  "show_byte c = (if isprint c then [c] else [60, hex_digit (c div 16), hex_digit (c mod 16), 62])"

definition syntax_line :: "u8 list \<Rightarrow> u8 list" where
  "syntax_line prog = bytes ''Syntax: '' @ prog @
     bytes '' <disk image> <file name>, the strings have contain 11 characters and uppercase ./build/fat ./build/floppy.img \"TEST    TXT\"'' @ [10]"

text \<open>From the directory entry on: the buffer, the reading and the output.\<close>

definition print_file :: "host \<Rightarrow> fat_dir_entry \<Rightarrow> u8 list \<Rightarrow> u8 list \<Rightarrow> (host_error + host_run) option" where
  "print_file h fileEntry disk name =
     (let cap = unat (de_Size fileEntry + ucast (BytesPerSector (g_BootSector h))); n = unat (de_Size fileEntry) in
      case readFile h fileEntry disk cap of
        None \<Rightarrow> None
      | Some (Inl e) \<Rightarrow> Some (Inl e)
      | Some (Inr (ok, buffer)) \<Rightarrow>
          if \<not> ok then Some (Inr (-5, [], bytes ''Could not read file '' @ name @ [33, 10]))
          else if cap < n then Some (Inl ReadPastBuffer)
          else if length buffer < n then Some (Inl UninitialisedRead)
          else Some (Inr (0, concat (map show_byte (take n buffer)) @ [10], [])))"

text \<open>\<open>files\<close> is what \<open>fopen\<close> finds under a path.\<close>

definition host_main :: "(u8 list \<Rightarrow> u8 list option) \<Rightarrow> u8 list list \<Rightarrow> (host_error + host_run) option" where
  "host_main files argv =
     (if length argv < 3 then Some (Inr (-1, syntax_line (hd argv), []))
      else
        (case files (argv ! 1) of
           None \<Rightarrow> Some (Inr (-1, [], bytes ''Cannot open disk image '' @ argv ! 1 @ [33, 10]))
         | Some disk \<Rightarrow>
             (let (ok, b) = readBootSector disk in
              if \<not> ok then Some (Inr (-2, [], bytes ''Could not read boot sector!'' @ [10]))
              else
                (case readFat b disk of
                   Inl e \<Rightarrow> Some (Inl e)
                 | Inr (ok, tbl) \<Rightarrow>
                     if \<not> ok then Some (Inr (-3, [], bytes ''Could not read FAT!'' @ [10]))
                     else
                       (case readRootDirectory b disk of
                          Inl e \<Rightarrow> Some (Inl e)
                        | Inr (ok, dir, end_lba) \<Rightarrow>
                            if \<not> ok then Some (Inr (-4, [], bytes ''Could not read FAT!'' @ [10]))
                            else
                              (let h = \<lparr>g_BootSector = b, h_Fat = tbl, g_RootDirectory = dir,
                                        g_RootDirectoryEnd = end_lba\<rparr> in
                               case findFile h (argv ! 2 @ [0]) of
                                 Inl e \<Rightarrow> Some (Inl e)
                               | Inr None \<Rightarrow>
                                   Some (Inr (-5, [], bytes ''Could not find file '' @ argv ! 2 @ [33, 10]))
                               | Inr (Some fileEntry) \<Rightarrow> print_file h fileEntry disk (argv ! 2)))))))"

end
