(* ===== verification/HostFatAgree.thy ===== *)
theory HostFatAgree
  imports BootFloppy HostFat
begin

text \<open>
  The host tool against the driver of stage 2: on an image with one sector per cluster the tool
  prints exactly the bytes that stage 2 loads; with larger clusters its buffer can be too small.
\<close>

unbundle bit_operations_syntax

section \<open>Sectors of a file\<close>

lemma ceil_sectors:
  "(n + 511) div 512 = (if n mod 512 = 0 then n div 512 else n div 512 + 1)"
  "x < n \<Longrightarrow> x div 512 < (n + 511) div 512" for n x :: nat
proof -
  define q r where "q = n div 512" and "r = n mod 512"
  have n: "n = r + 512 * q" "r < 512" by (simp_all add: q_def r_def)
  show "(n + 511) div 512 = (if n mod 512 = 0 then n div 512 else n div 512 + 1)"
  proof (cases "r = 0")
    case True
    have "n + 511 = 511 + 512 * q" unfolding n(1) True by simp
    then have "(n + 511) div 512 = q" by simp
    then show ?thesis using True unfolding q_def r_def by simp
  next
    case False
    have "n + 511 = (r + 511) + 512 * q" unfolding n(1) by simp
    then have "(n + 511) div 512 = q + (r + 511) div 512" by simp
    moreover have "(r + 511) div 512 = 1"
    proof -
      have "r + 511 = (r - 1) + 512" using False by simp
      then have "(r + 511) div 512 = (r - 1) div 512 + 1" by simp
      then show ?thesis using n(2) by simp
    qed
    ultimately show ?thesis using False unfolding q_def r_def by simp
  qed
  assume "x < n"
  then have "(x + 512) div 512 \<le> (n + 511) div 512" by (intro div_le_mono) simp
  then show "x div 512 < (n + 511) div 512" by simp
qed

lemma whole_sector: "512 * n + 512 \<le> length di \<Longrightarrow> take 512 (drop (512 * n) di) = image_sector di n"
  by (intro nth_equalityI) (simp_all add: image_sector_def)

lemma whole_sectors:
  "512 * (n + k) \<le> length di \<Longrightarrow>
     take (512 * k) (drop (512 * n) di) = concat (map (\<lambda>i. image_sector di (n + i)) [0..<k])"
proof (induction k)
  case (Suc k)
  have "take (512 * Suc k) (drop (512 * n) di) =
      take (512 * k) (drop (512 * n) di) @ take 512 (drop (512 * (n + k)) di)"
    using take_add [of "512 * k" 512 "drop (512 * n) di"] by (simp add: algebra_simps)
  moreover have "take 512 (drop (512 * (n + k)) di) = image_sector di (n + k)"
    by (rule whole_sector) (use Suc.prems in simp)
  ultimately show ?case using Suc by simp
qed simp

lemma sectors_nth:
  assumes "i < k"
  shows "take 512 (drop (512 * i) (concat (map (\<lambda>i. image_sector di (f i)) [0..<k]))) = image_sector di (f i)"
  using assms
proof (induction k)
  case (Suc k)
  then show ?case
    by (cases "i = k") (simp_all add: length_sectors)
qed simp

text \<open>The first \<open>N\<close> sectors of the image are there.\<close>

definition has_sectors :: "u8 list \<Rightarrow> nat \<Rightarrow> bool" where
  "has_sectors di N \<longleftrightarrow> 512 * N \<le> length di \<and> N \<le> 65536"

lemma read_whole:
  assumes "has_sectors di N" "BytesPerSector b = 512" "unat lba + unat count \<le> N" "0 < N"
  shows "readSectors b di lba count = (True, concat (map (\<lambda>i. image_sector di (unat lba + i)) [0..<unat count]))"
proof -
  have n: "512 * (unat lba + unat count) \<le> length di" "unat lba \<le> 65536"
    using assms(1,3) by (auto simp: has_sectors_def)
  have "unat (lba * 512) = 512 * unat lba"
    using n(2) by (simp add: unat_word_ariths)
  moreover have "length (take (512 * unat count) (drop (512 * unat lba) di)) = 512 * unat count"
    using n(1) by simp
  ultimately show ?thesis
    using assms(2) whole_sectors [OF n(1)] by (simp add: readSectors_def fread_def Let_def mult.commute)
qed

section \<open>The volume as the tool reads it\<close>

definition host_of :: "u8 list \<Rightarrow> host" where
  "host_of di = \<lparr>g_BootSector = boot_sector_of (take 62 di), h_Fat = vol_fat di,
     g_RootDirectory = concat (map (\<lambda>i. image_sector di (vol_root_lba di + i)) [0..<(32 * vol_entries di + 511) div 512]),
     g_RootDirectoryEnd = of_nat (vol_data_lba di)\<rparr>"

definition host_volume :: "u8 list \<Rightarrow> nat \<Rightarrow> bool" where
  "host_volume di N \<longleftrightarrow> (\<exists>sz. vol_ok sz di) \<and> has_sectors di N \<and> vol_data_lba di \<le> N \<and>
     vol_reserved di + vol_spf di \<le> N \<and> vol_data_lba di < 65536 \<and> 0 < N"

lemma host_boot:
  assumes "host_volume di N"
  defines "b \<equiv> boot_sector_of (take 62 di)"
  shows "readBootSector di = (True, b)" "BytesPerSector b = 512" "SectorsPerCluster b = vol_boot di ! 13"
    "unat (SectorsPerFat b) = vol_spf di" "unat (ReservedSectors b) = vol_reserved di"
    "unat (DirEntryCount b) = vol_entries di" "FatCount b = vol_boot di ! 16"
proof -
  have l: "512 \<le> length di" "get16 (vol_boot di) 11 = 512"
    using assms(1) by (auto simp: host_volume_def has_sectors_def vol_ok_def)
  have e: "take 62 di ! i = vol_boot di ! i" if "i < 62" for i
    using that l(1) by (simp add: vol_boot_def image_sector_def)
  show "readBootSector di = (True, b)"
    using l(1) by (simp add: readBootSector_def fread_def b_def)
  show "BytesPerSector b = 512" "SectorsPerCluster b = vol_boot di ! 13"
    "unat (SectorsPerFat b) = vol_spf di" "unat (ReservedSectors b) = vol_reserved di"
    "unat (DirEntryCount b) = vol_entries di" "FatCount b = vol_boot di ! 16"
    using l(2) e by (simp_all add: b_def boot_sector_of_def get16_def vol_spf_def vol_reserved_def vol_entries_def)
qed

lemma host_reads:
  assumes "host_volume di N"
  defines "b \<equiv> boot_sector_of (take 62 di)"
  shows "readFat b di = Inr (True, vol_fat di)"
    "readRootDirectory b di = Inr (True, g_RootDirectory (host_of di), g_RootDirectoryEnd (host_of di))"
proof -
  note f = host_boot [OF assms(1), folded b_def]
  have v: "has_sectors di N" "0 < N" "vol_reserved di + vol_spf di \<le> N" "vol_data_lba di \<le> N" "vol_data_lba di < 65536"
    "vol_spf di < 128" "32 * vol_entries di < 65536" "vol_root_lba di < 65536"
    using assms(1) by (auto simp: host_volume_def vol_ok_def)
  have u: "unat (ucast (ReservedSectors b) :: u32) = vol_reserved di" "unat (ucast (SectorsPerFat b) :: u32) = vol_spf di"
    using f(4,5) by (simp_all add: unat_ucast_up16_32)
  from read_whole [OF v(1) f(2), of "ucast (ReservedSectors b)" "ucast (SectorsPerFat b)"] v(2,3)
  have "readSectors b di (ucast (ReservedSectors b)) (ucast (SectorsPerFat b)) = (True, vol_fat di)"
    by (simp add: u vol_fat_def)
  then show "readFat b di = Inr (True, vol_fat di)"
    using f(2,4) v(6) by (simp add: readFat_def)
  have lba: "unat (ucast (ReservedSectors b) + ucast (SectorsPerFat b) * ucast (FatCount b) :: u32) = vol_root_lba di"
  proof -
    have "vol_spf di * unat (vol_boot di ! 16) < 65536" "vol_reserved di + vol_spf di * unat (vol_boot di ! 16) < 65536"
      using v(8) by (simp_all add: vol_root_lba_def)
    then show ?thesis
      using u f(7) by (simp add: unat_word_ariths unat_ucast_up8_32 vol_root_lba_def)
  qed
  let ?size = "32 * ucast (DirEntryCount b) :: u32"
  let ?sectors = "if ?size mod 512 > 0 then ?size div 512 + 1 else ?size div 512"
  have size: "unat ?size = 32 * vol_entries di"
    using f(6) v(7) by (simp add: unat_word_ariths unat_ucast_up16_32)
  have dm: "unat (?size div 512) = 32 * vol_entries di div 512" "unat (?size mod 512) = 32 * vol_entries di mod 512"
    by (simp_all only: unat_div_distrib unat_mod_distrib size) simp_all
  have sectors: "unat ?sectors = (32 * vol_entries di + 511) div 512"
  proof (cases "32 * vol_entries di mod 512 = 0")
    case True
    then have "\<not> ?size mod 512 > 0" using dm(2) by (simp add: word_less_nat_alt)
    moreover have "(32 * vol_entries di + 511) div 512 = 32 * vol_entries di div 512"
      by (subst ceil_sectors(1)) (simp only: True if_True simp_thms)
    ultimately show ?thesis using dm(1) by simp
  next
    case False
    then have "?size mod 512 > 0" using dm(2) by (simp add: word_less_nat_alt)
    moreover have "(32 * vol_entries di + 511) div 512 = 32 * vol_entries di div 512 + 1"
      by (subst ceil_sectors(1)) (simp only: False if_False)
    moreover have "unat (?size div 512 + 1) = unat (?size div 512) + 1"
      using dm(1) v(7) by (simp add: unat_word_ariths)
    ultimately show ?thesis using dm(1) by simp
  qed
  let ?lba = "ucast (ReservedSectors b) + ucast (SectorsPerFat b) * ucast (FatCount b) :: u32"
  from read_whole [OF v(1) f(2), of ?lba ?sectors] lba sectors v(2,4)
  have "readSectors b di ?lba ?sectors = (True, g_RootDirectory (host_of di))"
    by (simp add: host_of_def vol_data_lba_def)
  moreover have "?lba + ?sectors = of_nat (vol_data_lba di)"
    using lba sectors v(5) by (intro word_of_unat) (simp add: unat_word_ariths vol_data_lba_def)
  ultimately show "readRootDirectory b di = Inr (True, g_RootDirectory (host_of di), g_RootDirectoryEnd (host_of di))"
    by (simp add: readRootDirectory_def f(2) Let_def host_of_def)
qed

lemma host_entry:
  assumes "host_volume di N" "i < vol_entries di"
  shows "root_entry (host_of di) i = vol_slot di i"
proof -
  let ?k = "(32 * vol_entries di + 511) div 512"
  have v: "vol_root_lba di + ?k < 65536" using assms(1) by (simp add: host_volume_def vol_data_lba_def)
  have i: "i div 16 < ?k" using ceil_sectors(2) [of "32 * i" "32 * vol_entries di"] assms(2) by simp
  have split: "32 * i = 512 * (i div 16) + 32 * (i mod 16)" using div_mult_mod_eq [of i 16] by linarith
  have "take 32 (drop (32 * i) (g_RootDirectory (host_of di))) =
      take 32 (drop (32 * (i mod 16)) (take 512 (drop (512 * (i div 16)) (g_RootDirectory (host_of di)))))"
  proof -
    have "i mod 16 < 16" by simp
    then have "32 \<le> 512 - 32 * (i mod 16)" by linarith
    then have "take 32 (drop (32 * (i mod 16)) (take 512 xs)) = take 32 (drop (32 * (i mod 16)) xs)" for xs :: "u8 list"
      by (simp add: drop_take min_def)
    then show ?thesis by (simp add: split add.commute)
  qed
  also have "\<dots> = take 32 (drop (32 * (i mod 16)) (image_sector di (vol_root_lba di + i div 16)))"
    using sectors_nth [OF i] by (simp add: host_of_def)
  finally have "take 32 (drop (32 * i) (g_RootDirectory (host_of di))) =
      take 32 (drop (32 * (i mod 16)) (image_sector di (vol_root_lba di + i div 16)))" .
  moreover have "unat (ucast (of_nat (vol_root_lba di) + of_nat (i div 16) :: u32) :: u16) = vol_root_lba di + i div 16"
  proof -
    have lt: "vol_root_lba di + i div 16 < 65536" using v i by linarith
    have "(of_nat (vol_root_lba di) + of_nat (i div 16) :: u32) = of_nat (vol_root_lba di + i div 16)" by simp
    then show ?thesis using lt unat_low16 [of "of_nat (vol_root_lba di + i div 16)"]
      by (simp add: unat_of_nat_word del: of_nat_add)
  qed
  ultimately show ?thesis
    by (simp add: root_entry_def vol_slot_def root_slot_def image16_def)
qed

text \<open>The tool up to the directory entry.\<close>

lemma host_finds:
  assumes "host_volume di N" "files img = Some di" "first_in_root di nm k"
  shows "host_main files [prog, img, nm] = print_file (host_of di) (vol_slot di k) di nm"
proof -
  note f = host_boot [OF assms(1)]
  have k: "k < vol_entries di" "de_Name (vol_slot di k) = nm" "\<forall>j<k. de_Name (vol_slot di j) \<noteq> nm"
    using assms(3) by (simp_all add: first_in_root_def)
  have len: "length nm = 11"
    using k(2) by (auto simp: vol_slot_def dir_entry_of_def root_slot_def)
  have e: "root_entry (host_of di) j = vol_slot di j" if "j < vol_entries di" for j
    by (rule host_entry [OF assms(1) that])
  have "find (\<lambda>i. take 11 (nm @ [0]) = de_Name (root_entry (host_of di) i)) [0..<vol_entries di] = Some k"
    unfolding find_Some_iff using k len e by (intro exI [of _ k]) auto
  then have "findFile (host_of di) (nm @ [0]) = Inr (Some (vol_slot di k))"
    using f(6) len e [OF k(1)] by (simp add: findFile_def host_of_def)
  then show ?thesis
    using assms(2) f(1) host_reads [OF assms(1)]
    by (simp add: host_main_def numeral_2_eq_2 host_of_def)
qed

section \<open>Following the chain\<close>

lemma next_cluster_agrees: "FAT_NextCluster tbl (ucast c) = map_option ucast (next_cluster tbl c)"
proof -
  have c: "(ucast c :: u32) = of_nat (unat c)" by (simp add: unat_ucast_up16_32)
  have i: "unat c < 1431655765" using unat_u16_less [of c] by linarith
  have "even (unat c) \<longleftrightarrow> c mod 2 = 0"
    by (simp add: word_unat_eq_iff unat_mod_distrib even_iff_mod_2_eq_zero)
  then show ?thesis
    unfolding c using next_cluster_nat [OF i, of tbl]
    by (simp add: next_cluster_def fat12_val_def Let_def)
qed

text \<open>
  A chain of single-sector clusters that has exactly the sectors of a file of \<open>n\<close> bytes, all of
  them among the first \<open>N\<close> sectors of the image, and then an end mark.
\<close>

definition exact_chain :: "u8 list \<Rightarrow> u32 \<Rightarrow> nat \<Rightarrow> nat \<Rightarrow> bool" where
  "exact_chain di first n N \<longleftrightarrow>
     (\<forall>i < (n + 511) div 512. \<exists>c. chain_at (vol_view di) first i = Some (c, 0) \<and> (0 < i \<longrightarrow> c < 0xFF8) \<and>
        unat (chain_lba (vol_view di) (c, 0)) < N) \<and>
     (\<exists>p. chain_at (vol_view di) first ((n + 511) div 512) = Some p \<and> 0xFF8 \<le> fst p)"

lemma read_file_loop:
  assumes "host_volume di N" "vol_boot di ! 13 = 1" "exact_chain di first n N"
    "i < (n + 511) div 512" "chain_at (vol_view di) first i = Some (ucast c, 0)"
    "length out + 512 * ((n + 511) div 512 - i) \<le> cap"
  shows "readFile_loop (host_of di) di cap c out =
    Some (Inr (True, out @ concat (map (\<lambda>j. image16 di (sector_lba (vol_view di) first j)) [i..<(n + 511) div 512])))"
  using assms(4-6)
proof (induction "(n + 511) div 512 - i" arbitrary: i c out)
  case (Suc d)
  let ?m = "(n + 511) div 512" and ?b = "g_BootSector (host_of di)"
  have b: "?b = boot_sector_of (take 62 di)" "g_RootDirectoryEnd (host_of di) = of_nat (vol_data_lba di)"
    "h_Fat (host_of di) = vol_fat di"
    by (simp_all add: host_of_def)
  have v: "has_sectors di N" "0 < N" "N \<le> 65536" using assms(1) by (simp_all add: host_volume_def has_sectors_def)
  have spc: "SectorsPerCluster ?b = 1" "BytesPerSector ?b = 512"
    using host_boot [OF assms(1)] assms(2) b(1) by simp_all
  have lba: "cluster_lba (host_of di) c = chain_lba (vol_view di) (ucast c, 0)"
    by (simp add: cluster_lba_def spc chain_lba_def FAT_ClusterToLba_def vol_view_def bs_SectorsPerCluster_def assms(2) b(2))
  obtain c' where "chain_at (vol_view di) first i = Some (c', 0)" "unat (chain_lba (vol_view di) (c', 0)) < N"
    using assms(3) Suc.prems(1) by (auto simp: exact_chain_def)
  then have at: "unat (chain_lba (vol_view di) (ucast c, 0)) < N" using Suc.prems(2) by simp
  let ?sec = "image16 di (sector_lba (vol_view di) first i)"
  have sec: "?sec = image_sector di (unat (chain_lba (vol_view di) (ucast c, 0)))"
  proof -
    have "unat (chain_lba (vol_view di) (ucast c, 0)) < 65536" using at v(3) by linarith
    then show ?thesis using Suc.prems(2) by (simp add: image16_def sector_lba_def unat_low16)
  qed
  from read_whole [OF v(1) spc(2), of "cluster_lba (host_of di) c" 1] at v(2)
  have read: "readSectors ?b di (cluster_lba (host_of di) c) (ucast (SectorsPerCluster ?b)) = (True, ?sec)"
    by (simp add: spc lba sec)
  obtain p where p: "chain_at (vol_view di) first (Suc i) = Some p" "Suc i < ?m \<longrightarrow> snd p = 0 \<and> fst p < 0xFF8"
    "Suc i = ?m \<longrightarrow> 0xFF8 \<le> fst p"
  proof (cases "Suc i = ?m")
    case True
    with assms(3) that show ?thesis by (auto simp: exact_chain_def simp del: chain_at.simps)
  next
    case False
    then have "Suc i < ?m" using Suc.prems(1) by linarith
    with assms(3) obtain c' where "chain_at (vol_view di) first (Suc i) = Some (c', 0)" "c' < 0xFF8"
      unfolding exact_chain_def by blast
    with False that [of "(c', 0)"] show ?thesis by simp
  qed
  have "chain_next (vol_view di) (ucast c, 0) = Some p" using p(1) Suc.prems(2) by simp
  then obtain c2 where c2: "next_cluster (vol_fat di) c = Some c2" "p = (ucast c2, 0)"
    by (auto simp: chain_next_def vol_view_def bs_SectorsPerCluster_def assms(2) next_cluster_agrees)
  have lt: "(ucast c2 :: u32) < 0xFF8 \<longleftrightarrow> c2 < 0xFF8"
    by (simp add: word_less_nat_alt unat_ucast_up16_32)
  have step: "readFile_loop (host_of di) di cap c out =
      (if c2 < 0xFF8 then readFile_loop (host_of di) di cap c2 (out @ ?sec) else Some (Inr (True, out @ ?sec)))"
    using read c2(1) Suc.prems(3) Suc.hyps(2) by (subst readFile_loop.simps) (simp add: b(3))
  have upt: "[i..<?m] = i # [Suc i..<?m]" using Suc.prems(1) by (rule upt_conv_Cons)
  show ?case
  proof (cases "Suc i = ?m")
    case True
    then have "\<not> c2 < 0xFF8" using p(3) c2(2) lt by auto
    then show ?thesis by (simp only: step upt) (simp add: True)
  next
    case False
    then have i: "Suc i < ?m" using Suc.prems(1) by linarith
    then have "c2 < 0xFF8" using p(2) c2(2) lt by simp
    moreover have "d = ?m - Suc i" using Suc.hyps(2) by linarith
    moreover have "length (out @ ?sec) + 512 * (?m - Suc i) \<le> cap"
      using Suc.prems(3) Suc.hyps(2) i by simp
    moreover have "chain_at (vol_view di) first (Suc i) = Some (ucast c2, 0)" using p(1) c2(2) by simp
    ultimately show ?thesis
      using Suc.hyps(1) [of "Suc i" c2 "out @ ?sec"] i by (simp only: step upt) simp
  qed
qed simp

section \<open>The two readers agree\<close>

lemma chain_bytes:
  "take n (concat (map (\<lambda>j. image16 di (sector_lba (vol_view di) first j)) [0..<(n + 511) div 512])) =
    vol_bytes di first n"
proof (rule nth_equalityI)
  let ?m = "(n + 511) div 512" and ?f = "\<lambda>j. unat (ucast (sector_lba (vol_view di) first j) :: u16)"
  let ?all = "concat (map (\<lambda>j. image16 di (sector_lba (vol_view di) first j)) [0..<?m])"
  have all: "?all = concat (map (\<lambda>j. image_sector di (?f j)) [0..<?m])" by (simp only: image16_def)
  have len: "length ?all = 512 * ?m" unfolding all by (rule length_sectors)
  have "n \<le> 512 * ?m" using div_mult_mod_eq [of "n + 511" 512] mod_less_divisor [of 512 "n + 511"] by linarith
  with len show "length (take n ?all) = length (vol_bytes di first n)" by (simp add: vol_bytes_def)
  fix i assume "i < length (take n ?all)"
  then have i: "i < n" "i < 512 * ?m" using len by simp_all
  have k: "i div 512 < ?m" by (rule ceil_sectors(2) [OF i(1)])
  have "?all ! i = take 512 (drop (512 * (i div 512)) ?all) ! (i mod 512)"
    using i(2) len by (simp add: nth_drop mult_div_mod_eq)
  also have "\<dots> = image16 di (sector_lba (vol_view di) first (i div 512)) ! (i mod 512)"
    unfolding all sectors_nth [OF k] by (simp only: image16_def)
  finally show "take n ?all ! i = vol_bytes di first n ! i"
    using i(1) by (simp add: vol_bytes_def file_byte_def)
qed

text \<open>
  C32: The host tool and stage 2 read the same file: on an image with one sector per cluster the tool
  finds a file of the root directory by its 11-byte name, follows its chain to the end mark, and
  prints exactly the bytes that the driver of stage 2 delivers for it, each printable byte as itself
  and any other as two hexadecimal digits in angle brackets.
\<close>

theorem host_prints_file:
  assumes "host_volume di N" "vol_boot di ! 13 = 1" "files img = Some di"
    "first_in_root di nm k" "e = vol_slot di k" "de_FirstClusterHigh e = 0" "n = unat (de_Size e)"
    "0 < n" "n < 33554432" "exact_chain di (entry_first e) n N"
  shows "host_main files [prog, img, nm] =
    Some (Inr (0, concat (map show_byte (vol_bytes di (entry_first e) n)) @ [10], []))"
proof -
  let ?m = "(n + 511) div 512" and ?cap = "unat (de_Size e + 512)"
  have first: "entry_first e = ucast (de_FirstClusterLow e)" using assms(6) by (simp add: entry_first_def)
  have cap: "?cap = n + 512" using assms(7,9) by (simp add: unat_word_ariths)
  have m: "512 * ?m \<le> n + 511" "0 < ?m" using assms(8) by simp_all
  have "length ([] :: u8 list) + 512 * (?m - 0) \<le> ?cap" using m(1) cap by simp
  from read_file_loop [OF assms(1,2,10) m(2) _ this, of "de_FirstClusterLow e"] first
  have "readFile (host_of di) e di ?cap =
      Some (Inr (True, concat (map (\<lambda>j. image16 di (sector_lba (vol_view di) (entry_first e) j)) [0..<?m])))"
    by (simp add: readFile_def)
  moreover have "ucast (BytesPerSector (g_BootSector (host_of di))) = (512 :: u32)"
    using host_boot(2) [OF assms(1)] by (simp add: host_of_def)
  moreover have "n \<le> 512 * ?m" using div_mult_mod_eq [of "n + 511" 512] mod_less_divisor [of 512 "n + 511"] by linarith
  moreover have "length (concat (map (\<lambda>j. image16 di (sector_lba (vol_view di) (entry_first e) j)) [0..<?m])) = 512 * ?m"
    using length_sectors [of di "\<lambda>j. unat (ucast (sector_lba (vol_view di) (entry_first e) j) :: u16)" ?m]
    by (simp only: image16_def)
  ultimately have "print_file (host_of di) e di nm = Some (Inr (0, concat (map show_byte (vol_bytes di (entry_first e) n)) @ [10], []))"
    using cap chain_bytes [of n di "entry_first e"] assms(7) by (simp add: print_file_def Let_def)
  with host_finds [where files = files and img = img and prog = prog, OF assms(1,3,4)] assms(5) show ?thesis by simp
qed

text \<open>
  C40: The buffer of the tool has one sector more than the file, but whole clusters are stored in it: a
  file whose first cluster is larger than that makes the tool write past the block it allocated.
\<close>

theorem host_overruns_buffer:
  assumes "host_volume di N" "files img = Some di" "first_in_root di nm k" "e = vol_slot di k"
    "unat (de_Size e) + 512 < 512 * unat (vol_boot di ! 13)"
    "unat (cluster_lba (host_of di) (de_FirstClusterLow e)) + unat (vol_boot di ! 13) \<le> N"
  shows "host_main files [prog, img, nm] = Some (Inl WritePastBuffer)"
proof -
  have v: "has_sectors di N" "0 < N" using assms(1) by (simp_all add: host_volume_def)
  have b: "SectorsPerCluster (g_BootSector (host_of di)) = vol_boot di ! 13" "BytesPerSector (g_BootSector (host_of di)) = 512"
    using host_boot [OF assms(1)] by (simp_all add: host_of_def)
  have "unat (vol_boot di ! 13) < 256" using unsigned_less [of "vol_boot di ! 13", where 'a = nat] by simp
  then have cap: "unat (de_Size e + 512) = unat (de_Size e) + 512" using assms(5) by (simp add: unat_word_ariths)
  from read_whole [OF v(1) b(2), of "cluster_lba (host_of di) (de_FirstClusterLow e)" "ucast (vol_boot di ! 13)"] assms(6) v(2)
  obtain data where data: "readSectors (g_BootSector (host_of di)) di (cluster_lba (host_of di) (de_FirstClusterLow e))
      (ucast (vol_boot di ! 13)) = (True, data)" "length data = 512 * unat (vol_boot di ! 13)"
    by (simp add: unat_ucast_up8_32 length_sectors)
  then have "readFile (host_of di) e di (unat (de_Size e + 512)) = Some (Inl WritePastBuffer)"
    unfolding readFile_def using cap assms(5) by (subst readFile_loop.simps) (simp add: b(1))
  then have "print_file (host_of di) e di nm = Some (Inl WritePastBuffer)"
    using b(2) by (simp add: print_file_def Let_def)
  with host_finds [where files = files and img = img and prog = prog, OF assms(1,2,3)] assms(4) show ?thesis by simp
qed

section \<open>Witnesses\<close>

lemma boot_floppy_host: "host_volume boot_floppy 5"
proof -
  have "length boot_floppy = 2560"
    using sample_length [OF boot_data_length, of 1 88 2] by (simp add: boot_floppy_def boot_data_def)
  then show ?thesis
    using boot_floppy_ok by (auto simp: host_volume_def has_sectors_def boot_floppy_boot)
qed

lemma boot_floppy_exact: "exact_chain boot_floppy 2 600 5"
proof -
  have lba: "unat (chain_lba (vol_view boot_floppy) (2, 0)) < 5" "unat (chain_lba (vol_view boot_floppy) (3, 0)) < 5"
    by (simp_all add: chain_lba_def FAT_ClusterToLba_def vol_view_def boot_floppy_ok(3) bs_SectorsPerCluster_def boot_floppy_boot)
  have "\<exists>c. chain_at (vol_view boot_floppy) 2 i = Some (c, 0) \<and> (0 < i \<longrightarrow> c < 0xFF8) \<and>
      unat (chain_lba (vol_view boot_floppy) (c, 0)) < 5" if "i < 2" for i
  proof -
    have "i = 0 \<or> i = 1" using that by auto
    then show ?thesis using boot_floppy_next(1) lba by (auto simp del: chain_at.simps(2))
  qed
  moreover have "(600 + 511) div 512 = (2 :: nat)" by simp
  ultimately show ?thesis unfolding exact_chain_def using boot_floppy_next(2) by (simp only:) simp
qed

lemma host_prints_file_witness:
  "host_main [bytes ''a.img'' \<mapsto> boot_floppy] [bytes ''fat'', bytes ''a.img'', bytes ''KERNEL  BIN''] =
    Some (Inr (0, concat (map show_byte (vol_bytes boot_floppy 2 600)) @ [10], []))"
proof -
  have "first_in_root boot_floppy (bytes ''KERNEL  BIN'') 0"
    by (simp add: first_in_root_def boot_floppy_boot boot_floppy_slot)
  from host_prints_file [OF boot_floppy_host boot_floppy_boot(2) _ this refl, where n = 600 and files = "[bytes ''a.img'' \<mapsto> boot_floppy]"
      and img = "bytes ''a.img''"] boot_floppy_exact
  show ?thesis by (simp add: boot_floppy_slot entry_first_def)
qed

lemma cluster_floppy_host: "host_volume cluster_floppy 7"
proof -
  have "length cluster_floppy = 3584"
    using sample_length [of "replicate 4 [0xCC]" 4 10 0] by (simp add: cluster_floppy_def)
  then show ?thesis
    by (auto simp: host_volume_def has_sectors_def cluster_floppy_ok cluster_floppy_boot intro!: exI [of _ 6500])
qed

lemma host_overruns_buffer_witness:
  "host_main [bytes ''a.img'' \<mapsto> cluster_floppy] [bytes ''fat'', bytes ''a.img'', bytes ''KERNEL  BIN''] =
    Some (Inl WritePastBuffer)"
proof (rule host_overruns_buffer [OF cluster_floppy_host _ _ refl, where k = 0])
  show "first_in_root cluster_floppy (bytes ''KERNEL  BIN'') 0"
    by (simp add: first_in_root_def cluster_floppy_boot cluster_floppy_slot)
  have "SectorsPerCluster (g_BootSector (host_of cluster_floppy)) = 4"
    using host_boot(3) [OF cluster_floppy_host] by (simp add: host_of_def cluster_floppy_boot)
  then show "unat (cluster_lba (host_of cluster_floppy) (de_FirstClusterLow (vol_slot cluster_floppy 0))) +
      unat (vol_boot cluster_floppy ! 13) \<le> 7"
    by (simp add: cluster_lba_def cluster_floppy_slot cluster_floppy_boot host_of_def cluster_floppy_ok)
qed (simp_all add: cluster_floppy_boot cluster_floppy_slot)

end
