(* ===== verification/Getopt.thy ===== *)
theory Getopt
  imports CString
begin

text \<open>
  The option parser (kernel/getopt.c). Arguments are strings without their terminator; the global
  variables of the C code are a record, with \<open>_next\<close> as the text that is left of the current
  token (\<open>None\<close> for the null pointer).
\<close>

section \<open>State\<close>

datatype has_arg = no_argument | required_argument | optional_argument

text \<open>A long option; its \<open>flag\<close> is a null pointer or the address of a variable.\<close>

record long_option =
  lo_name :: "u8 list"
  lo_has_arg :: has_arg
  lo_flag :: "nat option"
  lo_val :: int

record getopt_state =
  optarg :: "u8 list option"
  optind :: nat
  optopt :: int
  go_next :: "u8 list option"
  go_vars :: "nat \<Rightarrow> int"
  go_longindex :: "nat option"

definition getopt_start :: getopt_state where
  "getopt_start = \<lparr>optarg = None, optind = 1, optopt = 0, go_next = None, go_vars = (\<lambda>v. 0),
     go_longindex = None\<rparr>"

section \<open>Operations\<close>

text \<open>The suffix of the option string that starts at the option.\<close>

fun find_from :: "u8 list \<Rightarrow> u8 \<Rightarrow> u8 list option" where
  "find_from [] opt = None"
| "find_from (p # ps) opt = (if p = opt then Some (p # ps) else find_from ps opt)"

definition find_short :: "u8 list \<Rightarrow> u8 \<Rightarrow> u8 list option" where
  "find_short optstring opt =
     find_from (if optstring \<noteq> [] \<and> hd optstring = 58 then tl optstring else optstring) opt"

definition silent :: "u8 list \<Rightarrow> bool" where
  "silent optstring \<longleftrightarrow> optstring \<noteq> [] \<and> hd optstring = 58"

text \<open>The part of \<open>getopt\<close> after a token has been chosen: one short option.\<close>

definition getopt_char :: "u8 list list \<Rightarrow> u8 list \<Rightarrow> u8 \<Rightarrow> u8 list \<Rightarrow> getopt_state \<Rightarrow> int \<times> getopt_state" where
  "getopt_char argv optstring opt rest s =
     (let s = s\<lparr>go_next := Some rest\<rparr> in
      case find_short optstring opt of
        None \<Rightarrow> (63, s\<lparr>optopt := uint opt\<rparr>)
      | Some p \<Rightarrow>
          if tl p \<noteq> [] \<and> hd (tl p) = 58 then
            (if rest \<noteq> [] then (uint opt, s\<lparr>optarg := Some rest, go_next := None\<rparr>)
             else if optind s < length argv then
               (uint opt, s\<lparr>optarg := Some (argv ! optind s), optind := optind s + 1, go_next := None\<rparr>)
             else (if silent optstring then 58 else 63, s\<lparr>optopt := uint opt, go_next := None\<rparr>))
          else (uint opt, s\<lparr>optarg := None\<rparr>))"

definition getopt :: "u8 list list \<Rightarrow> u8 list \<Rightarrow> getopt_state \<Rightarrow> int \<times> getopt_state" where
  "getopt argv optstring s =
     (if optind s \<ge> length argv then (-1, s)
      else if go_next s = None \<or> go_next s = Some [] then
        (let arg = argv ! optind s in
         if arg = [] \<or> hd arg \<noteq> 45 \<or> tl arg = [] then (-1, s)
         else if arg = [45, 45] then (-1, s\<lparr>optind := optind s + 1\<rparr>)
         else if hd (tl arg) = 45 then (-1, s)
         else getopt_char argv optstring (hd (tl arg)) (tl (tl arg)) (s\<lparr>optind := optind s + 1\<rparr>))
      else (let nxt = the (go_next s) in getopt_char argv optstring (hd nxt) (tl nxt) s))"

text \<open>The search in the long options: a table entry whose name is the first \<open>nlen\<close> characters.\<close>

definition long_match :: "u8 list \<Rightarrow> nat \<Rightarrow> long_option \<Rightarrow> bool" where
  "long_match name nlen lo \<longleftrightarrow>
     strncmp (lo_name lo @ [0]) (name @ [0]) nlen = Some 0 \<and> (lo_name lo @ [0]) ! nlen = 0"

definition find_long :: "long_option list \<Rightarrow> u8 list \<Rightarrow> nat \<Rightarrow> nat option" where
  "find_long longopts name nlen = find (\<lambda>i. long_match name nlen (longopts ! i)) [0..<length longopts]"

definition getopt_long ::
  "u8 list list \<Rightarrow> u8 list \<Rightarrow> long_option list \<Rightarrow> bool \<Rightarrow> getopt_state \<Rightarrow> int \<times> getopt_state" where
  "getopt_long argv optstring longopts want_index s =
     (if optind s \<ge> length argv then (-1, s)
      else if go_next s \<noteq> None \<and> go_next s \<noteq> Some [] then getopt argv optstring s
      else
        (let arg = argv ! optind s in
         if arg = [] \<or> hd arg \<noteq> 45 \<or> tl arg = [] then (-1, s)
         else if arg = [45, 45] then (-1, s\<lparr>optind := optind s + 1\<rparr>)
         else if hd (tl arg) = 45 then
           (let name = tl (tl arg);
                nlen = length (takeWhile (\<lambda>c. c \<noteq> 61) name);
                has_eq = (61 \<in> set name);
                found = find_long longopts name nlen;
                s = s\<lparr>optind := optind s + 1\<rparr> in
            case found of
              None \<Rightarrow> (63, s\<lparr>optopt := 0\<rparr>)
            | Some i \<Rightarrow>
                (let s = (if want_index then s\<lparr>go_longindex := Some i\<rparr> else s);
                     lo = longopts ! i;
                     give = (\<lambda>s. case lo_flag lo of
                         Some v \<Rightarrow> (0, s\<lparr>go_vars := (go_vars s)(v := lo_val lo)\<rparr>)
                       | None \<Rightarrow> (lo_val lo, s)) in
                 if lo_has_arg lo = required_argument \<or> lo_has_arg lo = optional_argument then
                   (if has_eq then give (s\<lparr>optarg := Some (drop (nlen + 1) name)\<rparr>)
                    else if lo_has_arg lo = required_argument \<and> optind s < length argv then
                      give (s\<lparr>optarg := Some (argv ! optind s), optind := optind s + 1\<rparr>)
                    else if lo_has_arg lo = required_argument then
                      (if silent optstring then 58 else 63, s\<lparr>optopt := 0\<rparr>)
                    else give (s\<lparr>optarg := None\<rparr>))
                 else give (s\<lparr>optarg := None\<rparr>)))
         else getopt argv optstring s))"

text \<open>A caller's loop: the options returned until the end, with their arguments.\<close>

fun getopt_all :: "nat \<Rightarrow> u8 list list \<Rightarrow> u8 list \<Rightarrow> getopt_state \<Rightarrow> (int \<times> u8 list option) list \<times> getopt_state" where
  "getopt_all 0 argv optstring s = ([], s)"
| "getopt_all (Suc n) argv optstring s =
     (let (r, s') = getopt argv optstring s in
      if r = -1 then ([], s')
      else (let (rs, t) = getopt_all n argv optstring s' in ((r, optarg s') # rs, t)))"

section \<open>Long options\<close>

lemma strncmp_prefix:
  "0 \<notin> set x \<Longrightarrow> 0 \<notin> set y \<Longrightarrow> n \<le> length y \<Longrightarrow>
     (strncmp (x @ [0]) (y @ [0]) n = Some 0 \<and> (x @ [0]) ! n = 0) \<longleftrightarrow> x = take n y"
proof (induction x arbitrary: y n)
  case Nil
  then show ?case by (cases n; cases y) (auto simp: uint_0_iff)
next
  case (Cons a x)
  then show ?case by (cases n; cases y) (auto simp: uint_cmp)
qed

lemma long_match_iff:
  assumes "0 \<notin> set (lo_name lo)" "0 \<notin> set name"
  shows "long_match name (length (takeWhile (\<lambda>c. c \<noteq> 61) name)) lo \<longleftrightarrow>
    lo_name lo = takeWhile (\<lambda>c. c \<noteq> 61) name"
  using strncmp_prefix [OF assms, of "length (takeWhile (\<lambda>c. c \<noteq> 61) name)"]
  by (simp add: long_match_def length_takeWhile_le takeWhile_eq_take [symmetric])

text \<open>
  A long option is recognised by its exact name: \<open>--name=value\<close> gives the value text after
  the first equals sign to an option that takes an argument, returns the option's value (or stores
  it through its flag and returns zero), and consumes one argument; the entry chosen is the first
  of that name.
\<close>

theorem getopt_long_inline_value:
  assumes "optind s < length argv" "argv ! optind s = [45, 45] @ name @ [61] @ text"
    "go_next s = None" "61 \<notin> set name" "0 \<notin> set (name @ text)" "\<forall>lo \<in> set longopts. 0 \<notin> set (lo_name lo)"
    "i < length longopts" "lo_name (longopts ! i) = name" "\<forall>j<i. lo_name (longopts ! j) \<noteq> name"
    "lo_has_arg (longopts ! i) \<noteq> no_argument"
  shows "getopt_long argv optstring longopts w s =
    (case lo_flag (longopts ! i) of None \<Rightarrow> lo_val (longopts ! i) | Some v \<Rightarrow> 0,
     s\<lparr>optind := optind s + 1, optarg := Some text,
       go_longindex := (if w then Some i else go_longindex s),
       go_vars := (case lo_flag (longopts ! i) of None \<Rightarrow> go_vars s
         | Some v \<Rightarrow> (go_vars s)(v := lo_val (longopts ! i)))\<rparr>)"
proof -
  let ?nm = "name @ [61] @ text"
  have tw: "takeWhile (\<lambda>c. c \<noteq> 61) ?nm = name"
    using assms(4) by (auto simp: takeWhile_append)
  have "long_match ?nm (length name) (longopts ! j) \<longleftrightarrow> lo_name (longopts ! j) = name" if "j < length longopts" for j
  proof -
    have "0 \<notin> set (lo_name (longopts ! j))" using assms(6) that by simp
    moreover have "0 \<notin> set ?nm" using assms(5) by simp
    ultimately show ?thesis using long_match_iff [of "longopts ! j" ?nm] tw by simp
  qed
  then have "find_long longopts ?nm (length name) = Some i"
    using assms(7-9) by (simp add: find_long_def find_Some_iff) (rule exI [of _ i], auto)
  then show ?thesis
    using assms(1-3,10) tw
    by (cases "lo_has_arg (longopts ! i)"; cases "lo_flag (longopts ! i)"; cases w)
       (simp_all add: getopt_long_def Let_def)
qed

section \<open>Short options\<close>

text \<open>What a token of grouped short options means, when none of them takes an argument.\<close>

definition plain_option :: "u8 list \<Rightarrow> u8 \<Rightarrow> bool" where
  "plain_option optstring c \<longleftrightarrow>
     (case find_short optstring c of None \<Rightarrow> False | Some p \<Rightarrow> tl p = [] \<or> hd (tl p) \<noteq> 58)"

lemma getopt_char_plain:
  "plain_option optstring c \<Longrightarrow>
     getopt_char argv optstring c rest s = (uint c, s\<lparr>go_next := Some rest, optarg := None\<rparr>)"
  by (auto simp: getopt_char_def plain_option_def Let_def split: option.splits)

text \<open>Options of the group, while another argument follows the token.\<close>

lemma getopt_group_rest:
  assumes "optind s < length argv" "go_next s = Some cs" "\<forall>c \<in> set cs. plain_option optstring c"
  shows "getopt_all (length cs + n) argv optstring s =
    (map (\<lambda>c. (uint c, None)) cs @ fst (getopt_all n argv optstring (s\<lparr>go_next := Some [], optarg := (if cs = [] then optarg s else None)\<rparr>)),
     snd (getopt_all n argv optstring (s\<lparr>go_next := Some [], optarg := (if cs = [] then optarg s else None)\<rparr>)))"
  using assms
proof (induction cs arbitrary: s)
  case Nil
  have "s\<lparr>go_next := Some [], optarg := optarg s\<rparr> = s" using Nil by simp
  then show ?case by simp
next
  case (Cons c cs)
  have "getopt argv optstring s = (uint c, s\<lparr>go_next := Some cs, optarg := None\<rparr>)"
    using Cons.prems by (simp add: getopt_def getopt_char_plain)
  moreover have "uint c \<noteq> -1" using unsigned_greater_eq [of c, where ?'a = int] by linarith
  ultimately show ?case
    using Cons.IH [of "s\<lparr>go_next := Some cs, optarg := None\<rparr>"] Cons.prems
    by (simp add: split_def Let_def)
qed

text \<open>
  A token of grouped short options that do not take arguments yields each of them in order
  when another argument follows it, and the parser then goes on with that argument.
\<close>

theorem getopt_group:
  assumes "optind s + 1 < length argv" "argv ! optind s = 45 # cs" "cs \<noteq> []" "hd cs \<noteq> 45"
    "go_next s = None" "\<forall>c \<in> set cs. plain_option optstring c"
  shows "getopt_all (length cs + n) argv optstring s =
    (let t = s\<lparr>optind := optind s + 1, go_next := Some [], optarg := None\<rparr> in
     (map (\<lambda>c. (uint c, None)) cs @ fst (getopt_all n argv optstring t), snd (getopt_all n argv optstring t)))"
proof -
  obtain c rest where cs: "cs = c # rest" using assms(3) by (cases cs) auto
  let ?s1 = "s\<lparr>optind := optind s + 1, go_next := Some rest, optarg := None\<rparr>"
  define t where "t = s\<lparr>optind := optind s + 1, go_next := Some [], optarg := None\<rparr>"
  have "getopt argv optstring s = (uint c, ?s1)"
    using assms cs by (simp add: getopt_def getopt_char_plain Let_def)
  moreover have "uint c \<noteq> -1" using unsigned_greater_eq [of c, where ?'a = int] by linarith
  moreover have "getopt_all (length rest + n) argv optstring ?s1 =
      (map (\<lambda>c. (uint c, None)) rest @ fst (getopt_all n argv optstring t), snd (getopt_all n argv optstring t))"
  proof -
    have "?s1\<lparr>go_next := Some [], optarg := (if rest = [] then optarg ?s1 else None)\<rparr> = t"
      by (simp add: t_def)
    moreover have "optind ?s1 < length argv" "go_next ?s1 = Some rest"
      "\<forall>c \<in> set rest. plain_option optstring c"
      using assms(1,6) cs by simp_all
    ultimately show ?thesis using getopt_group_rest [of ?s1 argv rest optstring n] by metis
  qed
  ultimately show ?thesis
    unfolding t_def [symmetric] using cs by (simp add: split_def Let_def)
qed

text \<open>
  C37: In the last argument the same group is cut short: only its first option is returned, and
  the next call reports the end.
\<close>

theorem getopt_group_last:
  assumes "optind s + 1 = length argv" "argv ! optind s = 45 # c # cs" "c \<noteq> 45" "cs \<noteq> []"
    "go_next s = None" "plain_option optstring c"
  shows "fst (getopt_all (Suc (Suc n)) argv optstring s) = [(uint c, None)]"
proof -
  have "getopt argv optstring s = (uint c, s\<lparr>optind := optind s + 1, go_next := Some cs, optarg := None\<rparr>)"
    using assms by (simp add: getopt_def getopt_char_plain Let_def)
  moreover have "getopt argv optstring (s\<lparr>optind := optind s + 1, go_next := Some cs, optarg := None\<rparr>) =
      (-1, s\<lparr>optind := optind s + 1, go_next := Some cs, optarg := None\<rparr>)"
    using assms(1) by (simp add: getopt_def)
  moreover have "uint c \<noteq> -1" using unsigned_greater_eq [of c, where ?'a = int] by linarith
  ultimately show ?thesis by (simp add: split_def Let_def)
qed

section \<open>Witnesses\<close>

lemma getopt_group_witness:
  "fst (getopt_all (Suc (Suc (Suc (Suc 0)))) [bytes ''p'', bytes ''-ab'', bytes ''x''] (bytes ''abc:'') getopt_start) =
     [(97, None), (98, None)]"
proof -
  have "getopt_all (length (bytes ''ab'') + Suc (Suc 0)) [bytes ''p'', bytes ''-ab'', bytes ''x''] (bytes ''abc:'') getopt_start =
    (let t = getopt_start\<lparr>optind := optind getopt_start + 1, go_next := Some [], optarg := None\<rparr> in
     (map (\<lambda>c. (uint c, None)) (bytes ''ab'') @ fst (getopt_all (Suc (Suc 0)) [bytes ''p'', bytes ''-ab'', bytes ''x''] (bytes ''abc:'') t),
      snd (getopt_all (Suc (Suc 0)) [bytes ''p'', bytes ''-ab'', bytes ''x''] (bytes ''abc:'') t)))"
    by (rule getopt_group)
       (simp_all add: getopt_start_def bytes_def plain_option_def find_short_def)
  then show ?thesis
    by (simp add: bytes_def getopt_start_def getopt_def Let_def)
qed

lemma getopt_group_last_witness:
  "fst (getopt_all (Suc (Suc 0)) [bytes ''p'', bytes ''-ab''] (bytes ''ab'') getopt_start) = [(97, None)]"
  using getopt_group_last [of getopt_start "[bytes ''p'', bytes ''-ab'']" 97 "[98]" "bytes ''ab''" 0]
  by (simp add: getopt_start_def bytes_def plain_option_def find_short_def)

lemma getopt_long_inline_value_witness:
  "fst (getopt_long [bytes ''p'', bytes ''--out=f=1''] [] [\<lparr>lo_name = bytes ''out'', lo_has_arg = required_argument,
     lo_flag = None, lo_val = 111\<rparr>] True getopt_start) = 111"
  using getopt_long_inline_value [of getopt_start "[bytes ''p'', bytes ''--out=f=1'']" "bytes ''out''" "bytes ''f=1''"
    "[\<lparr>lo_name = bytes ''out'', lo_has_arg = required_argument, lo_flag = None, lo_val = 111\<rparr>]" 0 "[]" True]
  by (simp add: getopt_start_def bytes_def)

end
