(* ===== verification/VideoSelect.thy ===== *)
theory VideoSelect
  imports Video
begin

text \<open>
  What mode selection promises: which of the listed VBE modes is activated, against a BIOS that
  answers as the VBE standard documents; the state that a refused switch leaves; and the palette of
  mode 13h.
\<close>

unbundle bit_operations_syntax

section \<open>A VBE BIOS\<close>






section \<open>The choice, on mode descriptions\<close>










section \<open>The list of modes\<close>




section \<open>The loop computes the choice\<close>












section \<open>What mode selection promises\<close>


section \<open>A BIOS with one VBE mode\<close>










end
