(* ===== verification/GfxColour.thy ===== *)
theory GfxColour
  imports GfxInit
begin

text \<open>
  How true the colours are: in a direct colour mode each channel keeps its upper bits in the field
  that the BIOS described, and the palette of mode 13h is the inverse of the conversion to 3-3-2.
\<close>

unbundle bit_operations_syntax

section \<open>Direct colour\<close>

definition field :: "u32 \<Rightarrow> u8 \<Rightarrow> u8 \<Rightarrow> u32" where
  "field w pos sz = take_bit (unat sz) (drop_bit (unat pos) w)"

definition top_bits :: "u8 \<Rightarrow> u8 \<Rightarrow> u32" where
  "top_bits v sz = ucast (drop_bit (8 - unat sz) v)"

definition fields_apart :: "u8 \<Rightarrow> u8 \<Rightarrow> u8 \<Rightarrow> u8 \<Rightarrow> bool" where
  "fields_apart p s p' s' \<longleftrightarrow> unat p + unat s \<le> unat p' \<or> unat p' + unat s' \<le> unat p"

definition field_ok :: "u8 \<Rightarrow> u8 \<Rightarrow> bool" where
  "field_ok p s \<longleftrightarrow> 0 < unat s \<and> unat s \<le> 8 \<and> unat p + unat s \<le> 32"

text \<open>A layout in which the three channels have fields of their own.\<close>

definition direct_layout :: "video_mode_info \<Rightarrow> bool" where
  "direct_layout m \<longleftrightarrow>
     field_ok (vm_red_pos m) (vm_red_size m) \<and> field_ok (vm_green_pos m) (vm_green_size m) \<and>
     field_ok (vm_blue_pos m) (vm_blue_size m) \<and>
     fields_apart (vm_red_pos m) (vm_red_size m) (vm_green_pos m) (vm_green_size m) \<and>
     fields_apart (vm_red_pos m) (vm_red_size m) (vm_blue_pos m) (vm_blue_size m) \<and>
     fields_apart (vm_green_pos m) (vm_green_size m) (vm_blue_pos m) (vm_blue_size m)"

lemma narrow_top_bits: "0 < unat s \<Longrightarrow> unat s \<le> 8 \<Longrightarrow> narrow_channel v s = top_bits v s"
  by (cases "unat s = 8")
    (auto simp: narrow_channel_def top_bits_def word_le_nat_alt unat_eq_zero)

lemma bit_top_bits: "bit (top_bits v s) n \<Longrightarrow> n < unat s \<or> 8 < unat s"
  by (auto simp: top_bits_def bit_simps dest: bit_imp_le_length)

lemma bit_shl32:
  assumes "field_ok p s"
  shows "bit (shl32 (top_bits v s) p) n \<longleftrightarrow> unat p \<le> n \<and> n < unat p + unat s \<and> bit (top_bits v s) (n - unat p)"
  using assms bit_top_bits [of v s "n - unat p"] by (auto simp: shl32_def field_ok_def bit_simps)

lemma field_shl32:
  assumes "field_ok p s" "field_ok q t" "field_ok r u" "fields_apart p s q t" "fields_apart p s r u"
  shows "field (shl32 (top_bits v s) p OR shl32 (top_bits w t) q OR shl32 (top_bits x u) r) p s = top_bits v s"
proof (rule bit_word_eqI)
  fix n assume "n < LENGTH(32)"
  show "bit (field (shl32 (top_bits v s) p OR shl32 (top_bits w t) q OR shl32 (top_bits x u) r) p s) n =
      bit (top_bits v s) n"
  proof (cases "n < unat s")
    case True
    with assms show ?thesis
      by (auto simp: field_def bit_take_bit_iff bit_drop_bit_eq bit_or_iff bit_shl32 fields_apart_def)
  next
    case False
    with assms(1) bit_top_bits [of v s n] show ?thesis
      by (auto simp: field_def bit_take_bit_iff bit_or_iff field_ok_def)
  qed
qed

text \<open>
  In a direct colour mode whose three channels have fields of their own, the packed value holds
  in each field the upper bits of the channel, as many as the field has.
\<close>

theorem direct_colour_fields:
  assumes "direct_layout m"
  shows "field (rgba_to_direct m rgba) (vm_red_pos m) (vm_red_size m) = top_bits (channel_of rgba 24) (vm_red_size m) \<and>
    field (rgba_to_direct m rgba) (vm_green_pos m) (vm_green_size m) = top_bits (channel_of rgba 16) (vm_green_size m) \<and>
    field (rgba_to_direct m rgba) (vm_blue_pos m) (vm_blue_size m) = top_bits (channel_of rgba 8) (vm_blue_size m)"
proof -
  let ?r = "shl32 (top_bits (channel_of rgba 24) (vm_red_size m)) (vm_red_pos m)"
  let ?g = "shl32 (top_bits (channel_of rgba 16) (vm_green_size m)) (vm_green_pos m)"
  let ?b = "shl32 (top_bits (channel_of rgba 8) (vm_blue_size m)) (vm_blue_pos m)"
  have sym: "fields_apart p s q t \<Longrightarrow> fields_apart q t p s" for p s q t by (auto simp: fields_apart_def)
  have d: "rgba_to_direct m rgba = ?r OR ?g OR ?b"
    using assms by (simp add: rgba_to_direct_def direct_layout_def field_ok_def narrow_top_bits)
  have "?r OR ?g OR ?b = ?g OR ?r OR ?b" "?r OR ?g OR ?b = ?b OR ?r OR ?g" by (simp_all add: ac_simps)
  with d assms sym show ?thesis
    unfolding direct_layout_def by (metis field_shl32)
qed

lemma direct_colour_fields_witness:
  "direct_layout (zero_mode\<lparr>vm_red_pos := 11, vm_red_size := 5, vm_green_pos := 5, vm_green_size := 6,
      vm_blue_pos := 0, vm_blue_size := 5\<rparr>) \<and>
   field (rgba_to_direct (zero_mode\<lparr>vm_red_pos := 11, vm_red_size := 5, vm_green_pos := 5, vm_green_size := 6,
      vm_blue_pos := 0, vm_blue_size := 5\<rparr>) 0xFF8000FF) 5 6 = 32"
proof -
  let ?m = "zero_mode\<lparr>vm_red_pos := 11, vm_red_size := 5, vm_green_pos := 5, vm_green_size := 6,
      vm_blue_pos := 0, vm_blue_size := 5\<rparr>"
  have l: "direct_layout ?m" by (simp add: direct_layout_def field_ok_def fields_apart_def)
  with direct_colour_fields [OF l, of "0xFF8000FF"] show ?thesis
    by (simp add: top_bits_def channel_of_def)
qed

text \<open>A channel without bits keeps its eight bits, and a wide one too.\<close>

lemma narrow_channel_absent: "narrow_channel v 0 = ucast v"
  by (simp add: narrow_channel_def)

lemma index_332:
  "drop_bit 5 (rgba_to_332 rgba) = drop_bit 5 (channel_of rgba 24)"
  "drop_bit 2 (rgba_to_332 rgba) AND 7 = drop_bit 5 (channel_of rgba 16)"
  "rgba_to_332 rgba AND 3 = drop_bit 6 (channel_of rgba 8)"
proof -
  have m: "(7 :: u8) = mask 3" "(3 :: u8) = mask 2" by (simp_all add: mask_eq_exp_minus_1)
  show "drop_bit 5 (rgba_to_332 rgba) = drop_bit 5 (channel_of rgba 24)"
    by (rule bit_word_eqI) (auto simp: rgba_to_332_def bit_simps dest: bit_imp_le_length)
  show "drop_bit 2 (rgba_to_332 rgba) AND 7 = drop_bit 5 (channel_of rgba 16)"
    unfolding m by (rule bit_word_eqI) (auto simp: rgba_to_332_def bit_simps dest: bit_imp_le_length)
  show "rgba_to_332 rgba AND 3 = drop_bit 6 (channel_of rgba 8)"
    unfolding m by (rule bit_word_eqI) (auto simp: rgba_to_332_def bit_simps dest: bit_imp_le_length)
qed

section \<open>What the screen shows\<close>

text \<open>
  The colour on the screen, in arithmetic: \<open>rgba\<close> holds red, green, blue and alpha from the top byte
  down; a mode of 8 bits has 3 bits of red, 3 of green and 2 of blue, any other mode the fields that
  the BIOS described, with the upper bits of each channel and nothing between them. A pixel is stored
  low byte first.
\<close>

definition red_of :: "u32 \<Rightarrow> nat" where "red_of rgba = unat rgba div 2 ^ 24"
definition green_of :: "u32 \<Rightarrow> nat" where "green_of rgba = unat rgba div 2 ^ 16 mod 256"
definition blue_of :: "u32 \<Rightarrow> nat" where "blue_of rgba = unat rgba div 2 ^ 8 mod 256"

definition field_shows :: "nat \<Rightarrow> u8 \<Rightarrow> u8 \<Rightarrow> nat \<Rightarrow> bool" where
  "field_shows p pos sz v \<longleftrightarrow> p div 2 ^ unat pos mod 2 ^ unat sz = v div 2 ^ (8 - unat sz)"

definition shows_colour :: "video_mode_info \<Rightarrow> u32 \<Rightarrow> nat \<Rightarrow> bool" where
  "shows_colour m rgba p \<longleftrightarrow>
     (if vm_bpp m = 8 then p = red_of rgba div 32 * 32 + green_of rgba div 32 * 4 + blue_of rgba div 64
      else field_shows p (vm_red_pos m) (vm_red_size m) (red_of rgba) \<and>
        field_shows p (vm_green_pos m) (vm_green_size m) (green_of rgba) \<and>
        field_shows p (vm_blue_pos m) (vm_blue_size m) (blue_of rgba))"

definition depth_layout :: "video_mode_info \<Rightarrow> bool" where
  "depth_layout m \<longleftrightarrow> vm_bpp m = 8 \<or> direct_layout m \<and>
     unat (vm_red_pos m) + unat (vm_red_size m) \<le> 8 * bytes_per_pixel m \<and>
     unat (vm_green_pos m) + unat (vm_green_size m) \<le> 8 * bytes_per_pixel m \<and>
     unat (vm_blue_pos m) + unat (vm_blue_size m) \<le> 8 * bytes_per_pixel m"

definition le_value :: "u8 list \<Rightarrow> nat" where
  "le_value bs = foldr (\<lambda>b n. unat b + 256 * n) bs 0"

definition stored_pixel :: "'d bridge \<Rightarrow> nat \<Rightarrow> nat \<Rightarrow> nat" where
  "stored_pixel b x y = le_value (read_bytes (bridge_mem b) (of_nat (cell_at (bridge_mode b) (y, x))) (bytes_per_pixel (bridge_mode b)))"

lemma unat_drop: "unat (drop_bit n w) = unat w div 2 ^ n" for w :: "'a::len word"
  by (simp only: unat_drop_bit_eq) (simp only: drop_bit_eq_div)

lemma unat_take: "unat (take_bit n w) = unat w mod 2 ^ n" for w :: "'a::len word"
  by (simp only: unsigned_take_bit_eq) (simp only: take_bit_eq_mod)

lemma unat_cut: "unat (ucast w :: u8) = unat w mod 256" for w :: "'a::len word"
  by (simp add: unsigned_ucast_eq take_bit_eq_mod)

lemma unat_field: "unat (field p pos sz) = unat p div 2 ^ unat pos mod 2 ^ unat sz"
  by (simp only: field_def unat_take unat_drop)

lemma unat_top_bits: "unat (top_bits v sz) = unat v div 2 ^ (8 - unat sz)"
  by (simp only: top_bits_def unat_drop unat_ucast_up8_32)

lemma unat_channels:
  "unat (channel_of rgba 24) = red_of rgba" "unat (channel_of rgba 16) = green_of rgba"
  "unat (channel_of rgba 8) = blue_of rgba"
proof -
  have m: "(0xFF :: u32) = mask 8" by (simp add: mask_eq_exp_minus_1)
  have c: "unat (channel_of rgba k) = unat rgba div 2 ^ k mod 256" if "k < 32" for k
    unfolding channel_of_def m take_bit_eq_mask [symmetric] unat_cut unat_take unat_drop
    by simp
  show "unat (channel_of rgba 24) = red_of rgba" "unat (channel_of rgba 16) = green_of rgba"
    "unat (channel_of rgba 8) = blue_of rgba"
    using c [of 24] c [of 16] c [of 8] unat_u32_less [of rgba] by (simp_all add: red_of_def green_of_def blue_of_def)
qed

text \<open>Cutting a pixel to its depth keeps the fields that lie in it.\<close>

lemma field_take_bit: "unat pos + unat sz \<le> n \<Longrightarrow> field (take_bit n w) pos sz = field w pos sz"
  unfolding field_def by (rule bit_word_eqI) (auto simp: bit_simps)

lemma field_shows_cut:
  assumes "field (rgba_to_direct m rgba) pos sz = top_bits c sz" "unat pos + unat sz \<le> n"
  shows "field_shows (unat (take_bit n (rgba_to_direct m rgba))) pos sz (unat c)"
  using arg_cong [OF field_take_bit [OF assms(2), of "rgba_to_direct m rgba"], of unat] arg_cong [OF assms(1), of unat]
  by (simp only: field_shows_def unat_field unat_top_bits)

lemma unat_332: "unat (rgba_to_332 rgba) = red_of rgba div 32 * 32 + green_of rgba div 32 * 4 + blue_of rgba div 64"
proof -
  let ?i = "rgba_to_332 rgba"
  have m: "(7 :: u8) = mask 3" "(3 :: u8) = mask 2" by (simp_all add: mask_eq_exp_minus_1)
  have "unat ?i div 32 = red_of rgba div 32"
    using arg_cong [OF index_332(1) [of rgba], of unat] by (simp only: unat_drop unat_channels) simp
  moreover have "unat ?i div 4 mod 8 = green_of rgba div 32"
    using arg_cong [OF index_332(2) [of rgba], of unat] 
    by (simp only: m take_bit_eq_mask [symmetric] unat_take unat_drop unat_channels) simp
  moreover have "unat ?i mod 4 = blue_of rgba div 64"
    using arg_cong [OF index_332(3) [of rgba], of unat] 
    by (simp only: m take_bit_eq_mask [symmetric] unat_take unat_drop unat_channels) simp
  moreover have "n = n div 32 * 32 + n div 4 mod 8 * 4 + n mod 4" for n :: nat
  proof -
    define a where "a = n div 4"
    have "n div 32 = a div 8" using div_mult2_eq [of n 4 8] by (simp add: a_def)
    moreover have "a = a div 8 * 8 + a mod 8" "n = a * 4 + n mod 4" by (simp_all add: a_def)
    ultimately show ?thesis unfolding a_def [symmetric] by linarith
  qed
  ultimately show ?thesis by metis
qed

lemma screen_pixel_shows: "depth_layout m \<Longrightarrow> shows_colour m rgba (unat (screen_pixel m rgba))"
proof (cases "vm_bpp m = 8")
  case True
  then show ?thesis by (simp add: shows_colour_def screen_pixel_def unat_332 unat_ucast_up8_32)
next
  case False
  assume l: "depth_layout m"
  with False have "direct_layout m" by (simp add: depth_layout_def)
  note f = direct_colour_fields [OF this, of rgba]
  show ?thesis
    using False l f field_shows_cut [of m rgba] unat_channels [of rgba]
    unfolding shows_colour_def screen_pixel_def depth_layout_def by (simp only: if_False simp_thms) metis
qed

text \<open>The bytes of a pixel, low byte first.\<close>

lemma le_value_put: "le_value (put16 w) = unat w" "le_value (put32 v) = unat v" "le_value (take 3 (put32 v)) = unat (take_bit 24 v)"
proof -
  have b: "unat (ucast (drop_bit k v) :: u8) = unat v div 2 ^ k mod 256" if "k < 32" for k and v :: u32
    by (simp only: unat_cut unat_drop)
  have s: "unat (ucast v :: u8) = unat v mod 256" for v :: u32 by (rule unat_cut)
  show put: "le_value (put16 w) = unat w" for w :: u16
  proof -
    have "unat (ucast w :: u8) = unat w mod 256" "unat (ucast (drop_bit 8 w) :: u8) = unat w div 256"
      using unat_u16_less [of w] by (simp_all only: unat_cut unat_drop) simp
    then show ?thesis by (simp add: le_value_def put16_def)
  qed
  have n: "n mod 256 + 256 * (n div 256 mod 256 + 256 * (n div 65536 mod 256)) = n mod 16777216" for n :: nat
    using mod_mult2_eq [of n 256 65536] mod_mult2_eq [of "n div 256" 256 256] div_mult2_eq [of n 256 256] by simp
  have "unat (ucast v :: u16) = unat v mod 65536" "unat (ucast (drop_bit 16 v) :: u16) = unat v div 65536 mod 65536"
    by (simp_all only: unsigned_ucast_eq unat_drop) (simp_all add: take_bit_eq_mod)
  moreover have "le_value (put16 a @ put16 b) = unat a + 65536 * unat b" for a b
    using put [of a] put [of b] by (simp add: le_value_def put16_def)
  ultimately show "le_value (put32 v) = unat v"
    using unat_u32_less [of v] by (simp add: put32_def)
  show "le_value (take 3 (put32 v)) = unat (take_bit 24 v)"
    using n [of "unat v"] b [of 8 v] b [of 16 v] s [of v]
    by (simp add: le_value_def take3_put32 unat_take)
qed

lemma pixel_bytes_value: "known_depth m \<Longrightarrow> le_value (pixel_bytes m rgba) = unat (screen_pixel m rgba)"
proof -
  have "unat (ucast w :: u16) = unat (take_bit 16 w)" for w :: u32
    by (simp only: unsigned_ucast_eq unsigned_take_bit_eq) simp
  moreover have "take_bit 32 w = w" for w :: u32 by (rule bit_word_eqI) (simp add: bit_simps)
  moreover have "le_value [b] = unat b" for b by (simp add: le_value_def)
  moreover assume "known_depth m"
  ultimately show ?thesis
    by (auto simp: known_depth_def pixel_bytes_def screen_pixel_def bytes_per_pixel_def le_value_put unat_ucast_up8_32)
qed

text \<open>
  C18: Presenting: each pixel of the back buffer is stored at its place on the screen, low byte first;
  where the mode gives each channel a field of its own, its red, green and blue fields hold the upper
  bits of the red, green and blue of the back buffer, and in 8 bits per pixel it is the 3-3-2 index
  of the colour; reading it back with the code's function gives the same number. The back buffer stays,
  and no byte outside the scanlines of the framebuffer is written.
\<close>

theorem gfx_bridge_present_shows:
  assumes "bridge_ready b" "known_depth (bridge_mode b)"
    "mode_fits (fb_pixels (bridge_framebuffer b)) (bridge_mode b)"
    "x < unat (vm_width (bridge_mode b))" "y < unat (vm_height (bridge_mode b))"
  shows "(depth_layout (bridge_mode b) \<longrightarrow>
      shows_colour (bridge_mode b) (back_pixel b x y) (stored_pixel (gfx_bridge_present b) x y)) \<and>
    unat (shown_pixel (gfx_bridge_present b) x y) = stored_pixel (gfx_bridge_present b) x y \<and>
    back_pixel (gfx_bridge_present b) x y = back_pixel b x y \<and>
    (\<forall>a. \<not> in_range a (unat (vm_framebuffer (bridge_mode b))) (screen_size (bridge_mode b)) \<longrightarrow>
       bridge_mem (gfx_bridge_present b) a = bridge_mem b a)"
proof -
  have "stored_pixel (gfx_bridge_present b) x y = unat (screen_pixel (bridge_mode b) (back_pixel b x y))"
    using present_bytes [OF assms] by (simp add: stored_pixel_def pixel_bytes_value [OF assms(2)])
  with present_shows [OF assms] screen_pixel_shows [of "bridge_mode b" "back_pixel b x y"] show ?thesis by simp
qed

text \<open>A 16-bit mode with the fields 5, 6 and 5, and a grey pixel.\<close>

lemma gfx_bridge_present_shows_witness:
  "shows_colour mode_example 0x7F7F7F7F (stored_pixel (gfx_bridge_present bridge_example) 1 0)"
proof -
  have m: "bridge_mode bridge_example = mode_example" "bridge_ready bridge_example"
    "fb_pixels (bridge_framebuffer bridge_example) = 0x100000"
    by (simp_all add: bridge_example_def)
  have ok: "known_depth mode_example" "mode_fits 0x100000 mode_example" "(1 :: nat) < unat (vm_width mode_example)"
    "(0 :: nat) < unat (vm_height mode_example)" "depth_layout mode_example"
    by (simp_all add: mode_example_def known_depth_def mode_fits_def back_size_def screen_size_def
        bytes_per_pixel_def depth_layout_def direct_layout_def field_ok_def fields_apart_def)
  have "back_pixel bridge_example 1 0 = 0x7F7F7F7F"
    by (simp add: back_pixel_def bridge_mem_def bridge_example_def mem_get32_def read_bytes_def get32_def
        get16_def upt_rec)
  then show ?thesis
    using gfx_bridge_present_shows [of bridge_example 1 0] m ok by simp
qed

section \<open>The palette of mode 13h\<close>

text \<open>The DAC of the card: the write index selects the first component that the data port stores.\<close>

definition dac_hw :: "(nat \<times> (nat \<Rightarrow> u8)) hw" where
  "dac_hw = \<lparr>hw_in = (\<lambda>d p. (0, d)),
     hw_out = (\<lambda>(pos, t) port v. if port = VGA_DAC_WRITE_INDEX then (3 * unat v, t)
        else if port = VGA_DAC_DATA then (pos + 1, t(pos := v)) else (pos, t))\<rparr>"

definition dac_red :: "nat \<Rightarrow> u8" where
  "dac_red i = ucast (drop_bit 2 ((drop_bit 5 (of_nat i :: u32) AND 7) * 255 div 7))"
definition dac_green :: "nat \<Rightarrow> u8" where
  "dac_green i = ucast (drop_bit 2 ((drop_bit 2 (of_nat i :: u32) AND 7) * 255 div 7))"
definition dac_blue :: "nat \<Rightarrow> u8" where
  "dac_blue i = ucast (drop_bit 2 (((of_nat i :: u32) AND 3) * 255 div 3))"

lemma palette_entry_dac:
  "palette_entry dac_hw (of_nat i) (pos, t) =
     (pos + 3, t(pos := dac_red i, pos + 1 := dac_green i, pos + 2 := dac_blue i))"
  by (simp add: palette_entry_def dac_hw_def outb_def VGA_DAC_WRITE_INDEX_def VGA_DAC_DATA_def Let_def
      dac_red_def dac_green_def dac_blue_def eval_nat_numeral)

lemma palette_loop:
  "\<exists>t'. fold (\<lambda>i. palette_entry dac_hw (of_nat i)) [0..<n] (0, t) = (3 * n, t') \<and>
     (\<forall>i < n. t' (3 * i) = dac_red i \<and> t' (3 * i + 1) = dac_green i \<and> t' (3 * i + 2) = dac_blue i)"
proof (induction n)
  case (Suc n)
  then obtain t' where t': "fold (\<lambda>i. palette_entry dac_hw (of_nat i)) [0..<n] (0, t) = (3 * n, t')"
    "\<forall>i < n. t' (3 * i) = dac_red i \<and> t' (3 * i + 1) = dac_green i \<and> t' (3 * i + 2) = dac_blue i"
    by blast
  then show ?case
    by (intro exI [of _ "t'(3 * n := dac_red n, 3 * n + 1 := dac_green n, 3 * n + 2 := dac_blue n)"])
      (simp only: upt_Suc_append fold_append comp_apply fold_simps zero_le palette_entry_dac,
        auto simp: less_Suc_eq)
qed simp


text \<open>What the 256 palette entries and the 3-3-2 index of a colour have in common.\<close>

definition dac_bits_ok :: "u8 \<Rightarrow> bool" where
  "dac_bits_ok i \<longleftrightarrow>
     drop_bit 3 (dac_red (unat i)) = drop_bit 5 i \<and>
     drop_bit 3 (dac_green (unat i)) = drop_bit 2 i AND 7 \<and>
     drop_bit 4 (dac_blue (unat i)) = i AND 3"

lemma dac_bits: "dac_bits_ok i"
proof (rule all_u8)
  show "list_all dac_bits_ok all_bytes"
    by code_simp
qed

text \<open>
  The palette that mode 13h installs is matched to the conversion of colours: the DAC entry
  that the 3-3-2 index of a colour selects shows the upper three bits of its red and green and the
  upper two bits of its blue in the top bits of the six-bit components.
\<close>

theorem vga13_palette_matches:
  "let t = snd (video_install_332_palette dac_hw (pos, t0)); i = unat (rgba_to_332 rgba) in
    drop_bit 3 (t (3 * i)) = drop_bit 5 (channel_of rgba 24) \<and>
    drop_bit 3 (t (3 * i + 1)) = drop_bit 5 (channel_of rgba 16) \<and>
    drop_bit 4 (t (3 * i + 2)) = drop_bit 6 (channel_of rgba 8)"
proof -
  define t where "t = snd (video_install_332_palette dac_hw (pos, t0))"
  define i where "i = unat (rgba_to_332 rgba)"
  have start: "outb dac_hw VGA_DAC_WRITE_INDEX 0 (pos, t0) = (0, t0)"
    by (simp add: dac_hw_def outb_def)
  obtain t' where t': "fold (\<lambda>i. palette_entry dac_hw (of_nat i)) [0..<256] (0, t0) = (3 * 256, t')"
    "\<forall>i < 256. t' (3 * i) = dac_red i \<and> t' (3 * i + 1) = dac_green i \<and> t' (3 * i + 2) = dac_blue i"
    using palette_loop [of 256 t0] by blast
  have "t = t'" by (simp only: t_def video_install_332_palette_def start t' snd_conv)
  moreover have "i < 256" using unat_u8_less by (simp add: i_def)
  ultimately have "t (3 * i) = dac_red i" "t (3 * i + 1) = dac_green i" "t (3 * i + 2) = dac_blue i"
    using t'(2) by simp_all
  then show ?thesis
    using dac_bits [of "rgba_to_332 rgba"] unfolding Let_def t_def [symmetric] i_def [symmetric]
    by (simp add: dac_bits_ok_def index_332 i_def)
qed

end
