(* ===== verification/Spec2Isabelle.thy ===== *)
theory Spec2Isabelle
  imports BootChain Stage1Load IsrStub Fpu CubeDemo RasterExact KernelBoot Stage2Printf KeyboardCoverage Terminal Printf Kalloc BootMemory FatWf Stage2Boot Stage2Util HostFatAgree Getopt ShellLoop IrqService VideoSelect ShellVideo GfxColour
begin

text \<open>
  AlmaOS: a verification development of the boot sector, of the second stage of the boot loader, of
  the kernel, of the graphics library that the kernel draws with, and of the host tool for its floppy
  images.

  The program. The boot sector (src/src/bootloader/stage1) loads stage 2 from the root directory of
  a floppy. Stage 2 (src/src/bootloader/stage2, 16-bit code) finds its way about a FAT12 floppy
  through the BIOS, collects the E820 memory map, reserves a heap, leaves a block of boot
  information at 0x60000, loads /kernel.bin to 0x12000 and jumps to it. The kernel (src/src/kernel,
  32-bit code) enters protected mode in its first sector, sets up console, interrupt controllers,
  timer, keyboard, graphics and page allocator, and ends in an interactive shell. Its graphical
  commands switch the video mode through a real-mode trampoline and draw with the software
  rasteriser (src/third_party/gfx) into a back buffer that a bridge converts to the format of the
  screen. The host tool (src/tools/fat/fat.c) prints a file of an image.

  How the code is modelled. A struct is a record, an enumeration a datatype, an integer a word of
  its width in the compilation at hand (\<open>int\<close> has 16 bits in stage 2, 32 elsewhere). A
  function that changes state takes the state and returns it. A routine in assembly is a function on
  the registers of the processor and on memory, instruction by instruction. Devices, the BIOS, the
  FPU and the standard library of the host are arguments of the definitions: records of functions
  over a state of their own, about which the models assume nothing; a theorem that needs them to
  behave says so by an instance (a board with two 8259A controllers, a BIOS that serves a disk image
  and may fail twice, a BIOS with a list of VBE modes or of memory regions, exact arithmetic). What
  C leaves undefined is a value (\<open>None\<close> or the left of a sum), never a default. A loop
  that may run for ever is a partial function into options, so that not to return is
  \<open>None\<close>: the loops over directory entries, over the bytes of a file, and over the
  clusters in the boot sector and in the host tool. All other recursions are structural or have a
  measure. The fixed messages of a failed boot always print (boot_fail_message), so \<open>None\<close> of \<open>cstart\<close>
  is a search or a read that does not return. A geometry of no heads or no sectors, by which disk.c
  would divide, is excluded by the hypotheses of the theorems on disks. The one bound on iterations is the code's own, the 100000 polls of the serial line. The
  keys of a shell session, the interrupts that arrive and the frames of the demo are lists or
  arbitrary numbers, so that there is no bound of the model to justify.

  Shared ground.
   Prelude: widths, byte strings, little-endian fields, the ports of a device, word and list lemmas,
  and the collections of facts that evaluate a component or keep its invariant.
   CString (string.c), FlatBlocks (loops that write blocks of bytes to flat memory), CharFifo and Bump
  and the locales of Disk and FatMount: the interfaces. CharFifo is the contract of a bounded queue of
  characters, which the keyboard buffer provides; Bump that of an allocator which never takes back,
  which the stage 2 heap and the kernel's page allocator provide; \<open>sector_source\<close> that of a disk,
  which the disk layer over an image provides, and \<open>total_source\<close> extends it to a disk that answers
  for every sector number. The lemmas about whole runs are proved from these laws.

  Boot sector.
   Stage1 (stage1/boot.asm, stage2/main.asm): its variables, disk routine, search and loading loop.
  Stage1Load: on a volume with its parameters it enters stage 2 with the whole chain in memory and the
  boot drive passed on, through two failures of the drive; otherwise it stops with a message.

  Stage 2.
   Cpu and X86 (x86.asm): the registers, long arithmetic, and the disk routines by what they put into
  registers and take from them. X86Disk: over a BIOS known by its registers, disk.c reads the sectors
  it means to. X86Map, X86Boot: the memory map through INT 15h; booting over it, and that more than 32
  regions stop the machine.
   Disk (disk.c): geometry, three attempts per read; the translation to cylinder, head and sector
  loses nothing.
   Fat (fat.c, ctype.c, strchr and min): the driver; FatFile, FatRead, FatDir, FatMount, FatOpen: the
  packed table, reading along a chain, directories, mounting, opening; each later theory describes its
  files by the image alone. Reading over a floppy is stated with the volume's own arithmetic (the
  12-bit table, cluster 2 first in the data area), not the driver's. FatWf: over any disk, opening a
  path touches no open file and takes at most the one place of the handle that it returns.
   BootMemory and BootInfo (memory.c, memory.h, kernel/include/boot_info.h): far blocks, memory map,
  heap, and the boot block as either side declares it.
   Stage2Stdio, Stage2Print, Stage2Printf (stdio.c): the UTF-8 decoder, code page 437, printf.
   Stage2Main and Stage2Boot (main.c, memdefs.h): \<open>cstart\<close> and what it achieves: the kernel in memory,
  the boot block readable, the jump; and that a missing kernel is searched for ever.
   Stage2Util (utility.c, string.c): the helpers left. BootFloppy: the images of the witnesses.

  Kernel.
   Serial (serial.c), Console and Terminal (vga.c against an abstract terminal), Printf (the printf of
  vga.c against the grammar of formats and the meaning of each directive: numerals, padding, sign; a
  width or a negation that overflows an \<open>int\<close> is an error).
   Keyboard, KeyboardInput, KeyboardCoverage (keyboard.c): tables, modifiers and buffer; typed text;
  the interleaving of the interrupt handler with the steps of a reader, by rule induction: what it
  is delivered, of a typed text too, and that it is served after two steps of its own; which
  characters a layout has.
   Interrupts, IrqFlow, IrqService (pic.c, pit.c, idt.c, the wrappers of kernel_main.c): registers,
  dispatcher; the board; histories of interrupts; the exact report of an exception.
   Kalloc (kalloc.c): choice of the region, blocks.
   Getopt (getopt.c); ShellLine, Shell, ShellLoop (shell.c, root/echo.c): tokens, line editor,
  builtins, whole interactions.
   KernelEntry (kernel/boot.asm, x86_FarJump): descriptor table, gate A20, protected mode. BootChain:
  from stage 2 to the C entry point.
   Stack32 and IsrStub (isr_stubs.asm): the stack of 32-bit code; the stubs lay out the frame that the
  dispatcher declares and give every register back.
   RealmodeStub (realmode.asm): the layout shared with realmode.c; the trampoline brings the caller's
  registers to the handler and the handler's to the caller, and restores the processor.
   Realmode (realmode.c), Video, VideoSelect (video.c): BIOS calls with the interrupt lines masked;
  the mode chosen among those that the BIOS lists, by the depths and not by the code's scores.
   CmdVideo, VideoCommands, ShellVideo (cmd_video.c): the graphical commands, alone and in the shell.
   KernelMain, KernelBoot (kernel_main.c, panic.c), Fpu (fpu.c): the order of initialisation; the shell
  is reached whatever the devices answer, and interrupts are then served.

  Graphics.
   GfxBridge, GfxColour, GfxInit, GfxPresent (gfx_bridge.c, gfx_framebuffer.c): what a buffer looks
  like on the screen, the channels by the fields of the mode and the bytes low first, and that nothing
  else is written.
   GfxMath, GfxRaster (gfx_math.h, gfx_math.c, gfx_raster.c): the rasteriser over any arithmetic;
  RasterPixels: it stays in its buffers and decides each pixel on its own; RasterExact: in exact
  arithmetic a pixel is drawn by coverage, depth test and interpolation, and a shared edge once.
   CubeDemo: the frames of the demo.

  Host. HostFat (tools/fat/fat.c); HostFatAgree: it prints what stage 2 would load, and where its
  buffer is too small.

  The last section joins the two programs: the page allocator of the kernel chooses among the regions
  that the BIOS told stage 2.

  Bounds chosen. \<open>stage1_chain\<close> takes chains of at most 128 clusters, the 64 KiB of the
  segment that the boot sector loads to. \<open>kernel_cpu\<close> asks for a stack above 0x34040,
  which is above the area of the trampoline; the stack that the first sector sets up is at 0x78000.
  \<open>gdt_start\<close> is where the assembler puts the table; every offset within the 512 bytes
  of the sector is covered.

  Not modelled. The encoding of instructions: code is executed from the source, its addresses are
  arguments where they matter. The call of kernel_main in entry.asm, the unused kernel/main.asm, and
  the inline instructions for ports, FPU and control registers in C, which are parameters. Segment
  limits and privilege checks of the processor, apart from the bases that the far jumps rely on.
  Interrupts that arrive while a function of the kernel runs, except in the keyboard buffer, where
  the steps of a reader are modelled one by one. The messages that the FAT driver prints. Memory of
  stage 2 outside what is named: the driver's data, the stack and the code are taken not to overlap
  with the kernel, which holds for the files that can be loaded, those below 32 KiB. Failure of the
  host's memory allocation. The kernel's self tests, the test of the graphics library, and
  stdfloat.c, which nothing calls.\<close>

section \<open>From the BIOS to the kernel's heap\<close>

lemma handed_over_entries:
  assumes "boot_info_get mem = boot_block (of_nat (length es))" "length es \<le> 32"
    "\<forall>i < length es. e820_at mem (boot_info_e820_entries mem) i = es ! i"
  shows "kalloc_entries mem = es" "boot_info_e820_entries mem \<noteq> 0"
proof -
  have "unat (of_nat (length es) :: u16) = length es" using assms(2) by (simp add: unat_of_nat_word)
  then show "kalloc_entries mem = es"
    using assms(1,3) by (auto simp: kalloc_entries_def boot_block_def intro!: nth_equalityI)
  show "boot_info_e820_entries mem \<noteq> 0"
    by (simp add: boot_info_e820_entries_def assms(1) boot_block_def far_to_flat_def)
qed

text \<open>
  C2: Across the two programs: when stage 2 has booted the kernel, the page allocator of the kernel,
  started on the memory it was handed, chooses among the very regions that the BIOS reported to stage
  2: it succeeds exactly when one of them has a page above 1 MiB and below 4 GiB, its capacity is the
  largest such room, and it lies inside a usable region above 1 MiB, clear of everything that stage 2
  stored.
\<close>

theorem boot_to_heap:
  assumes "boot_ready di es env m" "first_in_root di (bytes ''KERNEL  BIN'') k" "e = vol_slot di k"
    "de_Attributes e AND FAT_ATTRIBUTE_DIRECTORY = 0" "unat (de_Size e) < 32768"
    "vol_chain di (entry_first e) (unat (de_Size e))"
  shows "\<exists>m' s. cstart env 0 m = Some (Inr (Far_jump 0x1200 0, m')) \<and>
    kalloc_init (s2_mem m') = (\<exists>r \<in> set es. 0 < page_room r, s) \<and>
    kalloc_used s = 0 \<and> unat (kalloc_capacity s) = fold (\<lambda>r n. max n (page_room r)) es 0 \<and>
    (0 < kalloc_capacity s \<longrightarrow> (\<exists>r \<in> set es. e_type r = 1 \<and> 1048576 \<le> unat (e_base r) \<and>
       unat (e_base r) \<le> unat (kalloc_base s) \<and>
       unat (kalloc_base s) + unat (kalloc_capacity s) \<le> unat (e_base r) + unat (e_length r)))"
proof -
  from stage2_boots [OF assms] obtain m' where m': "cstart env 0 m = Some (Inr (Far_jump 0x1200 0, m'))"
    "boot_info_get (s2_mem m') = boot_block (of_nat (length es))"
    "\<forall>i < length es. e820_at (s2_mem m') (boot_info_e820_entries (s2_mem m')) i = es ! i"
    by blast
  have es: "length es \<le> 32" "\<forall>r \<in> set es. no_wrap r"
    using assms(1) by (simp_all add: boot_ready_def no_wrap_def)
  note h = handed_over_entries [OF m'(2) es(1) m'(3)]
  from init_best_region [OF h(2), unfolded h(1), OF es(2)] m'(1) show ?thesis by blast
qed

lemma boot_to_heap_witness:
  "\<exists>m' s. cstart boot_env 0 boot_start = Some (Inr (Far_jump 0x1200 0, m')) \<and> kalloc_init (s2_mem m') = (True, s) \<and>
     unat (kalloc_capacity s) = 0x7EE0000"
proof -
  have "first_in_root boot_floppy (bytes ''KERNEL  BIN'') 0"
    by (simp add: first_in_root_def boot_floppy_boot boot_floppy_slot)
  moreover have "entry_first (vol_slot boot_floppy 0) = 2" "unat (de_Size (vol_slot boot_floppy 0)) = 600"
    "de_Attributes (vol_slot boot_floppy 0) AND FAT_ATTRIBUTE_DIRECTORY = 0"
    by (simp_all add: boot_floppy_slot entry_first_def FAT_ATTRIBUTE_DIRECTORY_def)
  moreover have "page_room low_memory = 0" "page_room e820_example = 0x7EE0000"
    by (simp_all add: page_room_def avail_def low_memory_def e820_example_def page_down_def page_up_def)
  ultimately show ?thesis
    using boot_to_heap [OF boot_start_ready, of 0 "vol_slot boot_floppy 0"] boot_floppy_chain by auto
qed

end
